(* ===== verification/Prelude.thy ===== *)
theory Prelude
  imports Main
begin

text \<open>
  The prelude of the SokoWise development: the generic material the component theories share.

  \<^item> \<open>bindR\<close>, \<open>raise_if\<close>, \<open>foldR\<close>: sequencing of code that may raise. A raising Python function is
    a function into a sum: \<open>Inl\<close> is the exception, \<open>Inr\<close> the value. A loop whose body may raise is a
    \<open>foldR\<close>; it stops at the first exception.
  \<^item> tables: a database table is the list of its rows in insertion order; \<open>SELECT\<close> is
    \<open>filter\<close>/\<open>find\<close>, \<open>UPDATE ... WHERE\<close> is \<open>update_where\<close>, \<open>SUM\<close> is \<open>total_where\<close>.
  \<^item> generic lemmas on lists used by several components.
\<close>

named_theorems result_simps "characterisations of successful and failing sequenced computations"
named_theorems table_simps "lookup, update and aggregate laws of tables"

subsection \<open>Computations that may raise\<close>

definition bindR :: "'e + 'a \<Rightarrow> ('a \<Rightarrow> 'e + 'b) \<Rightarrow> 'e + 'b" where
  "bindR m f = (case m of Inl e \<Rightarrow> Inl e | Inr x \<Rightarrow> f x)"

definition raise_if :: "bool \<Rightarrow> 'e \<Rightarrow> 'e + unit" where
  "raise_if b e = (if b then Inl e else Inr ())"

definition the_or :: "'e \<Rightarrow> 'a option \<Rightarrow> 'e + 'a" where
  "the_or e x = (case x of None \<Rightarrow> Inl e | Some y \<Rightarrow> Inr y)"

fun foldR :: "('x \<Rightarrow> 's \<Rightarrow> 'e + 's) \<Rightarrow> 'x list \<Rightarrow> 's \<Rightarrow> 'e + 's" where
  "foldR f [] s = Inr s"
| "foldR f (x # xs) s = bindR (f x s) (foldR f xs)"

fun mapR :: "('a \<Rightarrow> 'e + 'b) \<Rightarrow> 'a list \<Rightarrow> 'e + 'b list" where
  "mapR f [] = Inr []"
| "mapR f (x # xs) = bindR (f x) (\<lambda>y. bindR (mapR f xs) (\<lambda>ys. Inr (y # ys)))"

lemma bindR_simps [simp]:
  "bindR (Inl e) f = Inl e"
  "bindR (Inr x) f = f x"
  by (simp_all add: bindR_def)

lemma bindR_eq_Inr [result_simps]: "bindR m f = Inr y \<longleftrightarrow> (\<exists>x. m = Inr x \<and> f x = Inr y)"
  by (cases m) auto

lemma bindR_eq_Inl [result_simps]:
  "bindR m f = Inl e \<longleftrightarrow> m = Inl e \<or> (\<exists>x. m = Inr x \<and> f x = Inl e)"
  by (cases m) auto

lemma bindR_cong [fundef_cong]:
  "m = m' \<Longrightarrow> (\<And>x. m' = Inr x \<Longrightarrow> f x = f' x) \<Longrightarrow> bindR m f = bindR m' f'"
  by (cases m') auto

lemma raise_if_simps [simp]:
  "raise_if b e = Inr u \<longleftrightarrow> \<not> b"
  "raise_if b e = Inl e' \<longleftrightarrow> b \<and> e' = e"
  by (auto simp: raise_if_def)

lemma raise_if_eval [simp]:
  "raise_if True e = Inl e"
  "raise_if False e = Inr ()"
  by (simp_all add: raise_if_def)

lemma the_or_simps [simp]:
  "the_or e x = Inr y \<longleftrightarrow> x = Some y"
  "the_or e x = Inl e' \<longleftrightarrow> x = None \<and> e' = e"
  by (auto simp: the_or_def split: option.splits)

lemma the_or_eval [simp]:
  "the_or e None = Inl e"
  "the_or e (Some y) = Inr y"
  by (simp_all add: the_or_def)

lemma mapR_eq_Inr:
  "mapR f xs = Inr ys \<longleftrightarrow> length ys = length xs \<and> (\<forall>i < length xs. f (xs ! i) = Inr (ys ! i))"
proof (induction xs arbitrary: ys)
  case Nil
  then show ?case by auto
next
  case (Cons x xs)
  then show ?case
    by (cases ys) (auto simp: bindR_eq_Inr All_less_Suc2)
qed

text \<open>An invariant of the loop body is an invariant of the loop.\<close>

lemma foldR_invariant:
  assumes "foldR f xs s = Inr s'" and "P s"
    and "\<And>x t t'. x \<in> set xs \<Longrightarrow> P t \<Longrightarrow> f x t = Inr t' \<Longrightarrow> P t'"
  shows "P s'"
  using assms
proof (induction xs arbitrary: s)
  case Nil
  then show ?case by simp
next
  case (Cons x xs)
  then obtain t where t: "f x s = Inr t" and rest: "foldR f xs t = Inr s'"
    by (auto simp: result_simps)
  from Cons.prems(2) t have "P t" by (rule Cons.prems(3) [rotated]) simp
  with rest show ?case
    by (rule Cons.IH) (use Cons.prems(3) in auto)
qed

text \<open>A quantity every iteration moves by a known amount moves by their sum.\<close>

lemma foldR_accumulates:
  fixes g :: "'s \<Rightarrow> int"
  assumes "foldR f xs s = Inr s'"
    and "\<And>x t t'. x \<in> set xs \<Longrightarrow> f x t = Inr t' \<Longrightarrow> g t' = g t + d x"
  shows "g s' = g s + sum_list (map d xs)"
  using assms
proof (induction xs arbitrary: s)
  case Nil
  then show ?case by simp
next
  case (Cons x xs)
  then obtain t where t: "f x s = Inr t" and rest: "foldR f xs t = Inr s'"
    by (auto simp: result_simps)
  have "g s' = g t + sum_list (map d xs)"
    using rest Cons.prems(2) by (intro Cons.IH) auto
  with t Cons.prems(2) show ?case by simp
qed

lemma foldR_frame:
  assumes "foldR f xs s = Inr s'"
    and "\<And>x t t'. f x t = Inr t' \<Longrightarrow> g t' = g t"
  shows "g s' = g s"
  by (rule foldR_invariant [where P = "\<lambda>t. g t = g s", OF assms(1)]) (use assms(2) in auto)

lemma foldR_append: "foldR f (xs @ ys) s = bindR (foldR f xs s) (foldR f ys)"
proof (induction xs arbitrary: s)
  case Nil
  then show ?case by simp
next
  case (Cons x xs)
  then show ?case by (cases "f x s") simp_all
qed

subsection \<open>Tables\<close>

definition update_where :: "('r \<Rightarrow> bool) \<Rightarrow> ('r \<Rightarrow> 'r) \<Rightarrow> 'r list \<Rightarrow> 'r list" where
  "update_where P f rows = map (\<lambda>r. if P r then f r else r) rows"

definition total_where :: "('r \<Rightarrow> int) \<Rightarrow> ('r \<Rightarrow> bool) \<Rightarrow> 'r list \<Rightarrow> int" where
  "total_where v P rows = sum_list (map v (filter P rows))"

lemma update_where_simps [simp]:
  "update_where P f [] = []"
  "update_where P f (r # rs) = (if P r then f r else r) # update_where P f rs"
  "update_where P f (rs @ rs') = update_where P f rs @ update_where P f rs'"
  by (simp_all add: update_where_def)

lemma length_update_where [simp]: "length (update_where P f rows) = length rows"
  by (simp add: update_where_def)

lemma set_update_where: "set (update_where P f rows) = (\<lambda>r. if P r then f r else r) ` set rows"
  by (simp add: update_where_def)

lemma map_update_where [table_simps]:
  "(\<And>r. P r \<Longrightarrow> g (f r) = g r) \<Longrightarrow> map g (update_where P f rows) = map g rows"
  by (induction rows) auto

lemma image_update_where [table_simps]:
  "(\<And>r. P r \<Longrightarrow> g (f r) = g r) \<Longrightarrow> g ` set (update_where P f rows) = g ` set rows"
  unfolding set_update_where image_image by (rule image_cong) auto

lemma update_where_none: "(\<And>r. r \<in> set rows \<Longrightarrow> \<not> P r) \<Longrightarrow> update_where P f rows = rows"
  by (induction rows) auto

lemma total_where_simps [simp]:
  "total_where v P [] = 0"
  "total_where v P (r # rs) = (if P r then v r else 0) + total_where v P rs"
  "total_where v P (rs @ rs') = total_where v P rs + total_where v P rs'"
  by (simp_all add: total_where_def)

lemma total_where_none: "(\<And>r. r \<in> set rows \<Longrightarrow> \<not> P r) \<Longrightarrow> total_where v P rows = 0"
  by (induction rows) auto

lemma total_where_split:
  "total_where v P rows
   = total_where v (\<lambda>r. P r \<and> Q r) rows + total_where v (\<lambda>r. P r \<and> \<not> Q r) rows"
  by (induction rows) auto

lemma total_where_nonneg: "(\<And>r. r \<in> set rows \<Longrightarrow> P r \<Longrightarrow> 0 \<le> v r) \<Longrightarrow> 0 \<le> total_where v P rows"
  by (induction rows) (auto simp: add_nonneg_nonneg)

lemma find_append: "find P (xs @ ys) = (case find P xs of None \<Rightarrow> find P ys | Some x \<Rightarrow> Some x)"
  by (induction xs) auto

lemma find_SomeD: "find P xs = Some x \<Longrightarrow> P x \<and> x \<in> set xs"
  by (induction xs) (auto split: if_splits)

text \<open>
  A key lookup through an update that leaves the key alone: the first row that satisfies the
  query before is, updated, the first row that satisfies it afterwards.
\<close>

lemma find_update_where:
  assumes "\<And>r. Q (if P r then f r else r) = Q r"
  shows "find Q (update_where P f rows)
    = map_option (\<lambda>r. if P r then f r else r) (find Q rows)"
proof (induction rows)
  case Nil
  show ?case by simp
next
  case (Cons r rows)
  then show ?case using assms [of r] by auto
qed

text \<open>Replacing the row with a key.\<close>

lemma find_update_key:
  assumes "find P rows = Some m" and "P m'" and "distinct (map i rows)" and "i m = x"
  shows "find P (update_where (\<lambda>r. i r = x) (\<lambda>_. m') rows) = Some m'"
  using assms by (induction rows) (auto dest: find_SomeD split: if_splits)

lemma filter_update_where:
  assumes "\<And>r. Q (if P r then f r else r) = Q r"
  shows "filter Q (update_where P f rows) = update_where P f (filter Q rows)"
proof (induction rows)
  case Nil
  show ?case by simp
next
  case (Cons r rows)
  then show ?case using assms [of r] by auto
qed

lemma find_unique:
  assumes "distinct (map k rows)" and "r \<in> set rows" and "P r"
    and "\<And>r'. P r' \<Longrightarrow> k r' = k r"
  shows "find P rows = Some r"
  using assms
proof (induction rows)
  case Nil
  then show ?case by simp
next
  case (Cons s rows)
  show ?case
  proof (cases "P s")
    case True
    then have "k s = k r" by (rule Cons.prems(4))
    with Cons.prems(1,2) have "s = r" by (auto simp: image_iff)
    with True show ?thesis by simp
  next
    case False
    with Cons.prems(2,3) have "r \<in> set rows" by auto
    moreover have "distinct (map k rows)" using Cons.prems(1) by simp
    ultimately have "find P rows = Some r" using Cons.prems(3,4) by (intro Cons.IH)
    with False show ?thesis by simp
  qed
qed

subsection \<open>Unique columns\<close>

text \<open>A partial unique index: rows whose key is \<open>None\<close> are not constrained.\<close>

definition key_unique :: "('r \<Rightarrow> 'k option) \<Rightarrow> 'r list \<Rightarrow> bool" where
  "key_unique k rows \<longleftrightarrow> distinct (filter (\<lambda>x. x \<noteq> None) (map k rows))"

lemma key_unique_simps [simp]:
  "key_unique k []"
  "key_unique k (r # rs) \<longleftrightarrow> (k r = None \<or> k r \<notin> k ` set rs) \<and> key_unique k rs"
  "key_unique k (rs @ [r]) \<longleftrightarrow> key_unique k rs \<and> (k r = None \<or> k r \<notin> k ` set rs)"
  by (auto simp: key_unique_def)

lemma key_unique_cong: "map k rows' = map k rows \<Longrightarrow> key_unique k rows' = key_unique k rows"
  by (simp add: key_unique_def)

lemma key_unique_update_same:
  assumes "\<And>r. r \<in> set rows \<Longrightarrow> P r \<Longrightarrow> k (f r) = k r"
  shows "key_unique k (update_where P f rows) = key_unique k rows"
proof (rule key_unique_cong)
  show "map k (update_where P f rows) = map k rows"
    using assms by (simp add: update_where_def)
qed

lemma key_uniqueD:
  assumes "key_unique k rows" and "x \<in> set rows" and "y \<in> set rows" and "k x = k y" and "k x \<noteq> None"
  shows "x = y"
  using assms
proof (induction rows)
  case Nil
  then show ?case by simp
next
  case (Cons r rows)
  then show ?case by (cases "x = r"; cases "y = r") (auto simp: image_iff)
qed

text \<open>Taking values away keeps a key unique.\<close>

lemma key_unique_update_none:
  assumes "key_unique k rows" and "\<And>r. r \<in> set rows \<Longrightarrow> P r \<Longrightarrow> k (f r) = None"
  shows "key_unique k (update_where P f rows)"
  using assms
proof (induction rows)
  case Nil
  show ?case by simp
next
  case (Cons r rows)
  then have IH: "key_unique k (update_where P f rows)" by simp
  have sub: "k y = None \<or> k y \<in> k ` set rows" if "y \<in> set (update_where P f rows)" for y
    using that Cons.prems(2) by (auto simp: set_update_where split: if_splits)
  show ?case
  proof (cases "P r")
    case True
    with IH Cons.prems(2) [of r] show ?thesis by simp
  next
    case False
    have "k r = None \<or> k r \<notin> k ` set (update_where P f rows)"
      using Cons.prems(1) sub by (metis imageE key_unique_simps(2))
    with IH False show ?thesis by simp
  qed
qed

text \<open>Giving one row a value no row has keeps a key unique.\<close>

lemma filter_singleton_eq: "filter P rows = [m] \<Longrightarrow> x \<in> set rows \<Longrightarrow> P x \<Longrightarrow> x = m"
proof -
  assume one: "filter P rows = [m]" and x: "x \<in> set rows" "P x"
  from x have "x \<in> set (filter P rows)" by simp
  with one show "x = m" by simp
qed

lemma key_unique_update_fresh:
  assumes "key_unique k rows" and "filter P rows = [m]" and "k (f m) \<notin> k ` set rows"
  shows "key_unique k (update_where P f rows)"
  using assms
proof (induction rows)
  case Nil
  then show ?case by simp
next
  case (Cons r rows)
  show ?case
  proof (cases "P r")
    case True
    with Cons.prems(2) have m: "r = m" "filter P rows = []" by auto
    then have "update_where P f rows = rows"
      by (intro update_where_none) (auto simp: filter_empty_conv)
    with True m Cons.prems show ?thesis by auto
  next
    case False
    with Cons.prems have only: "filter P rows = [m]" and "key_unique k rows" "k (f m) \<notin> k ` set rows"
      by auto
    then have "key_unique k (update_where P f rows)" by (intro Cons.IH)
    moreover have "k r = None \<or> k r \<notin> k ` set (update_where P f rows)"
      using filter_singleton_eq [OF only] Cons.prems(1,3) False
      by (auto simp: set_update_where image_iff)
    ultimately show ?thesis using False by simp
  qed
qed

lemma key_unique_update_one:
  assumes "key_unique k rows" and "distinct (map i rows)"
    and "\<And>r. r \<in> set rows \<Longrightarrow> i r \<noteq> x \<Longrightarrow> k v = None \<or> k r \<noteq> k v"
  shows "key_unique k (update_where (\<lambda>r. i r = x) (\<lambda>_. v) rows)"
  using assms
proof (induction rows)
  case Nil
  show ?case by simp
next
  case (Cons r rows)
  then have IH: "key_unique k (update_where (\<lambda>r. i r = x) (\<lambda>_. v) rows)" by simp
  show ?case
  proof (cases "i r = x")
    case True
    with Cons.prems(2) have "update_where (\<lambda>r. i r = x) (\<lambda>_. v) rows = rows"
      by (intro update_where_none) (metis distinct.simps(2) imageI list.simps(9) set_map)
    moreover have "k v = None \<or> k v \<notin> k ` set rows"
      using Cons.prems(2,3) True by (metis (no_types, lifting) distinct.simps(2) imageE image_eqI list.map(2)
          list.set_intros(2) list.set_map)
    ultimately show ?thesis using True Cons.prems(1) by simp
  next
    case False
    have "k r = None \<or> k r \<notin> k ` set (update_where (\<lambda>r. i r = x) (\<lambda>_. v) rows)"
      using Cons.prems(1,3) False by (auto simp: set_update_where image_iff split: if_splits)
    with IH False show ?thesis by simp
  qed
qed

lemma key_unique_Some: "key_unique (\<lambda>r. Some (k r)) rows \<longleftrightarrow> distinct (map k rows)"
  by (induction rows) (auto simp: image_iff)

lemma distinct_mapD: "distinct (map f xs) \<Longrightarrow> x \<in> set xs \<Longrightarrow> y \<in> set xs \<Longrightarrow> f x = f y \<Longrightarrow> x = y"
  by (simp add: distinct_map inj_on_def)

text \<open>Replacing the row with a given key by one with the same key.\<close>

lemma map_update_one [simp]: "map i (update_where (\<lambda>r. i r = i v) (\<lambda>_. v) rows) = map i rows"
  by (induction rows) auto

lemma image_update_one [simp]: "i ` set (update_where (\<lambda>r. i r = i v) (\<lambda>_. v) rows) = i ` set rows"
  by (metis list.set_map map_update_one)

subsection \<open>Text\<close>

text \<open>Text is ASCII. \<open>py_strip\<close>, \<open>py_upper\<close>, \<open>py_lower\<close> are the string methods, \<open>sql_trim\<close> the SQL
  function, which removes blanks only.\<close>

definition truthy :: "string option \<Rightarrow> bool" where
  "truthy x = (case x of None \<Rightarrow> False | Some t \<Rightarrow> t \<noteq> [])"

definition is_space :: "char \<Rightarrow> bool" where
  "is_space c \<longleftrightarrow> of_char c \<in> {9, 10, 11, 12, 13, 28, 29, 30, 31, 32 :: int}"

definition py_strip :: "string \<Rightarrow> string" where
  "py_strip x = rev (dropWhile is_space (rev (dropWhile is_space x)))"

definition sql_trim :: "string \<Rightarrow> string" where
  "sql_trim x = rev (dropWhile (\<lambda>c. c = CHR '' '') (rev (dropWhile (\<lambda>c. c = CHR '' '') x)))"

definition upper_char :: "char \<Rightarrow> char" where
  "upper_char c = (let n = of_char c :: int in if 97 \<le> n \<and> n \<le> 122 then char_of (n - 32) else c)"

definition lower_char :: "char \<Rightarrow> char" where
  "lower_char c = (let n = of_char c :: int in if 65 \<le> n \<and> n \<le> 90 then char_of (n + 32) else c)"

definition py_upper :: "string \<Rightarrow> string" where
  "py_upper = map upper_char"

definition py_lower :: "string \<Rightarrow> string" where
  "py_lower = map lower_char"

subsection \<open>Lists\<close>

lemma sum_list_map_update:
  fixes f :: "'a \<Rightarrow> int"
  assumes "i < length xs"
  shows "sum_list (map f (xs[i := y])) = sum_list (map f xs) - f (xs ! i) + f y"
  using assms
proof (induction xs arbitrary: i)
  case Nil
  then show ?case by simp
next
  case (Cons x xs)
  then show ?case by (cases i) auto
qed

lemma sum_list_le:
  fixes f g :: "'a \<Rightarrow> 'b :: ordered_comm_monoid_add"
  shows "(\<And>x. x \<in> set xs \<Longrightarrow> f x \<le> g x) \<Longrightarrow> sum_list (map f xs) \<le> sum_list (map g xs)"
  by (rule sum_list_mono)

end
