(* ===== verification/Errors.thy ===== *)
theory Errors
  imports Prelude
begin

text \<open>
  The exceptions of the backend as values (\<open>app/core/errors.py\<close> and the error classes the services
  derive from it). An \<open>AppError\<close> carries the HTTP status and the stable machine-readable code of its
  class; messages and detail payloads are not modelled. The remaining constructors are the Python
  and database exceptions the services can meet: \<open>IntegrityError\<close> names the violated constraint,
  as the services read it from the driver's message, and \<open>DataError\<close> is a value that does not fit its
  \<open>NUMERIC\<close> column.
\<close>

datatype db_constraint =
    uq_sales_business_id_idempotency_key
  | uq_credit_transactions_business_id_idempotency_key
  | uq_products_business_id_lower_name_active
  | uq_products_business_id_sku
  | uq_products_business_id_barcode
  | uq_categories_business_id_lower_name
  | uq_customers_business_id_phone
  | uq_mpesa_messages_business_id_code
  | uq_users_phone | uq_users_email | uq_users_google_sub
  | uq_business_memberships_business_id_user_id
  | uq_refresh_tokens_token_hash
  | check_violated

datatype error =
    AppError nat string
  | ValueError
  | RuntimeError
  | AssertionError
  | KeyError
  | TypeError
  | IndexError
  | OSError
  | StorageError
  | OverflowError
  | IntegrityError db_constraint
  | DataError
  | DuplicateAfterLockError

abbreviation NotFoundError :: error where "NotFoundError \<equiv> AppError 404 ''NOT_FOUND''"
abbreviation ConflictError :: "string \<Rightarrow> error" where "ConflictError c \<equiv> AppError 409 c"
abbreviation PermissionDeniedError :: "string \<Rightarrow> error" where
  "PermissionDeniedError c \<equiv> AppError 403 c"
abbreviation UnauthorizedError :: "string \<Rightarrow> error" where
  "UnauthorizedError c \<equiv> AppError 401 c"
abbreviation UnprocessableError :: "string \<Rightarrow> error" where
  "UnprocessableError c \<equiv> AppError 422 c"

type_synonym 'a result = "error + 'a"

end
