(* ===== verification/Money.thy ===== *)
theory Money
  imports Errors Complex_Main "HOL-Library.Product_Lexorder" "HOL-Library.Multiset"
begin

text \<open>
  Money arithmetic (\<open>app/services/money.py\<close>) over Python's \<open>Decimal\<close>.

  An amount stored in a \<open>NUMERIC(14,2)\<close> column is the integer number of its cents, a quantity stored in
  a \<open>NUMERIC(12,3)\<close> column the integer number of its thousandths; \<open>cents\<close> and \<open>millis\<close> read them as the
  numbers they stand for. Intermediate \<open>Decimal\<close> values are rationals. \<open>ctx28\<close> is the rounding of the
  default decimal context (28 significant digits, half to even), which the code meets in the product
  and the quotient of \<open>allocate_discount\<close>: both can have more digits than the context keeps. All
  other sums and products of the program stay far below 28 digits and are exact.
\<close>

type_synonym money = int
type_synonym quantity = int

definition cents :: "money \<Rightarrow> rat" where
  "cents c = of_int c / 100"

definition millis :: "quantity \<Rightarrow> rat" where
  "millis q = of_int q / 1000"

subsection \<open>Rounding\<close>

definition round_half_even :: "rat \<Rightarrow> int" where
  "round_half_even x =
     (let f = \<lfloor>x\<rfloor>; r = x - of_int f
      in if r < 1 / 2 then f else if r > 1 / 2 then f + 1 else if even f then f else f + 1)"

definition round_half_up :: "rat \<Rightarrow> int" where
  "round_half_up x = (if 0 \<le> x then \<lfloor>x + 1 / 2\<rfloor> else - \<lfloor>- x + 1 / 2\<rfloor>)"

definition round_down :: "rat \<Rightarrow> int" where
  "round_down x = (if 0 \<le> x then \<lfloor>x\<rfloor> else - \<lfloor>- x\<rfloor>)"

text \<open>\<open>value.quantize(CENT, rounding=ROUND_HALF_UP)\<close> and the default \<open>value.quantize(CENT)\<close>, in cents.\<close>

definition round_money :: "rat \<Rightarrow> money" where
  "round_money v = round_half_up (v * 100)"

definition quantize_cent :: "rat \<Rightarrow> money" where
  "quantize_cent v = round_half_even (v * 100)"

definition line_total :: "quantity \<Rightarrow> money \<Rightarrow> money" where
  "line_total q unit_price = round_money (millis q * cents unit_price)"

text \<open>\<open>round_money(sum(amounts, Decimal("0")))\<close>.\<close>

definition money_sum :: "money list \<Rightarrow> money" where
  "money_sum xs = round_money (sum_list (map cents xs))"

subsection \<open>The decimal context\<close>

fun ndigits :: "nat \<Rightarrow> nat" where
  "ndigits n = (if n < 10 then 1 else Suc (ndigits (n div 10)))"

declare ndigits.simps [simp del]

definition pow10 :: "int \<Rightarrow> rat" where
  "pow10 e = (if 0 \<le> e then 10 ^ nat e else 1 / 10 ^ nat (- e))"

text \<open>The scale at which a positive number has exactly 28 digits before the point.\<close>

definition sig_exp :: "rat \<Rightarrow> int" where
  "sig_exp x =
     (let (n, d) = quotient_of x;
          s = int (ndigits (nat d)) + 28 - int (ndigits (nat n))
      in if pow10 28 \<le> x * pow10 s then s - 1 else s)"

definition ctx28 :: "rat \<Rightarrow> rat" where
  "ctx28 x =
     (if x = 0 then 0
      else let e = sig_exp \<bar>x\<bar> in sgn x * of_int (round_half_even (\<bar>x\<bar> * pow10 e)) / pow10 e)"

subsection \<open>Discount allocation\<close>

text \<open>Python's slice \<open>xs[:k]\<close>.\<close>

definition py_prefix :: "int \<Rightarrow> 'a list \<Rightarrow> 'a list" where
  "py_prefix k xs = (if 0 \<le> k then take (nat k) xs else take (length xs - nat (- k)) xs)"

text \<open>
  The shares are kept in cents: a significant-digit rounding commutes with the factor 100. \<open>exact\<close>,
  \<open>floors\<close>, \<open>leftover_cents\<close> and \<open>by_remainder\<close> are the local variables of the source.
\<close>

definition exact_share :: "money \<Rightarrow> money \<Rightarrow> money \<Rightarrow> rat" where
  "exact_share discount subtotal t = ctx28 (ctx28 (of_int (discount * t)) / of_int subtotal)"

definition remainder_order :: "rat list \<Rightarrow> int list \<Rightarrow> nat list" where
  "remainder_order exact floors =
     map snd (sort (map (\<lambda>i. (- (exact ! i - of_int (floors ! i)), i)) [0..<length exact]))"

definition add_cent :: "int list \<Rightarrow> nat list \<Rightarrow> int list" where
  "add_cent floors is = fold (\<lambda>i xs. xs[i := xs ! i + 1]) is floors"

definition allocate_discount :: "money \<Rightarrow> money list \<Rightarrow> money list result" where
  "allocate_discount discount line_totals =
     (if line_totals = [] then Inr []
      else let subtotal = sum_list line_totals
      in if discount = 0 \<or> subtotal = 0 then Inr (map (\<lambda>_. 0) line_totals)
      else if discount > subtotal then Inl ValueError
      else let exact = map (exact_share discount subtotal) line_totals;
               floors = map round_down exact;
               leftover_cents = discount - sum_list floors;
               by_remainder = remainder_order exact floors
           in Inr (add_cent floors (py_prefix leftover_cents by_remainder)))"

subsection \<open>Laws of the roundings\<close>

lemma round_half_even_error: "\<bar>of_int (round_half_even x) - x\<bar> \<le> 1 / 2"
proof -
  have "of_int \<lfloor>x\<rfloor> \<le> x" "x < of_int \<lfloor>x\<rfloor> + 1"
    by linarith+
  then show ?thesis
    by (simp add: round_half_even_def Let_def abs_le_iff)
qed

lemma round_half_even_of_int [simp]: "round_half_even (of_int n) = n"
  by (simp add: round_half_even_def)

lemma round_half_up_of_int [simp]: "round_half_up (of_int n) = n"
proof (cases "0 \<le> n")
  case True
  have "\<lfloor>of_int n + 1 / 2 :: rat\<rfloor> = n" by (rule floor_unique) simp_all
  with True show ?thesis by (simp add: round_half_up_def)
next
  case False
  have "\<lfloor>- (of_int n :: rat) + 1 / 2\<rfloor> = \<lfloor>of_int (- n) + 1 / 2 :: rat\<rfloor>" by simp
  also have "\<dots> = - n" by (rule floor_unique) simp_all
  finally show ?thesis using False by (simp add: round_half_up_def)
qed

lemma round_money_cents [simp]: "round_money (cents c) = c"
  by (simp add: round_money_def cents_def)

lemma quantize_cent_cents [simp]: "quantize_cent (cents c) = c"
  by (simp add: quantize_cent_def cents_def)

lemma cents_add: "cents (a + b) = cents a + cents b"
  by (simp add: cents_def add_divide_distrib)

lemma money_sum_eq [simp]: "money_sum xs = sum_list xs"
proof -
  have "sum_list (map cents xs) = cents (sum_list xs)"
    by (induction xs) (simp_all add: cents_add, simp add: cents_def)
  then show ?thesis by (simp add: money_sum_def)
qed

subsection \<open>Laws of the decimal context\<close>

lemma pow10_pos [simp]: "0 < pow10 e"
  by (simp add: pow10_def)

lemma pow10_neq_0 [simp]: "pow10 e \<noteq> 0"
  using pow10_pos [of e] by linarith

lemma pow10_nonneg: "0 \<le> e \<Longrightarrow> pow10 e = 10 ^ nat e"
  by (simp add: pow10_def)

lemma pow10_powi: "pow10 e = 10 powi e"
  by (simp add: pow10_def power_int_def inverse_eq_divide power_divide)

lemma pow10_add: "pow10 (a + b) = pow10 a * pow10 b"
  by (simp add: pow10_powi power_int_add)

lemma pow10_less_iff [simp]: "pow10 a < pow10 b \<longleftrightarrow> a < b"
proof -
  have "a < b \<Longrightarrow> pow10 a < pow10 b" for a b
    by (simp add: pow10_powi power_int_strict_increasing)
  then show ?thesis by (metis linorder_neqE order_less_asym)
qed

lemma pow10_le_iff [simp]: "pow10 a \<le> pow10 b \<longleftrightarrow> a \<le> b"
  by (simp add: linorder_not_less [symmetric])

lemma pow10_1: "pow10 1 = 10"
  by (simp add: pow10_def)

lemma pow10_pred: "pow10 e = 10 * pow10 (e - 1)"
  using pow10_add [of "e - 1" 1] by (simp add: pow10_1)

lemma ndigits_Suc: "\<exists>m. ndigits n = Suc m"
  by (subst ndigits.simps) auto

lemma ndigits_bounds: "0 < n \<Longrightarrow> 10 ^ (ndigits n - 1) \<le> n \<and> n < 10 ^ ndigits n"
proof (induction n rule: ndigits.induct)
  case (1 n)
  show ?case
  proof (cases "n < 10")
    case True
    with "1.prems" show ?thesis by (simp add: ndigits.simps [of n])
  next
    case False
    then have pos: "0 < n div 10" by (simp add: div_greater_zero_iff)
    with False "1.IH" have IH: "10 ^ (ndigits (n div 10) - 1) \<le> n div 10"
      "n div 10 < 10 ^ ndigits (n div 10)" by auto
    obtain m where m: "ndigits (n div 10) = Suc m"
      using ndigits_Suc by blast
    from IH m have "10 * 10 ^ m \<le> n" "n < 10 * 10 ^ Suc m"
      by auto
    with False m show ?thesis by (simp add: ndigits.simps [of n])
  qed
qed

lemma ndigits_bounds_rat:
  assumes "0 < n"
  shows "pow10 (int (ndigits (nat n)) - 1) \<le> of_int n" and "of_int n < pow10 (int (ndigits (nat n)))"
proof -
  obtain m where m: "ndigits (nat n) = Suc m"
    using ndigits_Suc by blast
  have b: "10 ^ m \<le> nat n" "nat n < 10 ^ Suc m"
    using ndigits_bounds [of "nat n"] assms m by simp_all
  from b(1) have "(of_nat (10 ^ m) :: rat) \<le> of_nat (nat n)" by (simp only: of_nat_le_iff)
  then show "pow10 (int (ndigits (nat n)) - 1) \<le> of_int n"
    using m assms by (simp add: pow10_def)
  from b(2) have "(of_nat (nat n) :: rat) < of_nat (10 ^ Suc m)" by (simp only: of_nat_less_iff)
  then show "of_int n < pow10 (int (ndigits (nat n)))"
    using m assms by (simp add: pow10_def nat_add_distrib)
qed

text \<open>Scaled by \<open>sig_exp\<close>, a positive number has exactly 28 digits before the point.\<close>

lemma sig_exp_bounds:
  assumes "0 < x"
  shows "pow10 27 \<le> x * pow10 (sig_exp x)" and "x * pow10 (sig_exp x) < pow10 28"
proof -
  obtain n d where q: "quotient_of x = (n, d)" by (cases "quotient_of x")
  have d: "0 < d" and x: "x = of_int n / of_int d"
    using q by (auto simp: quotient_of_denom_pos quotient_of_div)
  with assms have n: "0 < n" by (simp add: zero_less_divide_iff)
  let ?a = "int (ndigits (nat n))" and ?b = "int (ndigits (nat d))"
  let ?s = "?b + 28 - ?a"
  have e: "sig_exp x = (if pow10 28 \<le> x * pow10 ?s then ?s - 1 else ?s)"
    using q by (simp add: sig_exp_def)
  have nb: "pow10 (?a - 1) \<le> of_int n" "of_int n < pow10 ?a"
    and db: "pow10 (?b - 1) \<le> of_int d" "of_int d < pow10 ?b"
    using ndigits_bounds_rat [OF n] ndigits_bounds_rat [OF d] by auto
  have "pow10 27 * of_int d \<le> pow10 27 * pow10 ?b" using db(2) by simp
  also have "\<dots> = pow10 (?a - 1) * pow10 ?s" by (simp flip: pow10_add)
  also have "\<dots> \<le> of_int n * pow10 ?s" using nb(1) by simp
  finally have lo: "pow10 27 \<le> x * pow10 ?s"
    unfolding x using d by (simp add: field_simps)
  have "of_int n * pow10 ?s < pow10 ?a * pow10 ?s" using nb(2) by simp
  also have "\<dots> = pow10 29 * pow10 (?b - 1)" by (simp add: add.commute flip: pow10_add)
  also have "\<dots> \<le> pow10 29 * of_int d" using db(1) by simp
  finally have hi: "x * pow10 ?s < pow10 29"
    unfolding x using d by (simp add: field_simps)
  have "x * pow10 ?s = 10 * (x * pow10 (?s - 1))"
    by (subst pow10_pred) (simp only: mult.left_commute)
  moreover have "pow10 29 = 10 * pow10 28" "pow10 28 = 10 * pow10 27"
    using pow10_add [of 28 1] pow10_add [of 27 1] by (simp_all add: pow10_1)
  ultimately show "pow10 27 \<le> x * pow10 (sig_exp x)" "x * pow10 (sig_exp x) < pow10 28"
    using e lo hi by auto
qed

lemma sig_exp_unique:
  assumes "0 < x" "pow10 27 \<le> x * pow10 e" "x * pow10 e < pow10 28"
  shows "sig_exp x = e"
proof -
  have step: "\<not> (a < b \<and> pow10 27 \<le> x * pow10 a \<and> x * pow10 b < pow10 28)" for a b
  proof
    assume h: "a < b \<and> pow10 27 \<le> x * pow10 a \<and> x * pow10 b < pow10 28"
    then have "x * pow10 (a + 1) \<le> x * pow10 b" using assms(1) by simp
    moreover have "x * pow10 (a + 1) = 10 * (x * pow10 a)" by (simp add: pow10_add pow10_1)
    moreover have "pow10 28 = 10 * pow10 27"
      using pow10_add [of 27 1] by (simp add: pow10_1)
    ultimately show False using h by linarith
  qed
  show ?thesis
    using step [of e "sig_exp x"] step [of "sig_exp x" e] assms sig_exp_bounds [OF assms(1)]
    by (metis linorder_neqE)
qed

lemma ctx28_pos:
  assumes "0 < x"
  shows "ctx28 x = of_int (round_half_even (x * pow10 (sig_exp x))) / pow10 (sig_exp x)"
  using assms by (simp add: ctx28_def Let_def)

lemma ctx28_zero [simp]: "ctx28 0 = 0"
  by (simp add: ctx28_def)

lemma ctx28_error:
  assumes "0 < x"
  shows "\<bar>ctx28 x - x\<bar> * pow10 (sig_exp x) \<le> 1 / 2"
proof -
  let ?p = "pow10 (sig_exp x)"
  have p: "0 < ?p" by simp
  then have "\<bar>ctx28 x - x\<bar> * ?p = \<bar>ctx28 x * ?p - x * ?p\<bar>"
    by (metis abs_mult abs_of_pos left_diff_distrib)
  also have "ctx28 x * ?p = of_int (round_half_even (x * ?p))"
    using assms p by (simp add: ctx28_pos)
  finally show ?thesis using round_half_even_error by metis
qed

text \<open>A number whose digits fit the context is not changed by it.\<close>

lemma sig_exp_large:
  assumes "0 < x" "x < pow10 k"
  shows "27 - k < sig_exp x"
proof -
  have "pow10 27 \<le> x * pow10 (sig_exp x)" using assms(1) by (rule sig_exp_bounds)
  also have "\<dots> < pow10 k * pow10 (sig_exp x)" using assms by simp
  finally have "pow10 27 < pow10 (k + sig_exp x)" by (simp add: pow10_add)
  then show ?thesis by simp
qed

lemma ctx28_exact:
  assumes "0 < x" "x * pow10 (sig_exp x) = of_int m"
  shows "ctx28 x = x"
  using assms pow10_pos [of "sig_exp x"]
  by (metis ctx28_pos nonzero_mult_div_cancel_right order_less_irrefl round_half_even_of_int)

lemma ctx28_of_int:
  assumes "0 \<le> n" "of_int n < pow10 28"
  shows "ctx28 (of_int n) = of_int n"
proof (cases "n = 0")
  case False
  with assms have n: "(0::rat) < of_int n" by simp
  with assms have "- 1 < sig_exp (of_int n)" using sig_exp_large [of "of_int n" 28] by simp
  then have "of_int n * pow10 (sig_exp (of_int n)) = of_int (n * 10 ^ nat (sig_exp (of_int n)))"
    by (simp add: pow10_nonneg)
  with n show ?thesis by (rule ctx28_exact)
qed simp

subsection \<open>The shares of a discount\<close>

text \<open>
  For amounts that fit \<open>NUMERIC(14,2)\<close> the 28-digit share has the integer part of the exact share,
  and a positive remainder exactly when the exact share has one.
\<close>

lemma exact_share_range:
  assumes D: "0 < D" "D \<le> S" and S: "of_int S < pow10 14" and t: "0 \<le> t" "t \<le> S"
  shows "\<lfloor>exact_share D S t\<rfloor> = D * t div S"
    and "of_int (D * t div S) \<le> exact_share D S t"
    and "of_int (D * t div S) < exact_share D S t \<longleftrightarrow> D * t mod S \<noteq> 0"
proof -
  let ?n = "D * t div S" and ?k = "D * t mod S" and ?x = "of_int (D * t) / of_int S :: rat"
  have S0: "0 < S" using D by simp
  have prod: "ctx28 (of_int (D * t)) = of_int (D * t)"
  proof (rule ctx28_of_int)
    have "D * t \<le> S * S" using D t S0 by (intro mult_mono) auto
    then have "(of_int (D * t) :: rat) \<le> of_int S * of_int S" by (simp flip: of_int_mult)
    also have "\<dots> < pow10 14 * pow10 14" using S S0 by (intro mult_strict_mono) auto
    finally show "(of_int (D * t) :: rat) < pow10 28" by (simp flip: pow10_add)
  qed (use D t in simp)
  have sh: "exact_share D S t = ctx28 ?x" by (simp only: exact_share_def prod)
  have x: "?x = of_int ?n + of_int ?k / of_int S"
    using S0 by (simp add: field_simps flip: of_int_mult of_int_add)
  have k: "0 \<le> ?k" "?k < S" using S0 by simp_all
  have goal: "of_int ?n \<le> exact_share D S t \<and> exact_share D S t < of_int ?n + 1
      \<and> (of_int ?n < exact_share D S t \<longleftrightarrow> ?k \<noteq> 0)"
  proof (cases "D * t = 0")
    case True
    then show ?thesis by (simp only: sh True) simp
  next
    case False
    with D t have "0 < D * t" by simp
    then have "(0 :: rat) < of_int (D * t)" by (simp only: of_int_0_less_iff)
    with S0 have x0: "0 < ?x" by (intro divide_pos_pos) auto
    have "D * t \<le> S * t" using D t by (intro mult_right_mono) auto
    then have "?x \<le> of_int t" using S0 by (simp add: field_simps flip: of_int_mult)
    also have "\<dots> \<le> of_int S" using t by simp
    finally have "?x < pow10 14" using S by linarith
    with x0 have e: "13 < sig_exp ?x" using sig_exp_large [of ?x 14] by simp
    show ?thesis
    proof (cases "?k = 0")
      case True
      with x have xn: "?x = of_int ?n" by simp
      have "?x * pow10 (sig_exp ?x) = of_int (?n * 10 ^ nat (sig_exp ?x))"
        using e by (subst (1) xn) (simp add: pow10_nonneg)
      with x0 have "ctx28 ?x = ?x" by (rule ctx28_exact)
      with True xn show ?thesis by (simp add: sh)
    next
      case False
      let ?p = "pow10 (sig_exp ?x)"
      have p: "pow10 14 \<le> ?p" using e by simp
      have "\<bar>ctx28 ?x - ?x\<bar> * pow10 14 \<le> \<bar>ctx28 ?x - ?x\<bar> * ?p"
        using p by (intro mult_left_mono) auto
      also have "\<dots> \<le> 1 / 2" using x0 by (rule ctx28_error)
      finally have err: "\<bar>ctx28 ?x - ?x\<bar> * pow10 14 \<le> 1 / 2" .
      have "of_int S * \<bar>ctx28 ?x - ?x\<bar> \<le> pow10 14 * \<bar>ctx28 ?x - ?x\<bar>"
        using S by (intro mult_right_mono) auto
      with err have err': "of_int S * \<bar>ctx28 ?x - ?x\<bar> \<le> 1 / 2"
        by (simp add: mult.commute)
      have c: "1 \<le> ?k" "?k \<le> S - 1" using False k by linarith+
      have lo: "of_int ?n + 1 / of_int S \<le> ?x" and hi: "?x \<le> of_int ?n + 1 - 1 / of_int S"
      proof -
        have "(1 :: rat) \<le> of_int ?k" "of_int ?k \<le> (of_int S - 1 :: rat)"
          using c by (metis of_int_1 of_int_diff of_int_le_iff)+
        then have "(1 :: rat) / of_int S \<le> of_int ?k / of_int S"
          "of_int ?k / of_int S \<le> (of_int S - 1) / (of_int S :: rat)"
          using S0 by (simp_all only: divide_right_mono of_int_0_le_iff less_imp_le)
        moreover have "(of_int S - 1) / (of_int S :: rat) = 1 - 1 / of_int S"
          using S0 by (simp add: field_simps)
        ultimately show "of_int ?n + 1 / of_int S \<le> ?x" "?x \<le> of_int ?n + 1 - 1 / of_int S"
          using x by linarith+
      qed
      have "\<bar>ctx28 ?x - ?x\<bar> \<le> 1 / 2 / of_int S"
        using err' S0 by (simp add: field_simps)
      moreover have "(1 :: rat) / 2 / of_int S < 1 / of_int S" using S0 by (simp add: field_simps)
      ultimately have d: "\<bar>ctx28 ?x - ?x\<bar> < 1 / of_int S" by linarith
      have "of_int ?n < ctx28 ?x" "ctx28 ?x < of_int ?n + 1"
        using lo hi d by linarith+
      with False show ?thesis by (simp add: sh)
    qed
  qed
  then show "\<lfloor>exact_share D S t\<rfloor> = D * t div S" by (intro floor_unique) auto
  from goal show "of_int ?n \<le> exact_share D S t" "of_int ?n < exact_share D S t \<longleftrightarrow> ?k \<noteq> 0"
    by auto
qed

lemma add_cent_length [simp]: "length (add_cent xs is) = length xs"
  unfolding add_cent_def by (induction "is" arbitrary: xs) simp_all

lemma add_cent_nth:
  "distinct is \<Longrightarrow> j < length xs \<Longrightarrow> add_cent xs is ! j = xs ! j + (if j \<in> set is then 1 else 0)"
  unfolding add_cent_def
proof (induction "is" arbitrary: xs)
  case Nil
  then show ?case by simp
next
  case (Cons i "is")
  have "fold (\<lambda>i xs. xs[i := xs ! i + 1]) (i # is) xs ! j
      = xs[i := xs ! i + 1] ! j + (if j \<in> set is then 1 else 0)"
    using Cons.prems by (simp add: Cons.IH)
  with Cons.prems show ?case by (cases "i = j") (auto simp: nth_list_update)
qed

lemma add_cent_sum:
  "(\<And>i. i \<in> set is \<Longrightarrow> i < length xs) \<Longrightarrow>
    sum_list (add_cent xs is) = sum_list xs + int (length is)"
  unfolding add_cent_def
proof (induction "is" arbitrary: xs)
  case Nil
  then show ?case by simp
next
  case (Cons i "is")
  then show ?case using sum_list_map_update [of i xs "\<lambda>x. x" "xs ! i + 1"] by simp
qed

text \<open>A prefix of a sorted list that is no longer than a downward closed part lies in that part.\<close>

lemma sorted_take_filter:
  fixes xs :: "'a :: linorder list"
  assumes "sorted xs" "\<And>x y. x \<le> y \<Longrightarrow> P y \<Longrightarrow> P x" "k \<le> length (filter P xs)"
    and "x \<in> set (take k xs)"
  shows "P x"
  using assms(1,3,4)
proof (induction xs arbitrary: k)
  case Nil
  then show ?case by simp
next
  case (Cons y xs)
  show ?case
  proof (cases k)
    case 0
    with Cons.prems show ?thesis by simp
  next
    case (Suc k')
    show ?thesis
    proof (cases "P y")
      case True
      with Suc Cons show ?thesis by auto
    next
      case False
      have "\<not> P z" if "z \<in> set (y # xs)" for z
        using that Cons.prems(1) False assms(2) [of y z] by auto
      then have "filter P (y # xs) = []" by (simp add: filter_empty_conv)
      with Suc Cons.prems(2) show ?thesis by simp
    qed
  qed
qed

lemma remainder_order_mset: "mset (remainder_order exact floors) = mset [0..<length exact]"
  unfolding remainder_order_def by (simp add: comp_def image_mset.compositionality)

lemma remainder_order_set [simp]: "set (remainder_order exact floors) = {..<length exact}"
  using remainder_order_mset [of exact floors] by (metis atLeast_upt mset_eq_setD)

lemma remainder_order_distinct [simp]: "distinct (remainder_order exact floors)"
  using remainder_order_mset [of exact floors] by (metis distinct_upt mset_eq_imp_distinct_iff)

lemma remainder_order_positive:
  assumes "k \<le> length (filter (\<lambda>i. of_int (floors ! i) < exact ! i) [0..<length exact])"
    and "i \<in> set (take k (remainder_order exact floors))"
  shows "of_int (floors ! i) < exact ! i"
proof -
  let ?key = "\<lambda>i. (- (exact ! i - of_int (floors ! i)), i)"
  let ?xs = "map ?key [0..<length exact]"
  let ?P = "\<lambda>p :: rat \<times> nat. fst p < 0"
  from assms(2) obtain p where p: "p \<in> set (take k (sort ?xs))" "i = snd p"
    unfolding remainder_order_def by (auto simp: take_map)
  have "mset (filter ?P (sort ?xs)) = mset (filter ?P ?xs)"
    by (simp only: mset_filter mset_sort)
  then have "length (filter ?P (sort ?xs)) = length (filter ?P ?xs)"
    by (rule mset_eq_length)
  also have "\<dots> = length (filter (\<lambda>i. of_int (floors ! i) < exact ! i) [0..<length exact])"
    by (simp add: filter_map comp_def)
  finally have len: "k \<le> length (filter ?P (sort ?xs))" using assms(1) by simp
  have "fst p < 0"
    by (rule sorted_take_filter [of "sort ?xs" ?P k p]) (use len p(1) in auto)
  moreover have "p \<in> set ?xs" using p(1) in_set_takeD by fastforce
  ultimately show ?thesis using p(2) by auto
qed

lemma length_filter_upt:
  assumes "\<And>i. i < length xs \<Longrightarrow> P i = Q (xs ! i)"
  shows "length (filter P [0..<length xs]) = length (filter Q xs)"
proof -
  have "filter P [0..<length xs] = filter (Q \<circ> (!) xs) [0..<length xs]"
    using assms by (intro filter_cong) auto
  then have "length (filter P [0..<length xs]) = length (filter Q (map ((!) xs) [0..<length xs]))"
    by (simp add: filter_map)
  then show ?thesis by (simp only: map_nth)
qed

lemma sum_mod_le:
  fixes f :: "'a \<Rightarrow> int"
  assumes "0 < S"
  shows "(\<Sum>t\<leftarrow>ts. f t mod S) \<le> S * int (length (filter (\<lambda>t. f t mod S \<noteq> 0) ts))"
proof (induction ts)
  case Nil
  show ?case by simp
next
  case (Cons a ts)
  have "f a mod S < S" using assms by simp
  with Cons show ?case by (simp add: algebra_simps)
qed

lemma py_prefix_nonneg [simp]: "0 \<le> k \<Longrightarrow> py_prefix k xs = take (nat k) xs"
  by (simp add: py_prefix_def)

text \<open>The allocation of a positive discount: every line gets the floor of its share or one cent more.\<close>

lemma allocate_discount_positive:
  assumes D: "0 < D" "D \<le> sum_list ts" and S: "sum_list ts < 10 ^ 14"
    and ts: "\<And>t. t \<in> set ts \<Longrightarrow> 0 \<le> t"
  defines "S \<equiv> sum_list ts"
  shows "\<exists>ys. allocate_discount D ts = Inr ys \<and> length ys = length ts \<and> sum_list ys = D
    \<and> (\<forall>i < length ts. ys ! i = D * ts ! i div S
         \<or> ys ! i = D * ts ! i div S + 1 \<and> D * ts ! i mod S \<noteq> 0)"
proof -
  let ?exact = "map (exact_share D S) ts"
  let ?floors = "map round_down ?exact"
  let ?left = "D - sum_list ?floors"
  let ?order = "remainder_order ?exact ?floors"
  have S0: "0 < S" and SD: "D \<le> S" using D by (simp_all add: S_def)
  have "(of_int S :: rat) < of_int (10 ^ 14)" using S by (simp only: of_int_less_iff S_def)
  then have S14: "of_int S < pow10 14" by (simp add: pow10_def)
  have t: "0 \<le> t \<and> t \<le> S" if "t \<in> set ts" for t
    using that ts by (auto simp: S_def intro!: member_le_sum_list)
  note share = exact_share_range [OF D(1) SD S14]
  have div0: "0 \<le> D * t div S" if "t \<in> set ts" for t
    using t [OF that] D S0 by (simp add: pos_imp_zdiv_nonneg_iff)
  have nonneg: "0 \<le> exact_share D S t" if "t \<in> set ts" for t
  proof -
    have "(0 :: rat) \<le> of_int (D * t div S)" using div0 [OF that] by (simp only: of_int_0_le_iff)
    also have "\<dots> \<le> exact_share D S t" using share(2) t [OF that] by blast
    finally show ?thesis .
  qed
  have flr: "round_down (exact_share D S t) = D * t div S" if "t \<in> set ts" for t
    using share(1) t nonneg that by (simp add: round_down_def)
  then have floors: "?floors = map (\<lambda>t. D * t div S) ts" by simp
  have "D * S = (\<Sum>t\<leftarrow>ts. D * t)" by (simp add: S_def sum_list_const_mult)
  also have "\<dots> = (\<Sum>t\<leftarrow>ts. S * (D * t div S) + D * t mod S)" by simp
  also have "\<dots> = S * sum_list ?floors + (\<Sum>t\<leftarrow>ts. D * t mod S)"
    by (simp only: floors sum_list_addf sum_list_const_mult)
  finally have left: "S * ?left = (\<Sum>t\<leftarrow>ts. D * t mod S)" by (simp add: algebra_simps)
  have "0 \<le> (\<Sum>t\<leftarrow>ts. D * t mod S)" using S0 by (intro sum_list_nonneg) auto
  with left S0 have left0: "0 \<le> ?left" by (metis zero_le_mult_iff less_le_not_le)
  let ?pos = "filter (\<lambda>t. D * t mod S \<noteq> 0) ts"
  have "(\<Sum>t\<leftarrow>ts. D * t mod S) \<le> S * int (length ?pos)"
    using S0 by (rule sum_mod_le)
  with left S0 have cnt: "?left \<le> int (length ?pos)" by (metis mult_le_cancel_left_pos)
  have "length (filter (\<lambda>i. of_int (?floors ! i) < ?exact ! i) [0..<length ts]) = length ?pos"
    using share(3) t by (intro length_filter_upt) (simp add: flr)
  with cnt left0 have pos: "of_int (?floors ! i) < ?exact ! i" if "i \<in> set (take (nat ?left) ?order)" for i
    using that by (intro remainder_order_positive [of "nat ?left"]) auto
  let ?ys = "add_cent ?floors (take (nat ?left) ?order)"
  have idx: "i < length ts" if "i \<in> set (take (nat ?left) ?order)" for i
    using in_set_takeD [OF that] by simp
  have "length ?order = length ts"
    by (metis remainder_order_mset length_map length_upt minus_nat.diff_0 mset_eq_length)
  moreover have "nat ?left \<le> length ts"
    using cnt length_filter_le [of "\<lambda>t. D * t mod S \<noteq> 0" ts] by linarith
  ultimately have "length (take (nat ?left) ?order) = nat ?left" by simp
  then have sum: "sum_list ?ys = D"
    using left0 idx by (subst add_cent_sum) auto
  have "?ys ! i = D * ts ! i div S \<or> ?ys ! i = D * ts ! i div S + 1 \<and> D * ts ! i mod S \<noteq> 0"
    if i: "i < length ts" for i
    using i pos [of i] share(3) [of "ts ! i"] t [of "ts ! i"]
    by (auto simp: add_cent_nth flr)
  moreover have "allocate_discount D ts = Inr ?ys"
    using D left0 by (auto simp: allocate_discount_def Let_def S_def)
  ultimately show ?thesis using sum by (intro exI [of _ ?ys]) simp
qed

lemma allocate_discount_sound:
  assumes "0 \<le> discount" "discount \<le> sum_list line_totals" "sum_list line_totals < 10 ^ 14"
    and "\<forall>t \<in> set line_totals. 0 \<le> t"
  shows "\<exists>ys. allocate_discount discount line_totals = Inr ys \<and> length ys = length line_totals
    \<and> sum_list ys = discount
    \<and> (\<forall>i < length line_totals. 0 \<le> ys ! i \<and> ys ! i \<le> line_totals ! i)"
proof (cases "discount = 0")
  case True
  have "sum_list (map (\<lambda>_. 0) line_totals) = (0 :: int)" by (induction line_totals) auto
  with True assms(4) show ?thesis by (auto simp: allocate_discount_def Let_def)
next
  case False
  let ?S = "sum_list line_totals"
  from False assms obtain ys where ys: "allocate_discount discount line_totals = Inr ys"
      "length ys = length line_totals" "sum_list ys = discount"
    and shares: "\<forall>i < length line_totals. ys ! i = discount * line_totals ! i div ?S
         \<or> ys ! i = discount * line_totals ! i div ?S + 1 \<and> discount * line_totals ! i mod ?S \<noteq> 0"
    using allocate_discount_positive [of discount line_totals] by auto
  have "0 \<le> ys ! i \<and> ys ! i \<le> line_totals ! i" if i: "i < length line_totals" for i
  proof -
    let ?t = "line_totals ! i" and ?q = "discount * line_totals ! i div ?S"
      and ?r = "discount * line_totals ! i mod ?S"
    have t: "0 \<le> ?t" using assms(4) i by simp
    have S: "0 < ?S" using False assms(1,2) by simp
    have eq: "discount * ?t = ?S * ?q + ?r" by simp
    have le: "discount * ?t \<le> ?S * ?t" using assms(2) t by (rule mult_right_mono)
    have "0 \<le> ?q" using S t assms(1) by (simp add: pos_imp_zdiv_nonneg_iff)
    moreover have "?q \<le> ?t" using zdiv_mono1 [OF le S] S by simp
    moreover have "?q + 1 \<le> ?t" if "?r \<noteq> 0"
    proof -
      have "0 < ?r" using that S by (metis less_le pos_mod_sign)
      with eq le have "?S * ?q < ?S * ?t" by linarith
      with S show ?thesis by simp
    qed
    ultimately show ?thesis using shares i by fastforce
  qed
  with ys show ?thesis by blast
qed

lemma allocate_discount_length: "allocate_discount d ts = Inr ys \<Longrightarrow> length ys = length ts"
  by (auto simp: allocate_discount_def Let_def split: if_splits)

text \<open>
  C1. Splitting a sale-level discount: for line totals that fit the \<open>NUMERIC(14,2)\<close> column and a
  discount between zero and their sum, \<open>allocate_discount\<close> returns one amount per line, the amounts add
  up to the discount to the cent, and no line is discounted by less than nothing or by more than its
  own total. The statement is about the 28-digit decimal arithmetic the code runs on, not about exact
  fractions.
\<close>

theorem allocate_discount_exact:
  assumes "0 \<le> discount" "discount \<le> sum_list line_totals" "sum_list line_totals < 10 ^ 14"
    and "\<forall>t \<in> set line_totals. 0 \<le> t"
  shows "\<exists>ys. allocate_discount discount line_totals = Inr ys \<and> length ys = length line_totals
    \<and> sum_list ys = discount
    \<and> (\<forall>i < length line_totals. 0 \<le> ys ! i \<and> ys ! i \<le> line_totals ! i)"
  using assms by (rule allocate_discount_sound)

theorem allocate_discount_exact_witness:
  "\<exists>ys. allocate_discount 500 [10000, 4000, 1000] = Inr ys \<and> length ys = length [10000, 4000, 1000 :: int]
    \<and> sum_list ys = 500
    \<and> (\<forall>i < length [10000, 4000, 1000 :: int]. 0 \<le> ys ! i \<and> ys ! i \<le> [10000, 4000, 1000] ! i)"
  by (rule allocate_discount_exact) simp_all

lemma floor_or_next_close:
  fixes a :: int
  assumes "a = S * q + r" "0 \<le> r" "r < S" "y = q \<or> y = q + 1 \<and> r \<noteq> 0"
  shows "\<bar>y * S - a\<bar> < S"
  using assms by (auto simp: algebra_simps)

text \<open>
  The split is pro rata: each line's amount differs from its exact share
  \<open>discount * line_total / subtotal\<close> by less than one cent.
\<close>

theorem allocate_discount_pro_rata:
  assumes "0 \<le> discount" "discount \<le> sum_list line_totals" "sum_list line_totals < 10 ^ 14"
    and "0 < sum_list line_totals" and "\<forall>t \<in> set line_totals. 0 \<le> t"
    and "allocate_discount discount line_totals = Inr ys" and "i < length line_totals"
  shows "\<bar>ys ! i * sum_list line_totals - discount * line_totals ! i\<bar> < sum_list line_totals"
proof (cases "discount = 0")
  case True
  with assms show ?thesis by (auto simp: allocate_discount_def Let_def split: if_splits)
next
  case False
  let ?S = "sum_list line_totals" and ?a = "discount * line_totals ! i"
  have "ys ! i = ?a div ?S \<or> ys ! i = ?a div ?S + 1 \<and> ?a mod ?S \<noteq> 0"
    using allocate_discount_positive [of discount line_totals] False assms by auto
  then show ?thesis
    by (rule floor_or_next_close [rotated 3]) (use assms(4) in simp_all)
qed

theorem allocate_discount_pro_rata_witness:
  "\<bar>[1] ! 0 * sum_list [3] - 1 * [3] ! 0\<bar> < sum_list [3 :: int]"
proof (rule allocate_discount_pro_rata)
  obtain ys where "allocate_discount 1 [3] = Inr ys" "length ys = length [3 :: int]" "sum_list ys = 1"
    using allocate_discount_exact [of 1 "[3]"] by auto
  then show "allocate_discount 1 [3] = Inr [1]"
    by (auto simp: length_Suc_conv)
qed simp_all

lemma ctx28_eval:
  assumes "0 < x" "pow10 27 \<le> x * pow10 e" "x * pow10 e < pow10 28"
    and "\<bar>of_int m - x * pow10 e\<bar> < 1 / 2"
  shows "ctx28 x = of_int m / pow10 e"
proof -
  let ?y = "x * pow10 e"
  have "\<bar>of_int (round_half_even ?y) - ?y\<bar> \<le> 1 / 2" by (rule round_half_even_error)
  with assms(4) have "\<bar>of_int (round_half_even ?y) - of_int m\<bar> < (1 :: rat)" by linarith
  then have "\<bar>round_half_even ?y - m\<bar> < 1" by linarith
  with assms(1-3) show ?thesis by (simp add: ctx28_pos sig_exp_unique [of x e])
qed

lemma third_shares:
  "exact_share 500 15000 10000 = of_int 3333333333333333333333333333 / 10 ^ 25"
  "exact_share 500 15000 4000 = of_int 1333333333333333333333333333 / 10 ^ 25"
  "exact_share 500 15000 1000 = of_int 3333333333333333333333333333 / 10 ^ 26"
proof -
  have c: "ctx28 (of_int (500 * t)) = of_int (500 * t)" if "t \<in> {10000, 4000, 1000}" for t
    using that by (intro ctx28_of_int) (auto simp: pow10_def)
  show "exact_share 500 15000 10000 = of_int 3333333333333333333333333333 / 10 ^ 25"
    unfolding exact_share_def by (subst c, simp, subst ctx28_eval [where e = 25]) (simp_all add: pow10_def)
  show "exact_share 500 15000 4000 = of_int 1333333333333333333333333333 / 10 ^ 25"
    unfolding exact_share_def by (subst c, simp, subst ctx28_eval [where e = 25]) (simp_all add: pow10_def)
  show "exact_share 500 15000 1000 = of_int 3333333333333333333333333333 / 10 ^ 26"
    unfolding exact_share_def by (subst c, simp, subst ctx28_eval [where e = 26]) (simp_all add: pow10_def)
qed

lemma third_floors:
  "map round_down (map (exact_share 500 15000) [10000, 4000, 1000]) = [333, 133, 33]"
  by (simp only: third_shares round_down_def list.map) (simp add: floor_eq_iff)

lemma third_order:
  "remainder_order (map (exact_share 500 15000) [10000, 4000, 1000]) [333, 133, 33] = [2, 0, 1]"
  by (simp only: third_shares list.map remainder_order_def) (simp add: upt_rec numeral_eq_Suc)

text \<open>
  C2. The tie rule of the docstring ("earlier lines win ties") does not hold. A discount of 5.00 over
  lines of 100.00, 40.00 and 10.00 gives every line the same exact remainder (a third of a cent), so
  the one leftover cent belongs to the first line; the rounded quotients of the larger lines keep
  fewer decimals, and the code gives the cent to the last line.
\<close>

theorem allocate_discount_tie_goes_to_last:
  "map (\<lambda>t. 500 * t mod sum_list [10000, 4000, 1000]) [10000, 4000, 1000] = [5000, 5000, 5000 :: int]
   \<and> allocate_discount 500 [10000, 4000, 1000] = Inr [333, 133, 34]"
proof -
  have "sum_list [10000, 4000, 1000] = (15000 :: int)" by simp
  then have "allocate_discount 500 [10000, 4000, 1000]
      = Inr (add_cent [333, 133, 33] (py_prefix (500 - sum_list [333, 133, 33]) [2, 0, 1]))"
    by (simp only: allocate_discount_def Let_def third_floors third_order) simp
  then show ?thesis by (simp add: add_cent_def)
qed

text \<open>
  A line total is the product of quantity and unit price rounded half-up to the cent: it is the
  integer number of cents nearest to the exact product, the larger one on a tie.
\<close>

theorem line_total_half_up:
  assumes "0 \<le> q" "0 \<le> p"
  shows "2000 * line_total q p \<le> 2 * (q * p) + 1000 \<and> 2 * (q * p) + 1000 < 2000 * line_total q p + 2000"
proof -
  let ?x = "of_int (q * p) / 1000 :: rat"
  have "line_total q p = \<lfloor>?x + 1 / 2\<rfloor>"
    using assms by (simp add: line_total_def round_money_def round_half_up_def millis_def cents_def
        mult.commute)
  then have "of_int (line_total q p) \<le> ?x + 1 / 2" "?x + 1 / 2 < of_int (line_total q p) + 1"
    by (simp_all only:) linarith+
  then have "(of_int (2000 * line_total q p) :: rat) \<le> of_int (2 * (q * p) + 1000)"
    "(of_int (2 * (q * p) + 1000) :: rat) < of_int (2000 * line_total q p + 2000)"
    by simp_all
  then show ?thesis by (simp only: of_int_le_iff of_int_less_iff)
qed

theorem line_total_half_up_witness:
  "2000 * line_total 1500 333 \<le> 2 * (1500 * 333) + 1000
   \<and> 2 * (1500 * 333) + 1000 < 2000 * line_total 1500 333 + 2000"
  by (rule line_total_half_up) simp_all

end
