(* ===== verification/Schema.thy ===== *)
theory Schema
  imports Money
begin

text \<open>
  The data model (\<open>app/models\<close>), the request context (\<open>app/core/context.py\<close>), transactions
  (\<open>app/db/session.py\<close>) and the audit log (\<open>app/services/audit.py\<close>).

  \<^item> A table is the list of its rows in insertion order; a row is a record with the table's columns
    (the field prefix names the table). \<open>updated_at\<close>, and columns that only ever hold their default
    (\<open>payments.provider\<close>, \<open>provider_transaction_id\<close>), are left out.
  \<^item> Every table has a predicate with its \<open>CHECK\<close> constraints and one saying that its values fit their
    \<open>NUMERIC\<close> columns; inserting or updating a row evaluates both. Foreign keys are not re-checked:
    every id the services store was read from the same database in the same transaction.
  \<^item> Ids come from \<open>uuid4 :: nat \<Rightarrow> uuid\<close>, the sequence of values the random source will produce, of which
    \<open>draws\<close> have been used; nothing is assumed about their order.
  \<^item> A time is an integer (microseconds). \<open>now\<close> is Python's clock during a request and \<open>tx_now\<close> the
    database's \<open>now()\<close>, which is the start of the transaction and is what \<open>created_at\<close> defaults to.
  \<^item> A function that runs inside a transaction is a function \<open>db \<Rightarrow> ('a \<times> db) result\<close>; \<open>transaction\<close>
    keeps the new state on success and the old one on any exception.
\<close>

type_synonym uuid = nat
type_synonym time = int

subsection \<open>Enumerations\<close>

datatype MembershipRole = OWNER | STAFF
datatype MovementType = INITIAL | RESTOCK | SALE | SALE_REVERSAL | ADJUSTMENT
datatype SaleStatus = COMPLETED | VOIDED
datatype PaymentMethod = CASH | MPESA | CREDIT
datatype PaymentStatus = PAY_CONFIRMED | PAY_PENDING | PAY_FAILED
datatype CreditEntryType = CHARGE | REPAYMENT | REVERSAL | CREDIT_ADJUSTMENT
datatype MoneyReceivedMethod = BY_CASH | BY_MPESA
datatype MpesaMessageStatus = UNPARSED | UNMATCHED | MATCHED | IGNORED
datatype SmsKind = POCHI | TILL | PAYBILL | SEND_MONEY | KIND_UNKNOWN
datatype ReceiptStatus = UPLOADED | PROCESSING | READY_FOR_REVIEW | CONFIRMED | FAILED | CANCELLED
datatype ReceiptMatchStatus = LINE_MATCHED | LINE_AMBIGUOUS | LINE_UNMATCHED
datatype ReceiptLineReview = REVIEW_PENDING | REVIEW_APPLIED | REVIEW_SKIPPED

subsection \<open>Rows\<close>

record category =
  cat_id :: uuid
  cat_business_id :: uuid
  cat_name :: string

record product =
  p_id :: uuid
  p_business_id :: uuid
  p_category_id :: "uuid option"
  p_name :: string
  p_sku :: "string option"
  p_barcode :: "string option"
  p_unit :: string
  p_selling_price :: money
  p_cost_price :: "money option"
  p_track_inventory :: bool
  p_stock_quantity :: quantity
  p_low_stock_threshold :: "quantity option"
  p_is_active :: bool

record movement =
  m_id :: uuid
  m_business_id :: uuid
  m_product_id :: uuid
  m_movement_type :: MovementType
  m_quantity_delta :: quantity
  m_quantity_after :: quantity
  m_unit_cost :: "money option"
  m_total_cost :: "money option"
  m_sale_id :: "uuid option"
  m_supplier_name :: "string option"
  m_reason :: "string option"
  m_occurred_at :: time
  m_created_by :: uuid
  m_created_at :: time

record customer =
  c_id :: uuid
  c_business_id :: uuid
  c_name :: string
  c_phone :: "string option"
  c_notes :: "string option"
  c_credit_limit :: "money option"
  c_balance :: money
  c_is_active :: bool
  c_created_at :: time

record credit_transaction =
  ct_id :: uuid
  ct_business_id :: uuid
  ct_customer_id :: uuid
  ct_entry_type :: CreditEntryType
  ct_amount :: money
  ct_balance_after :: money
  ct_sale_id :: "uuid option"
  ct_payment_id :: "uuid option"
  ct_payment_method :: "MoneyReceivedMethod option"
  ct_reference :: "string option"
  ct_reason :: "string option"
  ct_idempotency_key :: "uuid option"
  ct_idempotency_hash :: "string option"
  ct_occurred_at :: time
  ct_created_by :: uuid
  ct_created_at :: time

record sale =
  s_id :: uuid
  s_business_id :: uuid
  s_customer_id :: "uuid option"
  s_idempotency_key :: uuid
  s_idempotency_hash :: string
  s_status :: SaleStatus
  s_subtotal :: money
  s_discount_amount :: money
  s_total_amount :: money
  s_note :: "string option"
  s_sold_at :: time
  s_voided_at :: "time option"
  s_voided_by :: "uuid option"
  s_void_reason :: "string option"
  s_created_by :: uuid
  s_created_at :: time

record sale_item =
  si_id :: uuid
  si_business_id :: uuid
  si_sale_id :: uuid
  si_product_id :: uuid
  si_product_name :: string
  si_quantity :: quantity
  si_unit_price :: money
  si_default_unit_price :: money
  si_unit_cost :: "money option"
  si_line_total :: money
  si_discount_allocated :: money

record payment =
  pay_id :: uuid
  pay_business_id :: uuid
  pay_sale_id :: uuid
  pay_method :: PaymentMethod
  pay_amount :: money
  pay_status :: PaymentStatus
  pay_reference :: "string option"
  pay_created_at :: time

record mpesa_message =
  mm_id :: uuid
  mm_business_id :: uuid
  mm_created_by :: uuid
  mm_status :: MpesaMessageStatus
  mm_raw_text :: string
  mm_code :: "string option"
  mm_amount :: "money option"
  mm_kind :: "SmsKind option"
  mm_sender_name :: "string option"
  mm_sender_phone_masked :: "string option"
  mm_sender_last3 :: "string option"
  mm_account_reference :: "string option"
  mm_occurred_at :: "time option"
  mm_payment_id :: "uuid option"
  mm_credit_transaction_id :: "uuid option"
  mm_matched_at :: "time option"
  mm_matched_by :: "uuid option"
  mm_ignored_at :: "time option"
  mm_ignored_by :: "uuid option"
  mm_ignore_reason :: "string option"
  mm_created_at :: time

record receipt =
  r_id :: uuid
  r_business_id :: uuid
  r_created_by :: uuid
  r_status :: ReceiptStatus
  r_original_filename :: "string option"
  r_mime_type :: string
  r_size_bytes :: int
  r_storage_key :: string
  r_supplier_name :: "string option"
  r_receipt_number :: "string option"
  r_receipt_date :: "int option"
  r_currency :: "string option"
  r_extracted_subtotal :: "money option"
  r_extracted_total :: "money option"
  r_extraction_provider :: "string option"
  r_extraction_model :: "string option"
  r_extraction_error :: "string option"
  r_warnings :: "string list option"
  r_extracted_at :: "time option"
  r_confirmed_at :: "time option"
  r_confirmed_by :: "uuid option"
  r_created_at :: time

record receipt_line =
  rl_id :: uuid
  rl_business_id :: uuid
  rl_receipt_id :: uuid
  rl_position :: nat
  rl_extracted_name :: string
  rl_extracted_sku :: "string option"
  rl_extracted_quantity :: quantity
  rl_extracted_unit_cost :: money
  rl_extracted_line_total :: "money option"
  rl_confidence :: "int option"
  rl_warnings :: "string list option"
  rl_match_status :: ReceiptMatchStatus
  rl_matched_product_id :: "uuid option"
  rl_candidate_product_ids :: "uuid list option"
  rl_review_status :: ReceiptLineReview
  rl_final_product_id :: "uuid option"
  rl_final_quantity :: "quantity option"
  rl_final_unit_cost :: "money option"
  rl_movement_id :: "uuid option"

record expense =
  ex_id :: uuid
  ex_business_id :: uuid
  ex_amount :: money
  ex_category :: string
  ex_payment_method :: MoneyReceivedMethod
  ex_reference :: "string option"
  ex_note :: "string option"
  ex_incurred_at :: time
  ex_deleted_at :: "time option"
  ex_created_by :: uuid
  ex_created_at :: time

text \<open>
  JSON values of the audit payloads. The code stores \<open>str(x)\<close> of ids, amounts and times; the model
  keeps the value and its kind instead of its decimal or ISO rendering.
\<close>

datatype json =
    JNull | JBool bool | JInt int | JText string | JMoney money | JQuantity quantity
  | JUuid uuid | JTime time | JObject "(string \<times> json) list" | JList "json list"

type_synonym payload = "(string \<times> json) list"

record audit_log =
  al_id :: uuid
  al_business_id :: uuid
  al_actor_user_id :: uuid
  al_action :: string
  al_entity_type :: string
  al_entity_id :: uuid
  al_before :: "payload option"
  al_after :: "payload option"
  al_ip :: "string option"
  al_user_agent :: "string option"

record db =
  categories :: "category list"
  products :: "product list"
  movements :: "movement list"
  customers :: "customer list"
  credit_transactions :: "credit_transaction list"
  sales :: "sale list"
  sale_items :: "sale_item list"
  payments :: "payment list"
  mpesa_messages :: "mpesa_message list"
  receipts :: "receipt list"
  receipt_lines :: "receipt_line list"
  expenses :: "expense list"
  audit_logs :: "audit_log list"
  uuid4 :: "nat \<Rightarrow> uuid"
  draws :: nat

definition empty_db :: "(nat \<Rightarrow> uuid) \<Rightarrow> db" where
  "empty_db u = \<lparr>categories = [], products = [], movements = [], customers = [],
     credit_transactions = [], sales = [], sale_items = [], payments = [], mpesa_messages = [],
     receipts = [], receipt_lines = [], expenses = [], audit_logs = [], uuid4 = u, draws = 0\<rparr>"

subsection \<open>Constraints of the tables\<close>

definition fits_money :: "money \<Rightarrow> bool" where
  "fits_money x \<longleftrightarrow> \<bar>x\<bar> < 10 ^ 14"

definition fits_quantity :: "quantity \<Rightarrow> bool" where
  "fits_quantity x \<longleftrightarrow> \<bar>x\<bar> < 10 ^ 12"

definition opt_all :: "('a \<Rightarrow> bool) \<Rightarrow> 'a option \<Rightarrow> bool" where
  "opt_all P x = (case x of None \<Rightarrow> True | Some y \<Rightarrow> P y)"

definition product_fits :: "product \<Rightarrow> bool" where
  "product_fits p \<longleftrightarrow> fits_money (p_selling_price p) \<and> opt_all fits_money (p_cost_price p)
     \<and> fits_quantity (p_stock_quantity p) \<and> opt_all fits_quantity (p_low_stock_threshold p)"

definition product_checks :: "product \<Rightarrow> bool" where
  "product_checks p \<longleftrightarrow> 0 \<le> p_selling_price p \<and> opt_all (\<lambda>c. 0 \<le> c) (p_cost_price p)
     \<and> 0 \<le> p_stock_quantity p"

definition movement_fits :: "movement \<Rightarrow> bool" where
  "movement_fits m \<longleftrightarrow> fits_quantity (m_quantity_delta m) \<and> fits_quantity (m_quantity_after m)
     \<and> opt_all fits_money (m_unit_cost m) \<and> opt_all fits_money (m_total_cost m)"

definition movement_checks :: "movement \<Rightarrow> bool" where
  "movement_checks m \<longleftrightarrow> (m_movement_type m \<noteq> ADJUSTMENT \<or> m_reason m \<noteq> None)
     \<and> 0 \<le> m_quantity_after m"

definition customer_fits :: "customer \<Rightarrow> bool" where
  "customer_fits c \<longleftrightarrow> opt_all fits_money (c_credit_limit c) \<and> fits_money (c_balance c)"

definition customer_checks :: "customer \<Rightarrow> bool" where
  "customer_checks c \<longleftrightarrow> opt_all (\<lambda>l. 0 \<le> l) (c_credit_limit c)"

definition credit_fits :: "credit_transaction \<Rightarrow> bool" where
  "credit_fits t \<longleftrightarrow> fits_money (ct_amount t) \<and> fits_money (ct_balance_after t)"

definition credit_checks :: "credit_transaction \<Rightarrow> bool" where
  "credit_checks t \<longleftrightarrow> (ct_entry_type t \<noteq> CREDIT_ADJUSTMENT \<or> ct_reason t \<noteq> None)
     \<and> (ct_entry_type t \<noteq> REPAYMENT \<or> ct_payment_method t \<noteq> None)"

definition sale_fits :: "sale \<Rightarrow> bool" where
  "sale_fits s \<longleftrightarrow> fits_money (s_subtotal s) \<and> fits_money (s_discount_amount s)
     \<and> fits_money (s_total_amount s)"

definition sale_checks :: "sale \<Rightarrow> bool" where
  "sale_checks s \<longleftrightarrow> 0 \<le> s_subtotal s
     \<and> 0 \<le> s_discount_amount s \<and> s_discount_amount s \<le> s_subtotal s
     \<and> s_total_amount s = s_subtotal s - s_discount_amount s
     \<and> (s_status s \<noteq> VOIDED \<or> s_voided_at s \<noteq> None \<and> s_void_reason s \<noteq> None)"

definition sale_item_fits :: "sale_item \<Rightarrow> bool" where
  "sale_item_fits i \<longleftrightarrow> fits_quantity (si_quantity i) \<and> fits_money (si_unit_price i)
     \<and> fits_money (si_default_unit_price i) \<and> opt_all fits_money (si_unit_cost i)
     \<and> fits_money (si_line_total i) \<and> fits_money (si_discount_allocated i)"

definition sale_item_checks :: "sale_item \<Rightarrow> bool" where
  "sale_item_checks i \<longleftrightarrow> 0 < si_quantity i \<and> 0 \<le> si_unit_price i
     \<and> opt_all (\<lambda>c. 0 \<le> c) (si_unit_cost i)
     \<and> 0 \<le> si_discount_allocated i \<and> si_discount_allocated i \<le> si_line_total i"

definition payment_fits :: "payment \<Rightarrow> bool" where
  "payment_fits p \<longleftrightarrow> fits_money (pay_amount p)"

definition payment_checks :: "payment \<Rightarrow> bool" where
  "payment_checks p \<longleftrightarrow> 0 < pay_amount p"

definition mpesa_fits :: "mpesa_message \<Rightarrow> bool" where
  "mpesa_fits m \<longleftrightarrow> opt_all fits_money (mm_amount m)"

definition mpesa_checks :: "mpesa_message \<Rightarrow> bool" where
  "mpesa_checks m \<longleftrightarrow> opt_all (\<lambda>a. 0 < a) (mm_amount m)
     \<and> (mm_status m \<noteq> UNPARSED \<or> mm_code m = None)
     \<and> (mm_status m \<in> {UNPARSED, IGNORED} \<or> mm_code m \<noteq> None)
     \<and> (mm_status m = MATCHED \<and> (mm_payment_id m = None) \<noteq> (mm_credit_transaction_id m = None)
        \<or> mm_status m \<noteq> MATCHED \<and> mm_payment_id m = None \<and> mm_credit_transaction_id m = None)"

definition expense_checks :: "expense \<Rightarrow> bool" where
  "expense_checks e \<longleftrightarrow> 0 < ex_amount e"

definition receipt_line_checks :: "receipt_line \<Rightarrow> bool" where
  "receipt_line_checks l \<longleftrightarrow> 0 < rl_extracted_quantity l \<and> 0 \<le> rl_extracted_unit_cost l"

text \<open>Writing a row: a value too large for its column, then a violated \<open>CHECK\<close>.\<close>

definition flush_row :: "bool \<Rightarrow> bool \<Rightarrow> unit result" where
  "flush_row fits checks =
     bindR (raise_if (\<not> fits) DataError) (\<lambda>_. raise_if (\<not> checks) (IntegrityError check_violated))"

subsection \<open>Context, ids, transactions\<close>

record BusinessSettings =
  staff_can_restock :: bool
  sale_backdate_days :: int
  low_stock_default_threshold :: int

record BusinessContext =
  user_id :: uuid
  business_id :: uuid
  membership_id :: uuid
  role :: MembershipRole
  timezone :: string
  settings :: BusinessSettings

record ClientInfo =
  ip :: "string option"
  user_agent :: "string option"

record clock =
  now :: time
  tx_now :: time

text \<open>\<open>str(uuid)\<close>\<close>

fun hex :: "nat \<Rightarrow> nat \<Rightarrow> string" where
  "hex 0 n = []"
| "hex (Suc k) n = hex k (n div 16) @ [''0123456789abcdef'' ! (n mod 16)]"

definition uuid_text :: "uuid \<Rightarrow> string" where
  "uuid_text u = (let h = hex 32 u in take 8 h @ ''-'' @ take 4 (drop 8 h) @ ''-'' @ take 4 (drop 12 h) @ ''-''
     @ take 4 (drop 16 h) @ ''-'' @ drop 20 h)"

definition new_id :: "db \<Rightarrow> uuid" where
  "new_id s = uuid4 s (draws s)"

definition drawn :: "db \<Rightarrow> db" where
  "drawn s = s\<lparr>draws := Suc (draws s)\<rparr>"

definition transaction :: "('s \<Rightarrow> ('a \<times> 's) result) \<Rightarrow> 's \<Rightarrow> 'a result \<times> 's" where
  "transaction body s = (case body s of Inl e \<Rightarrow> (Inl e, s) | Inr (x, s') \<Rightarrow> (Inr x, s'))"

subsection \<open>The audit log\<close>

definition forbidden_keys :: "string list" where
  "forbidden_keys = [''password'', ''password_hash'', ''new_password'', ''current_password'',
     ''token'', ''token_hash'']"

definition scrub :: "payload option \<Rightarrow> payload option" where
  "scrub p = map_option (filter (\<lambda>(k, v). k \<notin> set forbidden_keys)) p"

text \<open>\<open>x[:n] if x else None\<close> on an optional string.\<close>

definition clipped :: "nat \<Rightarrow> string option \<Rightarrow> string option" where
  "clipped n x = (case x of None \<Rightarrow> None | Some t \<Rightarrow> if t = [] then None else Some (take n t))"

definition audit_record ::
  "BusinessContext \<Rightarrow> string \<Rightarrow> string \<Rightarrow> uuid \<Rightarrow> payload option \<Rightarrow> payload option
    \<Rightarrow> ClientInfo option \<Rightarrow> db \<Rightarrow> db" where
  "audit_record ctx action entity_type entity_id before after client s =
     (drawn s)\<lparr>audit_logs := audit_logs s @
       [\<lparr>al_id = new_id s, al_business_id = business_id ctx, al_actor_user_id = user_id ctx,
         al_action = action, al_entity_type = entity_type, al_entity_id = entity_id,
         al_before = scrub before, al_after = scrub after,
         al_ip = Option.bind client (clipped 45 \<circ> ip),
         al_user_agent = Option.bind client (clipped 255 \<circ> user_agent)\<rparr>]\<rparr>"

text \<open>\<open>d.update(e)\<close> on payload dictionaries.\<close>

definition dict_update :: "payload \<Rightarrow> payload \<Rightarrow> payload" where
  "dict_update d e = filter (\<lambda>(k, v). k \<notin> fst ` set e) d @ e"

definition opt_json :: "('a \<Rightarrow> json) \<Rightarrow> 'a option \<Rightarrow> json" where
  "opt_json f x = (case x of None \<Rightarrow> JNull | Some y \<Rightarrow> f y)"

subsection \<open>Laws\<close>

lemma drawn_simps [simp]:
  "categories (drawn s) = categories s" "products (drawn s) = products s"
  "movements (drawn s) = movements s" "customers (drawn s) = customers s"
  "credit_transactions (drawn s) = credit_transactions s" "sales (drawn s) = sales s"
  "sale_items (drawn s) = sale_items s" "payments (drawn s) = payments s"
  "mpesa_messages (drawn s) = mpesa_messages s" "receipts (drawn s) = receipts s"
  "receipt_lines (drawn s) = receipt_lines s" "expenses (drawn s) = expenses s"
  "audit_logs (drawn s) = audit_logs s" "uuid4 (drawn s) = uuid4 s" "draws (drawn s) = Suc (draws s)"
  by (simp_all add: drawn_def)

lemma audit_record_simps [simp]:
  "categories (audit_record ctx a t i b f c s) = categories s"
  "products (audit_record ctx a t i b f c s) = products s"
  "movements (audit_record ctx a t i b f c s) = movements s"
  "customers (audit_record ctx a t i b f c s) = customers s"
  "credit_transactions (audit_record ctx a t i b f c s) = credit_transactions s"
  "sales (audit_record ctx a t i b f c s) = sales s"
  "sale_items (audit_record ctx a t i b f c s) = sale_items s"
  "payments (audit_record ctx a t i b f c s) = payments s"
  "mpesa_messages (audit_record ctx a t i b f c s) = mpesa_messages s"
  "receipts (audit_record ctx a t i b f c s) = receipts s"
  "receipt_lines (audit_record ctx a t i b f c s) = receipt_lines s"
  "expenses (audit_record ctx a t i b f c s) = expenses s"
  "uuid4 (audit_record ctx a t i b f c s) = uuid4 s"
  "draws (audit_record ctx a t i b f c s) = Suc (draws s)"
  by (simp_all add: audit_record_def)

lemma flush_row_simps [simp]:
  "flush_row f c = Inr u \<longleftrightarrow> f \<and> c"
  "flush_row f c = Inl e \<longleftrightarrow> \<not> f \<and> e = DataError \<or> f \<and> \<not> c \<and> e = IntegrityError check_violated"
  by (auto simp: flush_row_def result_simps)

lemma flush_row_eval [simp]: "flush_row True True = Inr ()"
  by (simp add: flush_row_def)

lemma transaction_fst: "fst (transaction body s) = Inr x \<longleftrightarrow> (\<exists>s'. body s = Inr (x, s'))"
  by (auto simp: transaction_def split: sum.splits prod.splits)

lemma transaction_cases:
  "transaction body s = (r, s') \<longleftrightarrow>
     (\<exists>e. body s = Inl e \<and> r = Inl e \<and> s' = s) \<or> (\<exists>x. body s = Inr (x, s') \<and> r = Inr x)"
  by (auto simp: transaction_def split: sum.splits prod.splits)

lemma transaction_preserves:
  assumes "P s" and "\<And>x s'. body s = Inr (x, s') \<Longrightarrow> P s'"
  shows "P (snd (transaction body s))"
  using assms by (auto simp: transaction_def split: sum.splits)

lemma opt_all_simps [simp]:
  "opt_all P None" "opt_all P (Some y) = P y"
  by (simp_all add: opt_all_def)

subsection \<open>What an operation writes\<close>

text \<open>\<open>writes T s s'\<close>: \<open>s'\<close> differs from \<open>s\<close> in the tables \<open>T\<close> only, and ids are only ever drawn forward.\<close>

datatype table =
  T_categories | T_products | T_movements | T_customers | T_credit_transactions
  | T_sales | T_sale_items | T_payments | T_mpesa_messages | T_receipts | T_receipt_lines | T_expenses | T_audit_logs

definition writes :: "table set \<Rightarrow> db \<Rightarrow> db \<Rightarrow> bool" where
  "writes T s s' \<longleftrightarrow>
     (T_categories \<notin> T \<longrightarrow> categories s' = categories s)
     \<and> (T_products \<notin> T \<longrightarrow> products s' = products s)
     \<and> (T_movements \<notin> T \<longrightarrow> movements s' = movements s)
     \<and> (T_customers \<notin> T \<longrightarrow> customers s' = customers s)
     \<and> (T_credit_transactions \<notin> T \<longrightarrow> credit_transactions s' = credit_transactions s)
     \<and> (T_sales \<notin> T \<longrightarrow> sales s' = sales s)
     \<and> (T_sale_items \<notin> T \<longrightarrow> sale_items s' = sale_items s)
     \<and> (T_payments \<notin> T \<longrightarrow> payments s' = payments s)
     \<and> (T_mpesa_messages \<notin> T \<longrightarrow> mpesa_messages s' = mpesa_messages s)
     \<and> (T_receipts \<notin> T \<longrightarrow> receipts s' = receipts s)
     \<and> (T_receipt_lines \<notin> T \<longrightarrow> receipt_lines s' = receipt_lines s)
     \<and> (T_expenses \<notin> T \<longrightarrow> expenses s' = expenses s)
     \<and> (T_audit_logs \<notin> T \<longrightarrow> audit_logs s' = audit_logs s)
     \<and> uuid4 s' = uuid4 s \<and> draws s \<le> draws s'"

lemma writes_refl [simp, intro]: "writes T s s"
  by (simp add: writes_def)

lemma writes_trans: "writes T s t \<Longrightarrow> writes T t u \<Longrightarrow> writes T s u"
  by (simp add: writes_def)

lemma writes_mono:
  assumes "writes T s s'" and "T \<subseteq> T'"
  shows "writes T' s s'"
proof -
  have "x \<notin> T' \<longrightarrow> x \<notin> T" for x using assms(2) by blast
  with assms(1) show ?thesis by (simp add: writes_def)
qed

lemma writes_seq: "writes T s t \<Longrightarrow> writes T' t u \<Longrightarrow> writes (T \<union> T') s u"
  by (rule writes_trans) (erule writes_mono, simp)+

lemma writes_audit [intro]:
  "writes T s t \<Longrightarrow> T_audit_logs \<in> T \<Longrightarrow> writes T s (audit_record ctx a e i b f c t)"
  by (simp add: writes_def)

lemma writes_drawn [intro]: "writes T s t \<Longrightarrow> writes T s (drawn t)"
  by (simp add: writes_def)

lemma writes_foldR:
  assumes "foldR f xs s = Inr s'" and "\<And>x t t'. x \<in> set xs \<Longrightarrow> f x t = Inr t' \<Longrightarrow> writes T t t'"
  shows "writes T s s'"
  by (rule foldR_invariant [OF assms(1), where P = "writes T s"])
    (simp, rule writes_trans, assumption, rule assms(2))

text \<open>The same for a loop that also accumulates something.\<close>

lemma writes_foldR_acc:
  assumes "foldR f xs (s, a) = Inr (s', a')"
    and "\<And>x t b t' b'. x \<in> set xs \<Longrightarrow> f x (t, b) = Inr (t', b') \<Longrightarrow> writes T t t'"
  shows "writes T s s'"
proof -
  have "writes T s (fst (s', a'))"
  proof (rule foldR_invariant [OF assms(1), where P = "\<lambda>r. writes T s (fst r)"])
    show "writes T s (fst (s, a))" by simp
  next
    fix x t t'
    assume "x \<in> set xs" "writes T s (fst t)" "f x t = Inr t'"
    then show "writes T s (fst t')"
      using assms(2) [of x "fst t" "snd t" "fst t'" "snd t'"] by (auto intro: writes_trans)
  qed
  then show ?thesis by simp
qed

lemma writes_transaction:
  assumes "\<And>x s'. body s = Inr (x, s') \<Longrightarrow> writes T s s'"
  shows "writes T s (snd (transaction body s))"
  by (rule transaction_preserves [where P = "writes T s"]) (use assms in auto)

subsection \<open>Fresh ids\<close>

text \<open>
  The ids that occur in the tables, and the assumption under which drawing one is safe: the random source
  does not repeat itself, and every id in use was drawn. \<open>grows\<close> is what every operation does to them.
\<close>

definition message_ids :: "mpesa_message list \<Rightarrow> uuid set" where
  "message_ids ms = mm_id ` set ms \<union> {i. Some i \<in> mm_payment_id ` set ms}
     \<union> {i. Some i \<in> mm_credit_transaction_id ` set ms}"

definition known_ids :: "db \<Rightarrow> uuid set" where
  "known_ids s = cat_id ` set (categories s) \<union> p_id ` set (products s) \<union> c_id ` set (customers s)
     \<union> s_id ` set (sales s) \<union> si_sale_id ` set (sale_items s)
     \<union> pay_id ` set (payments s) \<union> pay_sale_id ` set (payments s)
     \<union> ct_id ` set (credit_transactions s) \<union> {i. Some i \<in> m_sale_id ` set (movements s)}
     \<union> message_ids (mpesa_messages s) \<union> r_id ` set (receipts s) \<union> rl_receipt_id ` set (receipt_lines s) \<union> rl_id ` set (receipt_lines s)
     \<union> ex_id ` set (expenses s)"

definition fresh_ok :: "db \<Rightarrow> bool" where
  "fresh_ok s \<longleftrightarrow> inj (uuid4 s) \<and> known_ids s \<subseteq> uuid4 s ` {..<draws s}"

definition grows :: "db \<Rightarrow> db \<Rightarrow> bool" where
  "grows s s' \<longleftrightarrow> uuid4 s' = uuid4 s \<and> draws s \<le> draws s'
     \<and> known_ids s' \<subseteq> known_ids s \<union> uuid4 s ` {draws s..<draws s'}"

lemma grows_refl [simp, intro]: "grows s s"
  by (simp add: grows_def)

lemma grows_trans: "grows s t \<Longrightarrow> grows t u \<Longrightarrow> grows s u"
  unfolding grows_def by (auto simp: image_iff Bex_def subset_iff) (metis le_trans less_le_trans)+

lemma grows_fresh_ok: "grows s s' \<Longrightarrow> fresh_ok s \<Longrightarrow> fresh_ok s'"
  unfolding grows_def fresh_ok_def by (auto simp: image_iff Bex_def subset_iff) (metis less_le_trans)+

lemma grows_known: "grows s s' \<Longrightarrow> i \<in> known_ids s' \<Longrightarrow> i \<in> known_ids s \<or> i \<in> uuid4 s ` {draws s..<draws s'}"
  by (auto simp: grows_def)

lemma later_id_fresh: "fresh_ok s \<Longrightarrow> draws s \<le> n \<Longrightarrow> uuid4 s n \<notin> known_ids s"
  by (force simp: fresh_ok_def inj_def)

lemma new_id_fresh: "fresh_ok s \<Longrightarrow> new_id s \<notin> known_ids s"
  by (simp add: new_id_def later_id_fresh)

lemma known_ids_frame [simp]:
  "known_ids (audit_record ctx a e i b f c s) = known_ids s" "known_ids (drawn s) = known_ids s"
  by (simp_all add: known_ids_def)

lemma grows_audit [intro]: "grows s t \<Longrightarrow> grows s (audit_record ctx a e i b f c t)"
  unfolding grows_def by (auto simp: less_Suc_eq)

lemma grows_foldR:
  assumes "foldR f xs s = Inr s'" and "P s"
    and "\<And>x t t'. x \<in> set xs \<Longrightarrow> P t \<Longrightarrow> grows s t \<Longrightarrow> f x t = Inr t' \<Longrightarrow> grows t t' \<and> P t'"
  shows "grows s s'"
proof -
  have "grows s s' \<and> P s'"
    by (rule foldR_invariant [OF assms(1), where P = "\<lambda>t. grows s t \<and> P t"])
      (use assms(2,3) grows_trans in blast)+
  then show ?thesis ..
qed

lemma grows_foldR_acc:
  assumes "foldR f xs (s, a) = Inr (s', a')"
    and "\<And>x t b t' b'. x \<in> set xs \<Longrightarrow> f x (t, b) = Inr (t', b') \<Longrightarrow> grows t t'"
  shows "grows s s'"
proof -
  have "grows s (fst (s', a'))"
  proof (rule foldR_invariant [OF assms(1), where P = "\<lambda>r. grows s (fst r)"])
    show "grows s (fst (s, a))" by simp
  next
    fix x t t'
    assume "x \<in> set xs" "grows s (fst t)" "f x t = Inr t'"
    then show "grows s (fst t')"
      using assms(2) [of x "fst t" "snd t" "fst t'" "snd t'"] by (auto intro: grows_trans)
  qed
  then show ?thesis by simp
qed

lemma grows_transaction:
  assumes "\<And>x s'. body s = Inr (x, s') \<Longrightarrow> grows s s'"
  shows "grows s (snd (transaction body s))"
  by (rule transaction_preserves [where P = "grows s"]) (use assms in auto)

lemma empty_db_fresh: "fresh_ok (empty_db id)"
  by (simp add: fresh_ok_def empty_db_def known_ids_def message_ids_def)

subsection \<open>Sample values\<close>

text \<open>A small shop, used where a statement is applied to a concrete input.\<close>

definition demo_settings :: BusinessSettings where
  "demo_settings = \<lparr>staff_can_restock = False, sale_backdate_days = 7,
     low_stock_default_threshold = 5\<rparr>"

definition demo_owner :: BusinessContext where
  "demo_owner = \<lparr>user_id = 901, business_id = 900, membership_id = 902, role = OWNER,
     timezone = ''Africa/Nairobi'', settings = demo_settings\<rparr>"

definition demo_staff :: BusinessContext where
  "demo_staff = demo_owner\<lparr>user_id := 903, membership_id := 904, role := STAFF\<rparr>"

definition demo_clock :: clock where
  "demo_clock = \<lparr>now = 1001, tx_now = 1000\<rparr>"

definition demo_product :: "uuid \<Rightarrow> string \<Rightarrow> money \<Rightarrow> quantity \<Rightarrow> product" where
  "demo_product i name price stock = \<lparr>p_id = i, p_business_id = 900, p_category_id = None,
     p_name = name, p_sku = None, p_barcode = None, p_unit = ''PIECE'', p_selling_price = price,
     p_cost_price = Some (price div 2), p_track_inventory = True, p_stock_quantity = stock,
     p_low_stock_threshold = None, p_is_active = True\<rparr>"

lemmas demo_defs = demo_settings_def demo_owner_def demo_staff_def demo_clock_def demo_product_def

end
