(* ===== verification/Ledger.thy ===== *)
theory Ledger
  imports Schema
begin

text \<open>
  The contract behind the two ledgers of the program. Stock (\<open>products.stock_quantity\<close> over
  \<open>inventory_movements\<close>) and customer debt (\<open>customers.balance\<close> over \<open>credit_transactions\<close>) follow
  the same pattern: an append-only table of signed entries, a cached balance on the account row, and
  one single function that appends an entry, stamps it with the balance after it and moves the cache
  by the same amount. The locale \<open>cached_ledger\<close> states what that function promises; its lemmas are
  the reasons the cache can be trusted. \<open>Inventory\<close> and \<open>Credit\<close> interpret it on their functions.

  The locale \<open>ledger_repair\<close> is the contract of one round of the repair loops (\<open>recompute_stock\<close>,
  \<open>recompute_balances\<close>).
\<close>

fun running :: "int \<Rightarrow> (int \<times> int) list \<Rightarrow> bool" where
  "running b [] \<longleftrightarrow> True"
| "running b ((d, a) # es) \<longleftrightarrow> a = b + d \<and> running a es"

lemma running_append:
  "running b (xs @ ys) \<longleftrightarrow> running b xs \<and> running (b + sum_list (map fst xs)) ys"
  by (induction b xs rule: running.induct) (auto simp: add.assoc)

lemma running_nth:
  assumes "running b es" and "i < length es"
  shows "snd (es ! i) = b + sum_list (map fst (take (Suc i) es))"
  using assms
proof (induction b es arbitrary: i rule: running.induct)
  case (1 b)
  then show ?case by simp
next
  case (2 b d a es)
  show ?case
  proof (cases i)
    case 0
    with 2 show ?thesis by simp
  next
    case (Suc j)
    with 2 have "snd (es ! j) = a + sum_list (map fst (take (Suc j) es))"
      by (intro "2.IH") auto
    with 2 Suc show ?thesis by simp
  qed
qed

locale cached_ledger =
  fixes cache :: "'s \<Rightarrow> 'k \<Rightarrow> int"
    and entries :: "'s \<Rightarrow> 'k \<Rightarrow> (int \<times> int) list"
    and posts :: "'k \<Rightarrow> int \<Rightarrow> 's \<Rightarrow> 's \<Rightarrow> bool"
  assumes posts_cache: "posts k d s s' \<Longrightarrow> cache s' k = cache s k + d"
    and posts_entries: "posts k d s s' \<Longrightarrow> entries s' k = entries s k @ [(d, cache s' k)]"
    and posts_cache_other: "posts k d s s' \<Longrightarrow> k' \<noteq> k \<Longrightarrow> cache s' k' = cache s k'"
    and posts_entries_other: "posts k d s s' \<Longrightarrow> k' \<noteq> k \<Longrightarrow> entries s' k' = entries s k'"
begin

definition settled :: "'s \<Rightarrow> 'k \<Rightarrow> bool" where
  "settled s k \<longleftrightarrow> cache s k = sum_list (map fst (entries s k)) \<and> running 0 (entries s k)"

inductive posted :: "'s \<Rightarrow> 's \<Rightarrow> bool" where
  posted_none: "posted s s"
| posted_one: "posted s s' \<Longrightarrow> posts k d s' s'' \<Longrightarrow> posted s s''"

lemma posts_settled:
  assumes "posts k d s s'" and "settled s k'"
  shows "settled s' k'"
proof (cases "k' = k")
  case True
  with assms posts_cache posts_entries show ?thesis
    by (auto simp: settled_def running_append)
next
  case False
  with assms posts_cache_other posts_entries_other show ?thesis by (auto simp: settled_def)
qed

text \<open>However many entries are posted, to whichever accounts, the cache is the sum of the ledger.\<close>

lemma posted_settled: "posted s s' \<Longrightarrow> settled s k \<Longrightarrow> settled s' k"
  by (induction rule: posted.induct) (auto intro: posts_settled)

text \<open>A settled ledger's stamped balances are its partial sums.\<close>

lemma settled_balance_after:
  assumes "settled s k" and "i < length (entries s k)"
  shows "snd (entries s k ! i) = sum_list (map fst (take (Suc i) (entries s k)))"
  using running_nth [of 0 "entries s k" i] assms by (simp add: settled_def)

text \<open>The ledger only grows.\<close>

lemma posted_append_only: "posted s s' \<Longrightarrow> \<exists>new. entries s' k = entries s k @ new"
proof (induction rule: posted.induct)
  case (posted_none s)
  then show ?case by simp
next
  case (posted_one s s' k0 d s'')
  then show ?case using posts_entries [OF posted_one(2)] posts_entries_other [OF posted_one(2)]
    by (cases "k = k0") auto
qed

end

text \<open>A ledger whose account never goes below zero: every stamped balance is non-negative.\<close>

locale nonnegative_ledger = cached_ledger cache entries posts
  for cache :: "'s \<Rightarrow> 'k \<Rightarrow> int" and entries posts +
  assumes posts_nonneg: "posts k d s s' \<Longrightarrow> 0 \<le> cache s' k"
begin

lemma posted_nonneg:
  assumes "posted s s'" and "0 \<le> cache s k" and "\<forall>e \<in> set (entries s k). 0 \<le> snd e"
  shows "0 \<le> cache s' k \<and> (\<forall>e \<in> set (entries s' k). 0 \<le> snd e)"
  using assms
proof (induction rule: posted.induct)
  case (posted_none s)
  then show ?case by simp
next
  case (posted_one s s' k0 d s'')
  then show ?case
    using posts_entries [OF posted_one(2)] posts_nonneg [OF posted_one(2)]
      posts_entries_other [OF posted_one(2)] posts_cache_other [OF posted_one(2)]
    by (cases "k = k0") auto
qed

end

text \<open>
  The repair loops: \<open>repair k\<close> compares the cache of account \<open>k\<close> with its ledger and, where they
  differ, rewrites the cache and reports the account. It never touches the ledger itself.
\<close>

locale ledger_repair =
  fixes cache :: "'s \<Rightarrow> 'k \<Rightarrow> int"
    and ledger :: "'s \<Rightarrow> 'k \<Rightarrow> int"
    and repair :: "'k \<Rightarrow> 's \<times> 'd list \<Rightarrow> 'e + 's \<times> 'd list"
  assumes repair_cache: "repair k (s, ds) = Inr (s', ds') \<Longrightarrow> cache s' k = ledger s k"
    and repair_cache_other:
      "repair k (s, ds) = Inr (s', ds') \<Longrightarrow> k' \<noteq> k \<Longrightarrow> cache s' k' = cache s k'"
    and repair_ledger: "repair k (s, ds) = Inr (s', ds') \<Longrightarrow> ledger s' k' = ledger s k'"
    and repair_settled: "cache s k = ledger s k \<Longrightarrow> repair k (s, ds) = Inr (s, ds)"
begin

lemma repair_all_ledger:
  "foldR repair ks (s, ds) = Inr (s', ds') \<Longrightarrow> ledger s' k = ledger s k"
proof (induction ks arbitrary: s ds)
  case Nil
  then show ?case by simp
next
  case (Cons k0 ks)
  then obtain t es where "repair k0 (s, ds) = Inr (t, es)" "foldR repair ks (t, es) = Inr (s', ds')"
    by (auto simp: result_simps)
  with Cons.IH [of t es] repair_ledger [of k0 s ds t es k] show ?case by simp
qed

lemma repair_all_other:
  "foldR repair ks (s, ds) = Inr (s', ds') \<Longrightarrow> k \<notin> set ks \<Longrightarrow> cache s' k = cache s k"
proof (induction ks arbitrary: s ds)
  case Nil
  then show ?case by simp
next
  case (Cons k0 ks)
  then obtain t es where "repair k0 (s, ds) = Inr (t, es)" "foldR repair ks (t, es) = Inr (s', ds')"
    by (auto simp: result_simps)
  with Cons.IH [of t es] Cons.prems(2) repair_cache_other [of k0 s ds t es k] show ?case by simp
qed

lemma repair_all_cache:
  "foldR repair ks (s, ds) = Inr (s', ds') \<Longrightarrow> k \<in> set ks \<Longrightarrow> cache s' k = ledger s k"
proof (induction ks arbitrary: s ds)
  case Nil
  then show ?case by simp
next
  case (Cons k0 ks)
  then obtain t es where t: "repair k0 (s, ds) = Inr (t, es)"
    and rest: "foldR repair ks (t, es) = Inr (s', ds')"
    by (auto simp: result_simps)
  show ?case
  proof (cases "k \<in> set ks")
    case True
    with Cons.IH [OF rest] repair_ledger [OF t] show ?thesis by simp
  next
    case False
    with Cons.prems(2) have "k = k0" by simp
    with repair_all_other [OF rest False] repair_cache [OF t] show ?thesis by simp
  qed
qed

text \<open>On a consistent state the loop neither writes nor reports anything.\<close>

lemma repair_all_settled:
  "(\<And>k. k \<in> set ks \<Longrightarrow> cache s k = ledger s k) \<Longrightarrow> foldR repair ks (s, ds) = Inr (s, ds)"
  by (induction ks) (simp_all add: repair_settled)

end

text \<open>
  Idempotent writes. A request \<open>q\<close> may carry a key; \<open>stored k s\<close> is the digest and the result an earlier
  request with key \<open>k\<close> left in the database. The contract: a success leaves its digest and result
  under the key, a request whose digest is stored is answered with the stored result, one with a
  different digest is refused, and neither changes the database. \<open>admissible\<close> collects what the
  operation checks before it looks at the key.
\<close>

locale idempotent_operation =
  fixes run :: "'k \<Rightarrow> 'q \<Rightarrow> 's \<Rightarrow> (error + 'r) \<times> 's"
    and digest :: "'q \<Rightarrow> 'h"
    and stored :: "'k \<Rightarrow> 's \<Rightarrow> ('h \<times> 'r) option"
    and admissible :: "'q \<Rightarrow> 's \<Rightarrow> bool"
    and conflict :: error
  assumes run_stores: "run k q s = (Inr r, s') \<Longrightarrow> stored k s' = Some (digest q, r) \<and> admissible q s'"
    and run_replays: "stored k s = Some (digest q, r) \<Longrightarrow> admissible q s \<Longrightarrow> run k q s = (Inr r, s)"
    and run_conflicts: "stored k s = Some (h, r) \<Longrightarrow> h \<noteq> digest q \<Longrightarrow> admissible q s
      \<Longrightarrow> run k q s = (Inl conflict, s)"
begin

text \<open>Sending a request again, any number of times, has the effect and the answer of sending it once.\<close>

lemma retry_once: "run k q s = (Inr r, s') \<Longrightarrow> run k q s' = (Inr r, s')"
  by (blast dest: run_stores intro: run_replays)

lemma retry_many:
  assumes "run k q s = (Inr r, s')"
  shows "((\<lambda>out :: (error + 'r) \<times> 's. run k q (snd out)) ^^ n) (Inr r, s') = (Inr r, s')"
  by (induction n) (simp_all add: retry_once [OF assms])

text \<open>Reusing the key for a request with another digest is refused.\<close>

lemma reuse_refused:
  assumes "run k q s = (Inr r, s')" and "digest q' \<noteq> digest q" and "admissible q' s'"
  shows "run k q' s' = (Inl conflict, s')"
  using run_stores [OF assms(1)] assms(2,3) by (intro run_conflicts) auto

end

end
