(* ===== verification/Inventory.thy ===== *)
theory Inventory
  imports Ledger
begin

text \<open>
  The stock ledger: \<open>services/inventory.py\<close>, \<open>repositories/inventory.py\<close> and the product queries of
  \<open>repositories/products.py\<close> it uses.

  A product object of the session is an entry of its identity map, so two reads of the same row see
  the same object; the model names a product by its primary key and reads the current row where the
  code reads an attribute. Quantities are integers in thousandths, so \<open>quantize(QUANTITY_STEP)\<close> is the
  identity on them.
\<close>

subsection \<open>Requests\<close>

record RestockRequest =
  rq_product_id :: uuid
  rq_quantity :: quantity
  rq_unit_cost :: money
  rq_supplier_name :: "string option"
  rq_reason :: "string option"
  rq_update_cost_price :: bool

record AdjustmentRequest =
  aq_product_id :: uuid
  aq_quantity_delta :: quantity
  aq_reason :: string

record InitialStockRequest =
  iq_product_id :: uuid
  iq_quantity :: quantity
  iq_unit_cost :: money

text \<open>What the request schemas accept (\<open>max_digits\<close>, \<open>gt\<close>, \<open>ge\<close>, lengths).\<close>

definition valid_restock :: "RestockRequest \<Rightarrow> bool" where
  "valid_restock d \<longleftrightarrow> 0 < rq_quantity d \<and> fits_quantity (rq_quantity d)
     \<and> 0 \<le> rq_unit_cost d \<and> fits_money (rq_unit_cost d)
     \<and> opt_all (\<lambda>n. 0 < length n \<and> length n \<le> 120) (rq_supplier_name d)
     \<and> opt_all (\<lambda>n. 0 < length n \<and> length n \<le> 255) (rq_reason d)"

definition valid_adjustment :: "AdjustmentRequest \<Rightarrow> bool" where
  "valid_adjustment d \<longleftrightarrow> aq_quantity_delta d \<noteq> 0 \<and> fits_quantity (aq_quantity_delta d)
     \<and> 1 \<le> length (aq_reason d) \<and> length (aq_reason d) \<le> 255"

definition valid_initial_stock :: "InitialStockRequest \<Rightarrow> bool" where
  "valid_initial_stock d \<longleftrightarrow> 0 < iq_quantity d \<and> fits_quantity (iq_quantity d)
     \<and> 0 \<le> iq_unit_cost d \<and> fits_money (iq_unit_cost d)"

subsection \<open>Queries\<close>

definition product_row :: "uuid \<Rightarrow> db \<Rightarrow> product option" where
  "product_row pid s = find (\<lambda>p. p_id p = pid) (products s)"

definition get_product :: "uuid \<Rightarrow> uuid \<Rightarrow> db \<Rightarrow> product option" where
  "get_product bid pid s = find (\<lambda>p. p_business_id p = bid \<and> p_id p = pid) (products s)"

text \<open>The row lock is what makes the transactions of one product run one after the other; the
  sequential model has nothing else to say about it.\<close>

definition get_product_for_update :: "uuid \<Rightarrow> uuid \<Rightarrow> db \<Rightarrow> product option" where
  "get_product_for_update bid pid s = find (\<lambda>p. p_business_id p = bid \<and> p_id p = pid) (products s)"

definition list_tracked_product_ids :: "uuid \<Rightarrow> db \<Rightarrow> uuid list" where
  "list_tracked_product_ids bid s =
     sort (map p_id (filter (\<lambda>p. p_business_id p = bid \<and> p_track_inventory p) (products s)))"

definition movement_key :: "movement \<Rightarrow> time \<times> uuid" where
  "movement_key m = (m_created_at m, m_id m)"

definition list_movements_for_product :: "uuid \<Rightarrow> uuid \<Rightarrow> db \<Rightarrow> movement list" where
  "list_movements_for_product bid pid s = sort_key movement_key
     (filter (\<lambda>m. m_business_id m = bid \<and> m_product_id m = pid) (movements s))"

definition list_movements_for_sale :: "uuid \<Rightarrow> uuid \<Rightarrow> db \<Rightarrow> movement list" where
  "list_movements_for_sale bid sid s = sort_key movement_key
     (filter (\<lambda>m. m_business_id m = bid \<and> m_sale_id m = Some sid) (movements s))"

definition MAX_LIST_LIMIT :: nat where
  "MAX_LIST_LIMIT = 500"

definition repo_list_movements ::
  "uuid \<Rightarrow> uuid option \<Rightarrow> MovementType option \<Rightarrow> time option \<Rightarrow> time option \<Rightarrow> nat \<Rightarrow> db
    \<Rightarrow> movement list" where
  "repo_list_movements bid product_id movement_type occurred_from occurred_until limit s =
     take (min limit MAX_LIST_LIMIT) (rev (sort_key movement_key (filter (\<lambda>m.
       m_business_id m = bid
       \<and> opt_all (\<lambda>p. m_product_id m = p) product_id
       \<and> opt_all (\<lambda>t. m_movement_type m = t) movement_type
       \<and> opt_all (\<lambda>t. t \<le> m_occurred_at m) occurred_from
       \<and> opt_all (\<lambda>t. m_occurred_at m < t) occurred_until) (movements s))))"

definition count_movements_for_product :: "uuid \<Rightarrow> uuid \<Rightarrow> db \<Rightarrow> nat" where
  "count_movements_for_product bid pid s =
     length (filter (\<lambda>m. m_business_id m = bid \<and> m_product_id m = pid) (movements s))"

definition ledger_totals_for_product :: "uuid \<Rightarrow> uuid \<Rightarrow> db \<Rightarrow> quantity" where
  "ledger_totals_for_product bid pid s =
     total_where m_quantity_delta (\<lambda>m. m_business_id m = bid \<and> m_product_id m = pid) (movements s)"

definition low_threshold :: "quantity \<Rightarrow> product \<Rightarrow> quantity" where
  "low_threshold default_threshold p =
     (case p_low_stock_threshold p of None \<Rightarrow> default_threshold | Some t \<Rightarrow> t)"

text \<open>\<open>ORDER BY lower(name)\<close> follows the collation of the database: \<open>collate\<close> is the position it gives a
  name.\<close>

definition repo_list_low_stock ::
  "(string \<Rightarrow> int) \<Rightarrow> uuid \<Rightarrow> quantity \<Rightarrow> nat \<Rightarrow> db \<Rightarrow> (product \<times> quantity) list" where
  "repo_list_low_stock collate bid default_threshold limit s =
     take (min limit MAX_LIST_LIMIT) (map (\<lambda>p. (p, low_threshold default_threshold p))
       (sort_key (\<lambda>p. (p_stock_quantity p - low_threshold default_threshold p,
                       collate (py_lower (p_name p)), p_id p))
         (filter (\<lambda>p. p_business_id p = bid \<and> p_is_active p \<and> p_track_inventory p
                    \<and> p_stock_quantity p \<le> low_threshold default_threshold p) (products s))))"

subsection \<open>The single write path\<close>

definition set_stock :: "uuid \<Rightarrow> quantity \<Rightarrow> db \<Rightarrow> db" where
  "set_stock pid q s =
     s\<lparr>products := update_where (\<lambda>p. p_id p = pid) (\<lambda>p. p\<lparr>p_stock_quantity := q\<rparr>) (products s)\<rparr>"

definition set_cost_price :: "uuid \<Rightarrow> money option \<Rightarrow> db \<Rightarrow> db" where
  "set_cost_price pid c s =
     s\<lparr>products := update_where (\<lambda>p. p_id p = pid) (\<lambda>p. p\<lparr>p_cost_price := c\<rparr>) (products s)\<rparr>"

definition add_movement :: "movement \<Rightarrow> db \<Rightarrow> (movement \<times> db) result" where
  "add_movement m s =
     bindR (flush_row (movement_fits m) (movement_checks m)) (\<lambda>_.
     Inr (m, (drawn s)\<lparr>movements := movements s @ [m]\<rparr>))"

definition InsufficientStockError :: error where
  "InsufficientStockError = ConflictError ''INSUFFICIENT_STOCK''"

definition UntrackedProductError :: error where
  "UntrackedProductError = UnprocessableError ''PRODUCT_UNTRACKED''"

definition apply_movement ::
  "clock \<Rightarrow> BusinessContext \<Rightarrow> uuid \<Rightarrow> MovementType \<Rightarrow> quantity \<Rightarrow> money option \<Rightarrow> string option
    \<Rightarrow> string option \<Rightarrow> uuid option \<Rightarrow> time option \<Rightarrow> db \<Rightarrow> (movement \<times> db) result" where
  "apply_movement clk ctx pid movement_type quantity_delta unit_cost reason supplier_name sale_id
      occurred_at s =
     bindR (the_or KeyError (product_row pid s)) (\<lambda>product.
     bindR (raise_if (p_business_id product \<noteq> business_id ctx) RuntimeError) (\<lambda>_.
     bindR (raise_if (\<not> p_track_inventory product) UntrackedProductError) (\<lambda>_.
     let quantity_after = p_stock_quantity product + quantity_delta in
     bindR (raise_if (quantity_after < 0) InsufficientStockError) (\<lambda>_.
     let total_cost =
           map_option (\<lambda>c. quantize_cent (millis \<bar>quantity_delta\<bar> * cents c)) unit_cost;
         m = \<lparr>m_id = new_id s, m_business_id = business_id ctx, m_product_id = p_id product,
              m_movement_type = movement_type, m_quantity_delta = quantity_delta,
              m_quantity_after = quantity_after, m_unit_cost = unit_cost,
              m_total_cost = total_cost, m_sale_id = sale_id, m_supplier_name = supplier_name,
              m_reason = reason,
              m_occurred_at = (case occurred_at of None \<Rightarrow> now clk | Some t \<Rightarrow> t),
              m_created_by = user_id ctx, m_created_at = tx_now clk\<rparr>;
         product' = product\<lparr>p_stock_quantity := quantity_after\<rparr> in
     bindR (flush_row (product_fits product') (product_checks product')) (\<lambda>_.
     add_movement m (set_stock pid quantity_after s))))))"

subsection \<open>Operations\<close>

definition ENTITY_TYPE :: string where
  "ENTITY_TYPE = ''product''"

definition ProductAlreadyStockedError :: error where
  "ProductAlreadyStockedError = ConflictError ''PRODUCT_ALREADY_STOCKED''"

definition ProductArchivedError :: error where
  "ProductArchivedError = ConflictError ''PRODUCT_ARCHIVED''"

definition locked_active_tracked_product ::
  "BusinessContext \<Rightarrow> uuid \<Rightarrow> db \<Rightarrow> product result" where
  "locked_active_tracked_product ctx pid s =
     bindR (the_or NotFoundError (get_product_for_update (business_id ctx) pid s)) (\<lambda>product.
     bindR (raise_if (\<not> p_is_active product) ProductArchivedError) (\<lambda>_.
     bindR (raise_if (\<not> p_track_inventory product) UntrackedProductError) (\<lambda>_.
     Inr product)))"

definition movement_payload :: "movement \<Rightarrow> payload" where
  "movement_payload m = [(''movement_id'', JUuid (m_id m)),
     (''quantity_delta'', JQuantity (m_quantity_delta m)),
     (''quantity_after'', JQuantity (m_quantity_after m)),
     (''unit_cost'', opt_json JMoney (m_unit_cost m))]"

definition check_restock_permission :: "BusinessContext \<Rightarrow> unit result" where
  "check_restock_permission ctx =
     raise_if (role ctx \<noteq> OWNER \<and> \<not> staff_can_restock (settings ctx))
       (PermissionDeniedError ''FORBIDDEN'')"

definition restock_in_transaction ::
  "clock \<Rightarrow> BusinessContext \<Rightarrow> RestockRequest \<Rightarrow> ClientInfo option \<Rightarrow> payload \<Rightarrow> db
    \<Rightarrow> (movement \<times> db) result" where
  "restock_in_transaction clk ctx data client extra_audit s =
     bindR (locked_active_tracked_product ctx (rq_product_id data) s) (\<lambda>product.
     bindR (apply_movement clk ctx (p_id product) RESTOCK (rq_quantity data)
              (Some (rq_unit_cost data)) (rq_reason data) (rq_supplier_name data) None None s)
       (\<lambda>(movement, s).
     let new_cost = rq_unit_cost data;
         changed = rq_update_cost_price data \<and> p_cost_price product \<noteq> Some new_cost;
         after = movement_payload movement @ (if changed then
           [(''cost_price'', JObject [(''before'', opt_json JMoney (p_cost_price product)),
                                      (''after'', JMoney new_cost)])] else []);
         product' = product\<lparr>p_cost_price := Some new_cost,
           p_stock_quantity := m_quantity_after movement\<rparr> in
     bindR (if changed then flush_row (product_fits product') (product_checks product')
            else Inr ()) (\<lambda>_.
     let s = (if changed then set_cost_price (p_id product) (Some new_cost) s else s) in
     Inr (movement, audit_record ctx ''inventory.restock'' ENTITY_TYPE (p_id product)
            None (Some (dict_update after extra_audit)) client s))))"

definition restock ::
  "clock \<Rightarrow> BusinessContext \<Rightarrow> RestockRequest \<Rightarrow> ClientInfo option \<Rightarrow> db \<Rightarrow> movement result \<times> db" where
  "restock clk ctx data client s =
     (case check_restock_permission ctx of
        Inl e \<Rightarrow> (Inl e, s)
      | Inr _ \<Rightarrow> transaction (restock_in_transaction clk ctx data client []) s)"

definition adjust_body ::
  "clock \<Rightarrow> BusinessContext \<Rightarrow> AdjustmentRequest \<Rightarrow> ClientInfo option \<Rightarrow> db \<Rightarrow> (movement \<times> db) result"
where
  "adjust_body clk ctx data client s =
     bindR (locked_active_tracked_product ctx (aq_product_id data) s) (\<lambda>product.
     bindR (apply_movement clk ctx (p_id product) ADJUSTMENT (aq_quantity_delta data)
              None (Some (aq_reason data)) None None None s) (\<lambda>(movement, s).
     Inr (movement, audit_record ctx ''inventory.adjust'' ENTITY_TYPE (p_id product)
       (Some [(''stock_quantity'',
               JQuantity (m_quantity_after movement - m_quantity_delta movement))])
       (Some (movement_payload movement @ [(''reason'', JText (aq_reason data))])) client s)))"

definition adjust ::
  "clock \<Rightarrow> BusinessContext \<Rightarrow> AdjustmentRequest \<Rightarrow> ClientInfo option \<Rightarrow> db \<Rightarrow> movement result \<times> db" where
  "adjust clk ctx data client = transaction (adjust_body clk ctx data client)"

definition set_initial_stock_body ::
  "clock \<Rightarrow> BusinessContext \<Rightarrow> InitialStockRequest \<Rightarrow> ClientInfo option \<Rightarrow> db
    \<Rightarrow> (movement \<times> db) result" where
  "set_initial_stock_body clk ctx data client s =
     bindR (locked_active_tracked_product ctx (iq_product_id data) s) (\<lambda>product.
     bindR (raise_if (count_movements_for_product (business_id ctx) (p_id product) s \<noteq> 0)
              ProductAlreadyStockedError) (\<lambda>_.
     bindR (apply_movement clk ctx (p_id product) INITIAL (iq_quantity data)
              (Some (iq_unit_cost data)) None None None None s) (\<lambda>(movement, s).
     Inr (movement, audit_record ctx ''inventory.initial'' ENTITY_TYPE (p_id product)
       None (Some (movement_payload movement)) client s))))"

definition set_initial_stock ::
  "clock \<Rightarrow> BusinessContext \<Rightarrow> InitialStockRequest \<Rightarrow> ClientInfo option \<Rightarrow> db \<Rightarrow> movement result \<times> db"
where
  "set_initial_stock clk ctx data client = transaction (set_initial_stock_body clk ctx data client)"

definition list_movements ::
  "BusinessContext \<Rightarrow> uuid option \<Rightarrow> MovementType option \<Rightarrow> time option \<Rightarrow> time option \<Rightarrow> nat \<Rightarrow> db
    \<Rightarrow> movement list result" where
  "list_movements ctx product_id movement_type occurred_from occurred_until limit s =
     bindR (raise_if (\<not> opt_all (\<lambda>p. get_product (business_id ctx) p s \<noteq> None) product_id)
              NotFoundError) (\<lambda>_.
     Inr (repo_list_movements (business_id ctx) product_id movement_type occurred_from
            occurred_until limit s))"

definition list_low_stock ::
  "(string \<Rightarrow> int) \<Rightarrow> BusinessContext \<Rightarrow> nat \<Rightarrow> db \<Rightarrow> (product \<times> quantity) list" where
  "list_low_stock collate ctx limit s = repo_list_low_stock collate (business_id ctx)
     (1000 * low_stock_default_threshold (settings ctx)) limit s"

subsection \<open>Recomputing the cache\<close>

record StockDiscrepancy =
  sd_product_id :: uuid
  sd_cached_stock :: quantity
  sd_ledger_stock :: quantity
  sd_repaired :: bool

record RecomputeResult =
  products_checked :: nat
  discrepancies :: "StockDiscrepancy list"
  applied :: bool

definition recompute_product ::
  "BusinessContext \<Rightarrow> bool \<Rightarrow> ClientInfo option \<Rightarrow> uuid \<Rightarrow> db \<times> StockDiscrepancy list
    \<Rightarrow> (db \<times> StockDiscrepancy list) result" where
  "recompute_product ctx apply client pid acc = (case acc of (s, found) \<Rightarrow>
     (case get_product_for_update (business_id ctx) pid s of
        None \<Rightarrow> Inr (s, found)
      | Some product \<Rightarrow>
          let ledger = ledger_totals_for_product (business_id ctx) pid s;
              cached = p_stock_quantity product;
              row = \<lparr>sd_product_id = pid, sd_cached_stock = cached, sd_ledger_stock = ledger,
                     sd_repaired = apply\<rparr>;
              product' = product\<lparr>p_stock_quantity := ledger\<rparr> in
          if cached = ledger then Inr (s, found)
          else if apply then
            bindR (flush_row (product_fits product') (product_checks product')) (\<lambda>_.
            Inr (audit_record ctx ''inventory.recompute'' ENTITY_TYPE (p_id product)
                   (Some [(''stock_quantity'', JQuantity cached)])
                   (Some [(''stock_quantity'', JQuantity ledger)]) client (set_stock pid ledger s),
                 found @ [row]))
          else Inr (s, found @ [row])))"

definition recompute_stock_body ::
  "BusinessContext \<Rightarrow> bool \<Rightarrow> ClientInfo option \<Rightarrow> db \<Rightarrow> (RecomputeResult \<times> db) result" where
  "recompute_stock_body ctx apply client s =
     (let product_ids = list_tracked_product_ids (business_id ctx) s in
      bindR (foldR (recompute_product ctx apply client) product_ids (s, [])) (\<lambda>(s, found).
      Inr (\<lparr>products_checked = length product_ids, discrepancies = found, applied = apply\<rparr>, s)))"

definition recompute_stock ::
  "BusinessContext \<Rightarrow> bool \<Rightarrow> ClientInfo option \<Rightarrow> db \<Rightarrow> RecomputeResult result \<times> db" where
  "recompute_stock ctx apply client = transaction (recompute_stock_body ctx apply client)"

subsection \<open>Lookups and writes\<close>

lemma product_row_set_stock [simp]:
  "product_row k (set_stock pid q s) =
     map_option (\<lambda>p. if p_id p = pid then p\<lparr>p_stock_quantity := q\<rparr> else p) (product_row k s)"
  by (simp add: product_row_def set_stock_def find_update_where)

lemma get_product_set_stock [simp]:
  "get_product bid k (set_stock pid q s) =
     map_option (\<lambda>p. if p_id p = pid then p\<lparr>p_stock_quantity := q\<rparr> else p) (get_product bid k s)"
  by (simp add: get_product_def set_stock_def find_update_where)

lemma get_product_for_update_eq [simp]: "get_product_for_update = get_product"
  by (simp add: fun_eq_iff get_product_def get_product_for_update_def)

lemma get_product_SomeD:
  assumes "get_product bid pid s = Some p"
  shows "p_id p = pid \<and> p_business_id p = bid \<and> p \<in> set (products s)"
  using find_SomeD [OF assms [unfolded get_product_def]] by simp

lemma product_row_SomeD:
  assumes "product_row pid s = Some p"
  shows "p_id p = pid \<and> p \<in> set (products s)"
  using find_SomeD [OF assms [unfolded product_row_def]] by simp

lemma product_row_unique:
  assumes "distinct (map p_id (products s))" and "p \<in> set (products s)"
  shows "product_row (p_id p) s = Some p"
  unfolding product_row_def by (rule find_unique [of p_id]) (use assms in auto)

lemma get_product_row:
  assumes "distinct (map p_id (products s))" and "get_product bid pid s = Some p"
  shows "product_row pid s = Some p"
  using product_row_unique [OF assms(1)] get_product_SomeD [OF assms(2)] by blast

lemma set_stock_simps [simp]:
  "movements (set_stock pid q s) = movements s" "categories (set_stock pid q s) = categories s"
  "customers (set_stock pid q s) = customers s"
  "credit_transactions (set_stock pid q s) = credit_transactions s"
  "sales (set_stock pid q s) = sales s" "sale_items (set_stock pid q s) = sale_items s"
  "payments (set_stock pid q s) = payments s"
  "mpesa_messages (set_stock pid q s) = mpesa_messages s"
  "receipts (set_stock pid q s) = receipts s" "receipt_lines (set_stock pid q s) = receipt_lines s"
  "expenses (set_stock pid q s) = expenses s" "audit_logs (set_stock pid q s) = audit_logs s"
  "uuid4 (set_stock pid q s) = uuid4 s" "draws (set_stock pid q s) = draws s"
  by (simp_all add: set_stock_def)

lemma set_cost_price_simps [simp]:
  "movements (set_cost_price pid q s) = movements s"
  "categories (set_cost_price pid q s) = categories s"
  "customers (set_cost_price pid q s) = customers s"
  "credit_transactions (set_cost_price pid q s) = credit_transactions s"
  "sales (set_cost_price pid q s) = sales s" "sale_items (set_cost_price pid q s) = sale_items s"
  "payments (set_cost_price pid q s) = payments s"
  "mpesa_messages (set_cost_price pid q s) = mpesa_messages s"
  "receipts (set_cost_price pid q s) = receipts s"
  "receipt_lines (set_cost_price pid q s) = receipt_lines s"
  "expenses (set_cost_price pid q s) = expenses s"
  "audit_logs (set_cost_price pid q s) = audit_logs s"
  "uuid4 (set_cost_price pid q s) = uuid4 s" "draws (set_cost_price pid q s) = draws s"
  by (simp_all add: set_cost_price_def)

text \<open>What a successful movement is: the entry, the new cache and nothing else.\<close>

definition movement_of ::
  "clock \<Rightarrow> BusinessContext \<Rightarrow> uuid \<Rightarrow> MovementType \<Rightarrow> quantity \<Rightarrow> money option \<Rightarrow> string option
    \<Rightarrow> string option \<Rightarrow> uuid option \<Rightarrow> time option \<Rightarrow> quantity \<Rightarrow> uuid \<Rightarrow> movement" where
  "movement_of clk ctx pid ty d cost reason supplier sale occurred q mid =
     \<lparr>m_id = mid, m_business_id = business_id ctx, m_product_id = pid, m_movement_type = ty,
      m_quantity_delta = d, m_quantity_after = q, m_unit_cost = cost,
      m_total_cost = map_option (\<lambda>c. quantize_cent (millis \<bar>d\<bar> * cents c)) cost,
      m_sale_id = sale, m_supplier_name = supplier, m_reason = reason,
      m_occurred_at = (case occurred of None \<Rightarrow> now clk | Some t \<Rightarrow> t),
      m_created_by = user_id ctx, m_created_at = tx_now clk\<rparr>"

lemma movement_of_simps [simp]:
  "m_id (movement_of clk ctx pid ty d cost reason supplier sale occurred q mid) = mid"
  "m_product_id (movement_of clk ctx pid ty d cost reason supplier sale occurred q mid) = pid"
  "m_business_id (movement_of clk ctx pid ty d cost reason supplier sale occurred q mid)
    = business_id ctx"
  "m_movement_type (movement_of clk ctx pid ty d cost reason supplier sale occurred q mid) = ty"
  "m_quantity_delta (movement_of clk ctx pid ty d cost reason supplier sale occurred q mid) = d"
  "m_quantity_after (movement_of clk ctx pid ty d cost reason supplier sale occurred q mid) = q"
  "m_sale_id (movement_of clk ctx pid ty d cost reason supplier sale occurred q mid) = sale"
  "m_unit_cost (movement_of clk ctx pid ty d cost reason supplier sale occurred q mid) = cost"
  by (simp_all add: movement_of_def)

lemma apply_movement_success:
  "apply_movement clk ctx pid ty d cost reason supplier sale occurred s = Inr (m, s') \<longleftrightarrow>
     (\<exists>p. product_row pid s = Some p \<and> p_business_id p = business_id ctx \<and> p_track_inventory p
        \<and> 0 \<le> p_stock_quantity p + d
        \<and> m = movement_of clk ctx pid ty d cost reason supplier sale occurred
                (p_stock_quantity p + d) (new_id s)
        \<and> product_fits (p\<lparr>p_stock_quantity := p_stock_quantity p + d\<rparr>)
        \<and> product_checks (p\<lparr>p_stock_quantity := p_stock_quantity p + d\<rparr>)
        \<and> movement_fits m \<and> movement_checks m
        \<and> s' = (drawn (set_stock pid (p_stock_quantity p + d) s))\<lparr>movements := movements s @ [m]\<rparr>)"
  by (auto simp: apply_movement_def add_movement_def result_simps Let_def movement_of_def
      dest: product_row_SomeD)

text \<open>A movement touches no other table.\<close>

lemma apply_movement_frame:
  assumes "apply_movement clk ctx pid ty d cost reason supplier sale occurred s = Inr (m, s')"
  shows "movements s' = movements s @ [m]" "map p_id (products s') = map p_id (products s)"
    "categories s' = categories s" "customers s' = customers s"
    "credit_transactions s' = credit_transactions s" "sales s' = sales s"
    "sale_items s' = sale_items s" "payments s' = payments s" "mpesa_messages s' = mpesa_messages s"
    "receipts s' = receipts s" "receipt_lines s' = receipt_lines s" "expenses s' = expenses s"
    "audit_logs s' = audit_logs s" "uuid4 s' = uuid4 s" "draws s' = Suc (draws s)"
  using assms by (auto simp: apply_movement_success set_stock_def map_update_where)

subsection \<open>The stock ledger is a cached ledger\<close>

definition stock_of :: "db \<Rightarrow> uuid \<Rightarrow> quantity" where
  "stock_of s pid = (case product_row pid s of None \<Rightarrow> 0 | Some p \<Rightarrow> p_stock_quantity p)"

definition stock_entries :: "db \<Rightarrow> uuid \<Rightarrow> (int \<times> int) list" where
  "stock_entries s pid = map (\<lambda>m. (m_quantity_delta m, m_quantity_after m))
     (filter (\<lambda>m. m_product_id m = pid) (movements s))"

definition moves :: "uuid \<Rightarrow> quantity \<Rightarrow> db \<Rightarrow> db \<Rightarrow> bool" where
  "moves pid d s s' \<longleftrightarrow> (\<exists>clk ctx ty cost reason supplier sale occurred m.
     apply_movement clk ctx pid ty d cost reason supplier sale occurred s = Inr (m, s'))"

lemma stock_of_move:
  assumes "apply_movement clk ctx pid ty d cost reason supplier sale occurred s = Inr (m, s')"
  shows "stock_of s' k = (if k = pid then stock_of s k + d else stock_of s k)"
    and "stock_entries s' k
      = (if k = pid then stock_entries s k @ [(d, stock_of s' k)] else stock_entries s k)"
    and "0 \<le> stock_of s pid + d"
proof -
  from assms obtain p where p: "product_row pid s = Some p" "0 \<le> p_stock_quantity p + d"
    and s': "s' = (drawn (set_stock pid (p_stock_quantity p + d) s))\<lparr>movements := movements s @ [m]\<rparr>"
    and m: "m_product_id m = pid" "m_quantity_delta m = d"
      "m_quantity_after m = p_stock_quantity p + d"
    by (auto simp: apply_movement_success)
  have row: "product_row k s' = product_row k (set_stock pid (p_stock_quantity p + d) s)" for k
    by (simp add: s' product_row_def drawn_def)
  show *: "stock_of s' k = (if k = pid then stock_of s k + d else stock_of s k)" for k
    using p(1) by (cases "product_row k s") (auto simp: stock_of_def row dest: product_row_SomeD)
  show "0 \<le> stock_of s pid + d" using p by (simp add: stock_of_def)
  have ms: "movements s' = movements s @ [m]" by (simp add: s')
  show "stock_entries s' k
      = (if k = pid then stock_entries s k @ [(d, stock_of s' k)] else stock_entries s k)"
    using p m * [of k] by (auto simp: stock_entries_def ms stock_of_def)
qed

interpretation stock: nonnegative_ledger stock_of stock_entries moves
  by unfold_locales (auto simp: moves_def stock_of_move(1,2) dest: stock_of_move(3))

lemma apply_movement_moves:
  "apply_movement clk ctx pid ty d cost reason supplier sale occurred s = Inr (m, s') \<Longrightarrow> moves pid d s s'"
  unfolding moves_def by blast

subsection \<open>The stock invariant\<close>

definition stock_account :: "db \<Rightarrow> product \<Rightarrow> bool" where
  "stock_account s p \<longleftrightarrow>
     p_stock_quantity p
       = total_where m_quantity_delta (\<lambda>m. m_product_id m = p_id p) (movements s)
     \<and> running 0 (stock_entries s (p_id p)) \<and> 0 \<le> p_stock_quantity p
     \<and> (p_track_inventory p \<or> stock_entries s (p_id p) = [])"

definition stock_ok :: "db \<Rightarrow> bool" where
  "stock_ok s \<longleftrightarrow> distinct (map p_id (products s))
     \<and> (\<forall>p \<in> set (products s). stock_account s p)
     \<and> (\<forall>m \<in> set (movements s). 0 \<le> m_quantity_after m
          \<and> (\<exists>p \<in> set (products s). p_id p = m_product_id m \<and> p_business_id p = m_business_id m))"

definition stock_view :: "product \<Rightarrow> uuid \<times> uuid \<times> quantity \<times> bool" where
  "stock_view p = (p_id p, p_business_id p, p_stock_quantity p, p_track_inventory p)"

lemma stock_ok_view:
  "stock_ok s \<longleftrightarrow> distinct (map fst (map stock_view (products s)))
     \<and> (\<forall>(i, b, q, t) \<in> set (map stock_view (products s)).
          q = total_where m_quantity_delta (\<lambda>m. m_product_id m = i) (movements s)
          \<and> running 0 (stock_entries s i) \<and> 0 \<le> q \<and> (t \<or> stock_entries s i = []))
     \<and> (\<forall>m \<in> set (movements s). 0 \<le> m_quantity_after m
          \<and> (\<exists>(i, b, q, t) \<in> set (map stock_view (products s)). i = m_product_id m \<and> b = m_business_id m))"
  by (simp add: stock_ok_def stock_account_def stock_view_def o_def)

text \<open>Operations that leave these columns and the movements alone keep the invariant.\<close>

lemma stock_ok_cong:
  assumes "map stock_view (products s') = map stock_view (products s)" "movements s' = movements s"
  shows "stock_ok s' \<longleftrightarrow> stock_ok s"
  unfolding stock_ok_view stock_entries_def assms ..

lemma stock_entries_total:
  "sum_list (map fst (stock_entries s pid))
    = total_where m_quantity_delta (\<lambda>m. m_product_id m = pid) (movements s)"
  by (simp add: stock_entries_def total_where_def o_def)

lemma stock_account_settled:
  assumes "distinct (map p_id (products s))" and "p \<in> set (products s)"
  shows "stock_account s p \<longleftrightarrow> stock.settled s (p_id p) \<and> 0 \<le> stock_of s (p_id p)
     \<and> (p_track_inventory p \<or> stock_entries s (p_id p) = [])"
  using product_row_unique [OF assms]
  by (auto simp: stock_account_def stock.settled_def stock_entries_total stock_of_def)

lemma apply_movement_stock_ok:
  assumes ok: "stock_ok s"
    and am: "apply_movement clk ctx pid ty d cost reason supplier sale occurred s = Inr (m, s')"
  shows "stock_ok s'"
proof -
  note posts = apply_movement_moves [OF am]
  from am obtain p where p: "product_row pid s = Some p" "p_business_id p = business_id ctx"
      "p_track_inventory p" "0 \<le> p_stock_quantity p + d"
    and s': "s' = (drawn (set_stock pid (p_stock_quantity p + d) s))\<lparr>movements := movements s @ [m]\<rparr>"
    and m: "m_product_id m = pid" "m_business_id m = business_id ctx"
      "m_quantity_after m = p_stock_quantity p + d"
    by (auto simp: apply_movement_success)
  have prods: "products s' = update_where (\<lambda>p. p_id p = pid)
      (\<lambda>r. r\<lparr>p_stock_quantity := p_stock_quantity p + d\<rparr>) (products s)"
    and ms: "movements s' = movements s @ [m]"
    by (simp_all add: s' set_stock_def)
  have dist: "distinct (map p_id (products s))" and pin: "p \<in> set (products s)" "p_id p = pid"
    using ok product_row_SomeD [OF p(1)] by (auto simp: stock_ok_def)
  have ids: "map p_id (products s') = map p_id (products s)"
    unfolding prods by (rule map_update_where) simp
  then have dist': "distinct (map p_id (products s'))" using dist by simp
  have "stock_account s' q'" if q': "q' \<in> set (products s')" for q'
  proof -
    from q' obtain q where q: "q \<in> set (products s)" "p_id q' = p_id q"
        "p_track_inventory q' = p_track_inventory q"
      by (auto simp: prods set_update_where split: if_splits)
    have "stock_account s q" using ok q(1) by (simp add: stock_ok_def)
    then have st: "stock.settled s (p_id q)" "0 \<le> stock_of s (p_id q)"
        "p_track_inventory q \<or> stock_entries s (p_id q) = []"
      using stock_account_settled [OF dist q(1)] by auto
    have "stock.settled s' (p_id q)" by (rule stock.posts_settled [OF posts st(1)])
    moreover have "0 \<le> stock_of s' (p_id q)"
      using st(2) stock_of_move(1,3) [OF am] by (cases "p_id q = pid") auto
    moreover have "q = p" if "p_id q = pid"
      using that product_row_unique [OF dist q(1)] p(1) by simp
    then have "p_track_inventory q \<or> stock_entries s' (p_id q) = []"
      using st(3) p(3) m by (auto simp: stock_entries_def ms)
    ultimately show ?thesis using stock_account_settled [OF dist' q'] q by simp
  qed
  moreover have "\<exists>q \<in> set (products s'). p_id q = p_id r \<and> p_business_id q = p_business_id r"
    if "r \<in> set (products s)" for r
    using image_eqI [OF refl that, of "\<lambda>r. if p_id r = pid
      then r\<lparr>p_stock_quantity := p_stock_quantity p + d\<rparr> else r"]
    by (intro bexI [where x = "if p_id r = pid
      then r\<lparr>p_stock_quantity := p_stock_quantity p + d\<rparr> else r"]) (simp_all add: prods set_update_where)
  then have "\<exists>q \<in> set (products s'). p_id q = m_product_id x \<and> p_business_id q = m_business_id x"
    if "x \<in> set (movements s')" for x
    using that ok m p(2) pin by (simp add: ms stock_ok_def) metis
  ultimately show ?thesis
    using dist' ok p(4) m(3) by (auto simp: stock_ok_def ms)
qed

lemma set_cost_price_stock_ok [simp]: "stock_ok (set_cost_price pid c s) \<longleftrightarrow> stock_ok s"
  by (rule stock_ok_cong) (simp_all add: set_cost_price_def map_update_where stock_view_def)

lemma audit_record_stock_ok [simp]: "stock_ok (audit_record ctx a t i b f c s) \<longleftrightarrow> stock_ok s"
  by (rule stock_ok_cong) simp_all

lemma drawn_stock_ok [simp]: "stock_ok (drawn s) \<longleftrightarrow> stock_ok s"
  by (rule stock_ok_cong) simp_all

subsection \<open>The operations keep the invariant\<close>

lemma locked_product_success:
  "locked_active_tracked_product ctx pid s = Inr p \<longleftrightarrow>
     get_product (business_id ctx) pid s = Some p \<and> p_is_active p \<and> p_track_inventory p"
  by (auto simp: locked_active_tracked_product_def result_simps)

lemma restock_in_transaction_success:
  assumes "restock_in_transaction clk ctx data client extra s = Inr (m, s')"
  obtains p t after where "get_product (business_id ctx) (rq_product_id data) s = Some p"
    "p_is_active p" "p_track_inventory p"
    "apply_movement clk ctx (rq_product_id data) RESTOCK (rq_quantity data) (Some (rq_unit_cost data))
       (rq_reason data) (rq_supplier_name data) None None s = Inr (m, t)"
    "s' = audit_record ctx ''inventory.restock'' ENTITY_TYPE (rq_product_id data) None (Some after) client
       (if rq_update_cost_price data \<and> p_cost_price p \<noteq> Some (rq_unit_cost data)
        then set_cost_price (rq_product_id data) (Some (rq_unit_cost data)) t else t)"
proof -
  from assms obtain p where p: "get_product (business_id ctx) (rq_product_id data) s = Some p"
      "p_is_active p" "p_track_inventory p"
    by (auto simp: restock_in_transaction_def result_simps locked_product_success)
  moreover have "p_id p = rq_product_id data" using get_product_SomeD [OF p(1)] by simp
  ultimately show thesis using assms that
    by (auto simp: restock_in_transaction_def result_simps locked_product_success Let_def
        split: prod.splits if_splits)
qed

lemma restock_in_transaction_stock_ok:
  assumes "stock_ok s" and "restock_in_transaction clk ctx data client extra s = Inr (m, s')"
  shows "stock_ok s'"
  using assms(2) by (rule restock_in_transaction_success) (auto intro: apply_movement_stock_ok [OF assms(1)])

lemma adjust_body_success:
  assumes "adjust_body clk ctx data client s = Inr (m, s')"
  obtains p t b f where "get_product (business_id ctx) (aq_product_id data) s = Some p"
    "p_is_active p" "p_track_inventory p"
    "apply_movement clk ctx (aq_product_id data) ADJUSTMENT (aq_quantity_delta data) None
       (Some (aq_reason data)) None None None s = Inr (m, t)"
    "s' = audit_record ctx ''inventory.adjust'' ENTITY_TYPE (aq_product_id data) b f client t"
proof -
  from assms obtain p where p: "get_product (business_id ctx) (aq_product_id data) s = Some p"
      "p_is_active p" "p_track_inventory p"
    by (auto simp: adjust_body_def result_simps locked_product_success)
  moreover have "p_id p = aq_product_id data" using get_product_SomeD [OF p(1)] by simp
  ultimately show thesis using assms that
    by (auto simp: adjust_body_def result_simps locked_product_success split: prod.splits)
qed

lemma set_initial_stock_body_success:
  assumes "set_initial_stock_body clk ctx data client s = Inr (m, s')"
  obtains p t f where "get_product (business_id ctx) (iq_product_id data) s = Some p"
    "p_is_active p" "p_track_inventory p"
    "count_movements_for_product (business_id ctx) (iq_product_id data) s = 0"
    "apply_movement clk ctx (iq_product_id data) INITIAL (iq_quantity data)
       (Some (iq_unit_cost data)) None None None None s = Inr (m, t)"
    "s' = audit_record ctx ''inventory.initial'' ENTITY_TYPE (iq_product_id data) None f client t"
proof -
  from assms obtain p where p: "get_product (business_id ctx) (iq_product_id data) s = Some p"
      "p_is_active p" "p_track_inventory p"
    by (auto simp: set_initial_stock_body_def result_simps locked_product_success)
  moreover have "p_id p = iq_product_id data" using get_product_SomeD [OF p(1)] by simp
  ultimately show thesis using assms that
    by (auto simp: set_initial_stock_body_def result_simps locked_product_success split: prod.splits)
qed

lemma restock_stock_ok: "stock_ok s \<Longrightarrow> stock_ok (snd (restock clk ctx data client s))"
  using transaction_preserves [where P = stock_ok, OF _ restock_in_transaction_stock_ok]
  by (cases "check_restock_permission ctx") (auto simp: restock_def)

lemma adjust_stock_ok: "stock_ok s \<Longrightarrow> stock_ok (snd (adjust clk ctx data client s))"
  unfolding adjust_def
  by (rule transaction_preserves [where P = stock_ok])
    (auto elim!: adjust_body_success intro: apply_movement_stock_ok)

lemma set_initial_stock_stock_ok:
  "stock_ok s \<Longrightarrow> stock_ok (snd (set_initial_stock clk ctx data client s))"
  unfolding set_initial_stock_def
  by (rule transaction_preserves [where P = stock_ok])
    (auto elim!: set_initial_stock_body_success intro: apply_movement_stock_ok)

subsection \<open>What the operations write\<close>

lemma stock_ok_writes:
  "writes T s s' \<Longrightarrow> T_products \<notin> T \<Longrightarrow> T_movements \<notin> T \<Longrightarrow> stock_ok s' \<longleftrightarrow> stock_ok s"
  by (rule stock_ok_cong) (simp_all add: writes_def)

lemma apply_movement_writes:
  assumes "apply_movement clk ctx pid ty d cost reason supplier sale occurred s = Inr (m, s')"
  shows "writes {T_products, T_movements} s s'"
  by (simp add: writes_def apply_movement_frame [OF assms])

lemma set_cost_price_writes: "writes {T_products} s (set_cost_price pid c s)"
  by (simp add: writes_def)

abbreviation stock_tables :: "table set" where
  "stock_tables \<equiv> {T_products, T_movements, T_audit_logs}"

lemma apply_movement_stock_tables:
  "apply_movement clk ctx pid ty d cost reason supplier sale occurred s = Inr (m, s')
    \<Longrightarrow> writes stock_tables s s'"
  by (rule writes_mono, erule apply_movement_writes) auto

lemma restock_in_transaction_writes:
  assumes "restock_in_transaction clk ctx data client extra s = Inr (m, s')"
  shows "writes stock_tables s s'"
  using assms
proof (rule restock_in_transaction_success)
  fix p t after
  assume am: "apply_movement clk ctx (rq_product_id data) RESTOCK (rq_quantity data)
      (Some (rq_unit_cost data)) (rq_reason data) (rq_supplier_name data) None None s = Inr (m, t)"
    and s': "s' = audit_record ctx ''inventory.restock'' ENTITY_TYPE (rq_product_id data) None
      (Some after) client (if rq_update_cost_price data \<and> p_cost_price p \<noteq> Some (rq_unit_cost data)
      then set_cost_price (rq_product_id data) (Some (rq_unit_cost data)) t else t)"
  have "writes stock_tables t (set_cost_price (rq_product_id data) (Some (rq_unit_cost data)) t)"
    by (rule writes_mono [OF set_cost_price_writes]) auto
  with apply_movement_stock_tables [OF am] show ?thesis
    unfolding s' by (auto intro!: writes_audit intro: writes_trans)
qed

lemma restock_writes: "writes stock_tables s (snd (restock clk ctx data client s))"
  by (cases "check_restock_permission ctx")
    (auto simp: restock_def intro: writes_transaction restock_in_transaction_writes)

lemma adjust_writes: "writes stock_tables s (snd (adjust clk ctx data client s))"
  unfolding adjust_def
  by (rule writes_transaction)
    (auto elim!: adjust_body_success intro!: writes_audit dest: apply_movement_stock_tables)

lemma set_initial_stock_writes: "writes stock_tables s (snd (set_initial_stock clk ctx data client s))"
  unfolding set_initial_stock_def
  by (rule writes_transaction)
    (auto elim!: set_initial_stock_body_success intro!: writes_audit dest: apply_movement_stock_tables)

lemma known_ids_set_stock [simp]: "known_ids (set_stock pid q s) = known_ids s"
  by (simp add: known_ids_def set_stock_def image_update_where)

lemma known_ids_set_cost_price [simp]: "known_ids (set_cost_price pid q s) = known_ids s"
  by (simp add: known_ids_def set_cost_price_def image_update_where)

lemma apply_movement_grows:
  assumes "apply_movement clk ctx pid ty d cost reason supplier sale occurred s = Inr (m, s')"
    and "opt_all (\<lambda>i. i \<in> known_ids s) sale"
  shows "grows s s'"
proof -
  from assms(1) obtain q where
    s': "s' = (drawn (set_stock pid q s))\<lparr>movements := movements s @ [m]\<rparr>" and m: "m_sale_id m = sale"
    by (auto simp: apply_movement_success)
  have "known_ids s' \<subseteq> known_ids (set_stock pid q s) \<union> {i. sale = Some i}"
    unfolding s' known_ids_def by (auto simp: m)
  with assms(2) show ?thesis by (cases sale) (auto simp: grows_def s')
qed

lemma restock_in_transaction_grows:
  assumes "restock_in_transaction clk ctx data client extra s = Inr (m, s')"
  shows "grows s s'"
  using assms
proof (rule restock_in_transaction_success)
  fix p t after
  assume am: "apply_movement clk ctx (rq_product_id data) RESTOCK (rq_quantity data)
      (Some (rq_unit_cost data)) (rq_reason data) (rq_supplier_name data) None None s = Inr (m, t)"
    and s': "s' = audit_record ctx ''inventory.restock'' ENTITY_TYPE (rq_product_id data) None
      (Some after) client (if rq_update_cost_price data \<and> p_cost_price p \<noteq> Some (rq_unit_cost data)
      then set_cost_price (rq_product_id data) (Some (rq_unit_cost data)) t else t)"
  have "grows s t" by (rule apply_movement_grows [OF am]) simp
  then show ?thesis unfolding s' by (intro grows_audit) (simp add: grows_def)
qed

lemma restock_grows: "grows s (snd (restock clk ctx data client s))"
  by (cases "check_restock_permission ctx")
    (auto simp: restock_def intro: grows_transaction restock_in_transaction_grows)

lemma adjust_grows: "grows s (snd (adjust clk ctx data client s))"
  unfolding adjust_def
  by (rule grows_transaction) (auto elim!: adjust_body_success intro!: grows_audit dest: apply_movement_grows)

lemma set_initial_stock_grows: "grows s (snd (set_initial_stock clk ctx data client s))"
  unfolding set_initial_stock_def
  by (rule grows_transaction)
    (auto elim!: set_initial_stock_body_success intro!: grows_audit dest: apply_movement_grows)

subsection \<open>Recomputing is a repair loop\<close>

definition cached_stock :: "uuid \<Rightarrow> db \<Rightarrow> uuid \<Rightarrow> quantity" where
  "cached_stock bid s pid = (case get_product bid pid s of
     None \<Rightarrow> ledger_totals_for_product bid pid s | Some p \<Rightarrow> p_stock_quantity p)"

lemma ledger_totals_frame [simp]:
  "ledger_totals_for_product b k (audit_record ctx a t i bf f c s) = ledger_totals_for_product b k s"
  "ledger_totals_for_product b k (set_stock pid q s) = ledger_totals_for_product b k s"
  by (simp_all add: ledger_totals_for_product_def)

lemma get_product_audit_record [simp]:
  "get_product b k (audit_record ctx a t i bf f c s) = get_product b k s"
  by (simp add: get_product_def)

interpretation stock_repair: ledger_repair "cached_stock (business_id ctx)"
  "\<lambda>s k. ledger_totals_for_product (business_id ctx) k s" "recompute_product ctx True client"
  for ctx client
proof (unfold_locales, goal_cases)
  case (1 k s ds s' ds')
  then show ?case
    by (auto simp: recompute_product_def cached_stock_def Let_def result_simps
        split: option.splits if_splits dest: get_product_SomeD)
next
  case (2 k s ds s' ds' k')
  then show ?case
    by (auto simp: recompute_product_def cached_stock_def Let_def result_simps
        split: option.splits if_splits dest: get_product_SomeD)
next
  case (3 k s ds s' ds' k')
  then show ?case
    by (auto simp: recompute_product_def Let_def result_simps
        split: option.splits if_splits)
next
  case (4 s k ds)
  then show ?case
    by (auto simp: recompute_product_def cached_stock_def Let_def split: option.splits)
qed

lemma recompute_product_movements:
  "recompute_product ctx apply client k (s, ds) = Inr (s', ds') \<Longrightarrow> movements s' = movements s"
  by (auto simp: recompute_product_def Let_def result_simps split: option.splits if_splits)

lemma stock_ok_ledger:
  assumes "stock_ok s" and "get_product b k s = Some p"
  shows "ledger_totals_for_product b k s = p_stock_quantity p"
proof -
  from assms(2) have p: "p_id p = k" "p_business_id p = b" "p \<in> set (products s)"
    using get_product_SomeD by blast+
  have "m_business_id m = b" if "m \<in> set (movements s)" "m_product_id m = k" for m
  proof -
    from that assms(1) obtain q where q: "q \<in> set (products s)" "p_id q = k"
        "p_business_id q = m_business_id m"
      by (auto simp: stock_ok_def)
    with p assms(1) have "q = p"
      using product_row_unique [of s q] product_row_unique [of s p] by (auto simp: stock_ok_def)
    with q p show ?thesis by simp
  qed
  then have "filter (\<lambda>m. m_business_id m = b \<and> m_product_id m = k) (movements s)
      = filter (\<lambda>m. m_product_id m = k) (movements s)"
    by (intro filter_cong) auto
  with assms(1) p show ?thesis
    by (auto simp: ledger_totals_for_product_def total_where_def stock_ok_def stock_account_def)
qed

text \<open>Only reporting: with \<open>apply=False\<close> a round never writes, and a consistent product is never reported.\<close>

lemma recompute_report_only:
  "foldR (recompute_product ctx False client) ks (s, ds) = Inr (s', ds') \<Longrightarrow> s' = s"
proof (induction ks arbitrary: ds)
  case Nil
  then show ?case by simp
next
  case (Cons k ks)
  from Cons.prems obtain t es where t: "recompute_product ctx False client k (s, ds) = Inr (t, es)"
    and rest: "foldR (recompute_product ctx False client) ks (t, es) = Inr (s', ds')"
    by (auto simp: result_simps)
  from t have "t = s"
    by (auto simp: recompute_product_def Let_def split: option.splits if_splits)
  with Cons.IH [of es] rest show ?case by simp
qed

lemma recompute_consistent:
  assumes "stock_ok s"
  shows "foldR (recompute_product ctx apply client) ks (s, ds) = Inr (s, ds)"
proof (induction ks)
  case Nil
  then show ?case by simp
next
  case (Cons k ks)
  have "recompute_product ctx apply client k (s, ds) = Inr (s, ds)"
    using stock_ok_ledger [OF assms]
    by (auto simp: recompute_product_def split: option.splits)
  with Cons show ?case by simp
qed

lemma recompute_stock_stock_ok:
  "stock_ok s \<Longrightarrow> stock_ok (snd (recompute_stock ctx apply client s))"
  by (simp add: recompute_stock_def transaction_def recompute_stock_body_def Let_def
      recompute_consistent)

lemma recompute_all_movements:
  assumes "foldR (recompute_product ctx apply client) ks (s, ds) = Inr (s', ds')"
  shows "movements s' = movements s"
  using foldR_frame [where g = "movements \<circ> fst", OF assms] recompute_product_movements by force

lemma recompute_product_writes:
  "recompute_product ctx apply client k (s, ds) = Inr (s', ds') \<Longrightarrow> writes stock_tables s s'"
  by (auto simp: recompute_product_def Let_def result_simps writes_def split: option.splits if_splits)

lemma recompute_stock_writes: "writes stock_tables s (snd (recompute_stock ctx apply client s))"
  unfolding recompute_stock_def
proof (rule writes_transaction)
  fix r s'
  assume "recompute_stock_body ctx apply client s = Inr (r, s')"
  then obtain ks ds where "foldR (recompute_product ctx apply client) ks (s, []) = Inr (s', ds)"
    by (auto simp: recompute_stock_body_def Let_def result_simps)
  then show "writes stock_tables s s'" by (rule writes_foldR_acc) (rule recompute_product_writes)
qed

lemma recompute_product_grows:
  "recompute_product ctx apply client k (s, ds) = Inr (s', ds') \<Longrightarrow> grows s s'"
  by (auto simp: recompute_product_def Let_def result_simps grows_def split: option.splits if_splits)

lemma recompute_stock_grows: "grows s (snd (recompute_stock ctx apply client s))"
  unfolding recompute_stock_def
proof (rule grows_transaction)
  fix r s'
  assume "recompute_stock_body ctx apply client s = Inr (r, s')"
  then obtain ks ds where "foldR (recompute_product ctx apply client) ks (s, []) = Inr (s', ds)"
    by (auto simp: recompute_stock_body_def Let_def result_simps)
  then show "grows s s'" by (rule grows_foldR_acc) (rule recompute_product_grows)
qed

subsection \<open>Properties\<close>

lemma product_row_frame [simp]:
  "product_row k (audit_record ctx a t i b f c s) = product_row k s"
  "product_row k (drawn s) = product_row k s"
  "product_row k (s\<lparr>movements := ms\<rparr>) = product_row k s"
  "product_row k (set_cost_price pid q s) =
     map_option (\<lambda>p. if p_id p = pid then p\<lparr>p_cost_price := q\<rparr> else p) (product_row k s)"
  by (simp_all add: product_row_def set_cost_price_def find_update_where)

text \<open>
  C3. A restock that succeeds was allowed (OWNER, or STAFF with \<open>staff_can_restock\<close>), puts exactly the
  received quantity on the product's stock, records one RESTOCK movement stamped with the new
  stock, changes the cost price exactly when asked to, and leaves every other product alone. One
  that fails changes nothing, and without permission it always fails.
\<close>

theorem restock_outcome:
  assumes "stock_ok s" and "restock clk ctx data client s = (r, s')"
  shows "(\<forall>e. r = Inl e \<longrightarrow> s' = s)
    \<and> (role ctx \<noteq> OWNER \<and> \<not> staff_can_restock (settings ctx)
         \<longrightarrow> r = Inl (PermissionDeniedError ''FORBIDDEN''))
    \<and> (\<forall>m. r = Inr m \<longrightarrow> (\<exists>p.
         product_row (rq_product_id data) s = Some p \<and> p_is_active p \<and> p_track_inventory p
         \<and> product_row (rq_product_id data) s' = Some (p\<lparr>
             p_stock_quantity := p_stock_quantity p + rq_quantity data,
             p_cost_price := (if rq_update_cost_price data then Some (rq_unit_cost data)
                              else p_cost_price p)\<rparr>)
         \<and> movements s' = movements s @ [m] \<and> m_movement_type m = RESTOCK
         \<and> m_quantity_delta m = rq_quantity data
         \<and> m_quantity_after m = p_stock_quantity p + rq_quantity data
         \<and> m_unit_cost m = Some (rq_unit_cost data)
         \<and> (\<forall>k. k \<noteq> rq_product_id data \<longrightarrow> product_row k s' = product_row k s)))"
proof (cases "check_restock_permission ctx")
  case (Inl e)
  with assms(2) show ?thesis
    by (auto simp: restock_def check_restock_permission_def)
next
  case (Inr u)
  then have allowed: "role ctx = OWNER \<or> staff_can_restock (settings ctx)"
    by (auto simp: check_restock_permission_def)
  have run: "transaction (restock_in_transaction clk ctx data client []) s = (r, s')"
    using assms(2) Inr by (simp add: restock_def)
  show ?thesis
  proof (cases r)
    case (Inl e)
    with run allowed show ?thesis by (auto simp: transaction_cases)
  next
    case (Inr m)
    with run have "restock_in_transaction clk ctx data client [] s = Inr (m, s')"
      by (auto simp: transaction_cases)
    then obtain p t after where gp: "get_product (business_id ctx) (rq_product_id data) s = Some p"
      and p: "p_is_active p" "p_track_inventory p"
      and am: "apply_movement clk ctx (rq_product_id data) RESTOCK (rq_quantity data)
        (Some (rq_unit_cost data)) (rq_reason data) (rq_supplier_name data) None None s = Inr (m, t)"
      and s': "s' = audit_record ctx ''inventory.restock'' ENTITY_TYPE (rq_product_id data) None
        (Some after) client (if rq_update_cost_price data \<and> p_cost_price p \<noteq> Some (rq_unit_cost data)
        then set_cost_price (rq_product_id data) (Some (rq_unit_cost data)) t else t)"
      by (rule restock_in_transaction_success)
    have row: "product_row (rq_product_id data) s = Some p" and pid: "p_id p = rq_product_id data"
      using assms(1) get_product_row [OF _ gp] get_product_SomeD [OF gp] by (auto simp: stock_ok_def)
    have other: "product_row k s' = product_row k s" if "k \<noteq> rq_product_id data" for k
      using am that by (cases "product_row k s")
        (auto simp: apply_movement_success s' dest: product_row_SomeD)
    show ?thesis
      using am row p allowed Inr other pid
      by (auto simp: apply_movement_success s' split: if_splits)
  qed
qed

definition demo_shop :: db where
  "demo_shop = (empty_db id)\<lparr>products := [demo_product 101 ''Sugar 1kg'' 15000 0,
     demo_product 102 ''Milk 500ml'' 6500 0], draws := 200\<rparr>"

definition demo_restock :: RestockRequest where
  "demo_restock = \<lparr>rq_product_id = 101, rq_quantity = 2500, rq_unit_cost = 12050,
     rq_supplier_name = Some ''Kamau'', rq_reason = None, rq_update_cost_price = True\<rparr>"

lemma demo_shop_ok: "stock_ok demo_shop"
  by code_simp

text \<open>A run of an operation that is not an error is a success.\<close>

lemma not_isl_result:
  assumes "\<not> isl (fst (run :: 'a result \<times> db))"
  obtains x s' where "run = (Inr x, s')"
  using assms by (cases run; cases "fst run") auto

theorem restock_outcome_witness:
  "\<exists>m s' p. restock demo_clock demo_owner demo_restock None demo_shop = (Inr m, s')
     \<and> product_row 101 demo_shop = Some p
     \<and> product_row 101 s' = Some (p\<lparr>p_stock_quantity := p_stock_quantity p + 2500,
                                   p_cost_price := Some 12050\<rparr>)
     \<and> movements s' = [m]"
proof -
  have "\<not> isl (fst (restock demo_clock demo_owner demo_restock None demo_shop))" by code_simp
  then obtain m s' where run: "restock demo_clock demo_owner demo_restock None demo_shop = (Inr m, s')"
    by (rule not_isl_result)
  show ?thesis
    using restock_outcome [OF demo_shop_ok run] run
    by (auto simp: demo_restock_def demo_shop_def empty_db_def)
qed

text \<open>
  An adjustment never takes stock below zero: on an active tracked product of the business whose
  stock is smaller than the amount to take off it is refused with INSUFFICIENT_STOCK and nothing is
  written; otherwise, when the new stock fits its column, it succeeds and the stock is exactly the
  old stock plus the signed delta.
\<close>

theorem adjust_outcome:
  assumes "stock_ok s" and "valid_adjustment data"
    and "get_product (business_id ctx) (aq_product_id data) s = Some p"
    and "p_is_active p" and "p_track_inventory p" and "product_fits p" and "product_checks p"
    and "fits_quantity (p_stock_quantity p + aq_quantity_delta data)"
  shows "if p_stock_quantity p + aq_quantity_delta data < 0
     then adjust clk ctx data client s = (Inl InsufficientStockError, s)
     else \<exists>m s'. adjust clk ctx data client s = (Inr m, s')
       \<and> stock_of s' (aq_product_id data) = p_stock_quantity p + aq_quantity_delta data
       \<and> movements s' = movements s @ [m] \<and> m_reason m = Some (aq_reason data)"
proof -
  have row: "product_row (aq_product_id data) s = Some p" and p: "p_id p = aq_product_id data"
      "p_business_id p = business_id ctx"
    using assms(1) get_product_row [OF _ assms(3)] get_product_SomeD [OF assms(3)]
    by (auto simp: stock_ok_def)
  have locked: "locked_active_tracked_product ctx (aq_product_id data) s = Inr p"
    using assms by (simp add: locked_product_success)
  show ?thesis
  proof (cases "p_stock_quantity p + aq_quantity_delta data < 0")
    case True
    then have "adjust_body clk ctx data client s = Inl InsufficientStockError"
      using locked row p assms(5) by (simp add: adjust_body_def apply_movement_def)
    with True show ?thesis by (simp add: adjust_def transaction_def)
  next
    case False
    let ?q = "p_stock_quantity p + aq_quantity_delta data"
    let ?m = "movement_of clk ctx (aq_product_id data) ADJUSTMENT (aq_quantity_delta data) None
      (Some (aq_reason data)) None None None ?q (new_id s)"
    have "product_fits (p\<lparr>p_stock_quantity := ?q\<rparr>)" "product_checks (p\<lparr>p_stock_quantity := ?q\<rparr>)"
        "movement_fits ?m" "movement_checks ?m"
      using False assms by (auto simp: product_fits_def product_checks_def movement_fits_def
          movement_checks_def valid_adjustment_def movement_of_def)
    then obtain t where am: "apply_movement clk ctx (aq_product_id data) ADJUSTMENT
        (aq_quantity_delta data) None (Some (aq_reason data)) None None None s = Inr (?m, t)"
      using False row p assms(5) by (auto simp: apply_movement_success)
    then have "\<exists>s'. adjust clk ctx data client s = (Inr ?m, s') \<and> movements s' = movements s @ [?m]
        \<and> stock_of s' (aq_product_id data) = stock_of t (aq_product_id data)"
      using locked p apply_movement_frame(1) [OF am]
      by (simp add: adjust_def transaction_def adjust_body_def stock_of_def)
    moreover have "stock_of t (aq_product_id data) = ?q"
      using stock_of_move(1) [OF am, of "aq_product_id data"] row by (simp add: stock_of_def)
    ultimately show ?thesis using False by (auto simp: movement_of_def)
  qed
qed

theorem adjust_outcome_witness:
  "let s = snd (restock demo_clock demo_owner demo_restock None demo_shop);
       data = \<lparr>aq_product_id = 101, aq_quantity_delta = - 3000, aq_reason = ''spoiled''\<rparr> in
   adjust demo_clock demo_owner data None s = (Inl InsufficientStockError, s)"
proof -
  define s where "s = snd (restock demo_clock demo_owner demo_restock None demo_shop)"
  define data where "data = \<lparr>aq_product_id = 101, aq_quantity_delta = - 3000, aq_reason = ''spoiled''\<rparr>"
  define p where "p = (demo_product 101 ''Sugar 1kg'' 15000 2500)\<lparr>p_cost_price := Some 12050\<rparr>"
  have "stock_ok s" unfolding s_def by (rule restock_stock_ok [OF demo_shop_ok])
  moreover have "valid_adjustment data" unfolding data_def by code_simp
  moreover have "get_product (business_id demo_owner) (aq_product_id data) s = Some p"
    unfolding s_def data_def p_def by code_simp
  moreover have "p_is_active p" "p_track_inventory p" "product_fits p" "product_checks p"
      "fits_quantity (p_stock_quantity p + aq_quantity_delta data)"
      "p_stock_quantity p + aq_quantity_delta data < 0"
    unfolding p_def data_def by code_simp+
  ultimately show ?thesis
    using adjust_outcome [of s data demo_owner p demo_clock None]
    unfolding s_def [symmetric] data_def [symmetric] Let_def by simp
qed

lemma get_product_of_row:
  assumes "distinct (map p_id (products s))" and "product_row k s = Some p"
  shows "get_product (p_business_id p) k s = Some p"
  using assms product_row_SomeD [OF assms(2)] unfolding get_product_def
  by (intro find_unique [of p_id]) auto

text \<open>
  Opening stock is set at most once: it succeeds only on a product without movements, whose stock
  then is exactly the opening quantity, and every later attempt for that product is refused with
  PRODUCT_ALREADY_STOCKED, leaving the database as it is.
\<close>

theorem set_initial_stock_once:
  assumes "stock_ok s" and "set_initial_stock clk ctx data client s = (Inr m, s')"
    and "business_id ctx' = business_id ctx" and "iq_product_id data' = iq_product_id data"
  shows "stock_of s' (iq_product_id data) = iq_quantity data
    \<and> filter (\<lambda>m. m_product_id m = iq_product_id data) (movements s') = [m]
    \<and> set_initial_stock clk' ctx' data' client' s' = (Inl ProductAlreadyStockedError, s')"
proof -
  let ?k = "iq_product_id data"
  have "set_initial_stock_body clk ctx data client s = Inr (m, s')"
    using assms(2) by (auto simp: set_initial_stock_def transaction_cases)
  then obtain p t f where gp: "get_product (business_id ctx) ?k s = Some p"
    and p: "p_is_active p" "p_track_inventory p"
    and none: "count_movements_for_product (business_id ctx) ?k s = 0"
    and am: "apply_movement clk ctx ?k INITIAL (iq_quantity data)
       (Some (iq_unit_cost data)) None None None None s = Inr (m, t)"
    and s': "s' = audit_record ctx ''inventory.initial'' ENTITY_TYPE ?k None f client t"
    by (rule set_initial_stock_body_success)
  have dist: "distinct (map p_id (products s))" using assms(1) by (simp add: stock_ok_def)
  have row: "product_row ?k s = Some p" by (rule get_product_row [OF dist gp])
  have ms: "movements s' = movements s @ [m]" using apply_movement_frame(1) [OF am] s' by simp
  have m: "m_product_id m = ?k" "m_business_id m = business_id ctx"
    using am by (auto simp: apply_movement_success)
  have "p_stock_quantity p = 0"
    using stock_ok_ledger [OF assms(1) gp] none
    by (simp add: ledger_totals_for_product_def count_movements_for_product_def total_where_def)
  then have st: "stock_of s ?k = 0" by (simp add: stock_of_def row)
  have "stock_entries s ?k = []"
  proof -
    have "m_business_id x = business_id ctx" if "x \<in> set (movements s)" "m_product_id x = ?k" for x
    proof -
      from assms(1) that(1) obtain q where "q \<in> set (products s)" "p_id q = m_product_id x"
          "p_business_id q = m_business_id x"
        by (auto simp: stock_ok_def)
      with that row gp show ?thesis
        using product_row_unique [OF dist, of q] get_product_SomeD [OF gp] by auto
    qed
    with none show ?thesis
      by (auto simp: stock_entries_def count_movements_for_product_def filter_empty_conv)
  qed
  then have "filter (\<lambda>m. m_product_id m = ?k) (movements s') = [m]"
    using m ms by (simp add: stock_entries_def)
  moreover have "stock_of s' ?k = iq_quantity data"
    using stock_of_move(1) [OF am, of ?k] st by (simp add: stock_of_def s')
  moreover have "set_initial_stock_body clk' ctx' data' client' s' = Inl ProductAlreadyStockedError"
  proof -
    obtain p' where p': "product_row ?k s' = Some p'" "p_is_active p'" "p_track_inventory p'"
        "p_business_id p' = business_id ctx"
      using am p row by (auto simp: apply_movement_success s' dest: product_row_SomeD)
    have "distinct (map p_id (products s'))"
      using dist apply_movement_frame(2) [OF am] by (simp add: s')
    from get_product_of_row [OF this p'(1)] have "get_product (business_id ctx) ?k s' = Some p'"
      using p'(4) by simp
    then have "locked_active_tracked_product ctx' (iq_product_id data') s' = Inr p'"
      using p' assms(3,4) by (simp add: locked_product_success)
    moreover have "count_movements_for_product (business_id ctx') (p_id p') s' \<noteq> 0"
      using m assms(3) product_row_SomeD [OF p'(1)] by (simp add: count_movements_for_product_def ms)
    ultimately show ?thesis by (simp add: set_initial_stock_body_def)
  qed
  ultimately show ?thesis by (simp add: set_initial_stock_def transaction_def)
qed

definition demo_initial :: InitialStockRequest where
  "demo_initial = \<lparr>iq_product_id = 102, iq_quantity = 48000, iq_unit_cost = 5200\<rparr>"

theorem set_initial_stock_once_witness:
  "\<exists>s'. snd (set_initial_stock demo_clock demo_owner demo_initial None demo_shop) = s'
     \<and> stock_of s' 102 = 48000
     \<and> set_initial_stock demo_clock demo_staff demo_initial None s' = (Inl ProductAlreadyStockedError, s')"
proof -
  have "\<not> isl (fst (set_initial_stock demo_clock demo_owner demo_initial None demo_shop))" by code_simp
  then obtain m s' where
    run: "set_initial_stock demo_clock demo_owner demo_initial None demo_shop = (Inr m, s')"
    by (rule not_isl_result)
  have "business_id demo_staff = business_id demo_owner" by (simp add: demo_staff_def)
  from set_initial_stock_once [OF demo_shop_ok run this refl, of demo_clock None] run
  show ?thesis by (simp add: demo_initial_def)
qed

text \<open>
  \<open>recompute_stock\<close> with \<open>apply\<close> makes the cached stock of every tracked product of the business
  equal to the sum of its movements, whatever it was before, and writes no movement.
\<close>

theorem recompute_stock_repairs:
  assumes "recompute_stock ctx True client s = (Inr r, s')"
  shows "movements s' = movements s
    \<and> (\<forall>p \<in> set (products s). p_business_id p = business_id ctx \<and> p_track_inventory p \<longrightarrow>
         cached_stock (business_id ctx) s' (p_id p)
           = ledger_totals_for_product (business_id ctx) (p_id p) s')"
proof -
  let ?ks = "list_tracked_product_ids (business_id ctx) s"
  from assms obtain ds where run: "foldR (recompute_product ctx True client) ?ks (s, []) = Inr (s', ds)"
    by (auto simp: recompute_stock_def transaction_cases recompute_stock_body_def Let_def result_simps)
  have "cached_stock (business_id ctx) s' k = ledger_totals_for_product (business_id ctx) k s'"
    if "k \<in> set ?ks" for k
    using stock_repair.repair_all_cache [OF run that] stock_repair.repair_all_ledger [OF run, of k] by simp
  moreover have "p_id p \<in> set ?ks"
    if "p \<in> set (products s)" "p_business_id p = business_id ctx" "p_track_inventory p" for p
    using that by (auto simp: list_tracked_product_ids_def)
  ultimately show ?thesis using recompute_all_movements [OF run] by blast
qed

definition demo_drifted :: db where
  "demo_drifted = demo_shop\<lparr>products := [demo_product 101 ''Sugar 1kg'' 15000 7000,
     demo_product 102 ''Milk 500ml'' 6500 0]\<rparr>"

theorem recompute_stock_repairs_witness:
  "cached_stock 900 demo_drifted 101 = 7000
   \<and> cached_stock 900 (snd (recompute_stock demo_owner True None demo_drifted)) 101 = 0"
proof -
  have "\<not> isl (fst (recompute_stock demo_owner True None demo_drifted))" by code_simp
  then obtain r s' where run: "recompute_stock demo_owner True None demo_drifted = (Inr r, s')"
    by (rule not_isl_result)
  have "cached_stock 900 demo_drifted 101 = 7000" by code_simp
  moreover have "ledger_totals_for_product 900 101 s' = 0"
    using recompute_stock_repairs [OF run]
    by (simp add: ledger_totals_for_product_def demo_drifted_def demo_shop_def empty_db_def)
  then have "cached_stock 900 s' 101 = 0"
    using recompute_stock_repairs [OF run] by (auto simp: demo_drifted_def demo_defs)
  ultimately show ?thesis using run by simp
qed

text \<open>
  On a database that satisfies the stock invariant \<open>recompute_stock\<close> reports no discrepancy and
  leaves the database alone, with or without \<open>apply\<close>.
\<close>

theorem recompute_stock_idle:
  assumes "stock_ok s"
  shows "recompute_stock ctx apply client s =
    (Inr \<lparr>products_checked = length (list_tracked_product_ids (business_id ctx) s),
          discrepancies = [], applied = apply\<rparr>, s)"
  by (simp add: recompute_stock_def transaction_def recompute_stock_body_def Let_def
      recompute_consistent [OF assms])

theorem recompute_stock_idle_witness:
  "recompute_stock demo_owner True None demo_shop
    = (Inr \<lparr>products_checked = 2, discrepancies = [], applied = True\<rparr>, demo_shop)"
proof -
  have "length (list_tracked_product_ids (business_id demo_owner) demo_shop) = 2" by code_simp
  then show ?thesis using recompute_stock_idle [OF demo_shop_ok, of demo_owner True None] by simp
qed

end
