(* ===== verification/Mpesa_Links.thy ===== *)
theory Mpesa_Links
  imports Schema
begin

text \<open>
  The links between M-Pesa messages and recorded money: \<open>link_by_code\<close> and \<open>unlink_payment\<close> of
  \<open>repositories/mpesa.py\<close>, and the two hooks of \<open>services/mpesa.py\<close> that sales and repayments call
  inside their own transactions. The rest of the M-Pesa service is in \<open>Mpesa\<close>, above \<open>Credit\<close>.

  The invariant \<open>mpesa_ok\<close> says that every message satisfies the table's constraints (in particular a
  MATCHED message links exactly one record and any other message none), that a code occurs once per
  business, and that no payment and no repayment is linked by two messages of its business.
\<close>

subsection \<open>Codes\<close>

definition code_of :: "string option \<Rightarrow> string option" where
  "code_of x = map_option (\<lambda>r. py_upper (sql_trim r)) x"

definition normalise :: "string option \<Rightarrow> string option" where
  "normalise reference = (case reference of None \<Rightarrow> None
     | Some r \<Rightarrow> (let code = py_upper (py_strip r) in if code = [] then None else Some code))"

subsection \<open>Linking\<close>

definition MPESA_ENTITY :: string where
  "MPESA_ENTITY = ''mpesa_message''"

definition linkable :: "uuid \<Rightarrow> string \<Rightarrow> mpesa_message \<Rightarrow> bool" where
  "linkable bid code m \<longleftrightarrow>
     mm_business_id m = bid \<and> mm_code m = Some code \<and> mm_status m = UNMATCHED"

definition linked_to ::
  "uuid option \<Rightarrow> uuid option \<Rightarrow> uuid \<Rightarrow> time \<Rightarrow> mpesa_message \<Rightarrow> mpesa_message" where
  "linked_to payment_id credit_transaction_id matched_by matched_at m =
     m\<lparr>mm_status := MATCHED, mm_payment_id := payment_id,
       mm_credit_transaction_id := credit_transaction_id,
       mm_matched_by := Some matched_by, mm_matched_at := Some matched_at\<rparr>"

text \<open>\<open>UPDATE ... RETURNING\<close> followed by \<open>one_or_none()\<close>: the constraints are checked on every updated
  row, and more than one returned row raises.\<close>

definition update_returning ::
  "(mpesa_message \<Rightarrow> bool) \<Rightarrow> (mpesa_message \<Rightarrow> mpesa_message) \<Rightarrow> db
    \<Rightarrow> (mpesa_message option \<times> db) result" where
  "update_returning hit change s =
     (let rows = filter hit (mpesa_messages s) in
      bindR (raise_if (\<not> list_all (\<lambda>m. mpesa_checks (change m)) rows)
               (IntegrityError check_violated)) (\<lambda>_.
      case rows of
        [] \<Rightarrow> Inr (None, s)
      | [m] \<Rightarrow> Inr (Some (change m),
                   s\<lparr>mpesa_messages := update_where hit change (mpesa_messages s)\<rparr>)
      | _ \<Rightarrow> Inl RuntimeError))"

definition link_by_code ::
  "uuid \<Rightarrow> string \<Rightarrow> uuid option \<Rightarrow> uuid option \<Rightarrow> uuid \<Rightarrow> time \<Rightarrow> db
    \<Rightarrow> (mpesa_message option \<times> db) result" where
  "link_by_code bid code payment_id credit_transaction_id matched_by matched_at =
     update_returning (linkable bid code)
       (linked_to payment_id credit_transaction_id matched_by matched_at)"

definition link_reference_in_transaction ::
  "clock \<Rightarrow> BusinessContext \<Rightarrow> string option \<Rightarrow> uuid option \<Rightarrow> uuid option \<Rightarrow> string
    \<Rightarrow> ClientInfo option \<Rightarrow> db \<Rightarrow> db result" where
  "link_reference_in_transaction clk ctx reference payment_id credit_transaction_id via client s =
     (case normalise reference of
        None \<Rightarrow> Inr s
      | Some code \<Rightarrow>
          bindR (link_by_code (business_id ctx) code payment_id credit_transaction_id
                   (user_id ctx) (now clk) s) (\<lambda>(found, s).
          case found of
            None \<Rightarrow> Inr s
          | Some message \<Rightarrow> Inr (audit_record ctx ''mpesa.match'' MPESA_ENTITY (mm_id message) None
              (Some [(''payment_id'', opt_json JUuid payment_id),
                     (''credit_transaction_id'', opt_json JUuid credit_transaction_id),
                     (''via'', JText via)]) client s)))"

definition unlink_payment :: "uuid \<Rightarrow> uuid \<Rightarrow> db \<Rightarrow> (mpesa_message option \<times> db) result" where
  "unlink_payment bid payment_id = update_returning
     (\<lambda>m. mm_business_id m = bid \<and> mm_payment_id m = Some payment_id \<and> mm_status m = MATCHED)
     (\<lambda>m. m\<lparr>mm_status := UNMATCHED, mm_payment_id := None, mm_matched_by := None,
            mm_matched_at := None\<rparr>)"

definition unlink_payment_in_transaction ::
  "BusinessContext \<Rightarrow> uuid \<Rightarrow> ClientInfo option \<Rightarrow> db \<Rightarrow> db result" where
  "unlink_payment_in_transaction ctx payment_id client s =
     bindR (unlink_payment (business_id ctx) payment_id s) (\<lambda>(found, s).
     case found of
       None \<Rightarrow> Inr s
     | Some message \<Rightarrow> Inr (audit_record ctx ''mpesa.unlink'' MPESA_ENTITY (mm_id message)
         (Some [(''payment_id'', JUuid payment_id)])
         (Some [(''status'', JText ''UNMATCHED''), (''via'', JText ''sale.void'')]) client s))"

subsection \<open>The invariant of the message table\<close>

definition code_key :: "mpesa_message \<Rightarrow> (uuid \<times> string) option" where
  "code_key m = map_option (Pair (mm_business_id m)) (mm_code m)"

definition payment_link :: "mpesa_message \<Rightarrow> (uuid \<times> uuid) option" where
  "payment_link m = map_option (Pair (mm_business_id m)) (mm_payment_id m)"

definition repayment_link :: "mpesa_message \<Rightarrow> (uuid \<times> uuid) option" where
  "repayment_link m = map_option (Pair (mm_business_id m)) (mm_credit_transaction_id m)"

definition mpesa_ok :: "db \<Rightarrow> bool" where
  "mpesa_ok s \<longleftrightarrow> list_all mpesa_checks (mpesa_messages s)
     \<and> key_unique code_key (mpesa_messages s)
     \<and> key_unique payment_link (mpesa_messages s)
     \<and> key_unique repayment_link (mpesa_messages s)"

lemma link_fresh:
  "mm_payment_id m \<notin> mm_payment_id ` set ms \<Longrightarrow> payment_link m \<notin> payment_link ` set ms \<or> payment_link m = None"
  "mm_credit_transaction_id m \<notin> mm_credit_transaction_id ` set ms \<Longrightarrow>
     repayment_link m \<notin> repayment_link ` set ms \<or> repayment_link m = None"
  by (force simp: payment_link_def repayment_link_def map_option_case split: option.splits)+

lemma update_returning_cases:
  assumes "update_returning hit change s = Inr (r, s')"
  obtains (none) "r = None" "s' = s" "filter hit (mpesa_messages s) = []"
    | (one) m where "filter hit (mpesa_messages s) = [m]" "mpesa_checks (change m)"
        "r = Some (change m)"
        "s' = s\<lparr>mpesa_messages := update_where hit change (mpesa_messages s)\<rparr>"
  using assms
  by (auto simp: update_returning_def Let_def result_simps split: list.splits)

lemma update_returning_checks:
  assumes "update_returning hit change s = Inr (r, s')" and "list_all mpesa_checks (mpesa_messages s)"
  shows "list_all mpesa_checks (mpesa_messages s')"
  using assms(1)
proof (cases rule: update_returning_cases)
  case none
  with assms show ?thesis by simp
next
  case (one m)
  have "x = m" if "x \<in> set (mpesa_messages s)" "hit x" for x
    using one(1) that by (rule filter_singleton_eq)
  with one assms(2) show ?thesis by (auto simp: list_all_iff set_update_where)
qed

lemma key_unique_update_hit:
  assumes "key_unique k rows" and "filter hit rows = [m]"
    and "k (change m) = k m \<or> k (change m) = None \<or> k (change m) \<notin> k ` set rows"
  shows "key_unique k (update_where hit change rows)"
proof -
  have only: "x = m" if "x \<in> set rows" "hit x" for x
    using assms(2) that by (rule filter_singleton_eq)
  show ?thesis using assms(3)
  proof (elim disjE)
    assume "k (change m) = k m"
    with assms(1) only show ?thesis by (subst key_unique_update_same) auto
  next
    assume "k (change m) = None"
    with assms(1) only show ?thesis by (intro key_unique_update_none) auto
  next
    assume "k (change m) \<notin> k ` set rows"
    with assms(1,2) show ?thesis by (intro key_unique_update_fresh [where m = m]) auto
  qed
qed

lemma update_returning_ok:
  assumes "update_returning hit change s = Inr (r, s')" and "mpesa_ok s"
    and "\<And>m. hit m \<Longrightarrow> code_key (change m) = code_key m"
    and "\<And>m. hit m \<Longrightarrow> mm_payment_id (change m) = None
      \<or> mm_payment_id (change m) \<notin> mm_payment_id ` set (mpesa_messages s)"
    and "\<And>m. hit m \<Longrightarrow> repayment_link (change m) = repayment_link m
      \<or> mm_credit_transaction_id (change m) = None
      \<or> mm_credit_transaction_id (change m) \<notin> mm_credit_transaction_id ` set (mpesa_messages s)"
  shows "mpesa_ok s'"
  using assms(1)
proof (cases rule: update_returning_cases)
  case none
  with assms show ?thesis by simp
next
  case (one m)
  have m: "m \<in> set (mpesa_messages s)" "hit m"
    using one(1) by (auto simp: filter_eq_Cons_iff)
  note upd = key_unique_update_hit [OF _ one(1)]
  have "key_unique payment_link (update_where hit change (mpesa_messages s))"
    using assms(2) assms(4) [OF m(2)] link_fresh(1) [of "change m" "mpesa_messages s"]
    by (intro upd) (auto simp: mpesa_ok_def payment_link_def)
  moreover have "key_unique repayment_link (update_where hit change (mpesa_messages s))"
    using assms(2) assms(5) [OF m(2)] link_fresh(2) [of "change m" "mpesa_messages s"]
    by (intro upd) (auto simp: mpesa_ok_def repayment_link_def)
  moreover have "key_unique code_key (update_where hit change (mpesa_messages s))"
    using assms(2) assms(3) [OF m(2)] by (intro upd) (auto simp: mpesa_ok_def)
  ultimately show ?thesis using update_returning_checks [OF assms(1)] assms(2) one(4)
    by (simp add: mpesa_ok_def)
qed

lemma audit_record_mpesa_ok [simp]: "mpesa_ok (audit_record ctx a t i b f c s) \<longleftrightarrow> mpesa_ok s"
  by (simp add: mpesa_ok_def)

text \<open>
  A new payment or repayment that no message links to can be linked; at most one message changes.
\<close>

lemma code_key_linked_to [simp]: "code_key (linked_to p c b t m) = code_key m"
  by (simp add: code_key_def linked_to_def)

lemma linked_to_simps [simp]:
  "mm_payment_id (linked_to p c b t m) = p" "mm_credit_transaction_id (linked_to p c b t m) = c"
  "mm_status (linked_to p c b t m) = MATCHED" "mm_id (linked_to p c b t m) = mm_id m"
  "mm_code (linked_to p c b t m) = mm_code m" "mm_amount (linked_to p c b t m) = mm_amount m"
  by (simp_all add: linked_to_def)

lemma link_reference_ok:
  assumes "link_reference_in_transaction clk ctx ref p c via client s = Inr s'" and "mpesa_ok s"
    and "p = None \<or> p \<notin> mm_payment_id ` set (mpesa_messages s)"
    and "c = None \<or> c \<notin> mm_credit_transaction_id ` set (mpesa_messages s)"
  shows "mpesa_ok s'"
proof (cases "normalise ref")
  case None
  with assms show ?thesis by (simp add: link_reference_in_transaction_def)
next
  case (Some code)
  then obtain r t where t: "link_by_code (business_id ctx) code p c (user_id ctx) (now clk) s = Inr (r, t)"
    and s': "mpesa_ok s' = mpesa_ok t"
    using assms(1) by (auto simp: link_reference_in_transaction_def result_simps split: option.splits)
  have "mpesa_ok t" using assms(2-4)
    by (intro update_returning_ok [OF t [unfolded link_by_code_def]]) auto
  with s' show ?thesis by simp
qed

lemma unlink_payment_ok:
  assumes "unlink_payment_in_transaction ctx p client s = Inr s'" and "mpesa_ok s"
  shows "mpesa_ok s'"
proof -
  from assms(1) obtain r t where t: "unlink_payment (business_id ctx) p s = Inr (r, t)"
    and s': "mpesa_ok s' = mpesa_ok t"
    by (auto simp: unlink_payment_in_transaction_def result_simps split: option.splits)
  have "mpesa_ok t" using assms(2)
    by (intro update_returning_ok [OF t [unfolded unlink_payment_def]])
      (auto simp: code_key_def repayment_link_def)
  with s' show ?thesis by simp
qed

text \<open>The hooks write messages and audit rows only.\<close>

abbreviation same_books :: "db \<Rightarrow> db \<Rightarrow> bool" where
  "same_books \<equiv> writes {T_mpesa_messages, T_audit_logs}"

lemma update_returning_frame: "update_returning hit change s = Inr (r, s') \<Longrightarrow> same_books s s'"
  by (erule update_returning_cases) (auto simp: writes_def)

lemma link_reference_frame:
  "link_reference_in_transaction clk ctx ref p c via client s = Inr s' \<Longrightarrow> same_books s s'"
  by (auto simp: link_reference_in_transaction_def link_by_code_def result_simps
      intro: update_returning_frame intro!: writes_audit split: option.splits)

lemma unlink_payment_frame:
  "unlink_payment_in_transaction ctx p client s = Inr s' \<Longrightarrow> same_books s s'"
  by (auto simp: unlink_payment_in_transaction_def unlink_payment_def result_simps
      intro: update_returning_frame intro!: writes_audit split: option.splits)

lemma mpesa_ok_writes: "writes T s s' \<Longrightarrow> T_mpesa_messages \<notin> T \<Longrightarrow> mpesa_ok s' \<longleftrightarrow> mpesa_ok s"
  by (simp add: writes_def mpesa_ok_def)

text \<open>Linking introduces no ids but those of the linked record.\<close>

lemma update_returning_known:
  assumes "update_returning hit change s = Inr (r, s')"
    and "\<And>m. mm_id (change m) = mm_id m"
    and "\<And>m. mm_payment_id (change m) \<in> {mm_payment_id m, p}"
    and "\<And>m. mm_credit_transaction_id (change m) \<in> {mm_credit_transaction_id m, c}"
  shows "known_ids s' \<subseteq> known_ids s \<union> {i. p = Some i \<or> c = Some i}
    \<and> mm_payment_id ` set (mpesa_messages s') \<subseteq> mm_payment_id ` set (mpesa_messages s) \<union> {p}
    \<and> mm_credit_transaction_id ` set (mpesa_messages s')
        \<subseteq> mm_credit_transaction_id ` set (mpesa_messages s) \<union> {c}"
  using assms(1)
proof (cases rule: update_returning_cases)
  case none
  then show ?thesis by auto
next
  case (one m)
  have ms: "set (mpesa_messages s') = (\<lambda>m. if hit m then change m else m) ` set (mpesa_messages s)"
    by (simp add: one(4) set_update_where)
  have ids: "mm_id ` set (mpesa_messages s') = mm_id ` set (mpesa_messages s)"
    unfolding ms image_image by (rule image_cong) (auto simp: assms(2))
  have pay: "mm_payment_id ` set (mpesa_messages s') \<subseteq> mm_payment_id ` set (mpesa_messages s) \<union> {p}"
    unfolding ms image_image using assms(3) by (force split: if_splits)
  have cred: "mm_credit_transaction_id ` set (mpesa_messages s')
      \<subseteq> mm_credit_transaction_id ` set (mpesa_messages s) \<union> {c}"
    unfolding ms image_image using assms(4) by (force split: if_splits)
  have sub: "message_ids (mpesa_messages s') \<subseteq> message_ids (mpesa_messages s) \<union> {i. p = Some i \<or> c = Some i}"
    using ids pay cred by (auto simp: message_ids_def)
  have "known_ids s' \<subseteq> known_ids s \<union> message_ids (mpesa_messages s')"
    unfolding one(4) known_ids_def by auto
  moreover have "message_ids (mpesa_messages s) \<subseteq> known_ids s"
    unfolding known_ids_def by blast
  ultimately show ?thesis using pay cred sub by blast
qed

lemma link_reference_known:
  assumes "link_reference_in_transaction clk ctx ref p c via client s = Inr s'"
  shows "known_ids s' \<subseteq> known_ids s \<union> {i. p = Some i \<or> c = Some i}
    \<and> mm_payment_id ` set (mpesa_messages s') \<subseteq> mm_payment_id ` set (mpesa_messages s) \<union> {p}"
proof (cases "normalise ref")
  case None
  with assms show ?thesis by (auto simp: link_reference_in_transaction_def)
next
  case (Some code)
  with assms obtain r t where t: "link_by_code (business_id ctx) code p c (user_id ctx) (now clk) s = Inr (r, t)"
    and s': "known_ids s' = known_ids t" "mpesa_messages s' = mpesa_messages t"
    by (auto simp: link_reference_in_transaction_def result_simps split: option.splits)
  from update_returning_known [OF t [unfolded link_by_code_def], of p c] show ?thesis
    by (auto simp: s')
qed

lemma link_reference_grows:
  assumes "link_reference_in_transaction clk ctx ref p c via client s = Inr s'"
    and "opt_all (\<lambda>i. i \<in> known_ids s) p" and "opt_all (\<lambda>i. i \<in> known_ids s) c"
  shows "grows s s'"
proof -
  have "known_ids s' \<subseteq> known_ids s"
    using link_reference_known [OF assms(1)] assms(2,3) by (cases p; cases c) auto
  with link_reference_frame [OF assms(1)] show ?thesis by (auto simp: grows_def writes_def)
qed

lemma unlink_payment_grows:
  assumes "unlink_payment_in_transaction ctx p client s = Inr s'"
  shows "grows s s'"
proof -
  from assms obtain r t where t: "unlink_payment (business_id ctx) p s = Inr (r, t)"
    and s': "known_ids s' = known_ids t"
    by (auto simp: unlink_payment_in_transaction_def result_simps split: option.splits)
  have "known_ids t \<subseteq> known_ids s"
    using update_returning_known [OF t [unfolded unlink_payment_def], of None None] by auto
  with s' unlink_payment_frame [OF assms] show ?thesis by (auto simp: grows_def writes_def)
qed

end
