(* ===== verification/Credit.thy ===== *)
theory Credit
  imports Ledger Mpesa_Links
begin

text \<open>
  The customer credit ledger: \<open>services/credit.py\<close>, \<open>repositories/credit.py\<close> and the customer queries
  of \<open>repositories/customers.py\<close> it uses. \<open>post_entry\<close> is the single write path; repayments and
  adjustments may carry an idempotency key. The digest of a request (SHA-256 of its canonical JSON)
  is the parameter \<open>sha\<close>, a function of the JSON value.
\<close>

subsection \<open>Requests\<close>

datatype AdjustmentDirection = INCREASE | DECREASE

record RepaymentRequest =
  rp_amount :: money
  rp_payment_method :: MoneyReceivedMethod
  rp_reference :: "string option"
  rp_allow_overpayment :: bool

record CreditAdjustmentRequest =
  ca_amount :: money
  ca_direction :: AdjustmentDirection
  ca_reason :: string

definition valid_repayment :: "RepaymentRequest \<Rightarrow> bool" where
  "valid_repayment d \<longleftrightarrow> 0 < rp_amount d \<and> fits_money (rp_amount d)
     \<and> opt_all (\<lambda>r. 0 < length r \<and> length r \<le> 64) (rp_reference d)"

definition valid_credit_adjustment :: "CreditAdjustmentRequest \<Rightarrow> bool" where
  "valid_credit_adjustment d \<longleftrightarrow> 0 < ca_amount d \<and> fits_money (ca_amount d)
     \<and> 1 \<le> length (ca_reason d) \<and> length (ca_reason d) \<le> 255"

definition method_text :: "MoneyReceivedMethod \<Rightarrow> string" where
  "method_text m = (case m of BY_CASH \<Rightarrow> ''CASH'' | BY_MPESA \<Rightarrow> ''MPESA'')"

definition repayment_dump :: "RepaymentRequest \<Rightarrow> payload" where
  "repayment_dump d = [(''amount'', JMoney (rp_amount d)),
     (''payment_method'', JText (method_text (rp_payment_method d))),
     (''reference'', opt_json JText (rp_reference d)),
     (''allow_overpayment'', JBool (rp_allow_overpayment d))]"

definition credit_adjustment_dump :: "CreditAdjustmentRequest \<Rightarrow> payload" where
  "credit_adjustment_dump d = [(''amount'', JMoney (ca_amount d)),
     (''direction'', JText (case ca_direction d of INCREASE \<Rightarrow> ''INCREASE'' | DECREASE \<Rightarrow> ''DECREASE'')),
     (''reason'', JText (ca_reason d))]"

definition payload_hash :: "(json \<Rightarrow> string) \<Rightarrow> string \<Rightarrow> uuid \<Rightarrow> payload \<Rightarrow> string" where
  "payload_hash sha operation customer_id pl = sha (JObject
     [(''customer_id'', JUuid customer_id), (''op'', JText operation), (''payload'', JObject pl)])"

subsection \<open>Queries\<close>

definition customer_row :: "uuid \<Rightarrow> db \<Rightarrow> customer option" where
  "customer_row cid s = find (\<lambda>c. c_id c = cid) (customers s)"

definition repo_get_customer :: "uuid \<Rightarrow> uuid \<Rightarrow> db \<Rightarrow> customer option" where
  "repo_get_customer bid cid s = find (\<lambda>c. c_business_id c = bid \<and> c_id c = cid) (customers s)"

definition get_customer_for_update :: "uuid \<Rightarrow> uuid \<Rightarrow> db \<Rightarrow> customer option" where
  "get_customer_for_update bid cid s = find (\<lambda>c. c_business_id c = bid \<and> c_id c = cid) (customers s)"

definition list_customer_ids :: "uuid \<Rightarrow> db \<Rightarrow> uuid list" where
  "list_customer_ids bid s = sort (map c_id (filter (\<lambda>c. c_business_id c = bid) (customers s)))"

definition get_entry_by_idempotency_key :: "uuid \<Rightarrow> uuid \<Rightarrow> db \<Rightarrow> credit_transaction option" where
  "get_entry_by_idempotency_key bid key s =
     find (\<lambda>t. ct_business_id t = bid \<and> ct_idempotency_key t = Some key) (credit_transactions s)"

definition sum_entries :: "uuid \<Rightarrow> uuid \<Rightarrow> db \<Rightarrow> money" where
  "sum_entries bid cid s = total_where ct_amount
     (\<lambda>t. ct_business_id t = bid \<and> ct_customer_id t = cid) (credit_transactions s)"

definition CREDIT_LIST_LIMIT :: nat where
  "CREDIT_LIST_LIMIT = 500"

definition list_entries :: "uuid \<Rightarrow> uuid \<Rightarrow> nat \<Rightarrow> db \<Rightarrow> credit_transaction list" where
  "list_entries bid cid limit s = take (min limit CREDIT_LIST_LIMIT)
     (rev (sort_key (\<lambda>t. (ct_occurred_at t, ct_created_at t, ct_id t))
       (filter (\<lambda>t. ct_business_id t = bid \<and> ct_customer_id t = cid) (credit_transactions s))))"

subsection \<open>Debtors\<close>

record DebtorRow =
  dr_customer :: customer
  dr_oldest_unpaid_charge_at :: "time option"

datatype DebtorSort = by_balance | by_age

text \<open>The window function: the positive entries in order, each with the running total up to it.\<close>

fun charged_so_far :: "money \<Rightarrow> credit_transaction list \<Rightarrow> (time \<times> money) list" where
  "charged_so_far acc [] = []"
| "charged_so_far acc (t # ts) =
     (ct_occurred_at t, acc + ct_amount t) # charged_so_far (acc + ct_amount t) ts"

definition positive_entries :: "uuid \<Rightarrow> uuid \<Rightarrow> db \<Rightarrow> credit_transaction list" where
  "positive_entries bid cid s = sort_key (\<lambda>t. (ct_occurred_at t, ct_created_at t, ct_id t))
     (filter (\<lambda>t. ct_business_id t = bid \<and> ct_customer_id t = cid \<and> 0 < ct_amount t)
       (credit_transactions s))"

definition paid_total :: "uuid \<Rightarrow> uuid \<Rightarrow> db \<Rightarrow> money" where
  "paid_total bid cid s = - total_where ct_amount
     (\<lambda>t. ct_business_id t = bid \<and> ct_customer_id t = cid \<and> ct_amount t < 0) (credit_transactions s)"

definition min_time :: "time list \<Rightarrow> time option" where
  "min_time ts = (case ts of [] \<Rightarrow> None | t # ts \<Rightarrow> Some (fold min ts t))"

definition oldest_unpaid :: "uuid \<Rightarrow> uuid \<Rightarrow> db \<Rightarrow> time option" where
  "oldest_unpaid bid cid s = min_time (map fst
     (filter (\<lambda>(t, charged). charged > paid_total bid cid s)
       (charged_so_far 0 (positive_entries bid cid s))))"

definition nulls_last :: "time option \<Rightarrow> bool \<times> time" where
  "nulls_last t = (case t of None \<Rightarrow> (True, 0) | Some x \<Rightarrow> (False, x))"

definition debtor_key ::
  "(string \<Rightarrow> int) \<Rightarrow> DebtorSort \<Rightarrow> DebtorRow \<Rightarrow> (bool \<times> time) \<times> int \<times> int \<times> uuid" where
  "debtor_key collate srt d = ((case srt of by_age \<Rightarrow> nulls_last (dr_oldest_unpaid_charge_at d)
       | by_balance \<Rightarrow> (False, 0)),
     - c_balance (dr_customer d), collate (py_lower (c_name (dr_customer d))), c_id (dr_customer d))"

definition list_debtors ::
  "(string \<Rightarrow> int) \<Rightarrow> BusinessContext \<Rightarrow> DebtorSort \<Rightarrow> nat \<Rightarrow> db \<Rightarrow> DebtorRow list" where
  "list_debtors collate ctx srt limit s = take (min limit CREDIT_LIST_LIMIT)
     (sort_key (debtor_key collate srt)
       (map (\<lambda>c. \<lparr>dr_customer = c, dr_oldest_unpaid_charge_at = oldest_unpaid (business_id ctx) (c_id c) s\<rparr>)
         (filter (\<lambda>c. c_business_id c = business_id ctx \<and> 0 < c_balance c) (customers s))))"

subsection \<open>The single write path\<close>

definition set_balance :: "uuid \<Rightarrow> money \<Rightarrow> db \<Rightarrow> db" where
  "set_balance cid b s =
     s\<lparr>customers := update_where (\<lambda>c. c_id c = cid) (\<lambda>c. c\<lparr>c_balance := b\<rparr>) (customers s)\<rparr>"

definition credit_key :: "credit_transaction \<Rightarrow> (uuid \<times> uuid) option" where
  "credit_key t = map_option (Pair (ct_business_id t)) (ct_idempotency_key t)"

definition add_entry :: "credit_transaction \<Rightarrow> db \<Rightarrow> (credit_transaction \<times> db) result" where
  "add_entry t s =
     bindR (flush_row (credit_fits t) (credit_checks t)) (\<lambda>_.
     bindR (raise_if (credit_key t \<noteq> None \<and> credit_key t \<in> credit_key ` set (credit_transactions s))
              (IntegrityError uq_credit_transactions_business_id_idempotency_key)) (\<lambda>_.
     Inr (t, (drawn s)\<lparr>credit_transactions := credit_transactions s @ [t]\<rparr>)))"

definition post_entry ::
  "clock \<Rightarrow> BusinessContext \<Rightarrow> uuid \<Rightarrow> CreditEntryType \<Rightarrow> money \<Rightarrow> bool \<Rightarrow> string
    \<Rightarrow> MoneyReceivedMethod option \<Rightarrow> string option \<Rightarrow> string option \<Rightarrow> uuid option \<Rightarrow> uuid option
    \<Rightarrow> time option \<Rightarrow> uuid option \<Rightarrow> string option \<Rightarrow> db \<Rightarrow> (credit_transaction \<times> db) result" where
  "post_entry clk ctx cid entry_type amount allow_negative negative_error_code payment_method
      reference reason sale_id payment_id occurred_at idempotency_key idempotency_hash s =
     bindR (the_or KeyError (customer_row cid s)) (\<lambda>customer.
     bindR (raise_if (c_business_id customer \<noteq> business_id ctx) RuntimeError) (\<lambda>_.
     bindR (raise_if (amount = 0) ValueError) (\<lambda>_.
     let balance_after = c_balance customer + amount in
     bindR (raise_if (balance_after < 0 \<and> \<not> allow_negative) (ConflictError negative_error_code)) (\<lambda>_.
     let customer' = customer\<lparr>c_balance := balance_after\<rparr>;
         entry = \<lparr>ct_id = new_id s, ct_business_id = business_id ctx, ct_customer_id = c_id customer,
           ct_entry_type = entry_type, ct_amount = amount, ct_balance_after = balance_after,
           ct_sale_id = sale_id, ct_payment_id = payment_id, ct_payment_method = payment_method,
           ct_reference = reference, ct_reason = reason, ct_idempotency_key = idempotency_key,
           ct_idempotency_hash = idempotency_hash,
           ct_occurred_at = (case occurred_at of None \<Rightarrow> now clk | Some t \<Rightarrow> t),
           ct_created_by = user_id ctx, ct_created_at = tx_now clk\<rparr> in
     bindR (flush_row (customer_fits customer') (customer_checks customer')) (\<lambda>_.
     add_entry entry (set_balance cid balance_after s))))))"

subsection \<open>Operations\<close>

record Posted =
  entry :: credit_transaction
  created :: bool

definition replay_entry ::
  "BusinessContext \<Rightarrow> uuid option \<Rightarrow> string option \<Rightarrow> db \<Rightarrow> credit_transaction option result" where
  "replay_entry ctx key digest s = (case key of
     None \<Rightarrow> Inr None
   | Some k \<Rightarrow> (case get_entry_by_idempotency_key (business_id ctx) k s of
       None \<Rightarrow> Inr None
     | Some existing \<Rightarrow>
         bindR (raise_if (ct_idempotency_hash existing \<noteq> digest) (ConflictError ''IDEMPOTENCY_CONFLICT''))
           (\<lambda>_. Inr (Some existing))))"

definition locked_customer :: "BusinessContext \<Rightarrow> uuid \<Rightarrow> db \<Rightarrow> customer result" where
  "locked_customer ctx cid s = the_or NotFoundError (get_customer_for_update (business_id ctx) cid s)"

text \<open>\<open>except IntegrityError\<close>: a violation of the named index becomes another error.\<close>

definition on_integrity_error :: "db_constraint \<Rightarrow> error \<Rightarrow> 'a result \<times> db \<Rightarrow> 'a result \<times> db" where
  "on_integrity_error idx e out =
     (case out of (r, s) \<Rightarrow> (if r = Inl (IntegrityError idx) then Inl e else r, s))"

definition record_repayment_body ::
  "clock \<Rightarrow> BusinessContext \<Rightarrow> uuid \<Rightarrow> RepaymentRequest \<Rightarrow> ClientInfo option \<Rightarrow> uuid option
    \<Rightarrow> string option \<Rightarrow> db \<Rightarrow> (Posted \<times> db) result" where
  "record_repayment_body clk ctx customer_id data client idempotency_key digest s =
     bindR (locked_customer ctx customer_id s) (\<lambda>customer.
     bindR (replay_entry ctx idempotency_key digest s) (\<lambda>replay.
     case replay of
       Some existing \<Rightarrow> Inr (\<lparr>entry = existing, created = False\<rparr>, s)
     | None \<Rightarrow>
         bindR (post_entry clk ctx (c_id customer) REPAYMENT (- rp_amount data)
                  (rp_allow_overpayment data) ''REPAYMENT_EXCEEDS_BALANCE''
                  (Some (rp_payment_method data)) (rp_reference data) None None None None
                  idempotency_key digest s) (\<lambda>(posted, s).
         bindR (if rp_payment_method data = BY_MPESA \<and> truthy (rp_reference data)
                then link_reference_in_transaction clk ctx (rp_reference data) None
                       (Some (ct_id posted)) ''credit.repayment'' client s
                else Inr s) (\<lambda>s.
         Inr (\<lparr>entry = posted, created = True\<rparr>,
              audit_record ctx ''credit.repayment'' ''customer'' (c_id customer) None
                (Some [(''entry_id'', JUuid (ct_id posted)), (''amount'', JMoney (- ct_amount posted)),
                       (''payment_method'', JText (method_text (rp_payment_method data))),
                       (''balance_after'', JMoney (ct_balance_after posted))]) client s)))))"

definition record_repayment ::
  "(json \<Rightarrow> string) \<Rightarrow> clock \<Rightarrow> BusinessContext \<Rightarrow> uuid \<Rightarrow> RepaymentRequest \<Rightarrow> ClientInfo option
    \<Rightarrow> uuid option \<Rightarrow> db \<Rightarrow> Posted result \<times> db" where
  "record_repayment sha clk ctx customer_id data client idempotency_key s =
     (let digest = map_option (\<lambda>_. payload_hash sha ''repayment'' customer_id (repayment_dump data))
                     idempotency_key in
      on_integrity_error uq_credit_transactions_business_id_idempotency_key
        (ConflictError ''IDEMPOTENCY_CONFLICT'')
        (transaction (record_repayment_body clk ctx customer_id data client idempotency_key digest) s))"

definition record_adjustment_body ::
  "clock \<Rightarrow> BusinessContext \<Rightarrow> uuid \<Rightarrow> CreditAdjustmentRequest \<Rightarrow> ClientInfo option \<Rightarrow> uuid option
    \<Rightarrow> string option \<Rightarrow> db \<Rightarrow> (Posted \<times> db) result" where
  "record_adjustment_body clk ctx customer_id data client idempotency_key digest s =
     (let signed = (if ca_direction data = INCREASE then ca_amount data else - ca_amount data) in
     bindR (locked_customer ctx customer_id s) (\<lambda>customer.
     bindR (replay_entry ctx idempotency_key digest s) (\<lambda>replay.
     case replay of
       Some existing \<Rightarrow> Inr (\<lparr>entry = existing, created = False\<rparr>, s)
     | None \<Rightarrow>
         bindR (post_entry clk ctx (c_id customer) CREDIT_ADJUSTMENT signed False
                  ''ADJUSTMENT_EXCEEDS_BALANCE'' None None (Some (ca_reason data)) None None None
                  idempotency_key digest s) (\<lambda>(posted, s).
         Inr (\<lparr>entry = posted, created = True\<rparr>,
              audit_record ctx ''credit.adjust'' ''customer'' (c_id customer)
                (Some [(''balance'', JMoney (ct_balance_after posted - ct_amount posted))])
                (Some [(''entry_id'', JUuid (ct_id posted)), (''amount'', JMoney (ct_amount posted)),
                       (''reason'', JText (ca_reason data)),
                       (''balance'', JMoney (ct_balance_after posted))]) client s)))))"

definition record_adjustment ::
  "(json \<Rightarrow> string) \<Rightarrow> clock \<Rightarrow> BusinessContext \<Rightarrow> uuid \<Rightarrow> CreditAdjustmentRequest \<Rightarrow> ClientInfo option
    \<Rightarrow> uuid option \<Rightarrow> db \<Rightarrow> Posted result \<times> db" where
  "record_adjustment sha clk ctx customer_id data client idempotency_key s =
     (let digest = map_option (\<lambda>_. payload_hash sha ''adjustment'' customer_id
                     (credit_adjustment_dump data)) idempotency_key in
      on_integrity_error uq_credit_transactions_business_id_idempotency_key
        (ConflictError ''IDEMPOTENCY_CONFLICT'')
        (transaction (record_adjustment_body clk ctx customer_id data client idempotency_key digest) s))"

definition get_ledger ::
  "BusinessContext \<Rightarrow> uuid \<Rightarrow> nat \<Rightarrow> db \<Rightarrow> (customer \<times> credit_transaction list) result" where
  "get_ledger ctx customer_id limit s =
     bindR (the_or NotFoundError (repo_get_customer (business_id ctx) customer_id s)) (\<lambda>customer.
     Inr (customer, list_entries (business_id ctx) (c_id customer) limit s))"

subsection \<open>Credit limit\<close>

record CreditLimitCheck =
  cl_balance :: money
  cl_credit_limit :: "money option"
  cl_projected_balance :: money
  cl_exceeded :: bool

definition evaluate_credit_limit :: "customer \<Rightarrow> money \<Rightarrow> CreditLimitCheck" where
  "evaluate_credit_limit customer additional_charge =
     (let projected = c_balance customer + additional_charge in
      \<lparr>cl_balance = c_balance customer, cl_credit_limit = c_credit_limit customer,
       cl_projected_balance = projected,
       cl_exceeded = (case c_credit_limit customer of None \<Rightarrow> False | Some l \<Rightarrow> projected > l)\<rparr>)"

definition enforce_credit_limit ::
  "customer \<Rightarrow> money \<Rightarrow> MembershipRole \<Rightarrow> bool \<Rightarrow> CreditLimitCheck result" where
  "enforce_credit_limit customer additional_charge rl owner_override =
     (let check = evaluate_credit_limit customer additional_charge in
      bindR (raise_if (cl_exceeded check \<and> \<not> (rl = OWNER \<and> owner_override))
               (ConflictError ''CREDIT_LIMIT_EXCEEDED'')) (\<lambda>_. Inr check))"

subsection \<open>Recomputing the cache\<close>

record BalanceDiscrepancy =
  bd_customer_id :: uuid
  bd_cached_balance :: money
  bd_ledger_balance :: money
  bd_repaired :: bool

record BalanceRecomputeResult =
  br_customers_checked :: nat
  br_discrepancies :: "BalanceDiscrepancy list"
  br_applied :: bool

definition recompute_customer ::
  "BusinessContext \<Rightarrow> bool \<Rightarrow> ClientInfo option \<Rightarrow> uuid \<Rightarrow> db \<times> BalanceDiscrepancy list
    \<Rightarrow> (db \<times> BalanceDiscrepancy list) result" where
  "recompute_customer ctx apply client cid acc = (case acc of (s, found) \<Rightarrow>
     (case get_customer_for_update (business_id ctx) cid s of
        None \<Rightarrow> Inr (s, found)
      | Some customer \<Rightarrow>
          let ledger = sum_entries (business_id ctx) cid s;
              cached = c_balance customer;
              row = \<lparr>bd_customer_id = cid, bd_cached_balance = cached, bd_ledger_balance = ledger,
                     bd_repaired = apply\<rparr>;
              customer' = customer\<lparr>c_balance := ledger\<rparr> in
          if cached = ledger then Inr (s, found)
          else if apply then
            bindR (flush_row (customer_fits customer') (customer_checks customer')) (\<lambda>_.
            Inr (audit_record ctx ''credit.recompute'' ''customer'' (c_id customer)
                   (Some [(''balance'', JMoney cached)]) (Some [(''balance'', JMoney ledger)])
                   client (set_balance cid ledger s),
                 found @ [row]))
          else Inr (s, found @ [row])))"

definition recompute_balances_body ::
  "BusinessContext \<Rightarrow> bool \<Rightarrow> ClientInfo option \<Rightarrow> db \<Rightarrow> (BalanceRecomputeResult \<times> db) result" where
  "recompute_balances_body ctx apply client s =
     (let customer_ids = list_customer_ids (business_id ctx) s in
      bindR (foldR (recompute_customer ctx apply client) customer_ids (s, [])) (\<lambda>(s, found).
      Inr (\<lparr>br_customers_checked = length customer_ids, br_discrepancies = found,
            br_applied = apply\<rparr>, s)))"

definition recompute_balances ::
  "BusinessContext \<Rightarrow> bool \<Rightarrow> ClientInfo option \<Rightarrow> db \<Rightarrow> BalanceRecomputeResult result \<times> db" where
  "recompute_balances ctx apply client = transaction (recompute_balances_body ctx apply client)"

subsection \<open>Lookups and writes\<close>

lemma get_customer_for_update_eq [simp]: "get_customer_for_update = repo_get_customer"
  by (simp add: fun_eq_iff get_customer_for_update_def repo_get_customer_def)

lemma repo_get_customer_SomeD:
  assumes "repo_get_customer bid cid s = Some c"
  shows "c_id c = cid \<and> c_business_id c = bid \<and> c \<in> set (customers s)"
  using find_SomeD [OF assms [unfolded repo_get_customer_def]] by simp

lemma customer_row_SomeD:
  assumes "customer_row cid s = Some c"
  shows "c_id c = cid \<and> c \<in> set (customers s)"
  using find_SomeD [OF assms [unfolded customer_row_def]] by simp

lemma customer_row_unique:
  assumes "distinct (map c_id (customers s))" and "c \<in> set (customers s)"
  shows "customer_row (c_id c) s = Some c"
  unfolding customer_row_def by (rule find_unique [of c_id]) (use assms in auto)

lemma repo_get_customer_row:
  assumes "distinct (map c_id (customers s))" and "repo_get_customer bid cid s = Some c"
  shows "customer_row cid s = Some c"
  using customer_row_unique [OF assms(1)] repo_get_customer_SomeD [OF assms(2)] by blast

lemma customer_row_set_balance [simp]:
  "customer_row k (set_balance cid b s) =
     map_option (\<lambda>c. if c_id c = cid then c\<lparr>c_balance := b\<rparr> else c) (customer_row k s)"
  by (simp add: customer_row_def set_balance_def find_update_where)

lemma repo_get_customer_set_balance [simp]:
  "repo_get_customer bid k (set_balance cid b s) =
     map_option (\<lambda>c. if c_id c = cid then c\<lparr>c_balance := b\<rparr> else c) (repo_get_customer bid k s)"
  by (simp add: repo_get_customer_def set_balance_def find_update_where)

lemma set_balance_simps [simp]:
  "categories (set_balance cid b s) = categories s" "products (set_balance cid b s) = products s"
  "movements (set_balance cid b s) = movements s"
  "credit_transactions (set_balance cid b s) = credit_transactions s"
  "sales (set_balance cid b s) = sales s" "sale_items (set_balance cid b s) = sale_items s"
  "payments (set_balance cid b s) = payments s"
  "mpesa_messages (set_balance cid b s) = mpesa_messages s"
  "receipts (set_balance cid b s) = receipts s" "receipt_lines (set_balance cid b s) = receipt_lines s"
  "expenses (set_balance cid b s) = expenses s" "audit_logs (set_balance cid b s) = audit_logs s"
  "uuid4 (set_balance cid b s) = uuid4 s" "draws (set_balance cid b s) = draws s"
  by (simp_all add: set_balance_def)

text \<open>What a successful posting is: the entry, the new cache and nothing else.\<close>

lemma post_entry_success:
  assumes "post_entry clk ctx cid ty amount neg code pm ref reason sale pay occ key hash s = Inr (t, s')"
  obtains c where "customer_row cid s = Some c" "c_business_id c = business_id ctx" "amount \<noteq> 0"
    "0 \<le> c_balance c + amount \<or> neg"
    "s' = (drawn (set_balance cid (c_balance c + amount) s))\<lparr>credit_transactions := credit_transactions s @ [t]\<rparr>"
    "ct_id t = new_id s" "ct_business_id t = business_id ctx" "ct_customer_id t = cid"
    "ct_amount t = amount" "ct_balance_after t = c_balance c + amount" "ct_entry_type t = ty"
    "ct_idempotency_key t = key" "ct_idempotency_hash t = hash" "ct_sale_id t = sale"
    "ct_payment_id t = pay" "ct_reference t = ref" "ct_payment_method t = pm"
    "credit_key t = None \<or> credit_key t \<notin> credit_key ` set (credit_transactions s)"
proof -
  from assms obtain c where c: "customer_row cid s = Some c"
    by (auto simp: post_entry_def result_simps)
  then have "c_id c = cid" using customer_row_SomeD by blast
  then show thesis using assms c
    by (intro that [of c]) (auto simp: post_entry_def add_entry_def result_simps Let_def)
qed

lemma post_entry_frame:
  assumes "post_entry clk ctx cid ty amount neg code pm ref reason sale pay occ key hash s = Inr (t, s')"
  shows "credit_transactions s' = credit_transactions s @ [t]"
    "map c_id (customers s') = map c_id (customers s)" "categories s' = categories s"
    "products s' = products s" "movements s' = movements s" "sales s' = sales s"
    "sale_items s' = sale_items s" "payments s' = payments s" "mpesa_messages s' = mpesa_messages s"
    "receipts s' = receipts s" "receipt_lines s' = receipt_lines s" "expenses s' = expenses s"
    "audit_logs s' = audit_logs s" "uuid4 s' = uuid4 s" "draws s' = Suc (draws s)"
  using assms by (auto elim!: post_entry_success simp: set_balance_def map_update_where)

subsection \<open>The credit ledger is a cached ledger\<close>

definition balance_of :: "db \<Rightarrow> uuid \<Rightarrow> money" where
  "balance_of s cid = (case customer_row cid s of None \<Rightarrow> 0 | Some c \<Rightarrow> c_balance c)"

definition credit_entries :: "db \<Rightarrow> uuid \<Rightarrow> (int \<times> int) list" where
  "credit_entries s cid = map (\<lambda>t. (ct_amount t, ct_balance_after t))
     (filter (\<lambda>t. ct_customer_id t = cid) (credit_transactions s))"

definition charges :: "uuid \<Rightarrow> money \<Rightarrow> db \<Rightarrow> db \<Rightarrow> bool" where
  "charges cid d s s' \<longleftrightarrow> (\<exists>clk ctx ty neg code pm ref reason sale pay occ key hash t.
     post_entry clk ctx cid ty d neg code pm ref reason sale pay occ key hash s = Inr (t, s'))"

lemma customer_row_drawn [simp]:
  "customer_row k (drawn s) = customer_row k s"
  "customer_row k (s\<lparr>credit_transactions := ts\<rparr>) = customer_row k s"
  "customer_row k (audit_record ctx a e i b f c s) = customer_row k s"
  by (simp_all add: customer_row_def)

lemma balance_of_post:
  assumes "post_entry clk ctx cid ty d neg code pm ref reason sale pay occ key hash s = Inr (t, s')"
  shows "balance_of s' k = (if k = cid then balance_of s k + d else balance_of s k)"
    and "credit_entries s' k
      = (if k = cid then credit_entries s k @ [(d, balance_of s' k)] else credit_entries s k)"
proof -
  from assms show *: "balance_of s' k = (if k = cid then balance_of s k + d else balance_of s k)"
    by (rule post_entry_success) (auto simp: balance_of_def split: option.splits dest: customer_row_SomeD)
  from assms show "credit_entries s' k
      = (if k = cid then credit_entries s k @ [(d, balance_of s' k)] else credit_entries s k)"
    by (rule post_entry_success) (auto simp: credit_entries_def balance_of_def dest: customer_row_SomeD)
qed

interpretation debt: cached_ledger balance_of credit_entries charges
  by unfold_locales (auto simp: charges_def balance_of_post)

lemma post_entry_charges:
  "post_entry clk ctx cid ty d neg code pm ref reason sale pay occ key hash s = Inr (t, s')
    \<Longrightarrow> charges cid d s s'"
  unfolding charges_def by blast

subsection \<open>The credit invariant\<close>

definition credit_account :: "db \<Rightarrow> customer \<Rightarrow> bool" where
  "credit_account s c \<longleftrightarrow>
     c_balance c = total_where ct_amount (\<lambda>t. ct_customer_id t = c_id c) (credit_transactions s)
     \<and> running 0 (credit_entries s (c_id c))"

definition credit_ok :: "db \<Rightarrow> bool" where
  "credit_ok s \<longleftrightarrow> distinct (map c_id (customers s))
     \<and> (\<forall>c \<in> set (customers s). credit_account s c)
     \<and> (\<forall>t \<in> set (credit_transactions s).
          \<exists>c \<in> set (customers s). c_id c = ct_customer_id t \<and> c_business_id c = ct_business_id t)
     \<and> key_unique credit_key (credit_transactions s)"

definition credit_view :: "customer \<Rightarrow> uuid \<times> uuid \<times> money" where
  "credit_view c = (c_id c, c_business_id c, c_balance c)"

lemma credit_ok_view:
  "credit_ok s \<longleftrightarrow> distinct (map fst (map credit_view (customers s)))
     \<and> (\<forall>(i, b, q) \<in> set (map credit_view (customers s)).
          q = total_where ct_amount (\<lambda>t. ct_customer_id t = i) (credit_transactions s)
          \<and> running 0 (credit_entries s i))
     \<and> (\<forall>t \<in> set (credit_transactions s). \<exists>(i, b, q) \<in> set (map credit_view (customers s)).
          i = ct_customer_id t \<and> b = ct_business_id t)
     \<and> key_unique credit_key (credit_transactions s)"
  by (simp add: credit_ok_def credit_account_def credit_view_def o_def)

lemma credit_ok_cong:
  assumes "map credit_view (customers s') = map credit_view (customers s)"
    and "credit_transactions s' = credit_transactions s"
  shows "credit_ok s' \<longleftrightarrow> credit_ok s"
  unfolding credit_ok_view credit_entries_def assms ..

lemma credit_entries_total:
  "sum_list (map fst (credit_entries s cid))
    = total_where ct_amount (\<lambda>t. ct_customer_id t = cid) (credit_transactions s)"
  by (simp add: credit_entries_def total_where_def o_def)

lemma credit_account_settled:
  assumes "distinct (map c_id (customers s))" and "c \<in> set (customers s)"
  shows "credit_account s c \<longleftrightarrow> debt.settled s (c_id c)"
  using customer_row_unique [OF assms]
  by (auto simp: credit_account_def debt.settled_def credit_entries_total balance_of_def)

lemma post_entry_credit_ok:
  assumes ok: "credit_ok s"
    and pe: "post_entry clk ctx cid ty d neg code pm ref reason sale pay occ key hash s = Inr (t, s')"
  shows "credit_ok s'"
proof -
  note posts = post_entry_charges [OF pe]
  from pe obtain c where c: "customer_row cid s = Some c" "c_business_id c = business_id ctx"
    and s': "s' = (drawn (set_balance cid (c_balance c + d) s))\<lparr>credit_transactions := credit_transactions s @ [t]\<rparr>"
    and t: "ct_business_id t = business_id ctx" "ct_customer_id t = cid"
    and key: "credit_key t = None \<or> credit_key t \<notin> credit_key ` set (credit_transactions s)"
    by (rule post_entry_success)
  have custs: "customers s' = update_where (\<lambda>c. c_id c = cid)
      (\<lambda>r. r\<lparr>c_balance := c_balance c + d\<rparr>) (customers s)"
    and ts: "credit_transactions s' = credit_transactions s @ [t]"
    by (simp_all add: s' set_balance_def)
  have dist: "distinct (map c_id (customers s))" using ok by (simp add: credit_ok_def)
  then have dist': "distinct (map c_id (customers s'))" using post_entry_frame(2) [OF pe] by simp
  have "credit_account s' r'" if r': "r' \<in> set (customers s')" for r'
  proof -
    from r' obtain r where r: "r \<in> set (customers s)" "c_id r' = c_id r"
      by (auto simp: custs set_update_where split: if_splits)
    then have "debt.settled s (c_id r)"
      using ok credit_account_settled [OF dist r(1)] by (simp add: credit_ok_def)
    then have "debt.settled s' (c_id r)" by (rule debt.posts_settled [OF posts])
    then show ?thesis using credit_account_settled [OF dist' r'] r by simp
  qed
  moreover have "\<exists>r' \<in> set (customers s'). c_id r' = c_id r \<and> c_business_id r' = c_business_id r"
    if "r \<in> set (customers s)" for r
    using image_eqI [OF refl that, of "\<lambda>r. if c_id r = cid then r\<lparr>c_balance := c_balance c + d\<rparr> else r"]
    by (intro bexI [where x = "if c_id r = cid then r\<lparr>c_balance := c_balance c + d\<rparr> else r"])
      (simp_all add: custs set_update_where)
  then have "\<exists>r \<in> set (customers s'). c_id r = ct_customer_id x \<and> c_business_id r = ct_business_id x"
    if "x \<in> set (credit_transactions s')" for x
    using that ok t c(2) customer_row_SomeD [OF c(1)] by (simp add: ts credit_ok_def) metis
  ultimately show ?thesis using dist' ok key by (auto simp: credit_ok_def ts)
qed

lemma audit_record_credit_ok [simp]: "credit_ok (audit_record ctx a e i b f c s) \<longleftrightarrow> credit_ok s"
  by (rule credit_ok_cong) simp_all

lemma same_books_credit_ok: "same_books s s' \<Longrightarrow> credit_ok s' \<longleftrightarrow> credit_ok s"
  by (rule credit_ok_cong) (simp_all add: writes_def)

subsection \<open>The operations keep the invariants\<close>

lemma locked_customer_success:
  "locked_customer ctx cid s = Inr c \<longleftrightarrow> repo_get_customer (business_id ctx) cid s = Some c"
  by (simp add: locked_customer_def)

lemma record_repayment_success:
  assumes "record_repayment_body clk ctx cid data client key digest s = Inr (posted, s')"
  obtains (replayed) c t where "repo_get_customer (business_id ctx) cid s = Some c"
      "replay_entry ctx key digest s = Inr (Some t)" "posted = \<lparr>entry = t, created = False\<rparr>" "s' = s"
    | (fresh) c t s1 s2 f where "repo_get_customer (business_id ctx) cid s = Some c"
      "replay_entry ctx key digest s = Inr None"
      "post_entry clk ctx cid REPAYMENT (- rp_amount data) (rp_allow_overpayment data)
         ''REPAYMENT_EXCEEDS_BALANCE'' (Some (rp_payment_method data)) (rp_reference data)
         None None None None key digest s = Inr (t, s1)"
      "(if rp_payment_method data = BY_MPESA \<and> truthy (rp_reference data)
        then link_reference_in_transaction clk ctx (rp_reference data) None (Some (ct_id t))
               ''credit.repayment'' client s1 else Inr s1) = Inr s2"
      "posted = \<lparr>entry = t, created = True\<rparr>"
      "s' = audit_record ctx ''credit.repayment'' ''customer'' cid None f client s2"
proof -
  from assms obtain c where c: "repo_get_customer (business_id ctx) cid s = Some c"
    by (auto simp: record_repayment_body_def result_simps locked_customer_success)
  then have cid: "c_id c = cid" using repo_get_customer_SomeD by blast
  from assms c obtain r where r: "replay_entry ctx key digest s = Inr r"
    by (auto simp: record_repayment_body_def result_simps locked_customer_success)
  show thesis
  proof (cases r)
    case None
    then show thesis using assms c r cid
      by (auto simp: record_repayment_body_def result_simps locked_customer_success
          simp del: bindR_simps intro!: that(2))
  next
    case (Some t)
    then show thesis using assms c r
      by (intro that(1)) (auto simp: record_repayment_body_def locked_customer_def)
  qed
qed

lemma record_adjustment_success:
  assumes "record_adjustment_body clk ctx cid data client key digest s = Inr (posted, s')"
  obtains (replayed) c t where "repo_get_customer (business_id ctx) cid s = Some c"
      "replay_entry ctx key digest s = Inr (Some t)" "posted = \<lparr>entry = t, created = False\<rparr>" "s' = s"
    | (fresh) c t s1 b f where "repo_get_customer (business_id ctx) cid s = Some c"
      "replay_entry ctx key digest s = Inr None"
      "post_entry clk ctx cid CREDIT_ADJUSTMENT
         (if ca_direction data = INCREASE then ca_amount data else - ca_amount data) False
         ''ADJUSTMENT_EXCEEDS_BALANCE'' None None (Some (ca_reason data)) None None None
         key digest s = Inr (t, s1)"
      "posted = \<lparr>entry = t, created = True\<rparr>"
      "s' = audit_record ctx ''credit.adjust'' ''customer'' cid b f client s1"
proof -
  from assms obtain c where c: "repo_get_customer (business_id ctx) cid s = Some c"
    by (auto simp: record_adjustment_body_def Let_def result_simps locked_customer_success)
  then have cid: "c_id c = cid" using repo_get_customer_SomeD by blast
  from assms c obtain r where r: "replay_entry ctx key digest s = Inr r"
    by (auto simp: record_adjustment_body_def Let_def result_simps locked_customer_success)
  show thesis
  proof (cases r)
    case None
    then show thesis using assms c r cid
      by (auto simp: record_adjustment_body_def Let_def result_simps locked_customer_success
          simp del: bindR_simps intro!: that(2))
  next
    case (Some t)
    then show thesis using assms c r
      by (intro that(1)) (auto simp: record_adjustment_body_def Let_def locked_customer_def)
  qed
qed

lemma on_integrity_error_snd [simp]: "snd (on_integrity_error idx e out) = snd out"
  by (simp add: on_integrity_error_def split: prod.split)

lemma on_integrity_error_Inr:
  "on_integrity_error idx e out = (Inr x, s') \<longleftrightarrow> out = (Inr x, s')"
  by (auto simp: on_integrity_error_def split: prod.split)

lemma record_repayment_credit_ok:
  assumes "credit_ok s"
  shows "credit_ok (snd (record_repayment sha clk ctx cid data client key s))"
  unfolding record_repayment_def Let_def on_integrity_error_snd
proof (rule transaction_preserves [where P = credit_ok, OF assms])
  fix posted s'
  assume "record_repayment_body clk ctx cid data client key
    (map_option (\<lambda>_. payload_hash sha ''repayment'' cid (repayment_dump data)) key) s = Inr (posted, s')"
  then show "credit_ok s'"
  proof (cases rule: record_repayment_success)
    case (replayed c t)
    with assms show ?thesis by simp
  next
    case (fresh c t s1 s2 f)
    have "credit_ok s1" by (rule post_entry_credit_ok [OF assms fresh(3)])
    moreover have "same_books s1 s2"
      using fresh(4) link_reference_frame by (auto split: if_splits)
    ultimately show ?thesis using fresh(6) same_books_credit_ok by simp
  qed
qed

lemma record_adjustment_credit_ok:
  assumes "credit_ok s"
  shows "credit_ok (snd (record_adjustment sha clk ctx cid data client key s))"
  unfolding record_adjustment_def Let_def on_integrity_error_snd
proof (rule transaction_preserves [where P = credit_ok, OF assms])
  fix posted s'
  assume "record_adjustment_body clk ctx cid data client key
    (map_option (\<lambda>_. payload_hash sha ''adjustment'' cid (credit_adjustment_dump data)) key) s
      = Inr (posted, s')"
  then show "credit_ok s'"
    by (cases rule: record_adjustment_success) (use assms post_entry_credit_ok in auto)
qed

subsection \<open>What the operations write\<close>

lemma credit_ok_writes:
  "writes T s s' \<Longrightarrow> T_customers \<notin> T \<Longrightarrow> T_credit_transactions \<notin> T \<Longrightarrow> credit_ok s' \<longleftrightarrow> credit_ok s"
  by (rule credit_ok_cong) (simp_all add: writes_def)

lemma post_entry_writes:
  assumes "post_entry clk ctx cid ty amount neg code pm ref reason sale pay occ key hash s = Inr (t, s')"
  shows "writes {T_customers, T_credit_transactions} s s'"
  by (simp add: writes_def post_entry_frame [OF assms])

abbreviation credit_tables :: "table set" where
  "credit_tables \<equiv> {T_customers, T_credit_transactions, T_mpesa_messages, T_audit_logs}"

lemma record_repayment_writes:
  "writes credit_tables s (snd (record_repayment sha clk ctx cid data client key s))"
  unfolding record_repayment_def Let_def on_integrity_error_snd
proof (rule writes_transaction)
  fix posted s'
  assume "record_repayment_body clk ctx cid data client key
    (map_option (\<lambda>_. payload_hash sha ''repayment'' cid (repayment_dump data)) key) s = Inr (posted, s')"
  then show "writes credit_tables s s'"
  proof (cases rule: record_repayment_success)
    case (replayed c t)
    then show ?thesis by simp
  next
    case (fresh c t s1 s2 f)
    have "same_books s1 s2" using fresh(4) link_reference_frame by (auto split: if_splits)
    then have "writes credit_tables s1 s2" by (rule writes_mono) auto
    moreover have "writes credit_tables s s1" by (rule writes_mono [OF post_entry_writes [OF fresh(3)]]) auto
    ultimately show ?thesis unfolding fresh(6) by (auto intro!: writes_audit intro: writes_trans)
  qed
qed

lemma record_adjustment_writes:
  "writes credit_tables s (snd (record_adjustment sha clk ctx cid data client key s))"
  unfolding record_adjustment_def Let_def on_integrity_error_snd
proof (rule writes_transaction)
  fix posted s'
  assume "record_adjustment_body clk ctx cid data client key
    (map_option (\<lambda>_. payload_hash sha ''adjustment'' cid (credit_adjustment_dump data)) key) s
      = Inr (posted, s')"
  then show "writes credit_tables s s'"
  proof (cases rule: record_adjustment_success)
    case (replayed c t)
    then show ?thesis by simp
  next
    case (fresh c t s1 b f)
    have "writes credit_tables s s1" by (rule writes_mono [OF post_entry_writes [OF fresh(3)]]) auto
    then show ?thesis unfolding fresh(5) by (intro writes_audit) simp_all
  qed
qed

lemma recompute_customer_writes:
  "recompute_customer ctx apply client k (s, ds) = Inr (s', ds') \<Longrightarrow> writes credit_tables s s'"
  by (auto simp: recompute_customer_def Let_def result_simps writes_def split: option.splits if_splits)

lemma recompute_balances_writes: "writes credit_tables s (snd (recompute_balances ctx apply client s))"
  unfolding recompute_balances_def
proof (rule writes_transaction)
  fix r s'
  assume "recompute_balances_body ctx apply client s = Inr (r, s')"
  then obtain ks ds where "foldR (recompute_customer ctx apply client) ks (s, []) = Inr (s', ds)"
    by (auto simp: recompute_balances_body_def Let_def result_simps)
  then show "writes credit_tables s s'" by (rule writes_foldR_acc) (rule recompute_customer_writes)
qed

lemma known_ids_set_balance [simp]: "known_ids (set_balance cid b s) = known_ids s"
  by (simp add: known_ids_def set_balance_def image_update_where)

lemma post_entry_grows:
  assumes "post_entry clk ctx cid ty amount neg code pm ref reason sale pay occ key hash s = Inr (t, s')"
  shows "grows s s' \<and> ct_id t \<in> known_ids s'"
proof -
  from assms obtain b where
    s': "s' = (drawn (set_balance cid b s))\<lparr>credit_transactions := credit_transactions s @ [t]\<rparr>"
    and t: "ct_id t = new_id s"
    by (auto elim!: post_entry_success)
  have "known_ids s' \<subseteq> known_ids (set_balance cid b s) \<union> {new_id s}" "ct_id t \<in> known_ids s'"
    unfolding s' known_ids_def by (auto simp: t)
  then show ?thesis by (auto simp: grows_def s' new_id_def)
qed

lemma record_repayment_grows: "grows s (snd (record_repayment sha clk ctx cid data client key s))"
  unfolding record_repayment_def Let_def on_integrity_error_snd
proof (rule grows_transaction)
  fix posted s'
  assume "record_repayment_body clk ctx cid data client key
    (map_option (\<lambda>_. payload_hash sha ''repayment'' cid (repayment_dump data)) key) s = Inr (posted, s')"
  then show "grows s s'"
  proof (cases rule: record_repayment_success)
    case (replayed c t)
    then show ?thesis by simp
  next
    case (fresh c t s1 s2 f)
    have "grows s1 s2"
      using fresh(4) post_entry_grows [OF fresh(3)] by (auto split: if_splits intro: link_reference_grows)
    then show ?thesis
      unfolding fresh(6) using post_entry_grows [OF fresh(3)] by (auto intro: grows_trans)
  qed
qed

lemma record_adjustment_grows: "grows s (snd (record_adjustment sha clk ctx cid data client key s))"
  unfolding record_adjustment_def Let_def on_integrity_error_snd
proof (rule grows_transaction)
  fix posted s'
  assume "record_adjustment_body clk ctx cid data client key
    (map_option (\<lambda>_. payload_hash sha ''adjustment'' cid (credit_adjustment_dump data)) key) s
      = Inr (posted, s')"
  then show "grows s s'"
    by (cases rule: record_adjustment_success) (use post_entry_grows in auto)
qed

lemma recompute_customer_grows:
  "recompute_customer ctx apply client k (s, ds) = Inr (s', ds') \<Longrightarrow> grows s s'"
  by (auto simp: recompute_customer_def Let_def result_simps grows_def split: option.splits if_splits)

lemma recompute_balances_grows: "grows s (snd (recompute_balances ctx apply client s))"
  unfolding recompute_balances_def
proof (rule grows_transaction)
  fix r s'
  assume "recompute_balances_body ctx apply client s = Inr (r, s')"
  then obtain ks ds where "foldR (recompute_customer ctx apply client) ks (s, []) = Inr (s', ds)"
    by (auto simp: recompute_balances_body_def Let_def result_simps)
  then show "grows s s'" by (rule grows_foldR_acc) (rule recompute_customer_grows)
qed

text \<open>A repayment keeps the invariant of the message table: what it links is the entry it just made.\<close>

lemma record_repayment_mpesa_ok:
  assumes "mpesa_ok s" and "fresh_ok s"
  shows "mpesa_ok (snd (record_repayment sha clk ctx cid data client key s))"
  unfolding record_repayment_def Let_def on_integrity_error_snd
proof (rule transaction_preserves [where P = mpesa_ok, OF assms(1)])
  fix posted s'
  assume "record_repayment_body clk ctx cid data client key
    (map_option (\<lambda>_. payload_hash sha ''repayment'' cid (repayment_dump data)) key) s = Inr (posted, s')"
  then show "mpesa_ok s'"
  proof (cases rule: record_repayment_success)
    case (replayed c t)
    with assms show ?thesis by simp
  next
    case (fresh c t s1 s2 f)
    have s1: "mpesa_messages s1 = mpesa_messages s" using post_entry_frame [OF fresh(3)] by simp
    have "ct_id t = new_id s" using fresh(3) by (auto elim!: post_entry_success)
    with new_id_fresh [OF assms(2)]
    have "Some (ct_id t) \<notin> mm_credit_transaction_id ` set (mpesa_messages s1)"
      unfolding s1 by (auto simp: known_ids_def message_ids_def)
    moreover have "mpesa_ok s1" using assms(1) by (simp add: mpesa_ok_def s1)
    ultimately have "mpesa_ok s2"
      using fresh(4) by (auto split: if_splits intro: link_reference_ok)
    then show ?thesis using fresh(6) by simp
  qed
qed

subsection \<open>Repayments and adjustments are idempotent operations\<close>

type_synonym repayment_call = "clock \<times> uuid \<times> RepaymentRequest \<times> ClientInfo option"
type_synonym adjustment_call = "clock \<times> uuid \<times> CreditAdjustmentRequest \<times> ClientInfo option"

definition posted_entry :: "Posted result \<times> db \<Rightarrow> credit_transaction result \<times> db" where
  "posted_entry out = (case out of (r, s) \<Rightarrow> (map_sum id entry r, s))"

definition run_repayment ::
  "(json \<Rightarrow> string) \<Rightarrow> BusinessContext \<Rightarrow> uuid \<Rightarrow> repayment_call \<Rightarrow> db \<Rightarrow> credit_transaction result \<times> db" where
  "run_repayment sha ctx k q s = (case q of (clk, cid, data, client) \<Rightarrow>
     posted_entry (record_repayment sha clk ctx cid data client (Some k) s))"

definition run_adjustment ::
  "(json \<Rightarrow> string) \<Rightarrow> BusinessContext \<Rightarrow> uuid \<Rightarrow> adjustment_call \<Rightarrow> db \<Rightarrow> credit_transaction result \<times> db" where
  "run_adjustment sha ctx k q s = (case q of (clk, cid, data, client) \<Rightarrow>
     posted_entry (record_adjustment sha clk ctx cid data client (Some k) s))"

definition repayment_digest :: "(json \<Rightarrow> string) \<Rightarrow> repayment_call \<Rightarrow> string option" where
  "repayment_digest sha q = (case q of (clk, cid, data, client) \<Rightarrow>
     Some (payload_hash sha ''repayment'' cid (repayment_dump data)))"

definition adjustment_digest :: "(json \<Rightarrow> string) \<Rightarrow> adjustment_call \<Rightarrow> string option" where
  "adjustment_digest sha q = (case q of (clk, cid, data, client) \<Rightarrow>
     Some (payload_hash sha ''adjustment'' cid (credit_adjustment_dump data)))"

definition stored_entry ::
  "BusinessContext \<Rightarrow> uuid \<Rightarrow> db \<Rightarrow> (string option \<times> credit_transaction) option" where
  "stored_entry ctx k s = map_option (\<lambda>t. (ct_idempotency_hash t, t))
     (get_entry_by_idempotency_key (business_id ctx) k s)"

definition knows_customer :: "BusinessContext \<Rightarrow> clock \<times> uuid \<times> 'd \<times> 'c \<Rightarrow> db \<Rightarrow> bool" where
  "knows_customer ctx q s \<longleftrightarrow> repo_get_customer (business_id ctx) (fst (snd q)) s \<noteq> None"

lemma posted_entry_simps [simp]:
  "posted_entry (Inr p, s) = (Inr (entry p), s)" "posted_entry (Inl e, s) = (Inl e, s)"
  by (simp_all add: posted_entry_def)

lemma posted_entry_Inr: "posted_entry out = (Inr t, s') \<longleftrightarrow> (\<exists>p. out = (Inr p, s') \<and> entry p = t)"
  by (cases out; cases "fst out") (auto simp: posted_entry_def)

lemma repo_get_customer_frame [simp]:
  "repo_get_customer b k (audit_record ctx a e i bf f c s) = repo_get_customer b k s"
  "repo_get_customer b k (drawn s) = repo_get_customer b k s"
  "repo_get_customer b k (s\<lparr>credit_transactions := ts\<rparr>) = repo_get_customer b k s"
  by (simp_all add: repo_get_customer_def)

lemma repo_get_customer_same_books: "same_books s s' \<Longrightarrow> repo_get_customer b k s' = repo_get_customer b k s"
  by (simp add: repo_get_customer_def writes_def)

lemma get_entry_frame [simp]:
  "get_entry_by_idempotency_key b k (audit_record ctx a e i bf f c s) = get_entry_by_idempotency_key b k s"
  by (simp add: get_entry_by_idempotency_key_def)

lemma replay_entry_Some:
  "replay_entry ctx (Some k) digest s = Inr (Some t) \<longleftrightarrow> stored_entry ctx k s = Some (digest, t)"
  by (auto simp: replay_entry_def stored_entry_def result_simps split: option.splits)

lemma replay_entry_None:
  "replay_entry ctx (Some k) digest s = Inr None \<longleftrightarrow> get_entry_by_idempotency_key (business_id ctx) k s = None"
  by (auto simp: replay_entry_def result_simps split: option.splits)

text \<open>A new entry is found under its key.\<close>

lemma post_entry_stored:
  assumes "post_entry clk ctx cid ty d neg code pm ref reason sale pay occ (Some k) hash s = Inr (t, s1)"
    and "get_entry_by_idempotency_key (business_id ctx) k s = None"
    and "credit_transactions s' = credit_transactions s1"
  shows "stored_entry ctx k s' = Some (hash, t)"
  using assms(1)
proof (rule post_entry_success)
  assume t: "ct_business_id t = business_id ctx" "ct_idempotency_key t = Some k" "ct_idempotency_hash t = hash"
  then show ?thesis using assms(2,3) post_entry_frame(1) [OF assms(1)]
    by (simp add: stored_entry_def get_entry_by_idempotency_key_def find_append)
qed

lemma post_entry_customer:
  "post_entry clk ctx cid ty d neg code pm ref reason sale pay occ key hash s = Inr (t, s1)
    \<Longrightarrow> repo_get_customer b k s1 = None \<longleftrightarrow> repo_get_customer b k s = None"
  by (erule post_entry_success) simp

interpretation repayment: idempotent_operation "run_repayment sha ctx" "repayment_digest sha"
  "stored_entry ctx" "knows_customer ctx" "ConflictError ''IDEMPOTENCY_CONFLICT''"
  for sha ctx
proof (unfold_locales, goal_cases)
  case (1 k q s r s')
  obtain clk cid data client where q: "q = (clk, cid, data, client)" by (cases q) auto
  from 1 obtain p where body: "record_repayment_body clk ctx cid data client (Some k)
      (repayment_digest sha q) s = Inr (p, s')" and p: "entry p = r"
    by (auto simp: run_repayment_def q posted_entry_Inr record_repayment_def on_integrity_error_Inr
        transaction_cases repayment_digest_def)
  from body show ?case
  proof (cases rule: record_repayment_success)
    case (replayed c t)
    with p show ?thesis by (simp add: replay_entry_Some knows_customer_def q)
  next
    case (fresh c t s1 s2 f)
    have books: "same_books s1 s2" using fresh(4) link_reference_frame by (auto split: if_splits)
    then have "credit_transactions s' = credit_transactions s1" using fresh(6) by (simp add: writes_def)
    then have "stored_entry ctx k s' = Some (repayment_digest sha q, t)"
      using fresh(2,3) by (intro post_entry_stored) (simp_all add: replay_entry_None)
    moreover have "knows_customer ctx q s'"
      using fresh(1,6) post_entry_customer [OF fresh(3)] repo_get_customer_same_books [OF books]
      by (simp add: knows_customer_def q)
    ultimately show ?thesis using fresh(5) p by simp
  qed
next
  case (2 k s q r)
  then show ?case
    by (cases q) (auto simp: run_repayment_def record_repayment_def record_repayment_body_def
        knows_customer_def repayment_digest_def locked_customer_def transaction_def
        on_integrity_error_def replay_entry_Some [symmetric])
next
  case (3 k s h r q)
  then have "replay_entry ctx (Some k) (repayment_digest sha q) s = Inl (ConflictError ''IDEMPOTENCY_CONFLICT'')"
    by (auto simp: stored_entry_def replay_entry_def)
  with 3 show ?case
    by (cases q) (auto simp: run_repayment_def record_repayment_def record_repayment_body_def
        knows_customer_def repayment_digest_def locked_customer_def transaction_def
        on_integrity_error_def)
qed

interpretation adjustment: idempotent_operation "run_adjustment sha ctx" "adjustment_digest sha"
  "stored_entry ctx" "knows_customer ctx" "ConflictError ''IDEMPOTENCY_CONFLICT''"
  for sha ctx
proof (unfold_locales, goal_cases)
  case (1 k q s r s')
  obtain clk cid data client where q: "q = (clk, cid, data, client)" by (cases q) auto
  from 1 obtain p where body: "record_adjustment_body clk ctx cid data client (Some k)
      (adjustment_digest sha q) s = Inr (p, s')" and p: "entry p = r"
    by (auto simp: run_adjustment_def q posted_entry_Inr record_adjustment_def on_integrity_error_Inr
        transaction_cases adjustment_digest_def)
  from body show ?case
  proof (cases rule: record_adjustment_success)
    case (replayed c t)
    with p show ?thesis by (simp add: replay_entry_Some knows_customer_def q)
  next
    case (fresh c t s1 b f)
    have "stored_entry ctx k s' = Some (adjustment_digest sha q, t)"
      using fresh(2,3,5) by (intro post_entry_stored) (simp_all add: replay_entry_None)
    moreover have "knows_customer ctx q s'"
      using fresh(1,5) post_entry_customer [OF fresh(3)] by (simp add: knows_customer_def q)
    ultimately show ?thesis using fresh(4) p by simp
  qed
next
  case (2 k s q r)
  then show ?case
    by (cases q) (auto simp: run_adjustment_def record_adjustment_def record_adjustment_body_def Let_def
        knows_customer_def adjustment_digest_def locked_customer_def transaction_def
        on_integrity_error_def replay_entry_Some [symmetric])
next
  case (3 k s h r q)
  then have "replay_entry ctx (Some k) (adjustment_digest sha q) s = Inl (ConflictError ''IDEMPOTENCY_CONFLICT'')"
    by (auto simp: stored_entry_def replay_entry_def)
  with 3 show ?case
    by (cases q) (auto simp: run_adjustment_def record_adjustment_def record_adjustment_body_def Let_def
        knows_customer_def adjustment_digest_def locked_customer_def transaction_def
        on_integrity_error_def)
qed

subsection \<open>Recomputing is a repair loop\<close>

definition cached_balance :: "uuid \<Rightarrow> db \<Rightarrow> uuid \<Rightarrow> money" where
  "cached_balance bid s cid = (case repo_get_customer bid cid s of
     None \<Rightarrow> sum_entries bid cid s | Some c \<Rightarrow> c_balance c)"

lemma sum_entries_frame [simp]:
  "sum_entries b k (audit_record ctx a e i bf f c s) = sum_entries b k s"
  "sum_entries b k (set_balance cid q s) = sum_entries b k s"
  by (simp_all add: sum_entries_def)

interpretation debt_repair: ledger_repair "cached_balance (business_id ctx)"
  "\<lambda>s k. sum_entries (business_id ctx) k s" "recompute_customer ctx True client"
  for ctx client
proof (unfold_locales, goal_cases)
  case (1 k s ds s' ds')
  then show ?case
    by (auto simp: recompute_customer_def cached_balance_def Let_def result_simps
        split: option.splits if_splits dest: repo_get_customer_SomeD)
next
  case (2 k s ds s' ds' k')
  then show ?case
    by (auto simp: recompute_customer_def cached_balance_def Let_def result_simps
        split: option.splits if_splits dest: repo_get_customer_SomeD)
next
  case (3 k s ds s' ds' k')
  then show ?case
    by (auto simp: recompute_customer_def Let_def result_simps split: option.splits if_splits)
next
  case (4 s k ds)
  then show ?case
    by (auto simp: recompute_customer_def cached_balance_def Let_def split: option.splits)
qed

lemma credit_ok_ledger:
  assumes "credit_ok s" and "repo_get_customer b k s = Some c"
  shows "sum_entries b k s = c_balance c"
proof -
  from assms(2) have c: "c_id c = k" "c_business_id c = b" "c \<in> set (customers s)"
    using repo_get_customer_SomeD by blast+
  have "ct_business_id t = b" if "t \<in> set (credit_transactions s)" "ct_customer_id t = k" for t
  proof -
    from that assms(1) obtain q where q: "q \<in> set (customers s)" "c_id q = k"
        "c_business_id q = ct_business_id t"
      by (auto simp: credit_ok_def)
    with c assms(1) have "q = c"
      using customer_row_unique [of s q] customer_row_unique [of s c] by (auto simp: credit_ok_def)
    with q c show ?thesis by simp
  qed
  then have "filter (\<lambda>t. ct_business_id t = b \<and> ct_customer_id t = k) (credit_transactions s)
      = filter (\<lambda>t. ct_customer_id t = k) (credit_transactions s)"
    by (intro filter_cong) auto
  with assms(1) c show ?thesis
    by (auto simp: sum_entries_def total_where_def credit_ok_def credit_account_def)
qed

lemma recompute_customers_consistent:
  assumes "credit_ok s"
  shows "foldR (recompute_customer ctx apply client) ks (s, ds) = Inr (s, ds)"
proof (induction ks)
  case Nil
  then show ?case by simp
next
  case (Cons k ks)
  have "recompute_customer ctx apply client k (s, ds) = Inr (s, ds)"
    using credit_ok_ledger [OF assms] by (auto simp: recompute_customer_def split: option.splits)
  with Cons show ?case by simp
qed

lemma recompute_balances_credit_ok:
  "credit_ok s \<Longrightarrow> credit_ok (snd (recompute_balances ctx apply client s))"
  by (simp add: recompute_balances_def transaction_def recompute_balances_body_def Let_def
      recompute_customers_consistent)

lemma recompute_customer_ledger:
  "recompute_customer ctx apply client k (s, ds) = Inr (s', ds')
    \<Longrightarrow> credit_transactions s' = credit_transactions s"
  by (auto simp: recompute_customer_def Let_def result_simps split: option.splits if_splits)

lemma recompute_customers_ledger:
  assumes "foldR (recompute_customer ctx apply client) ks (s, ds) = Inr (s', ds')"
  shows "credit_transactions s' = credit_transactions s"
  using foldR_frame [where g = "credit_transactions \<circ> fst", OF assms] recompute_customer_ledger by force

subsection \<open>First in, first out\<close>

text \<open>The reference: payments are used up on the charges in order; the first charge they do not cover
  entirely is the oldest unpaid one.\<close>

fun fifo_unpaid :: "money \<Rightarrow> credit_transaction list \<Rightarrow> time option" where
  "fifo_unpaid paid [] = None"
| "fifo_unpaid paid (t # ts) =
     (if paid < ct_amount t then Some (ct_occurred_at t) else fifo_unpaid (paid - ct_amount t) ts)"

lemma min_time_sorted: "sorted (t # ts) \<Longrightarrow> min_time (t # ts) = Some t"
proof -
  assume "sorted (t # ts)"
  then have "\<forall>x \<in> set ts. t \<le> x" by simp
  then have "fold min ts t = t" by (induction ts) (auto simp: min_def)
  then show ?thesis by (simp add: min_time_def)
qed

lemma unpaid_charges:
  assumes "\<forall>t \<in> set ts. 0 < ct_amount t" and "sorted (map ct_occurred_at ts)"
  shows "min_time (map fst (filter (\<lambda>(t, charged). charged > acc + paid) (charged_so_far acc ts)))
    = fifo_unpaid paid ts"
  using assms
proof (induction ts arbitrary: acc paid)
  case Nil
  then show ?case by (simp add: min_time_def)
next
  case (Cons t ts)
  have mono: "acc' \<le> snd x" "fst x \<in> ct_occurred_at ` set ts"
    if "x \<in> set (charged_so_far acc' ts)" "\<forall>t \<in> set ts. 0 < ct_amount t" for x acc' and ts
    using that
  proof (induction ts arbitrary: acc')
    case Nil
    { case 1 then show ?case by simp }
    { case 2 then show ?case by simp }
  next
    case (Cons u us)
    { case 1 with Cons.IH(1) [of "acc' + ct_amount u"] show ?case by fastforce }
    { case 2 with Cons.IH(2) [of "acc' + ct_amount u"] show ?case by auto }
  qed
  show ?case
  proof (cases "paid < ct_amount t")
    case True
    have all: "filter (\<lambda>(t, charged). charged > acc + paid) (charged_so_far (acc + ct_amount t) ts)
        = charged_so_far (acc + ct_amount t) ts"
      using mono(1) [of _ "acc + ct_amount t" ts] True Cons.prems(1)
      by (intro filter_True) force
    have "map fst (charged_so_far a us) = map ct_occurred_at us" for a us
      by (induction us arbitrary: a) auto
    with all True have "map fst (filter (\<lambda>(t, charged). charged > acc + paid) (charged_so_far acc (t # ts)))
        = map ct_occurred_at (t # ts)"
      by simp
    moreover have "min_time (map ct_occurred_at (t # ts)) = Some (ct_occurred_at t)"
      using Cons.prems(2) min_time_sorted by simp
    ultimately show ?thesis using True by simp
  next
    case False
    have "min_time (map fst (filter (\<lambda>(u, charged). charged > (acc + ct_amount t) + (paid - ct_amount t))
        (charged_so_far (acc + ct_amount t) ts))) = fifo_unpaid (paid - ct_amount t) ts"
      using Cons.prems by (intro Cons.IH) auto
    with False show ?thesis by (simp add: algebra_simps)
  qed
qed

lemma sorted_map_fst_key:
  "sorted (map (\<lambda>t. (f t :: 'b :: linorder, g t :: 'c :: linorder)) xs) \<Longrightarrow> sorted (map f xs)"
  unfolding sorted_map by (erule sorted_wrt_mono_rel [rotated]) (auto simp: less_eq_prod_def)

lemma positive_entries_sorted: "sorted (map ct_occurred_at (positive_entries b k s))"
  by (rule sorted_map_fst_key [where g = "\<lambda>t. (ct_created_at t, ct_id t)"])
    (simp add: positive_entries_def sorted_sort_key)

lemma fifo_unpaid_exists:
  assumes "\<forall>t \<in> set ts. 0 < ct_amount t" and "paid < sum_list (map ct_amount ts)" and "0 \<le> paid"
  shows "\<exists>t \<in> set ts. fifo_unpaid paid ts = Some (ct_occurred_at t)"
  using assms
proof (induction ts arbitrary: paid)
  case Nil
  then show ?case by simp
next
  case (Cons t ts)
  show ?case
  proof (cases "paid < ct_amount t")
    case True
    then show ?thesis by simp
  next
    case False
    with Cons.prems have "\<exists>u \<in> set ts. fifo_unpaid (paid - ct_amount t) ts = Some (ct_occurred_at u)"
      by (intro Cons.IH) auto
    with False show ?thesis by auto
  qed
qed

text \<open>The balance splits into what was charged and what was paid.\<close>

lemma balance_charged_minus_paid:
  "sum_entries b k s = sum_list (map ct_amount (positive_entries b k s)) - paid_total b k s"
proof -
  have "mset (positive_entries b k s) = mset (filter (\<lambda>t. ct_business_id t = b \<and> ct_customer_id t = k
      \<and> 0 < ct_amount t) (credit_transactions s))"
    by (simp add: positive_entries_def)
  then have "sum_mset (image_mset ct_amount (mset (positive_entries b k s)))
      = sum_mset (image_mset ct_amount (mset (filter (\<lambda>t. ct_business_id t = b \<and> ct_customer_id t = k
          \<and> 0 < ct_amount t) (credit_transactions s))))"
    by (rule arg_cong)
  then have "sum_list (map ct_amount (positive_entries b k s))
      = total_where ct_amount (\<lambda>t. (ct_business_id t = b \<and> ct_customer_id t = k) \<and> 0 < ct_amount t)
          (credit_transactions s)"
    by (simp add: total_where_def flip: sum_mset_sum_list)
  moreover have "total_where ct_amount (\<lambda>t. (ct_business_id t = b \<and> ct_customer_id t = k) \<and> \<not> 0 < ct_amount t) ts
      = total_where ct_amount (\<lambda>t. ct_business_id t = b \<and> ct_customer_id t = k \<and> ct_amount t < 0) ts" for ts
    by (induction ts) auto
  ultimately show ?thesis
    unfolding sum_entries_def paid_total_def
    using total_where_split [of ct_amount "\<lambda>t. ct_business_id t = b \<and> ct_customer_id t = k"
        "credit_transactions s" "\<lambda>t. 0 < ct_amount t"] by simp
qed

lemma paid_total_nonneg: "0 \<le> paid_total b k s"
proof -
  have "total_where ct_amount (\<lambda>t. ct_business_id t = b \<and> ct_customer_id t = k \<and> ct_amount t < 0) ts \<le> 0" for ts
    by (induction ts) auto
  then show ?thesis by (simp add: paid_total_def)
qed

subsection \<open>Properties\<close>

definition demo_customer :: customer where
  "demo_customer = \<lparr>c_id = 111, c_business_id = 900, c_name = ''Mama Njeri'', c_phone = None,
     c_notes = None, c_credit_limit = Some 100000, c_balance = 50000, c_is_active = True, c_created_at = 10\<rparr>"

definition demo_charge :: credit_transaction where
  "demo_charge = \<lparr>ct_id = 112, ct_business_id = 900, ct_customer_id = 111, ct_entry_type = CHARGE,
     ct_amount = 50000, ct_balance_after = 50000, ct_sale_id = None, ct_payment_id = None,
     ct_payment_method = None, ct_reference = None, ct_reason = None, ct_idempotency_key = None,
     ct_idempotency_hash = None, ct_occurred_at = 20, ct_created_by = 901, ct_created_at = 20\<rparr>"

definition demo_debt :: db where
  "demo_debt = (empty_db id)\<lparr>customers := [demo_customer], credit_transactions := [demo_charge],
     draws := 200\<rparr>"

definition demo_repayment :: RepaymentRequest where
  "demo_repayment = \<lparr>rp_amount = 20000, rp_payment_method = BY_CASH, rp_reference = None,
     rp_allow_overpayment = False\<rparr>"

lemma demo_debt_ok: "credit_ok demo_debt"
  by code_simp

text \<open>
  C4. A repayment of a customer's debt. It is refused, with nothing written, when it is larger than
  the balance and overpayment was not allowed. When a new entry is created, it is the only new ledger
  row, it takes exactly the amount off this customer's balance, stamps the new balance on the row,
  and leaves every other customer's balance alone.
\<close>

theorem record_repayment_outcome:
  assumes "credit_ok s" and "0 < rp_amount data"
    and "repo_get_customer (business_id ctx) cid s = Some c"
    and "record_repayment sha clk ctx cid data client key s = (r, s')"
  shows "(\<forall>e. r = Inl e \<longrightarrow> s' = s)
    \<and> (\<forall>p. r = Inr p \<longrightarrow> \<not> created p \<longrightarrow> s' = s)
    \<and> (\<forall>p. r = Inr p \<longrightarrow> created p \<longrightarrow>
         (c_balance c < rp_amount data \<longrightarrow> rp_allow_overpayment data)
         \<and> credit_transactions s' = credit_transactions s @ [entry p]
         \<and> ct_amount (entry p) = - rp_amount data \<and> ct_entry_type (entry p) = REPAYMENT
         \<and> ct_balance_after (entry p) = c_balance c - rp_amount data
         \<and> balance_of s' cid = c_balance c - rp_amount data
         \<and> (\<forall>k. k \<noteq> cid \<longrightarrow> balance_of s' k = balance_of s k))"
proof (cases r)
  case (Inl e)
  with assms(4) show ?thesis
    by (auto simp: record_repayment_def Let_def on_integrity_error_def transaction_def
        split: sum.splits if_splits)
next
  case (Inr p)
  let ?digest = "map_option (\<lambda>_. payload_hash sha ''repayment'' cid (repayment_dump data)) key"
  have body: "record_repayment_body clk ctx cid data client key ?digest s = Inr (p, s')"
    using assms(4) Inr by (auto simp: record_repayment_def Let_def on_integrity_error_Inr transaction_cases)
  have row: "customer_row cid s = Some c"
    using assms(1) repo_get_customer_row [OF _ assms(3)] by (simp add: credit_ok_def)
  from body show ?thesis
  proof (cases rule: record_repayment_success)
    case (replayed c' t)
    with Inr show ?thesis by simp
  next
    case (fresh c' t s1 s2 f)
    have books: "same_books s1 s2" using fresh(4) link_reference_frame by (auto split: if_splits)
    have bal: "balance_of s' k = balance_of s1 k" for k
      using books fresh(6) by (simp add: balance_of_def customer_row_def writes_def)
    have "balance_of s1 cid = c_balance c - rp_amount data"
      using balance_of_post(1) [OF fresh(3), of cid] row by (simp add: balance_of_def)
    moreover have "balance_of s1 k = balance_of s k" if "k \<noteq> cid" for k
      using balance_of_post(1) [OF fresh(3), of k] that by simp
    moreover have "credit_transactions s' = credit_transactions s @ [t]"
      using post_entry_frame(1) [OF fresh(3)] books fresh(6) by (simp add: writes_def)
    moreover have "(c_balance c < rp_amount data \<longrightarrow> rp_allow_overpayment data)
        \<and> ct_amount t = - rp_amount data \<and> ct_entry_type t = REPAYMENT
        \<and> ct_balance_after t = c_balance c - rp_amount data"
      using fresh(3) row by (auto elim!: post_entry_success)
    ultimately show ?thesis using Inr fresh(5) bal by simp
  qed
qed

theorem record_repayment_outcome_witness:
  "\<exists>p s'. record_repayment (\<lambda>_. []) demo_clock demo_owner 111 demo_repayment None None demo_debt = (Inr p, s')
     \<and> created p \<and> balance_of s' 111 = 30000"
proof -
  have "\<not> isl (fst (record_repayment (\<lambda>_. []) demo_clock demo_owner 111 demo_repayment None None demo_debt))"
    and cr: "case fst (record_repayment (\<lambda>_. []) demo_clock demo_owner 111 demo_repayment None None demo_debt)
      of Inr p \<Rightarrow> created p | Inl e \<Rightarrow> False"
    by code_simp+
  then obtain p s' where
    run: "record_repayment (\<lambda>_. []) demo_clock demo_owner 111 demo_repayment None None demo_debt = (Inr p, s')"
    by (metis isl_def old.sum.exhaust prod.collapse)
  have c: "repo_get_customer (business_id demo_owner) 111 demo_debt = Some demo_customer" by code_simp
  have "0 < rp_amount demo_repayment" by (simp add: demo_repayment_def)
  from record_repayment_outcome [OF demo_debt_ok this c run] cr run show ?thesis
    by (auto simp: demo_customer_def demo_repayment_def)
qed

lemma record_repayment_replay:
  assumes "stored_entry ctx k s = Some (Some (payload_hash sha ''repayment'' cid (repayment_dump data)), t)"
    and "repo_get_customer (business_id ctx) cid s \<noteq> None"
  shows "record_repayment sha clk ctx cid data client (Some k) s
    = (Inr \<lparr>entry = t, created = False\<rparr>, s)"
  using assms by (auto simp: record_repayment_def record_repayment_body_def locked_customer_def
      transaction_def on_integrity_error_def replay_entry_Some [symmetric])

text \<open>
  A repayment that is sent again with the same idempotency key (at any later moment, from any client)
  answers with the ledger entry the first request created, says that nothing was created, and leaves
  the database as it is.
\<close>

theorem record_repayment_idempotent:
  assumes "record_repayment sha clk ctx cid data client (Some k) s = (Inr p, s')"
  shows "record_repayment sha clk' ctx cid data client' (Some k) s'
    = (Inr \<lparr>entry = entry p, created = False\<rparr>, s')"
proof -
  have "run_repayment sha ctx k (clk, cid, data, client) s = (Inr (entry p), s')"
    using assms by (simp add: run_repayment_def)
  from repayment.run_stores [OF this] show ?thesis
    by (intro record_repayment_replay) (simp_all add: repayment_digest_def knows_customer_def)
qed

theorem record_repayment_idempotent_witness:
  "\<exists>p s'. record_repayment (\<lambda>_. []) demo_clock demo_owner 111 demo_repayment None (Some 7) demo_debt = (Inr p, s')
     \<and> record_repayment (\<lambda>_. []) demo_clock demo_owner 111 demo_repayment None (Some 7) s'
       = (Inr \<lparr>entry = entry p, created = False\<rparr>, s')"
proof -
  have "\<not> isl (fst (record_repayment (\<lambda>_. []) demo_clock demo_owner 111 demo_repayment None (Some 7) demo_debt))"
    by code_simp
  then obtain p s' where
    run: "record_repayment (\<lambda>_. []) demo_clock demo_owner 111 demo_repayment None (Some 7) demo_debt = (Inr p, s')"
    by (metis isl_def old.sum.exhaust prod.collapse)
  from record_repayment_idempotent [OF run] run show ?thesis by blast
qed

text \<open>
  Reusing the key of a repayment for another repayment of a known customer, one with a different
  digest, is refused with IDEMPOTENCY_CONFLICT and writes nothing.
\<close>

theorem record_repayment_key_reuse:
  assumes "record_repayment sha clk ctx cid data client (Some k) s = (Inr p, s')"
    and "payload_hash sha ''repayment'' cid' (repayment_dump data')
      \<noteq> payload_hash sha ''repayment'' cid (repayment_dump data)"
    and "repo_get_customer (business_id ctx) cid' s' \<noteq> None"
  shows "record_repayment sha clk' ctx cid' data' client' (Some k) s'
    = (Inl (ConflictError ''IDEMPOTENCY_CONFLICT''), s')"
proof -
  have "run_repayment sha ctx k (clk', cid', data', client') s'
      = (Inl (ConflictError ''IDEMPOTENCY_CONFLICT''), s')"
    using assms by (intro repayment.reuse_refused [where q = "(clk, cid, data, client)" and s = s])
      (auto simp: run_repayment_def repayment_digest_def knows_customer_def)
  then show ?thesis
    by (cases "record_repayment sha clk' ctx cid' data' client' (Some k) s'")
      (auto simp: run_repayment_def posted_entry_def map_sum_def split: sum.splits)
qed

definition demo_sha :: "json \<Rightarrow> string" where
  "demo_sha j = (if j = JObject [(''customer_id'', JUuid 111), (''op'', JText ''repayment''),
     (''payload'', JObject (repayment_dump demo_repayment))] then ''a'' else ''b'')"

theorem record_repayment_key_reuse_witness:
  "\<exists>s'. snd (record_repayment demo_sha demo_clock demo_owner 111 demo_repayment None (Some 7) demo_debt) = s'
     \<and> record_repayment demo_sha demo_clock demo_owner 111 (demo_repayment\<lparr>rp_amount := 100\<rparr>) None (Some 7) s'
       = (Inl (ConflictError ''IDEMPOTENCY_CONFLICT''), s')"
proof -
  let ?out = "record_repayment demo_sha demo_clock demo_owner 111 demo_repayment None (Some 7) demo_debt"
  have ok: "\<not> isl (fst ?out)" by code_simp
  then obtain p s' where run: "?out = (Inr p, s')"
    by (metis isl_def old.sum.exhaust prod.collapse)
  have known: "repo_get_customer (business_id demo_owner) 111 (snd ?out) \<noteq> None" by code_simp
  have "payload_hash demo_sha ''repayment'' 111 (repayment_dump (demo_repayment\<lparr>rp_amount := 100\<rparr>))
      \<noteq> payload_hash demo_sha ''repayment'' 111 (repayment_dump demo_repayment)" by code_simp
  from record_repayment_key_reuse [OF run this] known run show ?thesis by simp
qed

text \<open>
  \<open>recompute_balances\<close> with \<open>apply\<close> makes the cached balance of every customer of the business equal to
  the sum of its ledger, whatever it was before, and writes no ledger entry; on a database whose caches
  are right it reports nothing and changes nothing.
\<close>

theorem recompute_balances_repairs:
  assumes "recompute_balances ctx True client s = (Inr r, s')"
  shows "credit_transactions s' = credit_transactions s
    \<and> (\<forall>c \<in> set (customers s). c_business_id c = business_id ctx \<longrightarrow>
         cached_balance (business_id ctx) s' (c_id c) = sum_entries (business_id ctx) (c_id c) s')
    \<and> (credit_ok s \<longrightarrow> br_discrepancies r = [] \<and> s' = s)"
proof -
  let ?ks = "list_customer_ids (business_id ctx) s"
  from assms obtain ds where run: "foldR (recompute_customer ctx True client) ?ks (s, []) = Inr (s', ds)"
    by (auto simp: recompute_balances_def transaction_cases recompute_balances_body_def Let_def result_simps)
  have "cached_balance (business_id ctx) s' k = sum_entries (business_id ctx) k s'"
    if "k \<in> set ?ks" for k
    using debt_repair.repair_all_cache [OF run that] debt_repair.repair_all_ledger [OF run, of k] by simp
  moreover have "c_id c \<in> set ?ks" if "c \<in> set (customers s)" "c_business_id c = business_id ctx" for c
    using that by (auto simp: list_customer_ids_def)
  moreover have "br_discrepancies r = [] \<and> s' = s" if "credit_ok s"
    using assms recompute_customers_consistent [OF that]
    by (auto simp: recompute_balances_def transaction_def recompute_balances_body_def Let_def)
  ultimately show ?thesis using recompute_customers_ledger [OF run] by blast
qed

theorem recompute_balances_repairs_witness:
  "cached_balance 900 (demo_debt\<lparr>customers := [demo_customer\<lparr>c_balance := 1\<rparr>]\<rparr>) 111 = 1
   \<and> cached_balance 900 (snd (recompute_balances demo_owner True None
        (demo_debt\<lparr>customers := [demo_customer\<lparr>c_balance := 1\<rparr>]\<rparr>))) 111 = 50000"
proof -
  let ?s = "demo_debt\<lparr>customers := [demo_customer\<lparr>c_balance := 1\<rparr>]\<rparr>"
  have "\<not> isl (fst (recompute_balances demo_owner True None ?s))" by code_simp
  then obtain r s' where run: "recompute_balances demo_owner True None ?s = (Inr r, s')"
    by (metis isl_def old.sum.exhaust prod.collapse)
  have "cached_balance 900 ?s 111 = 1" by code_simp
  moreover have "sum_entries 900 111 s' = 50000"
    using recompute_balances_repairs [OF run]
    by (simp add: sum_entries_def demo_debt_def demo_charge_def)
  then have "cached_balance 900 s' 111 = 50000"
    using recompute_balances_repairs [OF run] by (auto simp: demo_customer_def demo_owner_def)
  ultimately show ?thesis using run by simp
qed

text \<open>
  C5. The date shown for a debtor is the first-in-first-out one: the query's window sums give exactly the
  date of the first charge that the payments, used up on the charges in \<open>occurred_at\<close> order, do not cover;
  and on a consistent ledger every customer who owes something has such a date, the date of one of
  their own charges.
\<close>

theorem oldest_unpaid_fifo:
  assumes "credit_ok s" and "repo_get_customer b k s = Some c" and "0 < c_balance c"
  shows "oldest_unpaid b k s = fifo_unpaid (paid_total b k s) (positive_entries b k s)
    \<and> (\<exists>t \<in> set (credit_transactions s). ct_customer_id t = k \<and> 0 < ct_amount t
         \<and> oldest_unpaid b k s = Some (ct_occurred_at t))"
proof -
  have pos: "\<forall>t \<in> set (positive_entries b k s). 0 < ct_amount t"
    by (simp add: positive_entries_def)
  have fifo: "oldest_unpaid b k s = fifo_unpaid (paid_total b k s) (positive_entries b k s)"
    using unpaid_charges [OF pos positive_entries_sorted, of 0 "paid_total b k s"]
    by (simp add: oldest_unpaid_def)
  have "paid_total b k s < sum_list (map ct_amount (positive_entries b k s))"
    using balance_charged_minus_paid [of b k s] credit_ok_ledger [OF assms(1,2)] assms(3) by simp
  from fifo_unpaid_exists [OF pos this paid_total_nonneg] obtain t where
    "t \<in> set (positive_entries b k s)" "oldest_unpaid b k s = Some (ct_occurred_at t)"
    using fifo by auto
  with fifo show ?thesis by (auto simp: positive_entries_def)
qed

theorem oldest_unpaid_fifo_witness:
  "oldest_unpaid 900 111 demo_debt = fifo_unpaid 0 [demo_charge] \<and> oldest_unpaid 900 111 demo_debt = Some 20"
proof -
  have "repo_get_customer 900 111 demo_debt = Some demo_customer" "0 < c_balance demo_customer"
      "paid_total 900 111 demo_debt = 0" "positive_entries 900 111 demo_debt = [demo_charge]"
    by code_simp+
  with oldest_unpaid_fifo [OF demo_debt_ok, of 900 111 demo_customer] show ?thesis
    by (simp add: demo_charge_def demo_debt_def)
qed

end
