(* ===== verification/Sales.thy ===== *)
theory Sales
  imports Inventory Credit
begin

text \<open>
  Sales: \<open>services/sales.py\<close>, \<open>repositories/sales.py\<close> and the request schemas. A sale locks its products
  and its customer, prices the lines from the locked rows, writes the sale with its items and payments,
  links M-Pesa codes, takes the stock out through \<open>apply_movement\<close> and charges the customer through
  \<open>post_entry\<close>, all in one transaction. Voiding reverses the same effects.

  Midnight in the shop's time zone (\<open>zoneinfo\<close>) is the parameter \<open>midnight\<close>; the digest of a request is
  the parameter \<open>sha\<close>. The items and payments of a sale are the rows of their tables that carry its id.
\<close>

subsection \<open>Requests\<close>

record SaleLineRequest =
  sl_product_id :: uuid
  sl_quantity :: quantity
  sl_unit_price :: "money option"

record PaymentLineRequest =
  pl_method :: PaymentMethod
  pl_amount :: money
  pl_reference :: "string option"

record SaleCreateRequest =
  sr_lines :: "SaleLineRequest list"
  sr_payments :: "PaymentLineRequest list"
  sr_customer_id :: "uuid option"
  sr_discount_amount :: money
  sr_note :: "string option"
  sr_sold_at :: "time option"
  sr_credit_limit_override :: bool

record SaleVoidRequest =
  sv_reason :: string

definition valid_sale_line :: "SaleLineRequest \<Rightarrow> bool" where
  "valid_sale_line l \<longleftrightarrow> 0 < sl_quantity l \<and> fits_quantity (sl_quantity l)
     \<and> opt_all (\<lambda>p. 0 \<le> p \<and> fits_money p) (sl_unit_price l)"

definition valid_payment_line :: "PaymentLineRequest \<Rightarrow> bool" where
  "valid_payment_line p \<longleftrightarrow> 0 < pl_amount p \<and> fits_money (pl_amount p)
     \<and> opt_all (\<lambda>r. 0 < length r \<and> length r \<le> 64) (pl_reference p)"

definition MAX_LINES :: nat where "MAX_LINES = 100"
definition MAX_PAYMENT_LINES :: nat where "MAX_PAYMENT_LINES = 5"

definition valid_sale_request :: "SaleCreateRequest \<Rightarrow> bool" where
  "valid_sale_request d \<longleftrightarrow>
     1 \<le> length (sr_lines d) \<and> length (sr_lines d) \<le> MAX_LINES \<and> list_all valid_sale_line (sr_lines d)
     \<and> 1 \<le> length (sr_payments d) \<and> length (sr_payments d) \<le> MAX_PAYMENT_LINES
     \<and> list_all valid_payment_line (sr_payments d)
     \<and> 0 \<le> sr_discount_amount d \<and> fits_money (sr_discount_amount d)
     \<and> opt_all (\<lambda>n. 0 < length n \<and> length n \<le> 255) (sr_note d)
     \<and> (list_ex (\<lambda>p. pl_method p = CREDIT) (sr_payments d) \<longrightarrow> sr_customer_id d \<noteq> None)"

definition pay_method_text :: "PaymentMethod \<Rightarrow> string" where
  "pay_method_text m = (case m of CASH \<Rightarrow> ''CASH'' | MPESA \<Rightarrow> ''MPESA'' | CREDIT \<Rightarrow> ''CREDIT'')"

definition sale_dump :: "SaleCreateRequest \<Rightarrow> payload" where
  "sale_dump d = [
     (''lines'', JList (map (\<lambda>l. JObject [(''product_id'', JUuid (sl_product_id l)),
        (''quantity'', JQuantity (sl_quantity l)),
        (''unit_price'', opt_json JMoney (sl_unit_price l))]) (sr_lines d))),
     (''payments'', JList (map (\<lambda>p. JObject [(''method'', JText (pay_method_text (pl_method p))),
        (''amount'', JMoney (pl_amount p)), (''reference'', opt_json JText (pl_reference p))])
        (sr_payments d))),
     (''customer_id'', opt_json JUuid (sr_customer_id d)),
     (''discount_amount'', JMoney (sr_discount_amount d)),
     (''note'', opt_json JText (sr_note d)), (''sold_at'', opt_json JTime (sr_sold_at d)),
     (''credit_limit_override'', JBool (sr_credit_limit_override d))]"

definition sale_payload_hash :: "(json \<Rightarrow> string) \<Rightarrow> SaleCreateRequest \<Rightarrow> string" where
  "sale_payload_hash sha data = sha (JObject (sale_dump data))"

subsection \<open>Queries\<close>

definition repo_get_sale ::
  "uuid \<Rightarrow> uuid \<Rightarrow> uuid option \<Rightarrow> time option \<Rightarrow> db \<Rightarrow> sale option" where
  "repo_get_sale bid sid created_by sold_from s = find (\<lambda>x. s_business_id x = bid \<and> s_id x = sid
     \<and> opt_all (\<lambda>u. s_created_by x = u) created_by \<and> opt_all (\<lambda>t. t \<le> s_sold_at x) sold_from) (sales s)"

definition get_sale_by_idempotency_key :: "uuid \<Rightarrow> uuid \<Rightarrow> db \<Rightarrow> sale option" where
  "get_sale_by_idempotency_key bid key s =
     find (\<lambda>x. s_business_id x = bid \<and> s_idempotency_key x = key) (sales s)"

definition items_of :: "uuid \<Rightarrow> db \<Rightarrow> sale_item list" where
  "items_of sid s = filter (\<lambda>i. si_sale_id i = sid) (sale_items s)"

definition payments_of :: "uuid \<Rightarrow> db \<Rightarrow> payment list" where
  "payments_of sid s = filter (\<lambda>p. pay_sale_id p = sid) (payments s)"

definition SALES_LIST_LIMIT :: nat where "SALES_LIST_LIMIT = 200"

definition repo_list_sales ::
  "uuid \<Rightarrow> time option \<Rightarrow> time option \<Rightarrow> uuid option \<Rightarrow> uuid option \<Rightarrow> nat \<Rightarrow> db \<Rightarrow> sale list" where
  "repo_list_sales bid sold_from sold_until customer_id created_by limit s =
     take (min limit SALES_LIST_LIMIT) (rev (sort_key (\<lambda>x. (s_sold_at x, s_id x)) (filter (\<lambda>x.
       s_business_id x = bid
       \<and> opt_all (\<lambda>t. t \<le> s_sold_at x) sold_from \<and> opt_all (\<lambda>t. s_sold_at x < t) sold_until
       \<and> opt_all (\<lambda>c. s_customer_id x = Some c) customer_id
       \<and> opt_all (\<lambda>u. s_created_by x = u) created_by) (sales s))))"

subsection \<open>Helpers\<close>

definition staff_view ::
  "(string \<Rightarrow> time \<Rightarrow> time) \<Rightarrow> clock \<Rightarrow> BusinessContext \<Rightarrow> uuid option \<times> time option" where
  "staff_view midnight clk ctx = (if role ctx = STAFF
     then (Some (user_id ctx), Some (midnight (timezone ctx) (now clk))) else (None, None))"

definition DAY :: time where "DAY = 86400000000"
definition FUTURE_TOLERANCE :: time where "FUTURE_TOLERANCE = 300000000"

definition SaleValidationError :: "string \<Rightarrow> error" where
  "SaleValidationError code = UnprocessableError code"

definition resolve_sold_at :: "clock \<Rightarrow> BusinessContext \<Rightarrow> time option \<Rightarrow> time result" where
  "resolve_sold_at clk ctx requested = (case requested of
     None \<Rightarrow> Inr (now clk)
   | Some t \<Rightarrow>
       bindR (raise_if (role ctx \<noteq> OWNER) (PermissionDeniedError ''FORBIDDEN'')) (\<lambda>_.
       bindR (raise_if (t > now clk + FUTURE_TOLERANCE) (SaleValidationError ''SALE_IN_FUTURE'')) (\<lambda>_.
       bindR (raise_if (t < now clk - sale_backdate_days (settings ctx) * DAY)
                (SaleValidationError ''SALE_BACKDATE_WINDOW'')) (\<lambda>_.
       Inr (min t (now clk))))))"

text \<open>\<open>products[product_id]\<close> of the locked dictionary is the current row.\<close>

definition lock_products :: "BusinessContext \<Rightarrow> uuid list \<Rightarrow> db \<Rightarrow> (uuid \<times> product) list result" where
  "lock_products ctx product_ids s = mapR (\<lambda>pid.
     bindR (the_or NotFoundError (get_product_for_update (business_id ctx) pid s)) (\<lambda>p. Inr (pid, p)))
     (sort (remdups product_ids))"

definition locked :: "(uuid \<times> product) list \<Rightarrow> uuid \<Rightarrow> product result" where
  "locked prods pid = the_or KeyError (map_of prods pid)"

definition lock_customer :: "BusinessContext \<Rightarrow> uuid \<Rightarrow> db \<Rightarrow> customer result" where
  "lock_customer ctx cid s =
     bindR (the_or NotFoundError (get_customer_for_update (business_id ctx) cid s)) (\<lambda>customer.
     bindR (raise_if (\<not> c_is_active customer) (ConflictError ''CUSTOMER_ARCHIVED'')) (\<lambda>_.
     Inr customer))"

subsection \<open>Creating a sale\<close>

definition price_line ::
  "(uuid \<times> product) list \<Rightarrow> SaleLineRequest \<Rightarrow> (money \<times> money) result" where
  "price_line prods line =
     bindR (locked prods (sl_product_id line)) (\<lambda>product.
     bindR (raise_if (\<not> p_is_active product) (ConflictError ''PRODUCT_ARCHIVED'')) (\<lambda>_.
     let unit_price = (case sl_unit_price line of None \<Rightarrow> p_selling_price product | Some p \<Rightarrow> p) in
     Inr (unit_price, line_total (sl_quantity line) unit_price)))"

definition sale_key :: "sale \<Rightarrow> uuid \<times> uuid" where
  "sale_key x = (s_business_id x, s_idempotency_key x)"

definition add_sale :: "sale \<Rightarrow> db \<Rightarrow> db result" where
  "add_sale x s =
     bindR (flush_row (sale_fits x) (sale_checks x)) (\<lambda>_.
     bindR (raise_if (sale_key x \<in> sale_key ` set (sales s))
              (IntegrityError uq_sales_business_id_idempotency_key)) (\<lambda>_.
     Inr ((drawn s)\<lparr>sales := sales s @ [x]\<rparr>)))"

definition add_item ::
  "BusinessContext \<Rightarrow> uuid \<Rightarrow> (uuid \<times> product) list \<Rightarrow> SaleLineRequest \<times> (money \<times> money) \<times> money
    \<Rightarrow> db \<times> sale_item list \<Rightarrow> (db \<times> sale_item list) result" where
  "add_item ctx sid prods row acc = (case (row, acc) of
     ((line, (unit_price, total_for_line), allocated), (s, items)) \<Rightarrow>
       bindR (locked prods (sl_product_id line)) (\<lambda>product.
       let item = \<lparr>si_id = new_id s, si_business_id = business_id ctx, si_sale_id = sid,
             si_product_id = p_id product, si_product_name = p_name product,
             si_quantity = sl_quantity line, si_unit_price = unit_price,
             si_default_unit_price = p_selling_price product, si_unit_cost = p_cost_price product,
             si_line_total = total_for_line, si_discount_allocated = allocated\<rparr> in
       bindR (flush_row (sale_item_fits item) (sale_item_checks item)) (\<lambda>_.
       Inr ((drawn s)\<lparr>sale_items := sale_items s @ [item]\<rparr>, items @ [item]))))"

definition add_payment ::
  "clock \<Rightarrow> BusinessContext \<Rightarrow> uuid \<Rightarrow> PaymentLineRequest \<Rightarrow> db \<times> payment list
    \<Rightarrow> (db \<times> payment list) result" where
  "add_payment clk ctx sid p acc = (case acc of (s, pays) \<Rightarrow>
     let pay = \<lparr>pay_id = new_id s, pay_business_id = business_id ctx, pay_sale_id = sid,
           pay_method = pl_method p, pay_amount = pl_amount p, pay_status = PAY_CONFIRMED,
           pay_reference = pl_reference p, pay_created_at = tx_now clk\<rparr> in
     bindR (flush_row (payment_fits pay) (payment_checks pay)) (\<lambda>_.
     Inr ((drawn s)\<lparr>payments := payments s @ [pay]\<rparr>, pays @ [pay])))"

definition link_payment ::
  "clock \<Rightarrow> BusinessContext \<Rightarrow> ClientInfo option \<Rightarrow> payment \<Rightarrow> db \<Rightarrow> db result" where
  "link_payment clk ctx client pay s =
     (if pay_method pay = MPESA \<and> truthy (pay_reference pay)
      then link_reference_in_transaction clk ctx (pay_reference pay) (Some (pay_id pay)) None
             ''sale.create'' client s
      else Inr s)"

definition take_stock ::
  "clock \<Rightarrow> BusinessContext \<Rightarrow> uuid \<Rightarrow> time \<Rightarrow> (uuid \<times> product) list \<Rightarrow> sale_item \<Rightarrow> db \<Rightarrow> db result" where
  "take_stock clk ctx sid sold_at prods item s =
     bindR (locked prods (si_product_id item)) (\<lambda>product.
     if p_track_inventory product
     then bindR (apply_movement clk ctx (p_id product) SALE (- si_quantity item) (si_unit_cost item)
                   None None (Some sid) (Some sold_at) s) (\<lambda>(m, s). Inr s)
     else Inr s)"

definition charge_customer ::
  "clock \<Rightarrow> BusinessContext \<Rightarrow> customer option \<Rightarrow> money \<Rightarrow> CreditLimitCheck option \<Rightarrow> uuid
    \<Rightarrow> payment list \<Rightarrow> time \<Rightarrow> ClientInfo option \<Rightarrow> db \<Rightarrow> db result" where
  "charge_customer clk ctx customer credit_amount limit_check sid pays sold_at client s =
     (if credit_amount > 0 then
        bindR (the_or AssertionError customer) (\<lambda>customer.
        bindR (the_or KeyError (find (\<lambda>p. pay_method p = CREDIT) pays)) (\<lambda>credit_payment.
        bindR (post_entry clk ctx (c_id customer) CHARGE credit_amount False
                 ''BALANCE_WOULD_BE_NEGATIVE'' None None None (Some sid)
                 (Some (pay_id credit_payment)) (Some sold_at) None None s) (\<lambda>(t, s).
        case limit_check of
          None \<Rightarrow> Inr s
        | Some check \<Rightarrow> Inr (if cl_exceeded check then
            audit_record ctx ''sale.credit_limit_override'' ''sale'' sid None
              (Some [(''customer_id'', JUuid (c_id customer)), (''credit_amount'', JMoney credit_amount),
                     (''balance_before'', JMoney (cl_balance check)),
                     (''credit_limit'', opt_json JMoney (cl_credit_limit check)),
                     (''projected_balance'', JMoney (cl_projected_balance check))]) client s
            else s))))
      else Inr s)"

definition create_sale_tx ::
  "clock \<Rightarrow> BusinessContext \<Rightarrow> SaleCreateRequest \<Rightarrow> ClientInfo option \<Rightarrow> uuid \<Rightarrow> string \<Rightarrow> db
    \<Rightarrow> (sale \<times> db) result" where
  "create_sale_tx clk ctx data client idempotency_key digest s =
     bindR (resolve_sold_at clk ctx (sr_sold_at data)) (\<lambda>sold_at.
     bindR (lock_products ctx (map sl_product_id (sr_lines data)) s) (\<lambda>prods.
     bindR (case sr_customer_id data of None \<Rightarrow> Inr None
            | Some cid \<Rightarrow> bindR (lock_customer ctx cid s) (\<lambda>c. Inr (Some c))) (\<lambda>customer.
     bindR (raise_if (get_sale_by_idempotency_key (business_id ctx) idempotency_key s \<noteq> None)
              DuplicateAfterLockError) (\<lambda>_.
     bindR (mapR (price_line prods) (sr_lines data)) (\<lambda>priced.
     let totals = map snd priced;
         subtotal = money_sum totals;
         discount = sr_discount_amount data in
     bindR (raise_if (discount > subtotal) (SaleValidationError ''DISCOUNT_EXCEEDS_SUBTOTAL'')) (\<lambda>_.
     let total = subtotal - discount;
         tendered = money_sum (map pl_amount (sr_payments data)) in
     bindR (raise_if (tendered \<noteq> total) (SaleValidationError ''PAYMENTS_DO_NOT_BALANCE'')) (\<lambda>_.
     let credit_amount = money_sum (map pl_amount
           (filter (\<lambda>p. pl_method p = CREDIT) (sr_payments data))) in
     bindR (if credit_amount > 0
            then bindR (the_or AssertionError customer) (\<lambda>c.
                 bindR (enforce_credit_limit c credit_amount (role ctx)
                          (sr_credit_limit_override data)) (\<lambda>chk. Inr (Some chk)))
            else Inr None) (\<lambda>limit_check.
     bindR (allocate_discount discount totals) (\<lambda>allocations.
     let sid = new_id s;
         sale = \<lparr>s_id = sid, s_business_id = business_id ctx, s_customer_id = map_option c_id customer,
           s_idempotency_key = idempotency_key, s_idempotency_hash = digest, s_status = COMPLETED,
           s_subtotal = subtotal, s_discount_amount = discount, s_total_amount = total,
           s_note = sr_note data, s_sold_at = sold_at, s_voided_at = None, s_voided_by = None,
           s_void_reason = None, s_created_by = user_id ctx, s_created_at = tx_now clk\<rparr> in
     bindR (add_sale sale s) (\<lambda>s.
     bindR (foldR (add_item ctx sid prods) (zip (sr_lines data) (zip priced allocations)) (s, []))
       (\<lambda>(s, items).
     bindR (foldR (add_payment clk ctx sid) (sr_payments data) (s, [])) (\<lambda>(s, pays).
     bindR (foldR (link_payment clk ctx client) pays s) (\<lambda>s.
     bindR (foldR (take_stock clk ctx sid sold_at prods) items s) (\<lambda>s.
     bindR (charge_customer clk ctx customer credit_amount limit_check sid pays sold_at client s) (\<lambda>s.
     Inr (sale, s))))))))))))))))"

record CreatedSale =
  cs_sale :: sale
  cs_created :: bool

definition replay_sale :: "sale \<Rightarrow> string \<Rightarrow> CreatedSale result" where
  "replay_sale existing digest =
     bindR (raise_if (s_idempotency_hash existing \<noteq> digest) (ConflictError ''IDEMPOTENCY_CONFLICT''))
       (\<lambda>_. Inr \<lparr>cs_sale = existing, cs_created = False\<rparr>)"

definition create_sale ::
  "(json \<Rightarrow> string) \<Rightarrow> clock \<Rightarrow> BusinessContext \<Rightarrow> SaleCreateRequest \<Rightarrow> ClientInfo option \<Rightarrow> uuid \<Rightarrow> db
    \<Rightarrow> CreatedSale result \<times> db" where
  "create_sale sha clk ctx data client idempotency_key s =
     (let digest = sale_payload_hash sha data in
      case get_sale_by_idempotency_key (business_id ctx) idempotency_key s of
        Some existing \<Rightarrow> (replay_sale existing digest, s)
      | None \<Rightarrow>
          (case transaction (create_sale_tx clk ctx data client idempotency_key digest) s of
             (Inr sale, s') \<Rightarrow> (Inr \<lparr>cs_sale = sale, cs_created = True\<rparr>, s')
           | (Inl e, s') \<Rightarrow>
               if e = DuplicateAfterLockError \<or> e = IntegrityError uq_sales_business_id_idempotency_key
               then (case get_sale_by_idempotency_key (business_id ctx) idempotency_key s' of
                       None \<Rightarrow> (Inl e, s')
                     | Some existing \<Rightarrow> (replay_sale existing digest, s'))
               else (Inl e, s')))"

subsection \<open>Reading\<close>

definition get_sale ::
  "(string \<Rightarrow> time \<Rightarrow> time) \<Rightarrow> clock \<Rightarrow> BusinessContext \<Rightarrow> uuid \<Rightarrow> db \<Rightarrow> sale result" where
  "get_sale midnight clk ctx sale_id s = (case staff_view midnight clk ctx of (created_by, sold_from) \<Rightarrow>
     the_or NotFoundError (repo_get_sale (business_id ctx) sale_id created_by sold_from s))"

definition list_sales ::
  "(string \<Rightarrow> time \<Rightarrow> time) \<Rightarrow> clock \<Rightarrow> BusinessContext \<Rightarrow> time option \<Rightarrow> time option \<Rightarrow> uuid option
    \<Rightarrow> nat \<Rightarrow> db \<Rightarrow> sale list result" where
  "list_sales midnight clk ctx date_from date_to customer_id limit s =
     bindR (raise_if (\<not> opt_all (\<lambda>c. repo_get_customer (business_id ctx) c s \<noteq> None) customer_id)
              NotFoundError) (\<lambda>_.
     case staff_view midnight clk ctx of (created_by, staff_from) \<Rightarrow>
       let sold_from = (case staff_from of None \<Rightarrow> date_from
             | Some t \<Rightarrow> (case date_from of None \<Rightarrow> Some t
                 | Some d \<Rightarrow> if d < t then Some t else Some d)) in
       Inr (repo_list_sales (business_id ctx) sold_from date_to customer_id created_by limit s))"

subsection \<open>Voiding a sale\<close>

definition reverse_movement ::
  "clock \<Rightarrow> BusinessContext \<Rightarrow> uuid \<Rightarrow> (uuid \<times> product) list \<Rightarrow> movement \<Rightarrow> db \<Rightarrow> db result" where
  "reverse_movement clk ctx sid prods m s =
     (if m_movement_type m \<noteq> SALE then Inr s
      else bindR (locked prods (m_product_id m)) (\<lambda>product.
           bindR (apply_movement clk ctx (p_id product) SALE_REVERSAL (- m_quantity_delta m)
                    (m_unit_cost m) None None (Some sid) None s) (\<lambda>(m, s). Inr s)))"

definition unlink_tender ::
  "BusinessContext \<Rightarrow> ClientInfo option \<Rightarrow> payment \<Rightarrow> db \<Rightarrow> db result" where
  "unlink_tender ctx client pay s = (if pay_method pay = MPESA
     then unlink_payment_in_transaction ctx (pay_id pay) client s else Inr s)"

definition reverse_charge ::
  "clock \<Rightarrow> BusinessContext \<Rightarrow> sale \<Rightarrow> money \<Rightarrow> string \<Rightarrow> db \<Rightarrow> db result" where
  "reverse_charge clk ctx sale charged reason s =
     (case s_customer_id sale of
        None \<Rightarrow> Inr s
      | Some cid \<Rightarrow> if charged > 0 then
          bindR (the_or NotFoundError (get_customer_for_update (business_id ctx) cid s)) (\<lambda>customer.
          bindR (post_entry clk ctx (c_id customer) REVERSAL (- charged) True
                   ''BALANCE_WOULD_BE_NEGATIVE'' None None (Some reason) (Some (s_id sale)) None
                   None None None s) (\<lambda>(t, s). Inr s))
          else Inr s)"

definition voided :: "clock \<Rightarrow> BusinessContext \<Rightarrow> string \<Rightarrow> sale \<Rightarrow> sale" where
  "voided clk ctx reason x = x\<lparr>s_status := VOIDED, s_voided_at := Some (now clk),
     s_voided_by := Some (user_id ctx), s_void_reason := Some reason\<rparr>"

definition void_sale_body ::
  "clock \<Rightarrow> BusinessContext \<Rightarrow> uuid \<Rightarrow> SaleVoidRequest \<Rightarrow> ClientInfo option \<Rightarrow> db \<Rightarrow> (sale \<times> db) result" where
  "void_sale_body clk ctx sale_id data client s =
     bindR (the_or NotFoundError (repo_get_sale (business_id ctx) sale_id None None s)) (\<lambda>sale.
     bindR (raise_if (s_status sale \<noteq> COMPLETED) (ConflictError ''SALE_ALREADY_VOIDED'')) (\<lambda>_.
     let moved = list_movements_for_sale (business_id ctx) (s_id sale) s;
         pays = payments_of (s_id sale) s in
     bindR (lock_products ctx (map m_product_id moved) s) (\<lambda>prods.
     bindR (foldR (reverse_movement clk ctx (s_id sale) prods) moved s) (\<lambda>s.
     let charged = money_sum (map pay_amount (filter (\<lambda>p. pay_method p = CREDIT) pays)) in
     bindR (reverse_charge clk ctx sale charged (sv_reason data) s) (\<lambda>s.
     bindR (foldR (unlink_tender ctx client) pays s) (\<lambda>s.
     let sale' = voided clk ctx (sv_reason data) sale in
     bindR (flush_row (sale_fits sale') (sale_checks sale')) (\<lambda>_.
     Inr (sale', audit_record ctx ''sale.void'' ''sale'' (s_id sale)
       (Some [(''status'', JText ''COMPLETED'')])
       (Some [(''status'', JText ''VOIDED''), (''reason'', JText (sv_reason data)),
              (''total_amount'', JMoney (s_total_amount sale)), (''credit_reversed'', JMoney charged)])
       client (s\<lparr>sales := update_where (\<lambda>x. s_id x = s_id sale) (voided clk ctx (sv_reason data))
                 (sales s)\<rparr>)))))))))"

definition void_sale ::
  "clock \<Rightarrow> BusinessContext \<Rightarrow> uuid \<Rightarrow> SaleVoidRequest \<Rightarrow> ClientInfo option \<Rightarrow> db \<Rightarrow> sale result \<times> db" where
  "void_sale clk ctx sale_id data client = transaction (void_sale_body clk ctx sale_id data client)"

subsection \<open>The stages of a sale\<close>

lemma lock_products_success:
  assumes "lock_products ctx ids s = Inr prods" and "locked prods pid = Inr p"
  shows "get_product (business_id ctx) pid s = Some p \<and> pid \<in> set ids"
proof -
  let ?ks = "sort (remdups ids)"
  have len: "length prods = length ?ks"
    and at: "\<And>i. i < length ?ks \<Longrightarrow> prods ! i = (?ks ! i, the (get_product (business_id ctx) (?ks ! i) s))
      \<and> get_product (business_id ctx) (?ks ! i) s \<noteq> None"
    using assms(1) by (auto simp: lock_products_def mapR_eq_Inr result_simps)
  from assms(2) have "(pid, p) \<in> set prods" by (simp add: locked_def map_of_SomeD)
  then obtain i where i: "i < length prods" "prods ! i = (pid, p)" by (auto simp: in_set_conv_nth)
  with len at [of i] have "?ks ! i = pid" "get_product (business_id ctx) pid s = Some p" by auto
  moreover have "?ks ! i \<in> set ?ks" using i(1) len by (metis nth_mem)
  ultimately show ?thesis by simp
qed

lemma locked_id:
  assumes "lock_products ctx ids s = Inr prods" and "locked prods pid = Inr p"
  shows "p_id p = pid"
  using lock_products_success [OF assms] get_product_SomeD by blast

definition item_of ::
  "BusinessContext \<Rightarrow> uuid \<Rightarrow> (uuid \<times> product) list \<Rightarrow> SaleLineRequest \<times> (money \<times> money) \<times> money
    \<Rightarrow> sale_item \<Rightarrow> bool" where
  "item_of ctx sid prods row item \<longleftrightarrow> (case row of (line, (unit_price, tot), allocated) \<Rightarrow>
     (\<exists>p. locked prods (sl_product_id line) = Inr p \<and> si_business_id item = business_id ctx
        \<and> si_sale_id item = sid \<and> si_product_id item = p_id p \<and> si_product_name item = p_name p
        \<and> si_quantity item = sl_quantity line \<and> si_unit_price item = unit_price
        \<and> si_default_unit_price item = p_selling_price p \<and> si_unit_cost item = p_cost_price p
        \<and> si_line_total item = tot \<and> si_discount_allocated item = allocated
        \<and> sale_item_checks item))"

lemma add_items_success:
  assumes "foldR (add_item ctx sid prods) rows (s, acc) = Inr (s', items)"
  shows "\<exists>new. items = acc @ new \<and> sale_items s' = sale_items s @ new
    \<and> list_all2 (item_of ctx sid prods) rows new"
  using assms
proof (induction rows arbitrary: s acc)
  case Nil
  then show ?case by simp
next
  case (Cons row rows)
  obtain line up tot al where row: "row = (line, (up, tot), al)" by (cases row) auto
  from Cons.prems obtain t acc' where
    one: "add_item ctx sid prods row (s, acc) = Inr (t, acc')"
    and rest: "foldR (add_item ctx sid prods) rows (t, acc') = Inr (s', items)"
    by (auto simp: result_simps)
  from one obtain item where item: "acc' = acc @ [item]" "sale_items t = sale_items s @ [item]"
      "item_of ctx sid prods row item"
    by (auto simp: add_item_def row item_of_def result_simps Let_def)
  from Cons.IH [OF rest] obtain new where "items = acc' @ new" "sale_items s' = sale_items t @ new"
      "list_all2 (item_of ctx sid prods) rows new"
    by auto
  with item show ?case by (intro exI [of _ "item # new"]) simp
qed

lemma add_items_writes:
  assumes "foldR (add_item ctx sid prods) rows (s, acc) = Inr (s', items)"
  shows "writes {T_sale_items} s s'"
  by (rule writes_foldR_acc [OF assms])
    (auto simp: add_item_def result_simps Let_def writes_def split: prod.splits)

definition payment_of :: "BusinessContext \<Rightarrow> uuid \<Rightarrow> PaymentLineRequest \<Rightarrow> payment \<Rightarrow> bool" where
  "payment_of ctx sid line pay \<longleftrightarrow> pay_business_id pay = business_id ctx \<and> pay_sale_id pay = sid
     \<and> pay_method pay = pl_method line \<and> pay_amount pay = pl_amount line
     \<and> pay_reference pay = pl_reference line \<and> pay_status pay = PAY_CONFIRMED \<and> payment_checks pay"

lemma add_payments_success:
  assumes "foldR (add_payment clk ctx sid) lines (s, acc) = Inr (s', pays)"
  shows "\<exists>new. pays = acc @ new \<and> payments s' = payments s @ new
    \<and> list_all2 (payment_of ctx sid) lines new
    \<and> map pay_id new = map (uuid4 s) [draws s ..< draws s']"
  using assms
proof (induction lines arbitrary: s acc)
  case Nil
  then show ?case by simp
next
  case (Cons line lines)
  from Cons.prems obtain t acc' where
    one: "add_payment clk ctx sid line (s, acc) = Inr (t, acc')"
    and rest: "foldR (add_payment clk ctx sid) lines (t, acc') = Inr (s', pays)"
    by (auto simp: result_simps)
  from one obtain pay where pay: "acc' = acc @ [pay]" "payments t = payments s @ [pay]"
      "payment_of ctx sid line pay" "pay_id pay = uuid4 s (draws s)"
    and t: "uuid4 t = uuid4 s" "draws t = Suc (draws s)"
    by (auto simp: add_payment_def payment_of_def result_simps Let_def new_id_def)
  from Cons.IH [OF rest] obtain new where new: "pays = acc' @ new" "payments s' = payments t @ new"
      "list_all2 (payment_of ctx sid) lines new"
      "map pay_id new = map (uuid4 t) [draws t ..< draws s']"
    by auto
  have "draws t \<le> draws s'"
    using writes_foldR_acc [OF rest, of UNIV]
    by (force simp: add_payment_def result_simps Let_def writes_def)
  with new pay t show ?case
    by (intro exI [of _ "pay # new"]) (simp add: upt_conv_Cons)
qed

lemma add_payments_writes:
  assumes "foldR (add_payment clk ctx sid) lines (s, acc) = Inr (s', pays)"
  shows "writes {T_payments} s s'"
  by (rule writes_foldR_acc [OF assms]) (auto simp: add_payment_def result_simps Let_def writes_def)

lemma link_payments_writes:
  assumes "foldR (link_payment clk ctx client) pays s = Inr s'"
  shows "same_books s s'"
  by (rule writes_foldR [OF assms]) (auto simp: link_payment_def split: if_splits dest: link_reference_frame)

lemma take_stock_writes:
  assumes "foldR (take_stock clk ctx sid sold_at prods) items s = Inr s'"
  shows "writes {T_products, T_movements} s s'"
  by (rule writes_foldR [OF assms])
    (auto simp: take_stock_def result_simps split: if_splits dest: apply_movement_writes)

lemma charge_customer_success:
  assumes "charge_customer clk ctx customer amount chk sid pays sold_at client s = Inr s'" and "0 < amount"
  obtains c pay t s1 where "customer = Some c" "find (\<lambda>p. pay_method p = CREDIT) pays = Some pay"
    "post_entry clk ctx (c_id c) CHARGE amount False ''BALANCE_WOULD_BE_NEGATIVE'' None None None
       (Some sid) (Some (pay_id pay)) (Some sold_at) None None s = Inr (t, s1)"
    "s' = s1 \<or> (\<exists>f. s' = audit_record ctx ''sale.credit_limit_override'' ''sale'' sid None f client s1)"
proof -
  from assms obtain c pay t s1 where *: "customer = Some c" "find (\<lambda>p. pay_method p = CREDIT) pays = Some pay"
    "post_entry clk ctx (c_id c) CHARGE amount False ''BALANCE_WOULD_BE_NEGATIVE'' None None None
       (Some sid) (Some (pay_id pay)) (Some sold_at) None None s = Inr (t, s1)"
    by (auto simp: charge_customer_def bindR_eq_Inr)
  with assms have "s' = s1 \<or> (\<exists>f. s' = audit_record ctx ''sale.credit_limit_override'' ''sale'' sid None f client s1)"
    by (cases chk) (auto simp: charge_customer_def, blast)
  with * show thesis by (rule that)
qed

lemma charge_customer_none:
  "charge_customer clk ctx customer amount chk sid pays sold_at client s = Inr s' \<Longrightarrow> \<not> 0 < amount \<Longrightarrow> s' = s"
  by (simp add: charge_customer_def)

lemma charge_customer_writes:
  assumes "charge_customer clk ctx customer amount chk sid pays sold_at client s = Inr s'"
  shows "writes {T_customers, T_credit_transactions, T_audit_logs} s s'"
proof (cases "0 < amount")
  case True
  from assms True show ?thesis
  proof (rule charge_customer_success)
    fix c pay t s1
    assume "post_entry clk ctx (c_id c) CHARGE amount False ''BALANCE_WOULD_BE_NEGATIVE'' None None None
       (Some sid) (Some (pay_id pay)) (Some sold_at) None None s = Inr (t, s1)"
      and s': "s' = s1 \<or> (\<exists>f. s' = audit_record ctx ''sale.credit_limit_override'' ''sale'' sid None f client s1)"
    then have "writes {T_customers, T_credit_transactions, T_audit_logs} s s1"
      by (intro writes_mono [OF post_entry_writes]) auto
    with s' show ?thesis by (auto intro!: writes_audit)
  qed
next
  case False
  with assms show ?thesis by (simp add: charge_customer_def)
qed

lemma create_sale_tx_success:
  assumes "create_sale_tx clk ctx data client key digest s = Inr (sale, s')"
  obtains sold_at prods customer priced chk alloc s1 s2 items s3 pays s4 s5 where
    "resolve_sold_at clk ctx (sr_sold_at data) = Inr sold_at"
    "lock_products ctx (map sl_product_id (sr_lines data)) s = Inr prods"
    "(case sr_customer_id data of None \<Rightarrow> Inr None
      | Some cid \<Rightarrow> bindR (lock_customer ctx cid s) (\<lambda>c. Inr (Some c))) = Inr customer"
    "get_sale_by_idempotency_key (business_id ctx) key s = None"
    "mapR (price_line prods) (sr_lines data) = Inr priced"
    "sr_discount_amount data \<le> sum_list (map snd priced)"
    "sum_list (map pl_amount (sr_payments data)) = sum_list (map snd priced) - sr_discount_amount data"
    "(if sum_list (map pl_amount (filter (\<lambda>p. pl_method p = CREDIT) (sr_payments data))) > 0
      then bindR (the_or AssertionError customer) (\<lambda>c.
           bindR (enforce_credit_limit c (sum_list (map pl_amount (filter (\<lambda>p. pl_method p = CREDIT)
                    (sr_payments data)))) (role ctx) (sr_credit_limit_override data)) (\<lambda>chk. Inr (Some chk)))
      else Inr None) = Inr chk"
    "allocate_discount (sr_discount_amount data) (map snd priced) = Inr alloc"
    "sale = \<lparr>s_id = new_id s, s_business_id = business_id ctx, s_customer_id = map_option c_id customer,
       s_idempotency_key = key, s_idempotency_hash = digest, s_status = COMPLETED,
       s_subtotal = sum_list (map snd priced), s_discount_amount = sr_discount_amount data,
       s_total_amount = sum_list (map snd priced) - sr_discount_amount data,
       s_note = sr_note data, s_sold_at = sold_at, s_voided_at = None, s_voided_by = None,
       s_void_reason = None, s_created_by = user_id ctx, s_created_at = tx_now clk\<rparr>"
    "add_sale sale s = Inr s1"
    "foldR (add_item ctx (new_id s) prods) (zip (sr_lines data) (zip priced alloc)) (s1, []) = Inr (s2, items)"
    "foldR (add_payment clk ctx (new_id s)) (sr_payments data) (s2, []) = Inr (s3, pays)"
    "foldR (link_payment clk ctx client) pays s3 = Inr s4"
    "foldR (take_stock clk ctx (new_id s) sold_at prods) items s4 = Inr s5"
    "charge_customer clk ctx customer (sum_list (map pl_amount (filter (\<lambda>p. pl_method p = CREDIT)
       (sr_payments data)))) chk (new_id s) pays sold_at client s5 = Inr s'"
  using assms
  unfolding create_sale_tx_def Let_def money_sum_eq bindR_eq_Inr raise_if_simps not_less not_not
  by (elim exE conjE) (simp only: split_paired_all prod.case bindR_eq_Inr, elim exE conjE,
    simp only: split_paired_all prod.case bindR_eq_Inr sum.inject prod.inject, elim exE conjE, hypsubst,
    rule that, (assumption | rule refl | simp only:)+)

lemma add_sale_success:
  assumes "add_sale x s = Inr s'"
  shows "s' = (drawn s)\<lparr>sales := sales s @ [x]\<rparr>" and "sale_key x \<notin> sale_key ` set (sales s)"
    and "sale_checks x" and "sale_fits x"
  using assms by (auto simp: add_sale_def result_simps)

text \<open>Up to the linking of the codes, neither stock nor debt is touched.\<close>

abbreviation paper_tables :: "table set" where
  "paper_tables \<equiv> {T_sales, T_sale_items, T_payments, T_mpesa_messages, T_audit_logs}"

lemma paper_writes:
  assumes "add_sale x s = Inr s1"
    and "foldR (add_item ctx sid prods) rows (s1, []) = Inr (s2, items)"
    and "foldR (add_payment clk ctx sid) lines (s2, []) = Inr (s3, pays)"
    and "foldR (link_payment clk ctx client) pays s3 = Inr s4"
  shows "writes paper_tables s s4"
proof -
  have 1: "writes paper_tables s s1" using add_sale_success(1) [OF assms(1)] by (simp add: writes_def)
  have 2: "writes paper_tables s1 s2"
    by (rule writes_mono [OF add_items_writes [OF assms(2)]]) auto
  have 3: "writes paper_tables s2 s3"
    by (rule writes_mono [OF add_payments_writes [OF assms(3)]]) auto
  have 4: "writes paper_tables s3 s4"
    by (rule writes_mono [OF link_payments_writes [OF assms(4)]]) auto
  from 1 2 3 4 show ?thesis by (rule writes_trans [OF writes_trans [OF writes_trans]])
qed

lemma create_sale_tx_stock_ok:
  assumes "create_sale_tx clk ctx data client key digest s = Inr (sale, s')" and "stock_ok s"
  shows "stock_ok s'"
  using assms(1)
proof (rule create_sale_tx_success)
  fix sold_at prods customer priced chk alloc s1 s2 items s3 pays s4 s5
  assume st: "add_sale sale s = Inr s1"
    "foldR (add_item ctx (new_id s) prods) (zip (sr_lines data) (zip priced alloc)) (s1, []) = Inr (s2, items)"
    "foldR (add_payment clk ctx (new_id s)) (sr_payments data) (s2, []) = Inr (s3, pays)"
    "foldR (link_payment clk ctx client) pays s3 = Inr s4"
    and take: "foldR (take_stock clk ctx (new_id s) sold_at prods) items s4 = Inr s5"
    and charge: "charge_customer clk ctx customer (sum_list (map pl_amount (filter (\<lambda>p. pl_method p = CREDIT)
       (sr_payments data)))) chk (new_id s) pays sold_at client s5 = Inr s'"
  have "stock_ok s4" using assms(2) stock_ok_writes [OF paper_writes [OF st]] by simp
  then have "stock_ok s5"
    by (rule foldR_invariant [OF take])
      (auto simp: take_stock_def result_simps split: if_splits intro: apply_movement_stock_ok)
  then show ?thesis using stock_ok_writes [OF charge_customer_writes [OF charge]] by simp
qed

lemma create_sale_tx_credit_ok:
  assumes "create_sale_tx clk ctx data client key digest s = Inr (sale, s')" and "credit_ok s"
  shows "credit_ok s'"
  using assms(1)
proof (rule create_sale_tx_success)
  fix sold_at prods customer priced chk alloc s1 s2 items s3 pays s4 s5
  assume st: "add_sale sale s = Inr s1"
    "foldR (add_item ctx (new_id s) prods) (zip (sr_lines data) (zip priced alloc)) (s1, []) = Inr (s2, items)"
    "foldR (add_payment clk ctx (new_id s)) (sr_payments data) (s2, []) = Inr (s3, pays)"
    "foldR (link_payment clk ctx client) pays s3 = Inr s4"
    and take: "foldR (take_stock clk ctx (new_id s) sold_at prods) items s4 = Inr s5"
    and charge: "charge_customer clk ctx customer (sum_list (map pl_amount (filter (\<lambda>p. pl_method p = CREDIT)
       (sr_payments data)))) chk (new_id s) pays sold_at client s5 = Inr s'"
  have "credit_ok s4" using assms(2) credit_ok_writes [OF paper_writes [OF st]] by simp
  then have s5: "credit_ok s5" using credit_ok_writes [OF take_stock_writes [OF take]] by simp
  show ?thesis
  proof (cases "0 < sum_list (map pl_amount (filter (\<lambda>p. pl_method p = CREDIT) (sr_payments data)))")
    case True
    from charge True show ?thesis
      by (rule charge_customer_success) (use post_entry_credit_ok [OF s5] in auto)
  next
    case False
    with charge_customer_none [OF charge] s5 show ?thesis by simp
  qed
qed

text \<open>Linking the tenders: each links at most one message, and no payment gets a second message.\<close>

lemma link_payments_ok:
  assumes "foldR (link_payment clk ctx client) pays s = Inr s'" and "mpesa_ok s"
    and "distinct (map pay_id pays)"
    and "\<And>p. p \<in> set pays \<Longrightarrow> Some (pay_id p) \<notin> mm_payment_id ` set (mpesa_messages s)"
  shows "mpesa_ok s'"
  using assms
proof (induction pays arbitrary: s)
  case Nil
  then show ?case by simp
next
  case (Cons p pays)
  from Cons.prems(1) obtain t where t: "link_payment clk ctx client p s = Inr t"
    and rest: "foldR (link_payment clk ctx client) pays t = Inr s'"
    by (auto simp: result_simps)
  have ids: "mm_payment_id ` set (mpesa_messages t) \<subseteq> mm_payment_id ` set (mpesa_messages s) \<union> {Some (pay_id p)}"
    using t link_reference_known by (fastforce simp: link_payment_def split: if_splits)
  have "mpesa_ok t"
    using t Cons.prems(2) Cons.prems(4) [of p]
    by (auto simp: link_payment_def split: if_splits intro: link_reference_ok)
  moreover have "Some (pay_id q) \<notin> mm_payment_id ` set (mpesa_messages t)" if "q \<in> set pays" for q
  proof -
    have "Some (pay_id q) \<notin> mm_payment_id ` set (mpesa_messages s) \<union> {Some (pay_id p)}"
      using that Cons.prems(3) Cons.prems(4) [of q] by (auto simp: image_iff)
    with ids show ?thesis by blast
  qed
  ultimately show ?case
    using Cons.prems(3) by (intro Cons.IH [OF rest]) auto
qed

lemma create_sale_tx_mpesa_ok:
  assumes "create_sale_tx clk ctx data client key digest s = Inr (sale, s')" and "mpesa_ok s" and "fresh_ok s"
  shows "mpesa_ok s'"
  using assms(1)
proof (rule create_sale_tx_success)
  fix sold_at prods customer priced chk alloc s1 s2 items s3 pays s4 s5
  assume s1: "add_sale sale s = Inr s1"
    and s2: "foldR (add_item ctx (new_id s) prods) (zip (sr_lines data) (zip priced alloc)) (s1, []) = Inr (s2, items)"
    and s3: "foldR (add_payment clk ctx (new_id s)) (sr_payments data) (s2, []) = Inr (s3, pays)"
    and s4: "foldR (link_payment clk ctx client) pays s3 = Inr s4"
    and take: "foldR (take_stock clk ctx (new_id s) sold_at prods) items s4 = Inr s5"
    and charge: "charge_customer clk ctx customer (sum_list (map pl_amount (filter (\<lambda>p. pl_method p = CREDIT)
       (sr_payments data)))) chk (new_id s) pays sold_at client s5 = Inr s'"
  have w: "writes {T_sales, T_sale_items} s s2"
    using add_sale_success(1) [OF s1] add_items_writes [OF s2] by (simp add: writes_def)
  then have u: "uuid4 s2 = uuid4 s" "draws s \<le> draws s2" "mpesa_messages s2 = mpesa_messages s"
    by (simp_all add: writes_def)
  have m3: "mpesa_messages s3 = mpesa_messages s"
    using add_payments_writes [OF s3] u by (simp add: writes_def)
  have ids: "map pay_id pays = map (uuid4 s) [draws s2 ..< draws s3]"
    using add_payments_success [OF s3] u by auto
  have "distinct (map pay_id pays)"
    unfolding ids using assms(3) by (simp add: fresh_ok_def distinct_map inj_on_def inj_def)
  moreover have "Some (pay_id p) \<notin> mm_payment_id ` set (mpesa_messages s3)" if "p \<in> set pays" for p
  proof -
    have "pay_id p \<in> set (map pay_id pays)" using that by simp
    then obtain n where "pay_id p = uuid4 s n" "draws s \<le> n" unfolding ids using u(2) by auto
    with later_id_fresh [OF assms(3)] have "pay_id p \<notin> known_ids s" by simp
    then show ?thesis unfolding m3 by (auto simp: known_ids_def message_ids_def)
  qed
  ultimately have "mpesa_ok s4"
    using assms(2) by (intro link_payments_ok [OF s4]) (simp_all add: mpesa_ok_def m3)
  then show ?thesis
    using mpesa_ok_writes [OF take_stock_writes [OF take]]
      mpesa_ok_writes [OF charge_customer_writes [OF charge]] by simp
qed

subsection \<open>The invariant of the sales\<close>

text \<open>The payments of a sale add up to its total, the line totals to its subtotal, the allocated
  discounts to its discount; ids and idempotency keys are unique.\<close>

definition sale_ok :: "db \<Rightarrow> sale \<Rightarrow> bool" where
  "sale_ok s x \<longleftrightarrow> sale_checks x
     \<and> sum_list (map pay_amount (payments_of (s_id x) s)) = s_total_amount x
     \<and> sum_list (map si_line_total (items_of (s_id x) s)) = s_subtotal x
     \<and> sum_list (map si_discount_allocated (items_of (s_id x) s)) = s_discount_amount x"

definition sales_ok :: "db \<Rightarrow> bool" where
  "sales_ok s \<longleftrightarrow> distinct (map s_id (sales s)) \<and> distinct (map sale_key (sales s))
     \<and> (\<forall>x \<in> set (sales s). sale_ok s x)"

lemma sales_ok_writes:
  "writes T s s' \<Longrightarrow> T_sales \<notin> T \<Longrightarrow> T_sale_items \<notin> T \<Longrightarrow> T_payments \<notin> T \<Longrightarrow> sales_ok s' \<longleftrightarrow> sales_ok s"
  by (simp add: sales_ok_def sale_ok_def items_of_def payments_of_def writes_def)

lemma item_columns:
  assumes "list_all2 (item_of ctx sid prods) (zip ls (zip priced alloc)) items"
    and "length priced = length ls" and "length alloc = length ls"
  shows "map si_line_total items = map snd priced" "map si_discount_allocated items = alloc"
    "map si_quantity items = map sl_quantity ls" "\<forall>i \<in> set items. si_sale_id i = sid \<and> sale_item_checks i"
proof -
  have len: "length items = length ls" using list_all2_lengthD [OF assms(1)] assms(2,3) by simp
  have row: "item_of ctx sid prods (ls ! i, (priced ! i, alloc ! i)) (items ! i)" if "i < length ls" for i
    using list_all2_nthD [OF assms(1), of i] that assms(2,3) by simp
  have col: "si_line_total (items ! i) = snd (priced ! i) \<and> si_discount_allocated (items ! i) = alloc ! i
      \<and> si_quantity (items ! i) = sl_quantity (ls ! i) \<and> si_sale_id (items ! i) = sid
      \<and> sale_item_checks (items ! i)" if "i < length ls" for i
    using row [OF that] by (cases "priced ! i") (auto simp: item_of_def)
  show "map si_line_total items = map snd priced" "map si_discount_allocated items = alloc"
      "map si_quantity items = map sl_quantity ls"
    using col len assms(2,3) by (auto intro!: nth_equalityI)
  show "\<forall>i \<in> set items. si_sale_id i = sid \<and> sale_item_checks i"
    using col len by (auto simp: in_set_conv_nth)
qed

lemma payment_columns:
  assumes "list_all2 (payment_of ctx sid) ls pays"
  shows "map pay_amount pays = map pl_amount ls" "map pay_method pays = map pl_method ls"
    "\<forall>p \<in> set pays. pay_sale_id p = sid \<and> 0 < pay_amount p"
  using assms by (induction ls pays rule: list_all2_induct)
    (auto simp: payment_of_def payment_checks_def)

text \<open>What a new sale leaves in the tables.\<close>

lemma create_sale_tx_rows:
  assumes "create_sale_tx clk ctx data client key digest s = Inr (sale, s')" and "fresh_ok s"
  obtains items pays where
    "sales s' = sales s @ [sale]" "sale_items s' = sale_items s @ items" "payments s' = payments s @ pays"
    "s_id sale = new_id s" "sale_checks sale" "sale_key sale \<notin> sale_key ` set (sales s)"
    "items_of (s_id sale) s' = items" "payments_of (s_id sale) s' = pays"
    "map pay_amount pays = map pl_amount (sr_payments data)"
    "map pay_method pays = map pl_method (sr_payments data)"
    "sum_list (map pay_amount pays) = s_total_amount sale"
    "sum_list (map si_line_total items) = s_subtotal sale"
    "sum_list (map si_discount_allocated items) = s_discount_amount sale"
    "map si_quantity items = map sl_quantity (sr_lines data)"
    "\<forall>i \<in> set items. si_sale_id i = s_id sale \<and> sale_item_checks i"
    "\<forall>p \<in> set pays. pay_sale_id p = s_id sale \<and> 0 < pay_amount p"
  using assms(1)
proof (rule create_sale_tx_success)
  fix sold_at prods customer priced chk alloc s1 s2 items s3 pays s4 s5
  assume priced: "mapR (price_line prods) (sr_lines data) = Inr priced"
    and bal: "sum_list (map pl_amount (sr_payments data)) = sum_list (map snd priced) - sr_discount_amount data"
    and alloc: "allocate_discount (sr_discount_amount data) (map snd priced) = Inr alloc"
    and sale: "sale = \<lparr>s_id = new_id s, s_business_id = business_id ctx, s_customer_id = map_option c_id customer,
       s_idempotency_key = key, s_idempotency_hash = digest, s_status = COMPLETED,
       s_subtotal = sum_list (map snd priced), s_discount_amount = sr_discount_amount data,
       s_total_amount = sum_list (map snd priced) - sr_discount_amount data,
       s_note = sr_note data, s_sold_at = sold_at, s_voided_at = None, s_voided_by = None,
       s_void_reason = None, s_created_by = user_id ctx, s_created_at = tx_now clk\<rparr>"
    and s1: "add_sale sale s = Inr s1"
    and s2: "foldR (add_item ctx (new_id s) prods) (zip (sr_lines data) (zip priced alloc)) (s1, []) = Inr (s2, items)"
    and s3: "foldR (add_payment clk ctx (new_id s)) (sr_payments data) (s2, []) = Inr (s3, pays)"
    and s4: "foldR (link_payment clk ctx client) pays s3 = Inr s4"
    and take: "foldR (take_stock clk ctx (new_id s) sold_at prods) items s4 = Inr s5"
    and charge: "charge_customer clk ctx customer (sum_list (map pl_amount (filter (\<lambda>p. pl_method p = CREDIT)
       (sr_payments data)))) chk (new_id s) pays sold_at client s5 = Inr s'"
  have len: "length priced = length (sr_lines data)" using priced by (simp add: mapR_eq_Inr)
  then have len': "length alloc = length (sr_lines data)" using allocate_discount_length [OF alloc] by simp
  note chk = add_sale_success [OF s1]
  have rows: "sale_items s2 = sale_items s @ items" "list_all2 (item_of ctx (new_id s) prods)
      (zip (sr_lines data) (zip priced alloc)) items"
    using add_items_success [OF s2] chk(1) by auto
  note cols = item_columns [OF rows(2) len len']
  have pay: "payments s3 = payments s2 @ pays" "list_all2 (payment_of ctx (new_id s)) (sr_payments data) pays"
    using add_payments_success [OF s3] by auto
  note pcols = payment_columns [OF pay(2)]
  have w: "sales s' = sales s1" "sale_items s' = sale_items s2" "payments s' = payments s3" "payments s2 = payments s"
    using chk(1) add_items_writes [OF s2] add_payments_writes [OF s3] link_payments_writes [OF s4]
      take_stock_writes [OF take] charge_customer_writes [OF charge]
    by (simp_all add: writes_def)
  have id: "s_id sale = new_id s" by (simp add: sale)
  have fresh: "new_id s \<notin> known_ids s" by (rule new_id_fresh [OF assms(2)])
  then have "new_id s \<notin> si_sale_id ` set (sale_items s)" "new_id s \<notin> pay_sale_id ` set (payments s)"
    by (simp_all add: known_ids_def)
  then have "filter (\<lambda>i. si_sale_id i = new_id s) (sale_items s) = []"
      "filter (\<lambda>p. pay_sale_id p = new_id s) (payments s) = []"
    unfolding filter_empty_conv by (metis imageI)+
  then have of: "items_of (s_id sale) s' = items" "payments_of (s_id sale) s' = pays"
    using cols(4) pcols(3) by (simp_all add: items_of_def payments_of_def w rows pay id)
  have nonneg: "0 \<le> si_line_total i" if "i \<in> set items" for i
    using cols(4) that by (auto simp: sale_item_checks_def)
  have pos: "\<forall>t \<in> set (map snd priced). 0 \<le> t"
    unfolding cols(1) [symmetric] using nonneg by auto
  have "0 \<le> sr_discount_amount data" "sr_discount_amount data \<le> sum_list (map snd priced)"
      "sum_list (map snd priced) < 10 ^ 14"
    using chk(3,4) by (auto simp: sale sale_checks_def sale_fits_def fits_money_def)
  from allocate_discount_sound [OF this pos] alloc have "sum_list alloc = sr_discount_amount data" by auto
  then show thesis
    using that [of items pays] chk cols pcols w rows pay of bal id by (simp add: sale)
qed

lemma create_sale_tx_sales_ok:
  assumes "create_sale_tx clk ctx data client key digest s = Inr (sale, s')" and "sales_ok s" and "fresh_ok s"
  shows "sales_ok s'"
  using assms(1,3)
proof (rule create_sale_tx_rows)
  fix items pays
  assume rows: "sales s' = sales s @ [sale]" "sale_items s' = sale_items s @ items" "payments s' = payments s @ pays"
    and new: "s_id sale = new_id s" "sale_checks sale" "sale_key sale \<notin> sale_key ` set (sales s)"
      "items_of (s_id sale) s' = items" "payments_of (s_id sale) s' = pays"
      "sum_list (map pay_amount pays) = s_total_amount sale"
      "sum_list (map si_line_total items) = s_subtotal sale"
      "sum_list (map si_discount_allocated items) = s_discount_amount sale"
    and ids: "\<forall>i \<in> set items. si_sale_id i = s_id sale \<and> sale_item_checks i"
      "\<forall>p \<in> set pays. pay_sale_id p = s_id sale \<and> 0 < pay_amount p"
  have fresh: "s_id sale \<notin> s_id ` set (sales s)"
    using new_id_fresh [OF assms(3)] new(1) by (auto simp: known_ids_def)
  have "items_of (s_id x) s' = items_of (s_id x) s" "payments_of (s_id x) s' = payments_of (s_id x) s"
    if "x \<in> set (sales s)" for x
    using that ids fresh by (auto simp: items_of_def payments_of_def rows filter_empty_conv)
  with assms(2) new fresh show ?thesis
    by (auto simp: sales_ok_def sale_ok_def rows)
qed

subsection \<open>What a sale does to stock and debt\<close>

lemma take_stock_effect:
  assumes "foldR (take_stock clk ctx sid sold_at prods) items s = Inr s'"
    and "\<And>pid p. locked prods pid = Inr p \<Longrightarrow> p_id p = pid"
  shows "\<exists>ms. movements s' = movements s @ ms
    \<and> (\<forall>m \<in> set ms. m_sale_id m = Some sid \<and> m_movement_type m = SALE \<and> m_business_id m = business_id ctx)
    \<and> (\<forall>k. stock_of s' k = stock_of s k + total_where m_quantity_delta (\<lambda>m. m_product_id m = k) ms)
    \<and> (\<forall>k. total_where m_quantity_delta (\<lambda>m. m_product_id m = k) ms =
         - total_where si_quantity (\<lambda>i. si_product_id i = k
             \<and> (case locked prods k of Inr p \<Rightarrow> p_track_inventory p | Inl e \<Rightarrow> False)) items)"
  using assms(1)
proof (induction items arbitrary: s)
  case Nil
  then show ?case by simp
next
  case (Cons i items)
  from Cons.prems obtain t where one: "take_stock clk ctx sid sold_at prods i s = Inr t"
    and rest: "foldR (take_stock clk ctx sid sold_at prods) items t = Inr s'"
    by (auto simp: result_simps)
  from Cons.IH [OF rest] obtain ms where ms: "movements s' = movements t @ ms"
    "\<forall>m \<in> set ms. m_sale_id m = Some sid \<and> m_movement_type m = SALE \<and> m_business_id m = business_id ctx"
    "\<forall>k. stock_of s' k = stock_of t k + total_where m_quantity_delta (\<lambda>m. m_product_id m = k) ms"
    "\<forall>k. total_where m_quantity_delta (\<lambda>m. m_product_id m = k) ms =
       - total_where si_quantity (\<lambda>i. si_product_id i = k
           \<and> (case locked prods k of Inr p \<Rightarrow> p_track_inventory p | Inl e \<Rightarrow> False)) items"
    by blast
  from one obtain p where p: "locked prods (si_product_id i) = Inr p"
    by (auto simp: take_stock_def result_simps)
  then have pid: "p_id p = si_product_id i" by (rule assms(2))
  show ?case
  proof (cases "p_track_inventory p")
    case True
    with one p obtain m where am: "apply_movement clk ctx (p_id p) SALE (- si_quantity i) (si_unit_cost i)
        None None (Some sid) (Some sold_at) s = Inr (m, t)"
      by (auto simp: take_stock_def result_simps)
    have m: "m_sale_id m = Some sid" "m_movement_type m = SALE" "m_business_id m = business_id ctx"
        "m_product_id m = si_product_id i" "m_quantity_delta m = - si_quantity i"
      using am pid by (auto simp: apply_movement_success)
    have "stock_of t k = stock_of s k + (if k = si_product_id i then - si_quantity i else 0)" for k
      using stock_of_move(1) [OF am, of k] pid by simp
    moreover have "movements t = movements s @ [m]" by (rule apply_movement_frame(1) [OF am])
    ultimately show ?thesis
      using ms m p True by (intro exI [of _ "m # ms"]) auto
  next
    case False
    with one p have "t = s" by (simp add: take_stock_def)
    with ms p False show ?thesis by (intro exI [of _ ms]) auto
  qed
qed

lemma charge_customer_effect:
  assumes "charge_customer clk ctx customer amount chk sid pays sold_at client s = Inr s'"
  shows "balance_of s' k = balance_of s k
    + (if 0 < amount \<and> map_option c_id customer = Some k then amount else 0)"
proof (cases "0 < amount")
  case True
  from assms True show ?thesis
  proof (rule charge_customer_success)
    fix c pay t s1
    assume c: "customer = Some c"
      and pe: "post_entry clk ctx (c_id c) CHARGE amount False ''BALANCE_WOULD_BE_NEGATIVE'' None None None
       (Some sid) (Some (pay_id pay)) (Some sold_at) None None s = Inr (t, s1)"
      and s': "s' = s1 \<or> (\<exists>f. s' = audit_record ctx ''sale.credit_limit_override'' ''sale'' sid None f client s1)"
    have "balance_of s' k = balance_of s1 k" using s' by (auto simp: balance_of_def)
    with balance_of_post(1) [OF pe, of k] c True show ?thesis by simp
  qed
next
  case False
  with charge_customer_none [OF assms] show ?thesis by simp
qed

lemma lock_customer_id:
  "(case cid of None \<Rightarrow> Inr None | Some cid \<Rightarrow> bindR (lock_customer ctx cid s) (\<lambda>c. Inr (Some c))) = Inr customer
    \<Longrightarrow> map_option c_id customer = cid"
  by (cases cid) (auto simp: lock_customer_def result_simps dest: repo_get_customer_SomeD)

definition credit_amount_of :: "SaleCreateRequest \<Rightarrow> money" where
  "credit_amount_of data = sum_list (map pl_amount (filter (\<lambda>p. pl_method p = CREDIT) (sr_payments data)))"

text \<open>Everything a sale changes outside its own rows.\<close>

lemma create_sale_tx_effect:
  assumes "create_sale_tx clk ctx data client key digest s = Inr (sale, s')"
  obtains ms where "movements s' = movements s @ ms"
    "\<forall>m \<in> set ms. m_sale_id m = Some (s_id sale) \<and> m_movement_type m = SALE \<and> m_business_id m = business_id ctx"
    "\<forall>k. stock_of s' k = stock_of s k + total_where m_quantity_delta (\<lambda>m. m_product_id m = k) ms"
    "\<forall>k. balance_of s' k = balance_of s k
       + (if 0 < credit_amount_of data \<and> s_customer_id sale = Some k then credit_amount_of data else 0)"
    "s_id sale = new_id s" "s_status sale = COMPLETED" "s_business_id sale = business_id ctx"
    "s_customer_id sale = sr_customer_id data"
    "0 < credit_amount_of data \<longrightarrow> s_customer_id sale \<noteq> None"
  using assms
proof (rule create_sale_tx_success)
  fix sold_at prods customer priced chk alloc s1 s2 items s3 pays s4 s5
  assume lock: "lock_products ctx (map sl_product_id (sr_lines data)) s = Inr prods"
    and cust: "(case sr_customer_id data of None \<Rightarrow> Inr None
      | Some cid \<Rightarrow> bindR (lock_customer ctx cid s) (\<lambda>c. Inr (Some c))) = Inr customer"
    and chk: "(if sum_list (map pl_amount (filter (\<lambda>p. pl_method p = CREDIT) (sr_payments data))) > 0
      then bindR (the_or AssertionError customer) (\<lambda>c.
           bindR (enforce_credit_limit c (sum_list (map pl_amount (filter (\<lambda>p. pl_method p = CREDIT)
                    (sr_payments data)))) (role ctx) (sr_credit_limit_override data)) (\<lambda>chk. Inr (Some chk)))
      else Inr None) = Inr chk"
    and sale: "sale = \<lparr>s_id = new_id s, s_business_id = business_id ctx, s_customer_id = map_option c_id customer,
       s_idempotency_key = key, s_idempotency_hash = digest, s_status = COMPLETED,
       s_subtotal = sum_list (map snd priced), s_discount_amount = sr_discount_amount data,
       s_total_amount = sum_list (map snd priced) - sr_discount_amount data,
       s_note = sr_note data, s_sold_at = sold_at, s_voided_at = None, s_voided_by = None,
       s_void_reason = None, s_created_by = user_id ctx, s_created_at = tx_now clk\<rparr>"
    and st: "add_sale sale s = Inr s1"
    "foldR (add_item ctx (new_id s) prods) (zip (sr_lines data) (zip priced alloc)) (s1, []) = Inr (s2, items)"
    "foldR (add_payment clk ctx (new_id s)) (sr_payments data) (s2, []) = Inr (s3, pays)"
    "foldR (link_payment clk ctx client) pays s3 = Inr s4"
    and take: "foldR (take_stock clk ctx (new_id s) sold_at prods) items s4 = Inr s5"
    and charge: "charge_customer clk ctx customer (sum_list (map pl_amount (filter (\<lambda>p. pl_method p = CREDIT)
       (sr_payments data)))) chk (new_id s) pays sold_at client s5 = Inr s'"
  note w = paper_writes [OF st] charge_customer_writes [OF charge] take_stock_writes [OF take]
  from take_stock_effect [OF take locked_id [OF lock]] obtain ms where ms: "movements s5 = movements s4 @ ms"
    "\<forall>m \<in> set ms. m_sale_id m = Some (new_id s) \<and> m_movement_type m = SALE \<and> m_business_id m = business_id ctx"
    "\<And>k. stock_of s5 k = stock_of s4 k + total_where m_quantity_delta (\<lambda>m. m_product_id m = k) ms"
    by blast
  have st: "stock_of s4 k = stock_of s k" "stock_of s' k = stock_of s5 k" for k
    using w(1,2) by (simp_all add: stock_of_def product_row_def writes_def)
  have bal: "balance_of s5 k = balance_of s k" for k
    using w(1,3) by (simp add: balance_of_def customer_row_def writes_def)
  have mv: "movements s' = movements s @ ms" using ms(1) w(1,2) by (simp add: writes_def)
  have some: "0 < credit_amount_of data \<longrightarrow> map_option c_id customer \<noteq> None"
    using chk by (auto simp: credit_amount_of_def result_simps)
  show thesis
    by (rule that [of ms])
      (use mv ms(2,3) st bal charge_customer_effect [OF charge] some lock_customer_id [OF cust]
        in \<open>simp_all add: sale credit_amount_of_def\<close>)
qed

lemma item_quantities:
  assumes "list_all2 (item_of ctx sid prods) (zip ls (zip priced alloc)) items"
    and "length priced = length ls" and "length alloc = length ls"
    and "\<And>pid p. locked prods pid = Inr p \<Longrightarrow> p_id p = pid"
  shows "total_where si_quantity (\<lambda>i. si_product_id i = k) items
      = total_where sl_quantity (\<lambda>l. sl_product_id l = k) ls"
    and "l \<in> set ls \<Longrightarrow> \<exists>p. locked prods (sl_product_id l) = Inr p"
proof -
  have len: "length items = length ls" using list_all2_lengthD [OF assms(1)] assms(2,3) by simp
  have row: "item_of ctx sid prods (ls ! i, (priced ! i, alloc ! i)) (items ! i)" if "i < length ls" for i
    using list_all2_nthD [OF assms(1), of i] that assms(2,3) by simp
  have col: "si_quantity (items ! i) = sl_quantity (ls ! i) \<and> si_product_id (items ! i) = sl_product_id (ls ! i)
      \<and> (\<exists>p. locked prods (sl_product_id (ls ! i)) = Inr p)" if "i < length ls" for i
    using row [OF that] by (cases "priced ! i") (auto simp: item_of_def assms(4))
  have "map (\<lambda>i. (si_product_id i, si_quantity i)) items = map (\<lambda>l. (sl_product_id l, sl_quantity l)) ls"
    using col len by (auto intro!: nth_equalityI)
  then show "total_where si_quantity (\<lambda>i. si_product_id i = k) items
      = total_where sl_quantity (\<lambda>l. sl_product_id l = k) ls"
    by (induction items arbitrary: ls) (auto simp: Cons_eq_map_conv)
  show "\<exists>p. locked prods (sl_product_id l) = Inr p" if "l \<in> set ls"
    using that col by (auto simp: in_set_conv_nth)
qed

definition sold_quantity :: "SaleCreateRequest \<Rightarrow> uuid \<Rightarrow> quantity" where
  "sold_quantity data k = total_where sl_quantity (\<lambda>l. sl_product_id l = k) (sr_lines data)"

lemma create_sale_tx_stock:
  assumes "create_sale_tx clk ctx data client key digest s = Inr (sale, s')"
    and "get_product (business_id ctx) k s = Some p"
  shows "stock_of s' k = stock_of s k - (if p_track_inventory p then sold_quantity data k else 0)"
  using assms(1)
proof (rule create_sale_tx_success)
  fix sold_at prods customer priced chk alloc s1 s2 items s3 pays s4 s5
  assume lock: "lock_products ctx (map sl_product_id (sr_lines data)) s = Inr prods"
    and priced: "mapR (price_line prods) (sr_lines data) = Inr priced"
    and alloc: "allocate_discount (sr_discount_amount data) (map snd priced) = Inr alloc"
    and st: "add_sale sale s = Inr s1"
    and s2: "foldR (add_item ctx (new_id s) prods) (zip (sr_lines data) (zip priced alloc)) (s1, []) = Inr (s2, items)"
    and s34: "foldR (add_payment clk ctx (new_id s)) (sr_payments data) (s2, []) = Inr (s3, pays)"
      "foldR (link_payment clk ctx client) pays s3 = Inr s4"
    and take: "foldR (take_stock clk ctx (new_id s) sold_at prods) items s4 = Inr s5"
    and charge: "charge_customer clk ctx customer (sum_list (map pl_amount (filter (\<lambda>p. pl_method p = CREDIT)
       (sr_payments data)))) chk (new_id s) pays sold_at client s5 = Inr s'"
  have len: "length priced = length (sr_lines data)" using priced by (simp add: mapR_eq_Inr)
  then have len': "length alloc = length (sr_lines data)" using allocate_discount_length [OF alloc] by simp
  have rows: "list_all2 (item_of ctx (new_id s) prods) (zip (sr_lines data) (zip priced alloc)) items"
    using add_items_success [OF s2] by auto
  have q1: "total_where si_quantity (\<lambda>i. si_product_id i = k) items = sold_quantity data k"
    unfolding sold_quantity_def
    by (rule item_quantities(1) [OF rows len len']) (rule locked_id [OF lock])
  have q2: "\<exists>p. locked prods (sl_product_id l) = Inr p" if "l \<in> set (sr_lines data)" for l
    by (rule item_quantities(2) [OF rows len len' _ that]) (rule locked_id [OF lock])
  note w = paper_writes [OF st s2 s34] charge_customer_writes [OF charge]
  have eq: "stock_of s4 k = stock_of s k" "stock_of s' k = stock_of s5 k"
    using w by (simp_all add: stock_of_def product_row_def writes_def)
  have taken: "stock_of s5 k = stock_of s4 k - total_where si_quantity (\<lambda>i. si_product_id i = k
      \<and> (case locked prods k of Inr p \<Rightarrow> p_track_inventory p | Inl e \<Rightarrow> False)) items"
    using take_stock_effect [OF take locked_id [OF lock]] by fastforce
  show ?thesis
  proof (cases "locked prods k")
    case (Inl e)
    then have "sl_product_id l \<noteq> k" if "l \<in> set (sr_lines data)" for l using q2 [OF that] by auto
    then have "sold_quantity data k = 0" by (auto simp: sold_quantity_def intro: total_where_none)
    with Inl taken eq show ?thesis by (simp add: total_where_none)
  next
    case (Inr p')
    with lock_products_success [OF lock Inr] assms(2) have "p' = p" by simp
    with Inr taken eq q1 show ?thesis by (auto simp: total_where_none)
  qed
qed

subsection \<open>The stages of a void\<close>

lemma void_sale_body_success:
  assumes "void_sale_body clk ctx sid data client s = Inr (v, s')"
  obtains sale prods s1 s2 s3 b f where
    "repo_get_sale (business_id ctx) sid None None s = Some sale" "s_status sale = COMPLETED"
    "lock_products ctx (map m_product_id (list_movements_for_sale (business_id ctx) (s_id sale) s)) s = Inr prods"
    "foldR (reverse_movement clk ctx (s_id sale) prods)
       (list_movements_for_sale (business_id ctx) (s_id sale) s) s = Inr s1"
    "reverse_charge clk ctx sale (sum_list (map pay_amount (filter (\<lambda>p. pay_method p = CREDIT)
       (payments_of (s_id sale) s)))) (sv_reason data) s1 = Inr s2"
    "foldR (unlink_tender ctx client) (payments_of (s_id sale) s) s2 = Inr s3"
    "v = voided clk ctx (sv_reason data) sale" "sale_checks v"
    "s' = audit_record ctx ''sale.void'' ''sale'' (s_id sale) b f client
       (s3\<lparr>sales := update_where (\<lambda>x. s_id x = s_id sale) (voided clk ctx (sv_reason data)) (sales s3)\<rparr>)"
  using assms
  unfolding void_sale_body_def Let_def money_sum_eq bindR_eq_Inr raise_if_simps the_or_simps not_not
    flush_row_simps sum.inject prod.inject
  by (elim exE conjE) (hypsubst, rule that, (assumption | rule refl | simp only:)+)

lemma repo_get_sale_SomeD:
  assumes "repo_get_sale b sid cb sf s = Some x"
  shows "s_id x = sid \<and> s_business_id x = b \<and> x \<in> set (sales s)"
  using find_SomeD [OF assms [unfolded repo_get_sale_def]] by auto

lemma reverse_movements_effect:
  assumes "foldR (reverse_movement clk ctx sid prods) ms s = Inr s'"
    and "\<And>pid p. locked prods pid = Inr p \<Longrightarrow> p_id p = pid"
  shows "stock_of s' k = stock_of s k
    - total_where m_quantity_delta (\<lambda>m. m_movement_type m = SALE \<and> m_product_id m = k) ms"
  using assms(1)
proof (induction ms arbitrary: s)
  case Nil
  then show ?case by simp
next
  case (Cons m ms)
  from Cons.prems obtain t where one: "reverse_movement clk ctx sid prods m s = Inr t"
    and rest: "foldR (reverse_movement clk ctx sid prods) ms t = Inr s'"
    by (auto simp: result_simps)
  have "stock_of t k = stock_of s k - (if m_movement_type m = SALE \<and> m_product_id m = k
      then m_quantity_delta m else 0)"
  proof (cases "m_movement_type m = SALE")
    case True
    with one obtain p m' where p: "locked prods (m_product_id m) = Inr p"
      and am: "apply_movement clk ctx (p_id p) SALE_REVERSAL (- m_quantity_delta m) (m_unit_cost m)
        None None (Some sid) None s = Inr (m', t)"
      by (auto simp: reverse_movement_def result_simps)
    from stock_of_move(1) [OF am, of k] assms(2) [OF p] True show ?thesis by auto
  next
    case False
    with one show ?thesis by (simp add: reverse_movement_def)
  qed
  with Cons.IH [OF rest] show ?case by simp
qed

lemma reverse_movements_writes:
  assumes "foldR (reverse_movement clk ctx sid prods) ms s = Inr s'"
  shows "writes {T_products, T_movements} s s'"
  by (rule writes_foldR [OF assms])
    (auto simp: reverse_movement_def result_simps split: if_splits dest: apply_movement_writes)

lemma reverse_charge_cases:
  assumes "reverse_charge clk ctx sale charged reason s = Inr s'"
  obtains (none) "s' = s" "s_customer_id sale = None \<or> \<not> 0 < charged"
    | (some) cid t where "s_customer_id sale = Some cid" "0 < charged"
        "post_entry clk ctx cid REVERSAL (- charged) True ''BALANCE_WOULD_BE_NEGATIVE'' None None
           (Some reason) (Some (s_id sale)) None None None None s = Inr (t, s')"
  using assms
  by (auto simp: reverse_charge_def result_simps split: option.splits if_splits dest: repo_get_customer_SomeD)

lemma unlink_tenders_writes:
  assumes "foldR (unlink_tender ctx client) pays s = Inr s'"
  shows "same_books s s'"
  by (rule writes_foldR [OF assms]) (auto simp: unlink_tender_def split: if_splits dest: unlink_payment_frame)

lemma total_where_sort [simp]: "total_where v P (sort_key f rows) = total_where v P rows"
proof -
  have "mset (filter P (sort_key f rows)) = mset (filter P rows)" by simp
  then have "sum_mset (image_mset v (mset (filter P (sort_key f rows)))) = sum_mset (image_mset v (mset (filter P rows)))"
    by (rule arg_cong)
  then show ?thesis by (simp add: total_where_def flip: sum_mset_sum_list)
qed

text \<open>Everything a void changes outside the sale's own row.\<close>

lemma void_sale_effect:
  assumes "void_sale_body clk ctx sid data client s = Inr (v, s')"
  obtains sale where "repo_get_sale (business_id ctx) sid None None s = Some sale"
    "s_status sale = COMPLETED" "v = voided clk ctx (sv_reason data) sale"
    "\<forall>k. stock_of s' k = stock_of s k - total_where m_quantity_delta (\<lambda>m. m_business_id m = business_id ctx
       \<and> m_sale_id m = Some sid \<and> m_movement_type m = SALE \<and> m_product_id m = k) (movements s)"
    "\<forall>k. balance_of s' k = balance_of s k - (if s_customer_id sale = Some k
       then max 0 (sum_list (map pay_amount (filter (\<lambda>p. pay_method p = CREDIT) (payments_of sid s)))) else 0)"
    "sales s' = update_where (\<lambda>x. s_id x = sid) (voided clk ctx (sv_reason data)) (sales s)"
    "sale_items s' = sale_items s" "payments s' = payments s" "sale_checks v"
  using assms
proof (rule void_sale_body_success)
  fix sale prods s1 s2 s3 b f
  assume get: "repo_get_sale (business_id ctx) sid None None s = Some sale" "s_status sale = COMPLETED"
    and lock: "lock_products ctx (map m_product_id (list_movements_for_sale (business_id ctx) (s_id sale) s)) s = Inr prods"
    and s1: "foldR (reverse_movement clk ctx (s_id sale) prods)
       (list_movements_for_sale (business_id ctx) (s_id sale) s) s = Inr s1"
    and s2: "reverse_charge clk ctx sale (sum_list (map pay_amount (filter (\<lambda>p. pay_method p = CREDIT)
       (payments_of (s_id sale) s)))) (sv_reason data) s1 = Inr s2"
    and s3: "foldR (unlink_tender ctx client) (payments_of (s_id sale) s) s2 = Inr s3"
    and v: "v = voided clk ctx (sv_reason data) sale" "sale_checks v"
    and s': "s' = audit_record ctx ''sale.void'' ''sale'' (s_id sale) b f client
       (s3\<lparr>sales := update_where (\<lambda>x. s_id x = s_id sale) (voided clk ctx (sv_reason data)) (sales s3)\<rparr>)"
  have id: "s_id sale = sid" using repo_get_sale_SomeD [OF get(1)] by simp
  note w1 = reverse_movements_writes [OF s1] and w3 = unlink_tenders_writes [OF s3]
  have w2: "writes {T_customers, T_credit_transactions} s1 s2"
    using s2 by (rule reverse_charge_cases) (auto dest: post_entry_writes)
  have st: "stock_of s' k = stock_of s1 k" for k
    using w2 w3 by (simp add: stock_of_def product_row_def writes_def s')
  have "stock_of s' k = stock_of s k - total_where m_quantity_delta (\<lambda>m. m_movement_type m = SALE
      \<and> m_product_id m = k) (filter (\<lambda>m. m_business_id m = business_id ctx \<and> m_sale_id m = Some sid) (movements s))" for k
    using reverse_movements_effect [OF s1, of k] locked_id [OF lock]
    by (simp add: st list_movements_for_sale_def id)
  moreover have "total_where m_quantity_delta (\<lambda>m. m_movement_type m = SALE \<and> m_product_id m = k)
      (filter (\<lambda>m. m_business_id m = business_id ctx \<and> m_sale_id m = Some sid) ms)
    = total_where m_quantity_delta (\<lambda>m. m_business_id m = business_id ctx
       \<and> m_sale_id m = Some sid \<and> m_movement_type m = SALE \<and> m_product_id m = k) ms" for k ms
    by (induction ms) auto
  ultimately have stock: "stock_of s' k = stock_of s k - total_where m_quantity_delta (\<lambda>m. m_business_id m = business_id ctx
       \<and> m_sale_id m = Some sid \<and> m_movement_type m = SALE \<and> m_product_id m = k) (movements s)" for k
    by simp
  have bal: "balance_of s' k = balance_of s2 k" "balance_of s1 k = balance_of s k" for k
    using w1 w3 by (simp_all add: balance_of_def customer_row_def writes_def s')
  have debt: "balance_of s' k = balance_of s k - (if s_customer_id sale = Some k
       then max 0 (sum_list (map pay_amount (filter (\<lambda>p. pay_method p = CREDIT) (payments_of sid s)))) else 0)" for k
    using s2 unfolding bal(1) id
  proof (cases rule: reverse_charge_cases)
    case none
    with bal(2) show "balance_of s2 k = balance_of s k - (if s_customer_id sale = Some k
       then max 0 (sum_list (map pay_amount (filter (\<lambda>p. pay_method p = CREDIT) (payments_of sid s)))) else 0)"
      by auto
  next
    case (some cid t)
    with bal(2) balance_of_post(1) [OF some(3), of k]
    show "balance_of s2 k = balance_of s k - (if s_customer_id sale = Some k
       then max 0 (sum_list (map pay_amount (filter (\<lambda>p. pay_method p = CREDIT) (payments_of sid s)))) else 0)"
      by auto
  qed
  show thesis
    by (rule that [of sale]) (use get v stock debt w1 w2 w3 in \<open>simp_all add: id s' writes_def\<close>)
qed

subsection \<open>Sales and voids keep the invariants\<close>

lemma known_sale_id: "sid \<in> s_id ` set (sales s) \<Longrightarrow> sid \<in> known_ids s"
  unfolding known_ids_def by blast

lemma create_sale_tx_grows:
  assumes "create_sale_tx clk ctx data client key digest s = Inr (sale, s')"
  shows "grows s s'"
  using assms
proof (rule create_sale_tx_success)
  fix sold_at prods customer priced chk alloc s1 s2 items s3 pays s4 s5
  let ?sid = "new_id s"
  assume sale: "sale = \<lparr>s_id = ?sid, s_business_id = business_id ctx, s_customer_id = map_option c_id customer,
       s_idempotency_key = key, s_idempotency_hash = digest, s_status = COMPLETED,
       s_subtotal = sum_list (map snd priced), s_discount_amount = sr_discount_amount data,
       s_total_amount = sum_list (map snd priced) - sr_discount_amount data,
       s_note = sr_note data, s_sold_at = sold_at, s_voided_at = None, s_voided_by = None,
       s_void_reason = None, s_created_by = user_id ctx, s_created_at = tx_now clk\<rparr>"
    and s1: "add_sale sale s = Inr s1"
    and s2: "foldR (add_item ctx ?sid prods) (zip (sr_lines data) (zip priced alloc)) (s1, []) = Inr (s2, items)"
    and s3: "foldR (add_payment clk ctx ?sid) (sr_payments data) (s2, []) = Inr (s3, pays)"
    and s4: "foldR (link_payment clk ctx client) pays s3 = Inr s4"
    and take: "foldR (take_stock clk ctx ?sid sold_at prods) items s4 = Inr s5"
    and charge: "charge_customer clk ctx customer (sum_list (map pl_amount (filter (\<lambda>p. pl_method p = CREDIT)
       (sr_payments data)))) chk ?sid pays sold_at client s5 = Inr s'"
  have s1': "s1 = (drawn s)\<lparr>sales := sales s @ [sale]\<rparr>" by (rule add_sale_success(1) [OF s1])
  have "known_ids s1 \<subseteq> known_ids s \<union> {?sid}" unfolding s1' known_ids_def by (auto simp: sale)
  then have g1: "grows s s1" by (auto simp: grows_def s1' new_id_def)
  have sid1: "?sid \<in> s_id ` set (sales s1)" by (auto simp: s1' sale)
  note w = add_items_writes [OF s2] add_payments_writes [OF s3] link_payments_writes [OF s4] take_stock_writes [OF take]
  have sales: "sales s2 = sales s1" "sales s3 = sales s1" "sales s4 = sales s1" "sales s5 = sales s1"
    using w by (simp_all add: writes_def)
  have g2: "grows s1 s2"
  proof -
    obtain new where new: "sale_items s2 = sale_items s1 @ new" "list_all2 (item_of ctx ?sid prods)
        (zip (sr_lines data) (zip priced alloc)) new"
      using add_items_success [OF s2] by auto
    have "\<forall>i \<in> set new. si_sale_id i = ?sid"
      using new(2) by (induction rule: list_all2_induct) (auto simp: item_of_def)
    moreover have "known_ids s2 \<subseteq> known_ids s1 \<union> si_sale_id ` set new"
      using w(1) new(1) unfolding known_ids_def writes_def by auto
    ultimately show ?thesis using w(1) known_sale_id [OF sid1] by (auto simp: grows_def writes_def)
  qed
  have g3: "grows s2 s3" and pays: "pay_id ` set pays \<subseteq> known_ids s3"
  proof -
    obtain ps where ps: "pays = ps" "payments s3 = payments s2 @ ps" "list_all2 (payment_of ctx ?sid) (sr_payments data) ps"
        "map pay_id ps = map (uuid4 s2) [draws s2 ..< draws s3]"
      using add_payments_success [OF s3] by auto
    have sids: "\<forall>p \<in> set ps. pay_sale_id p = ?sid" using payment_columns(3) [OF ps(3)] by simp
    have "set (map pay_id ps) = uuid4 s2 ` {draws s2..<draws s3}" unfolding ps(4) by simp
    moreover have "known_ids s3 \<subseteq> known_ids s2 \<union> set (map pay_id ps) \<union> pay_sale_id ` set ps"
      using w(2) ps(2) unfolding known_ids_def writes_def by auto
    moreover have "?sid \<in> known_ids s2" using sid1 sales by (intro known_sale_id) simp
    ultimately show "grows s2 s3" using w(2) sids by (auto simp: grows_def writes_def)
    show "pay_id ` set pays \<subseteq> known_ids s3" unfolding ps(1) known_ids_def by (auto simp: ps(2))
  qed
  have "grows s3 s4"
  proof (rule grows_foldR [OF s4, where P = "\<lambda>t. payments t = payments s3"])
    fix p t t'
    assume p: "p \<in> set pays" "payments t = payments s3" and l: "link_payment clk ctx client p t = Inr t'"
    obtain ps where "payments s3 = payments s2 @ pays"
      using add_payments_success [OF s3] by auto
    then have "pay_id p \<in> known_ids t" unfolding known_ids_def using p by auto
    then show "grows t t' \<and> payments t' = payments s3"
      using l p(2) by (auto simp: link_payment_def writes_def split: if_splits
          dest: link_reference_grows link_reference_frame)
  qed simp
  moreover have "grows s4 s5"
  proof (rule grows_foldR [OF take, where P = "\<lambda>t. sales t = sales s1"])
    fix i t t'
    assume "sales t = sales s1" and tk: "take_stock clk ctx ?sid sold_at prods i t = Inr t'"
    then have "?sid \<in> known_ids t" using sid1 by (intro known_sale_id) simp
    then show "grows t t' \<and> sales t' = sales s1"
      using tk \<open>sales t = sales s1\<close> by (auto simp: take_stock_def result_simps split: if_splits
          dest: apply_movement_grows apply_movement_frame(6))
  qed (simp add: sales)
  moreover have "grows s5 s'"
  proof (cases "0 < sum_list (map pl_amount (filter (\<lambda>p. pl_method p = CREDIT) (sr_payments data)))")
    case True
    from charge True show ?thesis
      by (rule charge_customer_success) (use post_entry_grows in auto)
  next
    case False
    with charge_customer_none [OF charge] show ?thesis by simp
  qed
  ultimately show ?thesis using g1 g2 g3 by (meson grows_trans)
qed

lemma void_sale_body_ok:
  assumes "void_sale_body clk ctx sid data client s = Inr (v, s')"
  shows "stock_ok s \<Longrightarrow> stock_ok s'" and "credit_ok s \<Longrightarrow> credit_ok s'" and "mpesa_ok s \<Longrightarrow> mpesa_ok s'"
    and "sales_ok s \<Longrightarrow> sales_ok s'" and "grows s s'"
proof -
  from assms obtain sale prods s1 s2 s3 b f where
    get: "repo_get_sale (business_id ctx) sid None None s = Some sale" "s_status sale = COMPLETED"
    and lock: "lock_products ctx (map m_product_id (list_movements_for_sale (business_id ctx) (s_id sale) s)) s = Inr prods"
    and s1: "foldR (reverse_movement clk ctx (s_id sale) prods)
       (list_movements_for_sale (business_id ctx) (s_id sale) s) s = Inr s1"
    and s2: "reverse_charge clk ctx sale (sum_list (map pay_amount (filter (\<lambda>p. pay_method p = CREDIT)
       (payments_of (s_id sale) s)))) (sv_reason data) s1 = Inr s2"
    and s3: "foldR (unlink_tender ctx client) (payments_of (s_id sale) s) s2 = Inr s3"
    and v: "v = voided clk ctx (sv_reason data) sale" "sale_checks v"
    and s': "s' = audit_record ctx ''sale.void'' ''sale'' (s_id sale) b f client
       (s3\<lparr>sales := update_where (\<lambda>x. s_id x = s_id sale) (voided clk ctx (sv_reason data)) (sales s3)\<rparr>)"
    by (rule void_sale_body_success)
  note w1 = reverse_movements_writes [OF s1] and w3 = unlink_tenders_writes [OF s3]
  have w2: "writes {T_customers, T_credit_transactions} s1 s2"
    using s2 by (rule reverse_charge_cases) (auto dest: post_entry_writes)
  have w4: "writes {T_sales, T_audit_logs} s3 s'" by (simp add: s' writes_def)
  show "stock_ok s'" if "stock_ok s"
  proof -
    have "stock_ok s1" using that
      by (rule foldR_invariant [OF s1])
        (auto simp: reverse_movement_def result_simps split: if_splits intro: apply_movement_stock_ok)
    then show ?thesis using stock_ok_writes [OF w2] stock_ok_writes [OF w3] stock_ok_writes [OF w4] by simp
  qed
  show "credit_ok s'" if "credit_ok s"
  proof -
    have "credit_ok s1" using that credit_ok_writes [OF w1] by simp
    with s2 have "credit_ok s2" by (auto elim!: reverse_charge_cases intro: post_entry_credit_ok)
    then show ?thesis using credit_ok_writes [OF w3] credit_ok_writes [OF w4] by simp
  qed
  show "mpesa_ok s'" if "mpesa_ok s"
  proof -
    have "mpesa_ok s2" using that mpesa_ok_writes [OF w1] mpesa_ok_writes [OF w2] by simp
    then have "mpesa_ok s3"
      by (rule foldR_invariant [OF s3])
        (auto simp: unlink_tender_def split: if_splits intro: unlink_payment_ok)
    then show ?thesis using mpesa_ok_writes [OF w4] by simp
  qed
  have sale: "s_id sale = sid" "sale \<in> set (sales s)" using repo_get_sale_SomeD [OF get(1)] by auto
  have tabs: "sales s3 = sales s" "sale_items s' = sale_items s" "payments s' = payments s"
    using w1 w2 w3 w4 by (simp_all add: writes_def)
  have sales': "sales s' = update_where (\<lambda>x. s_id x = sid) (voided clk ctx (sv_reason data)) (sales s)"
    by (simp add: s' tabs sale)
  have same: "s_id (voided clk ctx r x) = s_id x" "sale_key (voided clk ctx r x) = sale_key x" for r x
    by (simp_all add: voided_def sale_key_def)
  show "sales_ok s'" if ok: "sales_ok s"
  proof -
    have "sale_ok s' x'" if x': "x' \<in> set (sales s')" for x'
    proof -
      from x' obtain x where x: "x \<in> set (sales s)"
          "x' = (if s_id x = sid then voided clk ctx (sv_reason data) x else x)"
        unfolding sales' set_update_where by auto
      have okx: "sale_ok s x" using ok x(1) by (simp add: sales_ok_def)
      have tabs': "items_of i s' = items_of i s" "payments_of i s' = payments_of i s" for i
        by (simp_all add: items_of_def payments_of_def tabs)
      show ?thesis
      proof (cases "s_id x = sid")
        case True
        with ok x(1) sale have "x = sale"
          by (auto simp: sales_ok_def distinct_map inj_on_def)
        with True x(2) okx v show ?thesis
          by (auto simp: sale_ok_def tabs' same) (simp_all add: voided_def)
      next
        case False
        with x(2) okx show ?thesis by (simp add: sale_ok_def tabs')
      qed
    qed
    moreover have "map s_id (sales s') = map s_id (sales s)" "map sale_key (sales s') = map sale_key (sales s)"
      unfolding sales' by (rule map_update_where, simp add: same)+
    ultimately show ?thesis using ok by (simp add: sales_ok_def)
  qed
  have "grows s s1"
  proof (rule grows_foldR [OF s1, where P = "\<lambda>t. sales t = sales s"])
    fix m t t'
    assume "sales t = sales s" and r: "reverse_movement clk ctx (s_id sale) prods m t = Inr t'"
    then have "s_id sale \<in> known_ids t" using sale(2) by (intro known_sale_id) simp
    then show "grows t t' \<and> sales t' = sales s"
      using r \<open>sales t = sales s\<close> by (auto simp: reverse_movement_def result_simps split: if_splits
          dest: apply_movement_grows apply_movement_frame(6))
  qed simp
  moreover have "grows s1 s2" using s2 by (rule reverse_charge_cases) (auto dest: post_entry_grows)
  moreover have "grows s2 s3"
    by (rule grows_foldR [OF s3, where P = "\<lambda>_. True"])
      (auto simp: unlink_tender_def split: if_splits dest: unlink_payment_grows)
  moreover have "grows s3 s'"
  proof -
    have "known_ids s' = known_ids s3"
      unfolding s' by (simp add: known_ids_def image_update_where same)
    then show ?thesis using w4 by (simp add: grows_def writes_def)
  qed
  ultimately show "grows s s'" by (meson grows_trans)
qed

text \<open>\<open>create_sale\<close> either leaves the database alone or runs the transaction to its end.\<close>

lemma create_sale_cases:
  assumes "create_sale sha clk ctx data client key s = (r, s')"
  obtains (failed) e where "r = Inl e" "s' = s"
    | (replayed) x where "get_sale_by_idempotency_key (business_id ctx) key s = Some x"
        "s_idempotency_hash x = sale_payload_hash sha data"
        "r = Inr \<lparr>cs_sale = x, cs_created = False\<rparr>" "s' = s"
    | (new) sale where "create_sale_tx clk ctx data client key (sale_payload_hash sha data) s = Inr (sale, s')"
        "r = Inr \<lparr>cs_sale = sale, cs_created = True\<rparr>"
        "get_sale_by_idempotency_key (business_id ctx) key s = None"
proof (cases "get_sale_by_idempotency_key (business_id ctx) key s")
  case (Some x)
  show thesis
  proof (cases "s_idempotency_hash x = sale_payload_hash sha data")
    case True
    with Some assms show thesis by (intro replayed [of x]) (auto simp: create_sale_def replay_sale_def)
  next
    case False
    with Some assms show thesis
      by (intro failed [of "ConflictError ''IDEMPOTENCY_CONFLICT''"]) (auto simp: create_sale_def replay_sale_def)
  qed
next
  case None
  show thesis
  proof (cases "create_sale_tx clk ctx data client key (sale_payload_hash sha data) s")
    case (Inl e)
    with None assms show thesis
      by (intro failed [of e]) (auto simp: create_sale_def transaction_def split: if_splits)
  next
    case (Inr out)
    with None assms show thesis
      by (intro new [of "fst out"]) (auto simp: create_sale_def transaction_def split: prod.splits)
  qed
qed

lemma create_sale_ok:
  shows "stock_ok s \<Longrightarrow> stock_ok (snd (create_sale sha clk ctx data client key s))"
    and "credit_ok s \<Longrightarrow> credit_ok (snd (create_sale sha clk ctx data client key s))"
    and "mpesa_ok s \<Longrightarrow> fresh_ok s \<Longrightarrow> mpesa_ok (snd (create_sale sha clk ctx data client key s))"
    and "sales_ok s \<Longrightarrow> fresh_ok s \<Longrightarrow> sales_ok (snd (create_sale sha clk ctx data client key s))"
    and "grows s (snd (create_sale sha clk ctx data client key s))"
proof -
  obtain r s' where out: "create_sale sha clk ctx data client key s = (r, s')" by (rule prod.exhaust)
  from out have "(stock_ok s \<longrightarrow> stock_ok s') \<and> (credit_ok s \<longrightarrow> credit_ok s')
      \<and> (mpesa_ok s \<longrightarrow> fresh_ok s \<longrightarrow> mpesa_ok s') \<and> (sales_ok s \<longrightarrow> fresh_ok s \<longrightarrow> sales_ok s') \<and> grows s s'"
  proof (cases rule: create_sale_cases)
    case (failed e)
    then show ?thesis by simp
  next
    case (replayed x)
    then show ?thesis by simp
  next
    case (new sale)
    from new(1) show ?thesis
      by (blast intro: create_sale_tx_stock_ok create_sale_tx_credit_ok create_sale_tx_mpesa_ok
          create_sale_tx_sales_ok create_sale_tx_grows)
  qed
  then show "stock_ok s \<Longrightarrow> stock_ok (snd (create_sale sha clk ctx data client key s))"
    and "credit_ok s \<Longrightarrow> credit_ok (snd (create_sale sha clk ctx data client key s))"
    and "mpesa_ok s \<Longrightarrow> fresh_ok s \<Longrightarrow> mpesa_ok (snd (create_sale sha clk ctx data client key s))"
    and "sales_ok s \<Longrightarrow> fresh_ok s \<Longrightarrow> sales_ok (snd (create_sale sha clk ctx data client key s))"
    and "grows s (snd (create_sale sha clk ctx data client key s))"
    by (simp_all add: out)
qed

lemma void_sale_ok:
  shows "stock_ok s \<Longrightarrow> stock_ok (snd (void_sale clk ctx sid data client s))"
    and "credit_ok s \<Longrightarrow> credit_ok (snd (void_sale clk ctx sid data client s))"
    and "mpesa_ok s \<Longrightarrow> mpesa_ok (snd (void_sale clk ctx sid data client s))"
    and "sales_ok s \<Longrightarrow> sales_ok (snd (void_sale clk ctx sid data client s))"
    and "grows s (snd (void_sale clk ctx sid data client s))"
  unfolding void_sale_def
  by (rule transaction_preserves [where P = stock_ok], assumption, erule (1) void_sale_body_ok(1),
    rule transaction_preserves [where P = credit_ok], assumption, erule (1) void_sale_body_ok(2),
    rule transaction_preserves [where P = mpesa_ok], assumption, erule (1) void_sale_body_ok(3),
    rule transaction_preserves [where P = sales_ok], assumption, erule (1) void_sale_body_ok(4),
    rule grows_transaction, erule void_sale_body_ok(5))

subsection \<open>Creating a sale is an idempotent operation\<close>

type_synonym sale_call = "clock \<times> SaleCreateRequest \<times> ClientInfo option"

definition run_sale ::
  "(json \<Rightarrow> string) \<Rightarrow> BusinessContext \<Rightarrow> uuid \<Rightarrow> sale_call \<Rightarrow> db \<Rightarrow> sale result \<times> db" where
  "run_sale sha ctx k q s = (case q of (clk, data, client) \<Rightarrow>
     (case create_sale sha clk ctx data client k s of (r, s') \<Rightarrow> (map_sum id cs_sale r, s')))"

definition sale_digest :: "(json \<Rightarrow> string) \<Rightarrow> sale_call \<Rightarrow> string" where
  "sale_digest sha q = (case q of (clk, data, client) \<Rightarrow> sale_payload_hash sha data)"

definition stored_sale :: "BusinessContext \<Rightarrow> uuid \<Rightarrow> db \<Rightarrow> (string \<times> sale) option" where
  "stored_sale ctx k s = map_option (\<lambda>x. (s_idempotency_hash x, x))
     (get_sale_by_idempotency_key (business_id ctx) k s)"

lemma create_sale_tx_stored:
  assumes "create_sale_tx clk ctx data client k digest s = Inr (sale, s')"
    and "get_sale_by_idempotency_key (business_id ctx) k s = None"
  shows "stored_sale ctx k s' = Some (digest, sale)"
  using assms(1)
proof (rule create_sale_tx_success)
  fix sold_at prods customer priced chk alloc s1 s2 items s3 pays s4 s5
  assume sale: "sale = \<lparr>s_id = new_id s, s_business_id = business_id ctx, s_customer_id = map_option c_id customer,
       s_idempotency_key = k, s_idempotency_hash = digest, s_status = COMPLETED,
       s_subtotal = sum_list (map snd priced), s_discount_amount = sr_discount_amount data,
       s_total_amount = sum_list (map snd priced) - sr_discount_amount data,
       s_note = sr_note data, s_sold_at = sold_at, s_voided_at = None, s_voided_by = None,
       s_void_reason = None, s_created_by = user_id ctx, s_created_at = tx_now clk\<rparr>"
    and s1: "add_sale sale s = Inr s1"
    and w: "foldR (add_item ctx (new_id s) prods) (zip (sr_lines data) (zip priced alloc)) (s1, []) = Inr (s2, items)"
      "foldR (add_payment clk ctx (new_id s)) (sr_payments data) (s2, []) = Inr (s3, pays)"
      "foldR (link_payment clk ctx client) pays s3 = Inr s4"
      "foldR (take_stock clk ctx (new_id s) sold_at prods) items s4 = Inr s5"
      "charge_customer clk ctx customer (sum_list (map pl_amount (filter (\<lambda>p. pl_method p = CREDIT)
       (sr_payments data)))) chk (new_id s) pays sold_at client s5 = Inr s'"
  have "sales s' = sales s @ [sale]"
    using add_sale_success(1) [OF s1] add_items_writes [OF w(1)] add_payments_writes [OF w(2)]
      link_payments_writes [OF w(3)] take_stock_writes [OF w(4)] charge_customer_writes [OF w(5)]
    by (simp add: writes_def)
  with assms(2) show ?thesis
    by (simp add: stored_sale_def get_sale_by_idempotency_key_def find_append sale)
qed

lemma run_sale_cases:
  assumes "run_sale sha ctx k (clk, data, client) s = (r, s')"
  shows "\<exists>r0. create_sale sha clk ctx data client k s = (r0, s') \<and> r = map_sum id cs_sale r0"
  using assms by (auto simp: run_sale_def split: prod.splits)

interpretation selling: idempotent_operation "run_sale sha ctx" "sale_digest sha" "stored_sale ctx"
  "\<lambda>_ _. True" "ConflictError ''IDEMPOTENCY_CONFLICT''"
  for sha ctx
proof (unfold_locales, goal_cases)
  case (1 k q s r s')
  obtain clk data client where q: "q = (clk, data, client)" by (cases q) auto
  from 1 obtain r0 where run: "create_sale sha clk ctx data client k s = (r0, s')"
      "Inr r = map_sum id cs_sale r0"
    using run_sale_cases unfolding q by blast
  then obtain cs where cs: "r0 = Inr cs" "cs_sale cs = r" by (cases r0) auto
  from run(1) show ?case
  proof (cases rule: create_sale_cases)
    case (failed e)
    with cs show ?thesis by simp
  next
    case (replayed x)
    with cs show ?thesis by (auto simp: stored_sale_def sale_digest_def q)
  next
    case (new sale)
    with cs create_sale_tx_stored [OF new(1,3)] show ?thesis by (auto simp: sale_digest_def q)
  qed
next
  case (2 k s q r)
  then show ?case
    by (cases q) (auto simp: run_sale_def create_sale_def replay_sale_def stored_sale_def sale_digest_def)
next
  case (3 k s h r q)
  then show ?case
    by (cases q) (auto simp: run_sale_def create_sale_def replay_sale_def stored_sale_def sale_digest_def)
qed

subsection \<open>Properties\<close>

definition demo_opening :: "uuid \<Rightarrow> uuid \<Rightarrow> quantity \<Rightarrow> movement" where
  "demo_opening i pid q = movement_of demo_clock demo_owner pid INITIAL q None None None None None q i"

definition demo_till :: db where
  "demo_till = (empty_db id)\<lparr>products := [demo_product 101 ''Sugar 1kg'' 15000 10000,
       demo_product 102 ''Milk 500ml'' 6500 48000],
     movements := [demo_opening 103 101 10000, demo_opening 104 102 48000],
     customers := [demo_customer], credit_transactions := [demo_charge], draws := 200\<rparr>"

text \<open>Two sugars and three milks, 5.00 off, 300.00 in cash and the rest on credit.\<close>

definition demo_sale :: SaleCreateRequest where
  "demo_sale = \<lparr>
     sr_lines = [\<lparr>sl_product_id = 101, sl_quantity = 2000, sl_unit_price = None\<rparr>,
                 \<lparr>sl_product_id = 102, sl_quantity = 3000, sl_unit_price = Some 6000\<rparr>],
     sr_payments = [\<lparr>pl_method = CASH, pl_amount = 30000, pl_reference = None\<rparr>,
                    \<lparr>pl_method = CREDIT, pl_amount = 18000, pl_reference = None\<rparr>],
     sr_customer_id = Some 111, sr_discount_amount = 0, sr_note = None, sr_sold_at = None,
     sr_credit_limit_override = False\<rparr>"

definition no_sha :: "json \<Rightarrow> string" where
  "no_sha j = []"

lemma demo_till_ok: "stock_ok demo_till" "credit_ok demo_till" "mpesa_ok demo_till" "sales_ok demo_till"
  by code_simp+

lemma demo_till_fresh: "fresh_ok demo_till"
  by (auto simp: fresh_ok_def known_ids_def message_ids_def demo_till_def empty_db_def demo_product_def
      demo_customer_def demo_charge_def demo_opening_def)

lemma demo_sale_runs:
  obtains sale s' where "create_sale no_sha demo_clock demo_owner demo_sale None 77 demo_till
    = (Inr \<lparr>cs_sale = sale, cs_created = True\<rparr>, s')"
proof -
  have "case fst (create_sale no_sha demo_clock demo_owner demo_sale None 77 demo_till) of
      Inr cs \<Rightarrow> cs_created cs | Inl e \<Rightarrow> False"
    by code_simp
  then obtain cs s' where run: "create_sale no_sha demo_clock demo_owner demo_sale None 77 demo_till = (Inr cs, s')"
    and "cs_created cs"
    by (cases "create_sale no_sha demo_clock demo_owner demo_sale None 77 demo_till") (auto split: sum.splits)
  then have "cs = \<lparr>cs_sale = cs_sale cs, cs_created = True\<rparr>" by simp
  with run show thesis by (metis that)
qed

text \<open>
  C6. A recorded sale adds up: its payments are exactly the tendered lines and sum to the total, the total
  is the subtotal less the discount and is positive, the line totals sum to the subtotal, the
  discount allocated to the lines sums to the discount and never exceeds a line.
\<close>

theorem create_sale_adds_up:
  assumes "create_sale sha clk ctx data client key s = (Inr \<lparr>cs_sale = sale, cs_created = True\<rparr>, s')"
    and "fresh_ok s" and "valid_sale_request data"
  shows "sales s' = sales s @ [sale]
    \<and> map pay_amount (payments_of (s_id sale) s') = map pl_amount (sr_payments data)
    \<and> sum_list (map pay_amount (payments_of (s_id sale) s')) = s_total_amount sale
    \<and> s_total_amount sale = s_subtotal sale - s_discount_amount sale \<and> 0 < s_total_amount sale
    \<and> sum_list (map si_line_total (items_of (s_id sale) s')) = s_subtotal sale
    \<and> sum_list (map si_discount_allocated (items_of (s_id sale) s')) = s_discount_amount sale
    \<and> (\<forall>i \<in> set (items_of (s_id sale) s').
         0 \<le> si_discount_allocated i \<and> si_discount_allocated i \<le> si_line_total i)"
  using assms(1)
proof (cases rule: create_sale_cases)
  case (new x)
  then have tx: "create_sale_tx clk ctx data client key (sale_payload_hash sha data) s = Inr (sale, s')" by simp
  show ?thesis
    using tx assms(2)
  proof (rule create_sale_tx_rows)
    fix items pays
    assume r: "sales s' = sales s @ [sale]" "sale_checks sale" "items_of (s_id sale) s' = items"
      "payments_of (s_id sale) s' = pays" "map pay_amount pays = map pl_amount (sr_payments data)"
      "sum_list (map pay_amount pays) = s_total_amount sale"
      "sum_list (map si_line_total items) = s_subtotal sale"
      "sum_list (map si_discount_allocated items) = s_discount_amount sale"
      "\<forall>i \<in> set items. si_sale_id i = s_id sale \<and> sale_item_checks i"
      "\<forall>p \<in> set pays. pay_sale_id p = s_id sale \<and> 0 < pay_amount p"
    have "pays \<noteq> []" using r(5) assms(3) by (auto simp: valid_sale_request_def)
    then have "0 < sum_list (map pay_amount pays)"
      using r(10) by (cases pays) (auto intro!: add_pos_nonneg sum_list_nonneg simp: less_imp_le)
    with r show ?thesis by (auto simp: sale_checks_def sale_item_checks_def)
  qed
qed simp_all

theorem create_sale_adds_up_witness:
  "\<exists>sale s'. create_sale no_sha demo_clock demo_owner demo_sale None 77 demo_till
       = (Inr \<lparr>cs_sale = sale, cs_created = True\<rparr>, s')
     \<and> sum_list (map pay_amount (payments_of (s_id sale) s')) = s_total_amount sale \<and> 0 < s_total_amount sale"
proof -
  obtain sale s' where run: "create_sale no_sha demo_clock demo_owner demo_sale None 77 demo_till
      = (Inr \<lparr>cs_sale = sale, cs_created = True\<rparr>, s')" by (rule demo_sale_runs)
  have "valid_sale_request demo_sale" by code_simp
  from create_sale_adds_up [OF run demo_till_fresh this] run show ?thesis by blast
qed

text \<open>
  C7. The effects of a sale: stock of every tracked product goes down by exactly the quantity sold of it,
  stock of untracked products does not move, the customer of a credit sale owes exactly the credit
  tender more, nobody else's balance changes; and a request that fails or replays an earlier one
  changes nothing at all.
\<close>

theorem create_sale_effects:
  assumes "create_sale sha clk ctx data client key s = (r, s')"
  shows "(\<forall>e. r = Inl e \<longrightarrow> s' = s) \<and> (\<forall>cs. r = Inr cs \<and> \<not> cs_created cs \<longrightarrow> s' = s)
    \<and> (\<forall>cs. r = Inr cs \<and> cs_created cs \<longrightarrow>
         (\<forall>k p. get_product (business_id ctx) k s = Some p \<longrightarrow>
            stock_of s' k = stock_of s k - (if p_track_inventory p then sold_quantity data k else 0))
         \<and> (\<forall>k. balance_of s' k = balance_of s k
              + (if 0 < credit_amount_of data \<and> sr_customer_id data = Some k then credit_amount_of data else 0)))"
  using assms
proof (cases rule: create_sale_cases)
  case (new sale)
  then show ?thesis
    using create_sale_tx_stock [OF new(1)] create_sale_tx_effect [OF new(1)] by fastforce
qed simp_all

theorem create_sale_effects_witness:
  "\<exists>cs s'. create_sale no_sha demo_clock demo_owner demo_sale None 77 demo_till = (Inr cs, s')
     \<and> stock_of s' 101 = 8000 \<and> balance_of s' 111 = 68000"
proof -
  obtain sale s' where run: "create_sale no_sha demo_clock demo_owner demo_sale None 77 demo_till
      = (Inr \<lparr>cs_sale = sale, cs_created = True\<rparr>, s')" by (rule demo_sale_runs)
  have "get_product (business_id demo_owner) 101 demo_till = Some (demo_product 101 ''Sugar 1kg'' 15000 10000)"
      "stock_of demo_till 101 = 10000" "balance_of demo_till 111 = 50000" "sold_quantity demo_sale 101 = 2000"
      "credit_amount_of demo_sale = 18000" "p_track_inventory (demo_product 101 ''Sugar 1kg'' 15000 10000)"
      "sr_customer_id demo_sale = Some 111"
    by code_simp+
  with create_sale_effects [OF run] run show ?thesis by force
qed

lemma create_sale_replay:
  assumes "stored_sale ctx k s = Some (sale_payload_hash sha data, sale)"
  shows "create_sale sha clk ctx data client k s = (Inr \<lparr>cs_sale = sale, cs_created = False\<rparr>, s)"
  using assms by (auto simp: create_sale_def replay_sale_def stored_sale_def)

text \<open>
  C8. Recording a sale is idempotent: the same request under the same key (at any later moment, from any
  client) returns the sale the first request recorded, says that nothing was created and changes
  nothing; a request with another digest under that key is refused with IDEMPOTENCY_CONFLICT and
  changes nothing.
\<close>

theorem create_sale_idempotent:
  assumes "create_sale sha clk ctx data client key s = (Inr cs, s')"
  shows "create_sale sha clk' ctx data client' key s' = (Inr \<lparr>cs_sale = cs_sale cs, cs_created = False\<rparr>, s')
    \<and> (sale_payload_hash sha data' \<noteq> sale_payload_hash sha data \<longrightarrow>
         create_sale sha clk' ctx data' client' key s' = (Inl (ConflictError ''IDEMPOTENCY_CONFLICT''), s'))"
proof -
  have run: "run_sale sha ctx key (clk, data, client) s = (Inr (cs_sale cs), s')"
    using assms by (simp add: run_sale_def)
  have "stored_sale ctx key s' = Some (sale_payload_hash sha data, cs_sale cs)"
    using selling.run_stores [OF run] by (simp add: sale_digest_def)
  moreover from this have "create_sale sha clk' ctx data' client' key s' = (Inl (ConflictError ''IDEMPOTENCY_CONFLICT''), s')"
    if "sale_payload_hash sha data' \<noteq> sale_payload_hash sha data"
    using that by (auto simp: create_sale_def replay_sale_def stored_sale_def)
  ultimately show ?thesis by (simp add: create_sale_replay)
qed

theorem create_sale_idempotent_witness:
  "\<exists>sale s'. create_sale no_sha demo_clock demo_owner demo_sale None 77 demo_till
       = (Inr \<lparr>cs_sale = sale, cs_created = True\<rparr>, s')
     \<and> create_sale no_sha demo_clock demo_owner demo_sale None 77 s'
       = (Inr \<lparr>cs_sale = sale, cs_created = False\<rparr>, s')"
proof -
  obtain sale s' where run: "create_sale no_sha demo_clock demo_owner demo_sale None 77 demo_till
      = (Inr \<lparr>cs_sale = sale, cs_created = True\<rparr>, s')" by (rule demo_sale_runs)
  from create_sale_idempotent [OF run, of demo_clock None demo_sale] run show ?thesis by auto
qed

lemma filtered_amounts:
  assumes "map pay_amount ps = map pl_amount ls" and "map pay_method ps = map pl_method ls"
  shows "sum_list (map pay_amount (filter (\<lambda>p. pay_method p = CREDIT) ps))
    = sum_list (map pl_amount (filter (\<lambda>p. pl_method p = CREDIT) ls))"
  using assms by (induction ps arbitrary: ls) (auto simp: Cons_eq_map_conv)

text \<open>
  C9. Voiding undoes a sale: when a sale that was just recorded is voided, the stock of every product and
  the balance of every customer are what they were before the sale, the sale is VOIDED, and its
  items and payments stay on record.
\<close>

theorem void_undoes_sale:
  assumes "create_sale sha clk ctx data client key s = (Inr \<lparr>cs_sale = sale, cs_created = True\<rparr>, s1)"
    and "void_sale clk' ctx (s_id sale) reason client' s1 = (Inr v, s2)" and "fresh_ok s"
  shows "(\<forall>k. stock_of s2 k = stock_of s k) \<and> (\<forall>k. balance_of s2 k = balance_of s k)
    \<and> s_id v = s_id sale \<and> s_status v = VOIDED
    \<and> payments s2 = payments s1 \<and> sale_items s2 = sale_items s1"
  using assms(1)
proof (cases rule: create_sale_cases)
  case (new x)
  then have tx: "create_sale_tx clk ctx data client key (sale_payload_hash sha data) s = Inr (sale, s1)" by simp
  have body: "void_sale_body clk' ctx (s_id sale) reason client' s1 = Inr (v, s2)"
    using assms(2) by (auto simp: void_sale_def transaction_cases)
  from tx obtain ms where ms: "movements s1 = movements s @ ms"
    "\<forall>m \<in> set ms. m_sale_id m = Some (s_id sale) \<and> m_movement_type m = SALE \<and> m_business_id m = business_id ctx"
    "\<forall>k. stock_of s1 k = stock_of s k + total_where m_quantity_delta (\<lambda>m. m_product_id m = k) ms"
    "\<forall>k. balance_of s1 k = balance_of s k
       + (if 0 < credit_amount_of data \<and> s_customer_id sale = Some k then credit_amount_of data else 0)"
    and sid: "s_id sale = new_id s" and "s_status sale = COMPLETED"
    and biz: "s_business_id sale = business_id ctx" and "s_customer_id sale = sr_customer_id data"
    and "0 < credit_amount_of data \<longrightarrow> s_customer_id sale \<noteq> None"
    by (rule create_sale_tx_effect)
  from tx assms(3) obtain items pays where rows: "sales s1 = sales s @ [sale]"
    "payments_of (s_id sale) s1 = pays" "map pay_amount pays = map pl_amount (sr_payments data)"
    "map pay_method pays = map pl_method (sr_payments data)"
    using create_sale_tx_rows by blast
  from body obtain sale' where v: "repo_get_sale (business_id ctx) (s_id sale) None None s1 = Some sale'"
    "v = voided clk' ctx (sv_reason reason) sale'"
    "\<forall>k. stock_of s2 k = stock_of s1 k - total_where m_quantity_delta (\<lambda>m. m_business_id m = business_id ctx
       \<and> m_sale_id m = Some (s_id sale) \<and> m_movement_type m = SALE \<and> m_product_id m = k) (movements s1)"
    "\<forall>k. balance_of s2 k = balance_of s1 k - (if s_customer_id sale' = Some k then max 0 (sum_list
       (map pay_amount (filter (\<lambda>p. pay_method p = CREDIT) (payments_of (s_id sale) s1)))) else 0)"
    "sale_items s2 = sale_items s1" "payments s2 = payments s1"
    using void_sale_effect by blast
  have fresh: "new_id s \<notin> known_ids s" by (rule new_id_fresh [OF assms(3)])
  then have "new_id s \<notin> s_id ` set (sales s)" and mfresh: "Some (new_id s) \<notin> m_sale_id ` set (movements s)"
    by (simp_all add: known_ids_def)
  then have "find (\<lambda>x. s_business_id x = business_id ctx \<and> s_id x = new_id s) (sales s) = None"
    unfolding find_None_iff by (metis imageI)
  with v(1) have sale': "sale' = sale" by (simp add: repo_get_sale_def rows(1) find_append sid biz)
  have "total_where m_quantity_delta (\<lambda>m. m_business_id m = business_id ctx \<and> m_sale_id m = Some (s_id sale)
      \<and> m_movement_type m = SALE \<and> m_product_id m = k) (movements s) = 0" for k
    using mfresh sid by (intro total_where_none) (metis imageI)
  moreover have "total_where m_quantity_delta (\<lambda>m. m_business_id m = business_id ctx \<and> m_sale_id m = Some (s_id sale)
      \<and> m_movement_type m = SALE \<and> m_product_id m = k) ms
    = total_where m_quantity_delta (\<lambda>m. m_product_id m = k) ms" for k
    using ms(2) by (induction ms) auto
  ultimately have "stock_of s2 k = stock_of s k" for k using v(3) ms(1) ms(3) by simp
  moreover have "balance_of s2 k = balance_of s k" for k
    using v(4) ms(4) filtered_amounts [OF rows(3,4)]
    by (auto simp: sale' rows(2) credit_amount_of_def)
  ultimately show ?thesis using v(2,5,6) sale' by (simp add: voided_def)
qed simp_all

definition demo_void :: SaleVoidRequest where
  "demo_void = \<lparr>sv_reason = ''wrong customer''\<rparr>"

lemma demo_void_runs:
  obtains sale s1 v s2 where "create_sale no_sha demo_clock demo_owner demo_sale None 77 demo_till
      = (Inr \<lparr>cs_sale = sale, cs_created = True\<rparr>, s1)"
    "void_sale demo_clock demo_owner (s_id sale) demo_void None s1 = (Inr v, s2)"
proof -
  obtain sale s1 where run: "create_sale no_sha demo_clock demo_owner demo_sale None 77 demo_till
      = (Inr \<lparr>cs_sale = sale, cs_created = True\<rparr>, s1)" by (rule demo_sale_runs)
  have "case create_sale no_sha demo_clock demo_owner demo_sale None 77 demo_till of
      (Inr cs, s1) \<Rightarrow> \<not> isl (fst (void_sale demo_clock demo_owner (s_id (cs_sale cs)) demo_void None s1))
    | (Inl e, s1) \<Rightarrow> False"
    by code_simp
  then have "\<not> isl (fst (void_sale demo_clock demo_owner (s_id sale) demo_void None s1))" by (simp add: run)
  then obtain v s2 where v: "void_sale demo_clock demo_owner (s_id sale) demo_void None s1 = (Inr v, s2)"
    by (rule not_isl_result)
  with run show thesis by (rule that)
qed

theorem void_undoes_sale_witness:
  "\<exists>sale s1 v s2. create_sale no_sha demo_clock demo_owner demo_sale None 77 demo_till
       = (Inr \<lparr>cs_sale = sale, cs_created = True\<rparr>, s1)
     \<and> void_sale demo_clock demo_owner (s_id sale) demo_void None s1 = (Inr v, s2)
     \<and> stock_of s2 101 = 10000 \<and> balance_of s2 111 = 50000"
proof -
  obtain sale s1 v s2 where run: "create_sale no_sha demo_clock demo_owner demo_sale None 77 demo_till
      = (Inr \<lparr>cs_sale = sale, cs_created = True\<rparr>, s1)"
    and v: "void_sale demo_clock demo_owner (s_id sale) demo_void None s1 = (Inr v, s2)"
    by (rule demo_void_runs)
  have "stock_of demo_till 101 = 10000" "balance_of demo_till 111 = 50000" by code_simp+
  with void_undoes_sale [OF run v demo_till_fresh] run v show ?thesis by metis
qed

text \<open>
  A sale is voided at most once: after a successful void every further void of that sale is refused
  with SALE_ALREADY_VOIDED and changes nothing.
\<close>

theorem void_sale_once:
  assumes "void_sale clk ctx sid data client s = (Inr v, s')" and "business_id ctx' = business_id ctx"
  shows "void_sale clk' ctx' sid data' client' s' = (Inl (ConflictError ''SALE_ALREADY_VOIDED''), s')"
proof -
  have "void_sale_body clk ctx sid data client s = Inr (v, s')"
    using assms(1) by (auto simp: void_sale_def transaction_cases)
  then obtain sale where get: "repo_get_sale (business_id ctx) sid None None s = Some sale"
    and sales: "sales s' = update_where (\<lambda>x. s_id x = sid) (voided clk ctx (sv_reason data)) (sales s)"
    using void_sale_effect by blast
  have id: "s_id sale = sid" using repo_get_sale_SomeD [OF get] by simp
  have "repo_get_sale (business_id ctx) sid None None s' = Some (voided clk ctx (sv_reason data) sale)"
    using get by (simp add: repo_get_sale_def sales find_update_where voided_def id)
  then have "void_sale_body clk' ctx' sid data' client' s' = Inl (ConflictError ''SALE_ALREADY_VOIDED'')"
    using assms(2) by (simp add: void_sale_body_def voided_def)
  then show ?thesis by (simp add: void_sale_def transaction_def)
qed

theorem void_sale_once_witness:
  "\<exists>sale s1 v s2. create_sale no_sha demo_clock demo_owner demo_sale None 77 demo_till
       = (Inr \<lparr>cs_sale = sale, cs_created = True\<rparr>, s1)
     \<and> void_sale demo_clock demo_owner (s_id sale) demo_void None s1 = (Inr v, s2)
     \<and> void_sale demo_clock demo_owner (s_id sale) demo_void None s2
       = (Inl (ConflictError ''SALE_ALREADY_VOIDED''), s2)"
proof -
  obtain sale s1 v s2 where run: "create_sale no_sha demo_clock demo_owner demo_sale None 77 demo_till
      = (Inr \<lparr>cs_sale = sale, cs_created = True\<rparr>, s1)"
    and v: "void_sale demo_clock demo_owner (s_id sale) demo_void None s1 = (Inr v, s2)"
    by (rule demo_void_runs)
  from void_sale_once [OF v refl] run v show ?thesis by metis
qed

text \<open>
  C10. The credit limit holds: when a credit sale to a customer with a limit goes through, either the new
  balance is within the limit, or an OWNER explicitly overrode it. STAFF can never push a customer
  over the limit.
\<close>

theorem create_sale_credit_limit:
  assumes "credit_ok s" and "create_sale sha clk ctx data client key s = (Inr cs, s')" and "cs_created cs"
    and "0 < credit_amount_of data" and "sr_customer_id data = Some cid"
    and "repo_get_customer (business_id ctx) cid s = Some c" and "c_credit_limit c = Some limit"
  shows "balance_of s' cid \<le> limit \<or> role ctx = OWNER \<and> sr_credit_limit_override data"
  using assms(2)
proof (cases rule: create_sale_cases)
  case (new sale)
  from new(1) obtain customer chk where
    cust: "(case sr_customer_id data of None \<Rightarrow> Inr None
      | Some cid \<Rightarrow> bindR (lock_customer ctx cid s) (\<lambda>c. Inr (Some c))) = Inr customer"
    and chk: "(if credit_amount_of data > 0
      then bindR (the_or AssertionError customer) (\<lambda>c.
           bindR (enforce_credit_limit c (credit_amount_of data) (role ctx) (sr_credit_limit_override data))
             (\<lambda>chk. Inr (Some chk)))
      else Inr None) = Inr chk"
    unfolding credit_amount_of_def by (rule create_sale_tx_success)
  have "customer = Some c"
    using cust assms(5,6) by (auto simp: lock_customer_def result_simps)
  with chk assms(4,7) have lim: "c_balance c + credit_amount_of data \<le> limit
      \<or> role ctx = OWNER \<and> sr_credit_limit_override data"
    by (auto simp: enforce_credit_limit_def evaluate_credit_limit_def Let_def result_simps not_less)
  have "customer_row cid s = Some c"
    using assms(1,6) repo_get_customer_row by (auto simp: credit_ok_def)
  then have "balance_of s cid = c_balance c" by (simp add: balance_of_def)
  moreover have "balance_of s' cid = balance_of s cid + credit_amount_of data"
    using create_sale_tx_effect [OF new(1)] assms(4,5) by metis
  ultimately show ?thesis using lim by simp
qed (use assms(3) in auto)

theorem create_sale_credit_limit_witness:
  "\<exists>cs s'. create_sale no_sha demo_clock demo_owner demo_sale None 77 demo_till = (Inr cs, s')
     \<and> (balance_of s' 111 \<le> 100000 \<or> role demo_owner = OWNER \<and> sr_credit_limit_override demo_sale)"
proof -
  obtain sale s' where run: "create_sale no_sha demo_clock demo_owner demo_sale None 77 demo_till
      = (Inr \<lparr>cs_sale = sale, cs_created = True\<rparr>, s')" by (rule demo_sale_runs)
  have "0 < credit_amount_of demo_sale" "sr_customer_id demo_sale = Some 111"
      "repo_get_customer (business_id demo_owner) 111 demo_till = Some demo_customer"
      "c_credit_limit demo_customer = Some 100000"
    by code_simp+
  from create_sale_credit_limit [OF demo_till_ok(2) run _ this] run show ?thesis by auto
qed

text \<open>
  The recorded time of a sale is never in the future and never before the backdating window, and only
  an OWNER can choose it: for STAFF it is the moment of the request.
\<close>

theorem create_sale_sold_at:
  assumes "create_sale sha clk ctx data client key s = (Inr \<lparr>cs_sale = sale, cs_created = True\<rparr>, s')"
    and "0 \<le> sale_backdate_days (settings ctx)"
  shows "s_sold_at sale \<le> now clk \<and> now clk - sale_backdate_days (settings ctx) * DAY \<le> s_sold_at sale
    \<and> (role ctx \<noteq> OWNER \<longrightarrow> s_sold_at sale = now clk)"
  using assms(1)
proof (cases rule: create_sale_cases)
  case (new x)
  then have tx: "create_sale_tx clk ctx data client key (sale_payload_hash sha data) s = Inr (sale, s')" by simp
  obtain sold_at where r: "resolve_sold_at clk ctx (sr_sold_at data) = Inr sold_at" "s_sold_at sale = sold_at"
    using tx by (rule create_sale_tx_success) auto
  have "0 \<le> sale_backdate_days (settings ctx) * DAY" using assms(2) by (simp add: DAY_def)
  with r show ?thesis
    by (auto simp: resolve_sold_at_def result_simps split: option.splits)
qed simp_all

theorem create_sale_sold_at_witness:
  "\<exists>sale s'. create_sale no_sha demo_clock demo_owner demo_sale None 77 demo_till
       = (Inr \<lparr>cs_sale = sale, cs_created = True\<rparr>, s') \<and> s_sold_at sale \<le> 1001"
proof -
  obtain sale s' where run: "create_sale no_sha demo_clock demo_owner demo_sale None 77 demo_till
      = (Inr \<lparr>cs_sale = sale, cs_created = True\<rparr>, s')" by (rule demo_sale_runs)
  have "0 \<le> sale_backdate_days (settings demo_owner)" by code_simp
  from create_sale_sold_at [OF run this] run show ?thesis by (auto simp: demo_clock_def)
qed

text \<open>
  C11. A customer with credit in their favour cannot use it: a valid credit sale that is smaller than what
  the shop owes the customer is always refused, although it moves the balance up, and nothing is
  written. In the example nothing else is wrong with the sale, and the error is
  BALANCE_WOULD_BE_NEGATIVE.
\<close>

theorem credit_in_favour_unusable:
  assumes "credit_ok s" and "repo_get_customer (business_id ctx) cid s = Some c"
    and "sr_customer_id data = Some cid" and "0 < credit_amount_of data"
    and "c_balance c + credit_amount_of data < 0"
    and "get_sale_by_idempotency_key (business_id ctx) key s = None"
  shows "\<exists>e. create_sale sha clk ctx data client key s = (Inl e, s)"
proof -
  obtain r s' where out: "create_sale sha clk ctx data client key s = (r, s')" by (rule prod.exhaust)
  from out show ?thesis
  proof (cases rule: create_sale_cases)
    case (failed e)
    with out show ?thesis by simp
  next
    case (replayed x)
    with assms(6) show ?thesis by simp
  next
    case (new sale)
    have row: "customer_row cid s = Some c"
      using assms(1,2) repo_get_customer_row by (auto simp: credit_ok_def)
    from new(1) have False
    proof (rule create_sale_tx_success)
      fix sold_at prods customer priced chk alloc s1 s2 items s3 pays s4 s5
      assume cust: "(case sr_customer_id data of None \<Rightarrow> Inr None
          | Some cid \<Rightarrow> bindR (lock_customer ctx cid s) (\<lambda>c. Inr (Some c))) = Inr customer"
        and st: "add_sale sale s = Inr s1"
        "foldR (add_item ctx (new_id s) prods) (zip (sr_lines data) (zip priced alloc)) (s1, []) = Inr (s2, items)"
        "foldR (add_payment clk ctx (new_id s)) (sr_payments data) (s2, []) = Inr (s3, pays)"
        "foldR (link_payment clk ctx client) pays s3 = Inr s4"
        and take: "foldR (take_stock clk ctx (new_id s) sold_at prods) items s4 = Inr s5"
        and charge: "charge_customer clk ctx customer (sum_list (map pl_amount (filter (\<lambda>p. pl_method p = CREDIT)
           (sr_payments data)))) chk (new_id s) pays sold_at client s5 = Inr s'"
      have "customer = Some c" using cust assms(2,3) by (auto simp: lock_customer_def result_simps)
      moreover have "c_id c = cid" using repo_get_customer_SomeD [OF assms(2)] by simp
      moreover have "customer_row cid s5 = Some c"
        using row paper_writes [OF st] take_stock_writes [OF take] by (simp add: customer_row_def writes_def)
      ultimately show False
        using charge assms(4,5) unfolding credit_amount_of_def
        by (elim charge_customer_success) (auto elim!: post_entry_success)
    qed
    then show ?thesis ..
  qed
qed

definition demo_prepaid :: db where
  "demo_prepaid = demo_till\<lparr>customers := [demo_customer\<lparr>c_balance := - 50000\<rparr>],
     credit_transactions := [demo_charge\<lparr>ct_amount := - 50000, ct_balance_after := - 50000,
       ct_entry_type := REPAYMENT, ct_payment_method := Some BY_CASH\<rparr>]\<rparr>"

theorem credit_in_favour_unusable_witness:
  "create_sale no_sha demo_clock demo_owner demo_sale None 77 demo_prepaid
     = (Inl (ConflictError ''BALANCE_WOULD_BE_NEGATIVE''), demo_prepaid)"
proof -
  have code: "fst (create_sale no_sha demo_clock demo_owner demo_sale None 77 demo_prepaid)
      = Inl (ConflictError ''BALANCE_WOULD_BE_NEGATIVE'')" by code_simp
  have "credit_ok demo_prepaid"
      "repo_get_customer (business_id demo_owner) 111 demo_prepaid = Some (demo_customer\<lparr>c_balance := - 50000\<rparr>)"
      "sr_customer_id demo_sale = Some 111" "0 < credit_amount_of demo_sale"
      "c_balance (demo_customer\<lparr>c_balance := - 50000\<rparr>) + credit_amount_of demo_sale < 0"
      "get_sale_by_idempotency_key (business_id demo_owner) 77 demo_prepaid = None"
    by code_simp+
  from credit_in_favour_unusable [OF this, of no_sha demo_clock None] code show ?thesis by auto
qed

end
