(* ===== verification/Search.thy ===== *)
theory Search
  imports Errors "HOL-Library.Sublist"
begin

text \<open>
  Text search as the repositories use it: \<open>LIKE\<close> with the escape character \<open>\\<close>, \<open>_escape_like\<close>
  (\<open>repositories/products.py\<close>, \<open>repositories/customers.py\<close>), the phone pattern of the customer search and
  the normalisation of login identifiers and phone numbers (\<open>schemas/identifiers.py\<close>).

  \<open>like\<close> is the matcher of the database. The lemmas show that an escaped needle followed or surrounded
  by \<open>%\<close> is a plain prefix or substring test, whatever wildcards the needle contains, and that a partly
  typed phone number finds every number it can be the beginning of.
\<close>

abbreviation backslash :: char where "backslash \<equiv> CHR 0x5C"

subsection \<open>LIKE\<close>

fun like :: "string \<Rightarrow> string \<Rightarrow> bool" where
  "like [] t \<longleftrightarrow> t = []"
| "like (c # ps) t \<longleftrightarrow>
     (if c = backslash then
        (case (ps, t) of (d # ps', x # t') \<Rightarrow> x = d \<and> like ps' t' | _ \<Rightarrow> False)
      else if c = CHR ''%'' then
        like ps t \<or> (case t of [] \<Rightarrow> False | x # t' \<Rightarrow> like (c # ps) t')
      else (case t of [] \<Rightarrow> False | x # t' \<Rightarrow> (c = CHR ''_'' \<or> x = c) \<and> like ps t'))"

text \<open>\<open>s.replace(c, r)\<close> for a one-character \<open>c\<close>.\<close>

definition replace_char :: "char \<Rightarrow> string \<Rightarrow> string \<Rightarrow> string" where
  "replace_char c r s = concat (map (\<lambda>x. if x = c then r else [x]) s)"

definition escape_like :: "string \<Rightarrow> string" where
  "escape_like value = replace_char (CHR ''_'') [backslash, CHR ''_'']
     (replace_char (CHR ''%'') [backslash, CHR ''%'']
       (replace_char backslash [backslash, backslash] value))"

subsection \<open>Phone numbers and e-mail addresses\<close>

definition is_digit :: "char \<Rightarrow> bool" where
  "is_digit c \<longleftrightarrow> c \<in> set ''0123456789''"

text \<open>The class \<open>[\s\-().]\<close>.\<close>

definition phone_separator :: "char \<Rightarrow> bool" where
  "phone_separator c \<longleftrightarrow> is_space c \<or> c \<in> set ''-().''"

definition strip_separators :: "string \<Rightarrow> string" where
  "strip_separators raw = filter (\<lambda>c. \<not> phone_separator c) raw"

text \<open>\<open>^\+[1-9]\d{6,14}$\<close>\<close>

definition is_e164 :: "string \<Rightarrow> bool" where
  "is_e164 x = (case x of
     p # d # ds \<Rightarrow> p = CHR ''+'' \<and> is_digit d \<and> d \<noteq> CHR ''0'' \<and> list_all is_digit ds
       \<and> 6 \<le> length ds \<and> length ds \<le> 14
   | _ \<Rightarrow> False)"

definition normalize_phone :: "string \<Rightarrow> string result" where
  "normalize_phone raw =
     (let digits = strip_separators raw;
          digits = (if prefix ''00'' digits then ''+'' @ drop 2 digits
                    else if prefix ''0'' digits \<and> length digits = 10 then ''+254'' @ drop 1 digits
                    else if prefix ''254'' digits \<and> length digits = 12 then ''+'' @ digits
                    else digits) in
      bindR (raise_if (\<not> is_e164 digits) ValueError) (\<lambda>_. Inr digits))"

text \<open>\<open>^[^@\s]+@[^@\s]+\.[^@\s]+$\<close>: one \<open>@\<close>, no white space, and a dot in the domain that is neither its
  first nor its last character.\<close>

definition is_email :: "string \<Rightarrow> bool" where
  "is_email x = (let user = takeWhile (\<lambda>c. c \<noteq> CHR ''@'') x;
                     domain = drop (Suc (length user)) x in
     length user < length x \<and> user \<noteq> [] \<and> CHR ''@'' \<notin> set domain \<and> \<not> list_ex is_space x
     \<and> CHR ''.'' \<in> set (butlast (drop 1 domain)))"

definition normalize_email :: "string \<Rightarrow> string result" where
  "normalize_email raw = (let email = py_lower (py_strip raw) in
     bindR (raise_if (length email > 255 \<or> \<not> is_email email) ValueError) (\<lambda>_. Inr email))"

definition looks_like_email :: "string \<Rightarrow> bool" where
  "looks_like_email identifier \<longleftrightarrow> CHR ''@'' \<in> set identifier"

text \<open>\<open>^[+\d][\d\s\-().]*$\<close>\<close>

definition is_phone_text :: "string \<Rightarrow> bool" where
  "is_phone_text q = (case q of [] \<Rightarrow> False
     | c # cs \<Rightarrow> (c = CHR ''+'' \<or> is_digit c) \<and> list_all (\<lambda>x. is_digit x \<or> phone_separator x) cs)"

definition phone_pattern :: "string \<Rightarrow> string option" where
  "phone_pattern query =
     (if \<not> is_phone_text query then None
      else let digits = strip_separators query in
        if length digits < 2 then None
        else if prefix ''00'' digits then Some (escape_like (''+'' @ drop 2 digits) @ ''%'')
        else if prefix ''0'' digits then Some (escape_like (''+254'' @ drop 1 digits) @ ''%'')
        else if prefix ''254'' digits then Some (escape_like (''+'' @ digits) @ ''%'')
        else if \<not> prefix ''+'' digits then Some (''%'' @ escape_like digits @ ''%'')
        else Some (escape_like digits @ ''%''))"

subsection \<open>Escaping makes LIKE a plain test\<close>

lemma escape_like_simps [simp]:
  "escape_like [] = []"
  "escape_like (c # cs)
    = (if c = backslash \<or> c = CHR ''%'' \<or> c = CHR ''_'' then [backslash, c] else [c]) @ escape_like cs"
  by (simp_all add: escape_like_def replace_char_def)

lemma escape_like_append [simp]: "escape_like (xs @ ys) = escape_like xs @ escape_like ys"
  by (induction xs) auto

lemma like_escape:
  "like (escape_like q @ ps) t \<longleftrightarrow> (\<exists>u. t = q @ u \<and> like ps u)"
proof (induction q arbitrary: t)
  case Nil
  then show ?case by simp
next
  case (Cons c q)
  then show ?case by (cases t) auto
qed

lemma like_any: "like (CHR ''%'' # ps) t \<longleftrightarrow> (\<exists>a b. t = a @ b \<and> like ps b)"
proof (induction t)
  case Nil
  then show ?case by simp
next
  case (Cons x t)
  have "like (CHR ''%'' # ps) (x # t) \<longleftrightarrow> like ps (x # t) \<or> like (CHR ''%'' # ps) t" by simp
  also have "\<dots> \<longleftrightarrow> like ps (x # t) \<or> (\<exists>a b. t = a @ b \<and> like ps b)" by (simp only: Cons)
  also have "\<dots> \<longleftrightarrow> (\<exists>a b. x # t = a @ b \<and> like ps b)"
    by (auto simp: Cons_eq_append_conv)
  finally show ?case .
qed

lemma like_prefix: "like (escape_like q @ ''%'') t \<longleftrightarrow> prefix q t"
  by (simp add: like_escape like_any prefix_def del: like.simps(2))

lemma like_substring: "like (''%'' @ escape_like q @ ''%'') t \<longleftrightarrow> sublist q t"
  by (auto simp: like_any like_escape sublist_def simp del: like.simps(2))

subsection \<open>A partly typed number\<close>

lemma prefix_strip_separators: "prefix xs ys \<Longrightarrow> prefix (strip_separators xs) (strip_separators ys)"
  by (auto simp: prefix_def strip_separators_def)

text \<open>Whatever form a number was typed in, every beginning of that form with at least two digits finds it.\<close>

lemma phone_pattern_complete:
  assumes norm: "normalize_phone typed = Inr phone" and q: "prefix query typed"
    and typeable: "is_phone_text query" and two: "2 \<le> length (strip_separators query)"
  obtains pat where "phone_pattern query = Some pat" "like pat phone"
proof -
  define D where "D = strip_separators typed"
  define d where "d = strip_separators query"
  obtain r where D: "D = d @ r" using prefix_strip_separators [OF q] by (auto simp: D_def d_def prefix_def)
  obtain a b ds where d: "d = a # b # ds" using two by (auto simp: d_def numeral_2_eq_2 Suc_le_length_iff)
  have e164: "is_e164 phone"
    and phone: "phone = (if prefix ''00'' D then ''+'' @ drop 2 D
        else if prefix ''0'' D \<and> length D = 10 then ''+254'' @ drop 1 D
        else if prefix ''254'' D \<and> length D = 12 then ''+'' @ D else D)"
    using norm by (auto simp: normalize_phone_def Let_def result_simps D_def)
  have pat: "phone_pattern query = Some (if prefix ''00'' d then escape_like (''+'' @ drop 2 d) @ ''%''
      else if prefix ''0'' d then escape_like (''+254'' @ drop 1 d) @ ''%''
      else if prefix ''254'' d then escape_like (''+'' @ d) @ ''%''
      else if \<not> prefix ''+'' d then ''%'' @ escape_like d @ ''%''
      else escape_like d @ ''%'')"
    using typeable two by (simp add: phone_pattern_def d_def Let_def not_less)
  consider (intl) "a = CHR ''0''" "b = CHR ''0''" | (local) "a = CHR ''0''" "b \<noteq> CHR ''0''"
    | (kenya) "a \<noteq> CHR ''0''" "prefix ''254'' D" "length D = 12" | (plus) "a \<noteq> CHR ''0''"
        "\<not> (prefix ''254'' D \<and> length D = 12)"
    by blast
  then show thesis
  proof cases
    case intl
    then have "phone = ''+'' @ drop 2 d @ r" by (simp add: phone D d)
    then have "like (escape_like (''+'' @ drop 2 d) @ ''%'') phone" unfolding like_prefix by (simp add: prefix_def)
    with intl show thesis by (intro that [OF pat]) (simp add: d)
  next
    case local
    then have "length D = 10" using e164 by (auto simp: phone D d is_e164_def is_digit_def split: if_splits)
    with local have "phone = ''+254'' @ drop 1 d @ r" by (simp add: phone D d)
    then have "like (escape_like (''+254'' @ drop 1 d) @ ''%'') phone"
      unfolding like_prefix by (simp add: prefix_def)
    with local show thesis by (intro that [OF pat]) (simp add: d)
  next
    case kenya
    then have ph: "phone = ''+'' @ d @ r" by (simp add: phone D d)
    then have "like (escape_like (''+'' @ d) @ ''%'') phone" "like (''%'' @ escape_like d @ ''%'') phone"
      unfolding like_prefix like_substring by (simp add: prefix_def, unfold sublist_def, blast)
    moreover have "\<not> prefix ''+'' d" using kenya(2) by (auto simp: D d)
    ultimately show thesis using kenya(1) by (intro that [OF pat]) (simp add: d)
  next
    case plus
    then have "phone = d @ r" by (simp add: phone D d)
    moreover have "a = CHR ''+''" using calculation e164 by (simp add: d is_e164_def)
    ultimately have "like (escape_like d @ ''%'') phone" unfolding like_prefix by (simp add: prefix_def)
    with \<open>a = CHR ''+''\<close> show thesis by (intro that [OF pat]) (simp add: d)
  qed
qed

end
