(* ===== verification/Keyset.thy ===== *)
theory Keyset
  imports Schema "HOL-Library.Product_Lexorder"
begin

text \<open>
  Keyset paging, the loop of the three CSV exports (\<open>iter_export\<close> in \<open>services/customers.py\<close>,
  \<open>services/expenses.py\<close> and \<open>services/sales.py\<close>):

    fetch a page of rows after the last key, yield it, stop when the page is not full.

  Nothing in the loop itself makes it stop, so it is a partial function: \<open>None\<close> is a loop that runs
  forever. The locale \<open>keyset_query\<close> is the contract of the page query; under it the loop ends and yields
  every row exactly once, in key order. The component theories interpret it on their queries.
\<close>

partial_function (option) iter_pages ::
  "('k option \<Rightarrow> 'r list) \<Rightarrow> ('r list \<Rightarrow> 'o list) \<Rightarrow> ('r \<Rightarrow> 'k) \<Rightarrow> nat \<Rightarrow> 'k option \<Rightarrow> 'o list option" where
  "iter_pages fetch yields key psize after =
     (let batch = fetch after in
      if length batch < psize then Some (yields batch)
      else Option.bind (iter_pages fetch yields key psize (Some (key (last batch)))) (\<lambda>rest.
             Some (yields batch @ rest)))"

text \<open>The query behind a page: the rows with a later key, in key order, cut to the page size.\<close>

definition beyond :: "'k::linorder option \<Rightarrow> 'k \<Rightarrow> bool" where
  "beyond after k = (case after of None \<Rightarrow> True | Some a \<Rightarrow> a < k)"

definition page :: "('r \<Rightarrow> 'k::linorder) \<Rightarrow> nat \<Rightarrow> 'r list \<Rightarrow> 'k option \<Rightarrow> 'r list" where
  "page key psize rows after = take psize (sort_key key (filter (\<lambda>r. beyond after (key r)) rows))"

lemma beyond_simps [simp]: "beyond None k" "beyond (Some a) k \<longleftrightarrow> a < k"
  by (simp_all add: beyond_def)

lemma sorted_wrt_keys:
  "distinct (map key rows) \<Longrightarrow> sorted_wrt (\<lambda>x y. key x < key y) (sort_key key rows)"
proof -
  assume "distinct (map key rows)"
  then have "distinct (map key (sort_key key rows))" by (simp add: distinct_map)
  then have "sorted_wrt (<) (map key (sort_key key rows))" by (simp add: strict_sorted_iff)
  then show ?thesis by (simp add: sorted_wrt_map)
qed

text \<open>In strictly increasing order, what lies beyond the last row of a beginning is the rest.\<close>

lemma filter_beyond_last:
  assumes "sorted_wrt (\<lambda>x y. key x < (key y :: 'k::linorder)) (xs @ ys)" and "xs \<noteq> []"
  shows "filter (\<lambda>r. key (last xs) < key r) (xs @ ys) = ys"
proof -
  from assms(2) obtain us x where xs: "xs = us @ [x]" by (metis append_butlast_last_id)
  have "\<not> key x < key u" if "u \<in> set xs" for u
    using assms(1) that by (auto simp: xs sorted_wrt_append dest: less_asym)
  moreover have "key x < key y" if "y \<in> set ys" for y
    using assms(1) that by (auto simp: xs sorted_wrt_append)
  ultimately show ?thesis by (simp add: xs filter_empty_conv)
qed

locale keyset_query =
  fixes fetch :: "'k::linorder option \<Rightarrow> 'r list"
    and yields :: "'r list \<Rightarrow> 'o list"
    and key :: "'r \<Rightarrow> 'k"
    and psize :: nat
    and rows :: "'r list"
    and row_out :: "'r \<Rightarrow> 'o"
  assumes size_pos: "0 < psize"
    and fetch_page: "fetch after = page key psize rows after"
    and yields_rows: "set batch \<subseteq> set rows \<Longrightarrow> yields batch = map row_out batch"
begin

abbreviation rest_after :: "'k option \<Rightarrow> 'r list" where
  "rest_after after \<equiv> filter (\<lambda>r. beyond after (key r)) (sort_key key rows)"

lemma fetch_rest: "fetch after = take psize (rest_after after)"
  by (simp add: fetch_page page_def filter_sort)

lemma rest_subset: "set (rest_after after) \<subseteq> set rows"
  by auto

lemma next_page:
  assumes "distinct (map key rows)" and "psize \<le> length (rest_after after)"
  shows "rest_after (Some (key (last (fetch after)))) = drop psize (rest_after after)"
proof -
  let ?rest = "rest_after after"
  have ne: "take psize ?rest \<noteq> []" using assms(2) size_pos by auto
  have "sorted_wrt (\<lambda>x y. key x < key y) ?rest"
    by (rule sorted_wrt_filter) (rule sorted_wrt_keys [OF assms(1)])
  then have "filter (\<lambda>r. key (last (take psize ?rest)) < key r) ?rest = drop psize ?rest"
    using filter_beyond_last [of key "take psize ?rest" "drop psize ?rest"] ne by simp
  moreover have "filter (\<lambda>r. a < key r) ?rest = rest_after (Some a)" if "beyond after a" for a
  proof -
    have "beyond after k" if "a < k" for k using that \<open>beyond after a\<close> by (cases after) auto
    then have "(a < key r \<and> beyond after (key r)) \<longleftrightarrow> beyond (Some a) (key r)" for r by auto
    then show ?thesis by (simp add: filter_filter conj_commute)
  qed
  moreover have "beyond after (key (last (take psize ?rest)))"
  proof -
    have "last (take psize ?rest) \<in> set ?rest" using ne by (meson in_set_takeD last_in_set)
    then show ?thesis by simp
  qed
  ultimately show ?thesis by (simp add: fetch_rest)
qed

lemma pages_from:
  assumes "distinct (map key rows)"
  shows "iter_pages fetch yields key psize after = Some (map row_out (rest_after after))"
proof (induction "length (rest_after after)" arbitrary: after rule: less_induct)
  case less
  have batch: "yields (fetch after) = map row_out (take psize (rest_after after))"
    unfolding fetch_rest by (rule yields_rows) (use rest_subset in \<open>blast dest: in_set_takeD\<close>)
  show ?case
  proof (cases "length (rest_after after) < psize")
    case True
    then have "fetch after = rest_after after" by (simp add: fetch_rest)
    with True batch show ?thesis by (subst iter_pages.simps) simp
  next
    case False
    let ?next = "Some (key (last (fetch after)))"
    have next_rest: "rest_after ?next = drop psize (rest_after after)"
      using next_page [OF assms] False by simp
    with False size_pos have "length (rest_after ?next) < length (rest_after after)" by simp
    then have "iter_pages fetch yields key psize ?next = Some (map row_out (drop psize (rest_after after)))"
      using less next_rest by metis
    moreover have "\<not> length (fetch after) < psize" using False by (simp add: fetch_rest)
    ultimately show ?thesis
      using batch by (subst iter_pages.simps) (simp flip: map_append)
  qed
qed

text \<open>The loop ends and yields every row once, in key order.\<close>

lemma pages_complete:
  "distinct (map key rows) \<Longrightarrow> iter_pages fetch yields key psize None = Some (map row_out (sort_key key rows))"
  by (simp add: pages_from)

end

end
