(* ===== verification/Customers.thy ===== *)
theory Customers
  imports Credit Search Keyset
begin

text \<open>
  Customers: \<open>services/customers.py\<close>, \<open>repositories/customers.py\<close> and \<open>schemas/customers.py\<close>. Creating a
  customer (phone numbers are unique per business), the search a shopkeeper types, and the export.
  The balance is only ever moved by the credit ledger (theory \<open>Credit\<close>).
\<close>

subsection \<open>Requests\<close>

record CustomerCreateRequest =
  cc_name :: string
  cc_phone :: "string option"
  cc_notes :: "string option"
  cc_credit_limit :: "money option"

definition MAX_NOTES_LENGTH :: nat where
  "MAX_NOTES_LENGTH = 2000"

text \<open>The field validators: what the service receives for the text the client sent.\<close>

definition customer_phone :: "string option \<Rightarrow> string option result" where
  "customer_phone value = (case value of None \<Rightarrow> Inr None
     | Some v \<Rightarrow> if v = [] then Inr None else bindR (normalize_phone v) (\<lambda>p. Inr (Some p)))"

definition customer_notes :: "string option \<Rightarrow> string option" where
  "customer_notes value = (if truthy value then value else None)"

definition valid_customer :: "CustomerCreateRequest \<Rightarrow> bool" where
  "valid_customer d \<longleftrightarrow> 1 \<le> length (cc_name d) \<and> length (cc_name d) \<le> 120
     \<and> opt_all (\<lambda>n. length n \<le> MAX_NOTES_LENGTH) (cc_notes d)
     \<and> opt_all (\<lambda>l. 0 \<le> l \<and> fits_money l) (cc_credit_limit d)"

subsection \<open>Queries\<close>

definition CUSTOMER_LIST_LIMIT :: nat where
  "CUSTOMER_LIST_LIMIT = 500"

definition search_clause :: "string \<Rightarrow> customer \<Rightarrow> bool" where
  "search_clause query c = (let needle = escape_like (py_lower query) in
     like (''%'' @ needle @ ''%'') (py_lower (c_name c))
     \<or> (case (phone_pattern query, c_phone c) of (Some pat, Some phone) \<Rightarrow> like pat phone | _ \<Rightarrow> False))"

definition repo_list_customers ::
  "(string \<Rightarrow> int) \<Rightarrow> uuid \<Rightarrow> string option \<Rightarrow> bool \<Rightarrow> nat \<Rightarrow> db \<Rightarrow> customer list" where
  "repo_list_customers collate bid query include_archived limit s =
     take (min limit CUSTOMER_LIST_LIMIT)
       (sort_key (\<lambda>c. (collate (py_lower (c_name c)), c_id c))
         (filter (\<lambda>c. c_business_id c = bid \<and> (include_archived \<or> c_is_active c)
            \<and> (truthy query \<longrightarrow> opt_all (\<lambda>q. search_clause q c) query)) (customers s)))"

definition list_customers ::
  "(string \<Rightarrow> int) \<Rightarrow> BusinessContext \<Rightarrow> string option \<Rightarrow> bool \<Rightarrow> nat \<Rightarrow> db \<Rightarrow> customer list" where
  "list_customers collate ctx query include_archived limit s =
     repo_list_customers collate (business_id ctx) query include_archived limit s"

definition get_customer :: "BusinessContext \<Rightarrow> uuid \<Rightarrow> db \<Rightarrow> customer result" where
  "get_customer ctx cid s = the_or NotFoundError (repo_get_customer (business_id ctx) cid s)"

definition names_for :: "uuid \<Rightarrow> uuid list \<Rightarrow> db \<Rightarrow> uuid \<rightharpoonup> string" where
  "names_for bid ids s = (if ids = [] then Map.empty
     else map_of (map (\<lambda>c. (c_id c, c_name c))
            (filter (\<lambda>c. c_business_id c = bid \<and> c_id c \<in> set ids) (customers s))))"

subsection \<open>Creating a customer\<close>

definition phone_key :: "customer \<Rightarrow> (uuid \<times> string) option" where
  "phone_key c = map_option (Pair (c_business_id c)) (c_phone c)"

definition flush_customer :: "customer \<Rightarrow> db \<Rightarrow> unit result" where
  "flush_customer c s =
     bindR (flush_row (customer_fits c) (customer_checks c)) (\<lambda>_.
     raise_if (phone_key c \<noteq> None \<and> list_ex (\<lambda>r. phone_key r = phone_key c) (customers s))
       (IntegrityError uq_customers_business_id_phone))"

definition create_customer_body ::
  "clock \<Rightarrow> BusinessContext \<Rightarrow> CustomerCreateRequest \<Rightarrow> db \<Rightarrow> (customer \<times> db) result" where
  "create_customer_body clk ctx data s =
     (let customer = \<lparr>c_id = new_id s, c_business_id = business_id ctx, c_name = cc_name data,
            c_phone = cc_phone data, c_notes = cc_notes data, c_credit_limit = cc_credit_limit data,
            c_balance = 0, c_is_active = True, c_created_at = tx_now clk\<rparr> in
      bindR (flush_customer customer s) (\<lambda>_.
      Inr (customer, (drawn s)\<lparr>customers := customers s @ [customer]\<rparr>)))"

definition create_customer ::
  "clock \<Rightarrow> BusinessContext \<Rightarrow> CustomerCreateRequest \<Rightarrow> db \<Rightarrow> customer result \<times> db" where
  "create_customer clk ctx data s =
     on_integrity_error uq_customers_business_id_phone (ConflictError ''CUSTOMER_PHONE_EXISTS'')
       (transaction (create_customer_body clk ctx data) s)"

subsection \<open>Export\<close>

definition CUSTOMER_EXPORT_BATCH :: nat where
  "CUSTOMER_EXPORT_BATCH = 500"

definition customer_export_key :: "customer \<Rightarrow> time \<times> uuid" where
  "customer_export_key c = (c_created_at c, c_id c)"

definition customer_export_batch :: "uuid \<Rightarrow> db \<Rightarrow> (time \<times> uuid) option \<Rightarrow> customer list" where
  "customer_export_batch bid s after = take CUSTOMER_EXPORT_BATCH (sort_key customer_export_key
     (filter (\<lambda>c. c_business_id c = bid
        \<and> (case after of None \<Rightarrow> True | Some a \<Rightarrow> a < customer_export_key c)) (customers s)))"

definition customer_iter_export :: "BusinessContext \<Rightarrow> db \<Rightarrow> customer list option" where
  "customer_iter_export ctx s =
     iter_pages (customer_export_batch (business_id ctx) s) (\<lambda>batch. batch) customer_export_key
       CUSTOMER_EXPORT_BATCH None"

subsection \<open>Creating keeps the ledgers\<close>

lemma flush_customer_ok:
  "flush_customer c s = Inr u \<longleftrightarrow> customer_fits c \<and> customer_checks c
     \<and> (phone_key c = None \<or> phone_key c \<notin> phone_key ` set (customers s))"
  by (auto simp: flush_customer_def bindR_eq_Inr list_ex_iff image_iff)

lemma create_customer_body_success:
  "create_customer_body clk ctx data s = Inr (c, s') \<longleftrightarrow>
     c = \<lparr>c_id = new_id s, c_business_id = business_id ctx, c_name = cc_name data, c_phone = cc_phone data,
          c_notes = cc_notes data, c_credit_limit = cc_credit_limit data, c_balance = 0, c_is_active = True,
          c_created_at = tx_now clk\<rparr>
     \<and> flush_customer c s = Inr () \<and> s' = (drawn s)\<lparr>customers := customers s @ [c]\<rparr>"
  by (auto simp: create_customer_body_def Let_def bindR_eq_Inr)

lemma fresh_customer_id: "fresh_ok s \<Longrightarrow> new_id s \<notin> c_id ` set (customers s)"
  using new_id_fresh [of s] by (simp add: known_ids_def)

text \<open>Phone numbers are unique per business.\<close>

definition phones_ok :: "db \<Rightarrow> bool" where
  "phones_ok s \<longleftrightarrow> key_unique phone_key (customers s)"

lemma create_customer_body_ok:
  assumes body: "create_customer_body clk ctx data s = Inr (c, s')"
  shows "credit_ok s \<Longrightarrow> fresh_ok s \<Longrightarrow> credit_ok s'" and "phones_ok s \<Longrightarrow> phones_ok s'"
    and "grows s s'" and "writes {T_customers} s s'"
proof -
  from body have c: "c_id c = new_id s" "c_balance c = 0" and flush: "flush_customer c s = Inr ()"
    and s': "s' = (drawn s)\<lparr>customers := customers s @ [c]\<rparr>"
    by (auto simp: create_customer_body_success)
  show "phones_ok s \<Longrightarrow> phones_ok s'" using flush by (simp add: phones_ok_def s' flush_customer_ok)
  show "writes {T_customers} s s'" by (simp add: writes_def s')
  have "known_ids s' = known_ids s \<union> {new_id s}" by (auto simp: known_ids_def s' c(1))
  then show "grows s s'" by (auto simp: grows_def s' new_id_def)
  assume ok: "credit_ok s" and fresh: "fresh_ok s"
  have new: "c_id c \<notin> c_id ` set (customers s)" using fresh_customer_id [OF fresh] c(1) by simp
  have "ct_customer_id t \<noteq> c_id c" if "t \<in> set (credit_transactions s)" for t
    using ok that new unfolding credit_ok_def by (metis imageI)
  then have "filter (\<lambda>t. ct_customer_id t = c_id c) (credit_transactions s) = []"
    by (auto simp: filter_empty_conv)
  then have "credit_account s' c"
    using c(2) by (simp add: credit_account_def credit_entries_def s' total_where_def)
  moreover have "credit_account s' r \<longleftrightarrow> credit_account s r" for r
    by (simp add: credit_account_def credit_entries_def s')
  ultimately show "credit_ok s'" using ok new by (auto simp: credit_ok_def s')
qed

lemma create_customer_ok:
  shows "credit_ok s \<Longrightarrow> fresh_ok s \<Longrightarrow> credit_ok (snd (create_customer clk ctx data s))"
    and "phones_ok s \<Longrightarrow> phones_ok (snd (create_customer clk ctx data s))"
    and "grows s (snd (create_customer clk ctx data s))"
    and "writes {T_customers} s (snd (create_customer clk ctx data s))"
proof -
  let ?s' = "snd (transaction (create_customer_body clk ctx data) s)"
  have eq: "snd (create_customer clk ctx data s) = ?s'" by (simp add: create_customer_def)
  show "credit_ok s \<Longrightarrow> fresh_ok s \<Longrightarrow> credit_ok (snd (create_customer clk ctx data s))"
    unfolding eq by (rule transaction_preserves [where P = credit_ok], assumption, erule (2) create_customer_body_ok(1))
  show "phones_ok s \<Longrightarrow> phones_ok (snd (create_customer clk ctx data s))"
    unfolding eq by (rule transaction_preserves [where P = phones_ok], assumption, erule (1) create_customer_body_ok(2))
  show "grows s (snd (create_customer clk ctx data s))"
    unfolding eq by (rule grows_transaction) (rule create_customer_body_ok(3))
  show "writes {T_customers} s (snd (create_customer clk ctx data s))"
    unfolding eq by (rule writes_transaction) (rule create_customer_body_ok(4))
qed

text \<open>The credit operations write balances only.\<close>

lemma phones_ok_cong: "map phone_key (customers s') = map phone_key (customers s) \<Longrightarrow> phones_ok s' \<longleftrightarrow> phones_ok s"
  unfolding phones_ok_def by (rule key_unique_cong)

subsection \<open>The export is a keyset query\<close>

interpretation customer_pages: keyset_query "customer_export_batch bid s" "\<lambda>batch. batch" customer_export_key
  CUSTOMER_EXPORT_BATCH "filter (\<lambda>c. c_business_id c = bid) (customers s)" "\<lambda>c. c"
  for bid s
  by unfold_locales
    (simp_all add: CUSTOMER_EXPORT_BATCH_def customer_export_batch_def page_def beyond_def)

lemma customer_iter_export_rows:
  assumes "distinct (map c_id (customers s))"
  shows "customer_iter_export ctx s
    = Some (sort_key customer_export_key (filter (\<lambda>c. c_business_id c = business_id ctx) (customers s)))"
proof -
  have "distinct (map c_id (filter (\<lambda>c. c_business_id c = business_id ctx) (customers s)))"
    using assms by (rule distinct_map_filter)
  then have "distinct (map customer_export_key (filter (\<lambda>c. c_business_id c = business_id ctx) (customers s)))"
    by (auto simp: distinct_map inj_on_def customer_export_key_def)
  then show ?thesis by (simp add: customer_iter_export_def customer_pages.pages_complete)
qed

subsection \<open>Claims\<close>



end
