(* ===== verification/Expenses.thy ===== *)
theory Expenses
  imports Keyset "HOL-Library.Char_ord" "HOL-Library.List_Lexorder"
begin

text \<open>
  Expenses: \<open>services/expenses.py\<close>, \<open>repositories/expenses.py\<close> and \<open>schemas/expenses.py\<close>. Recording, editing,
  soft deletion, lists, the totals the reports use, and the export. An expense touches no other table
  than its own and the audit log.
\<close>

subsection \<open>Requests\<close>

definition SUGGESTED_CATEGORIES :: "string list" where
  "SUGGESTED_CATEGORIES = [''RENT'', ''TRANSPORT'', ''UTILITIES'', ''AIRTIME'', ''SALARIES'', ''LICENSES'', ''OTHER'']"

text \<open>\<open>re.sub(r"\s+", " ", s)\<close>: every run of white space becomes one blank.\<close>

function single_spaced :: "string \<Rightarrow> string" where
  "single_spaced [] = []"
| "single_spaced (c # cs) =
     (if is_space c then CHR '' '' # single_spaced (dropWhile is_space cs) else c # single_spaced cs)"
  by pat_completeness auto
termination
  by (relation "measure length") (auto simp: le_imp_less_Suc length_dropWhile_le)

definition normalize_category :: "string \<Rightarrow> string" where
  "normalize_category value = py_upper (single_spaced (py_strip value))"

record ExpenseCreateRequest =
  ec_amount :: money
  ec_category :: string
  ec_payment_method :: MoneyReceivedMethod
  ec_reference :: "string option"
  ec_note :: "string option"
  ec_incurred_at :: "time option"

record ExpenseUpdateRequest =
  eu_amount :: "money option"
  eu_category :: "string option"
  eu_payment_method :: "MoneyReceivedMethod option"
  eu_reference :: "string option option"
  eu_note :: "string option option"
  eu_incurred_at :: "time option"

definition valid_expense_create :: "ExpenseCreateRequest \<Rightarrow> bool" where
  "valid_expense_create d \<longleftrightarrow> 0 < ec_amount d \<and> fits_money (ec_amount d)
     \<and> ec_category d \<noteq> [] \<and> length (ec_category d) \<le> 60
     \<and> opt_all (\<lambda>r. r \<noteq> [] \<and> length r \<le> 64) (ec_reference d)
     \<and> opt_all (\<lambda>r. r \<noteq> [] \<and> length r \<le> 255) (ec_note d)"

definition valid_expense_update :: "ExpenseUpdateRequest \<Rightarrow> bool" where
  "valid_expense_update d \<longleftrightarrow> opt_all (\<lambda>a. 0 < a \<and> fits_money a) (eu_amount d)
     \<and> opt_all (\<lambda>c. c \<noteq> [] \<and> length c \<le> 60) (eu_category d)
     \<and> opt_all (opt_all (\<lambda>r. r \<noteq> [] \<and> length r \<le> 64)) (eu_reference d)
     \<and> opt_all (opt_all (\<lambda>r. r \<noteq> [] \<and> length r \<le> 255)) (eu_note d)
     \<and> \<not> (eu_amount d = None \<and> eu_category d = None \<and> eu_payment_method d = None
          \<and> eu_reference d = None \<and> eu_note d = None \<and> eu_incurred_at d = None)"

subsection \<open>Queries\<close>

definition EXPENSE_LIST_LIMIT :: nat where
  "EXPENSE_LIST_LIMIT = 200"

definition EXPENSE_EXPORT_BATCH :: nat where
  "EXPENSE_EXPORT_BATCH = 500"

definition expense_key :: "expense \<Rightarrow> time \<times> uuid" where
  "expense_key e = (ex_incurred_at e, ex_id e)"

definition repo_get_expense :: "uuid \<Rightarrow> uuid \<Rightarrow> db \<Rightarrow> expense option" where
  "repo_get_expense bid eid s = find (\<lambda>e. ex_business_id e = bid \<and> ex_id e = eid) (expenses s)"

definition filtered ::
  "uuid \<Rightarrow> time option \<Rightarrow> time option \<Rightarrow> string option \<Rightarrow> MoneyReceivedMethod option \<Rightarrow> bool \<Rightarrow> db
    \<Rightarrow> expense list" where
  "filtered bid incurred_from incurred_until category payment_method include_deleted s =
     filter (\<lambda>e. ex_business_id e = bid
       \<and> (include_deleted \<or> ex_deleted_at e = None)
       \<and> opt_all (\<lambda>t. t \<le> ex_incurred_at e) incurred_from
       \<and> opt_all (\<lambda>t. ex_incurred_at e < t) incurred_until
       \<and> opt_all (\<lambda>c. ex_category e = c) category
       \<and> opt_all (\<lambda>m. ex_payment_method e = m) payment_method) (expenses s)"

definition repo_list_expenses ::
  "uuid \<Rightarrow> time option \<Rightarrow> time option \<Rightarrow> string option \<Rightarrow> MoneyReceivedMethod option \<Rightarrow> bool \<Rightarrow> nat \<Rightarrow> db
    \<Rightarrow> expense list" where
  "repo_list_expenses bid incurred_from incurred_until category payment_method include_deleted limit s =
     take (min limit EXPENSE_LIST_LIMIT) (rev (sort_key expense_key
       (filtered bid incurred_from incurred_until category payment_method include_deleted s)))"

definition expense_export_batch ::
  "uuid \<Rightarrow> time option \<Rightarrow> time option \<Rightarrow> string option \<Rightarrow> MoneyReceivedMethod option \<Rightarrow> db
    \<Rightarrow> (time \<times> uuid) option \<Rightarrow> expense list" where
  "expense_export_batch bid incurred_from incurred_until category payment_method s after =
     take EXPENSE_EXPORT_BATCH (sort_key expense_key
       (filter (\<lambda>e. case after of None \<Rightarrow> True | Some a \<Rightarrow> a < expense_key e)
         (filtered bid incurred_from incurred_until category payment_method False s)))"

definition used_categories :: "(string \<Rightarrow> int) \<Rightarrow> uuid \<Rightarrow> db \<Rightarrow> string list" where
  "used_categories collate bid s = take EXPENSE_LIST_LIMIT (sort_key collate (remdups
     (map ex_category (filter (\<lambda>e. ex_business_id e = bid \<and> ex_deleted_at e = None) (expenses s)))))"

text \<open>\<open>GROUP BY\<close>: one row per value of the column with the sum and the count of its group.\<close>

definition group_totals :: "(expense \<Rightarrow> 'g) \<Rightarrow> expense list \<Rightarrow> ('g \<times> money \<times> nat) list" where
  "group_totals g rows = map (\<lambda>v. (v, total_where ex_amount (\<lambda>e. g e = v) rows,
     length (filter (\<lambda>e. g e = v) rows))) (remdups (map g rows))"

definition in_period :: "uuid \<Rightarrow> time \<Rightarrow> time \<Rightarrow> db \<Rightarrow> expense list" where
  "in_period bid incurred_from incurred_until s = filter (\<lambda>e. ex_business_id e = bid
     \<and> ex_deleted_at e = None \<and> incurred_from \<le> ex_incurred_at e \<and> ex_incurred_at e < incurred_until) (expenses s)"

definition totals_by_category ::
  "(string \<Rightarrow> int) \<Rightarrow> uuid \<Rightarrow> time \<Rightarrow> time \<Rightarrow> db \<Rightarrow> (string \<times> money \<times> nat) list" where
  "totals_by_category collate bid incurred_from incurred_until s =
     sort_key (\<lambda>(c, total, n). (- total, collate c))
       (group_totals ex_category (in_period bid incurred_from incurred_until s))"

definition totals_by_method ::
  "uuid \<Rightarrow> time \<Rightarrow> time \<Rightarrow> db \<Rightarrow> (MoneyReceivedMethod \<times> money \<times> nat) list" where
  "totals_by_method bid incurred_from incurred_until s =
     group_totals ex_payment_method (in_period bid incurred_from incurred_until s)"

subsection \<open>Operations\<close>

definition EXPENSE_ENTITY :: string where
  "EXPENSE_ENTITY = ''expense''"

definition EXPENSE_FUTURE_TOLERANCE :: time where
  "EXPENSE_FUTURE_TOLERANCE = 300000000"

definition ExpenseDeletedError :: error where
  "ExpenseDeletedError = ConflictError ''EXPENSE_DELETED''"

definition resolve_incurred_at :: "clock \<Rightarrow> time option \<Rightarrow> time result" where
  "resolve_incurred_at clk requested = (case requested of None \<Rightarrow> Inr (now clk)
     | Some t \<Rightarrow> bindR (raise_if (t > now clk + EXPENSE_FUTURE_TOLERANCE)
         (UnprocessableError ''EXPENSE_IN_FUTURE'')) (\<lambda>_. Inr (min t (now clk))))"

definition expense_of_ctx :: "BusinessContext \<Rightarrow> uuid \<Rightarrow> db \<Rightarrow> expense result" where
  "expense_of_ctx ctx eid s = the_or NotFoundError (repo_get_expense (business_id ctx) eid s)"

definition add_expense :: "expense \<Rightarrow> db \<Rightarrow> (expense \<times> db) result" where
  "add_expense e s = bindR (flush_row (fits_money (ex_amount e)) (expense_checks e)) (\<lambda>_.
     Inr (e, (drawn s)\<lparr>expenses := expenses s @ [e]\<rparr>))"

text \<open>The row object is built before the transaction opens; its id and \<open>created_at\<close> are set when it is flushed.\<close>

definition create_expense ::
  "clock \<Rightarrow> BusinessContext \<Rightarrow> ExpenseCreateRequest \<Rightarrow> db \<Rightarrow> expense result \<times> db" where
  "create_expense clk ctx data s =
     (case resolve_incurred_at clk (ec_incurred_at data) of
        Inl e \<Rightarrow> (Inl e, s)
      | Inr incurred_at \<Rightarrow>
          transaction (\<lambda>s. add_expense \<lparr>ex_id = new_id s, ex_business_id = business_id ctx,
            ex_amount = ec_amount data, ex_category = ec_category data,
            ex_payment_method = ec_payment_method data, ex_reference = ec_reference data,
            ex_note = ec_note data, ex_incurred_at = incurred_at, ex_deleted_at = None,
            ex_created_by = user_id ctx, ex_created_at = tx_now clk\<rparr> s) s)"

definition get_expense :: "BusinessContext \<Rightarrow> uuid \<Rightarrow> db \<Rightarrow> expense result" where
  "get_expense ctx eid s = expense_of_ctx ctx eid s"

definition list_expenses ::
  "BusinessContext \<Rightarrow> (time \<times> time) option \<Rightarrow> string option \<Rightarrow> MoneyReceivedMethod option \<Rightarrow> bool \<Rightarrow> nat \<Rightarrow> db
    \<Rightarrow> expense list" where
  "list_expenses ctx period category payment_method include_deleted limit s =
     repo_list_expenses (business_id ctx) (map_option fst period) (map_option snd period) category
       payment_method include_deleted limit s"

definition spent_by :: "MoneyReceivedMethod \<Rightarrow> json" where
  "spent_by m = JText (case m of BY_CASH \<Rightarrow> ''CASH'' | BY_MPESA \<Rightarrow> ''MPESA'')"

definition field_change :: "string \<Rightarrow> ('a \<Rightarrow> json) \<Rightarrow> 'a \<Rightarrow> 'a \<Rightarrow> (string \<times> json \<times> json) list" where
  "field_change name plain old new = (if old = new then [] else [(name, plain old, plain new)])"

text \<open>The audit payloads are JSON objects: the order of their fields carries no meaning.\<close>

definition expense_changes :: "expense \<Rightarrow> expense \<Rightarrow> (string \<times> json \<times> json) list" where
  "expense_changes e e' =
     field_change ''amount'' JMoney (ex_amount e) (ex_amount e')
     @ field_change ''category'' JText (ex_category e) (ex_category e')
     @ field_change ''payment_method'' spent_by (ex_payment_method e) (ex_payment_method e')
     @ field_change ''reference'' (opt_json JText) (ex_reference e) (ex_reference e')
     @ field_change ''note'' (opt_json JText) (ex_note e) (ex_note e')
     @ field_change ''incurred_at'' JTime (ex_incurred_at e) (ex_incurred_at e')"

definition edited :: "ExpenseUpdateRequest \<Rightarrow> time \<Rightarrow> expense \<Rightarrow> expense" where
  "edited data incurred_at e = e\<lparr>
     ex_amount := (case eu_amount data of None \<Rightarrow> ex_amount e | Some v \<Rightarrow> v),
     ex_category := (case eu_category data of None \<Rightarrow> ex_category e | Some v \<Rightarrow> v),
     ex_payment_method := (case eu_payment_method data of None \<Rightarrow> ex_payment_method e | Some v \<Rightarrow> v),
     ex_reference := (case eu_reference data of None \<Rightarrow> ex_reference e | Some v \<Rightarrow> v),
     ex_note := (case eu_note data of None \<Rightarrow> ex_note e | Some v \<Rightarrow> v),
     ex_incurred_at := incurred_at\<rparr>"

definition set_expense :: "expense \<Rightarrow> db \<Rightarrow> db" where
  "set_expense e s = s\<lparr>expenses := update_where (\<lambda>r. ex_id r = ex_id e) (\<lambda>_. e) (expenses s)\<rparr>"

definition update_expense_body ::
  "clock \<Rightarrow> BusinessContext \<Rightarrow> uuid \<Rightarrow> ExpenseUpdateRequest \<Rightarrow> ClientInfo option \<Rightarrow> db
    \<Rightarrow> (expense \<times> db) result" where
  "update_expense_body clk ctx eid data client s =
     bindR (expense_of_ctx ctx eid s) (\<lambda>expense.
     bindR (raise_if (ex_deleted_at expense \<noteq> None) ExpenseDeletedError) (\<lambda>_.
     bindR (case eu_incurred_at data of None \<Rightarrow> Inr (ex_incurred_at expense)
            | Some t \<Rightarrow> resolve_incurred_at clk (Some t)) (\<lambda>incurred_at.
     let expense' = edited data incurred_at expense;
         changes = expense_changes expense expense' in
     if changes = [] then Inr (expense, s)
     else bindR (flush_row (fits_money (ex_amount expense')) (expense_checks expense')) (\<lambda>_.
       Inr (expense', audit_record ctx ''expense.update'' EXPENSE_ENTITY (ex_id expense)
         (Some (map (\<lambda>(n, b, a). (n, b)) changes)) (Some (map (\<lambda>(n, b, a). (n, a)) changes)) client
         (set_expense expense' s))))))"

definition update_expense ::
  "clock \<Rightarrow> BusinessContext \<Rightarrow> uuid \<Rightarrow> ExpenseUpdateRequest \<Rightarrow> ClientInfo option \<Rightarrow> db
    \<Rightarrow> expense result \<times> db" where
  "update_expense clk ctx eid data client = transaction (update_expense_body clk ctx eid data client)"

definition delete_expense_body ::
  "clock \<Rightarrow> BusinessContext \<Rightarrow> uuid \<Rightarrow> ClientInfo option \<Rightarrow> db \<Rightarrow> (unit \<times> db) result" where
  "delete_expense_body clk ctx eid client s =
     bindR (expense_of_ctx ctx eid s) (\<lambda>expense.
     if ex_deleted_at expense \<noteq> None then Inr ((), s)
     else Inr ((), audit_record ctx ''expense.delete'' EXPENSE_ENTITY (ex_id expense)
       (Some [(''amount'', JMoney (ex_amount expense)), (''category'', JText (ex_category expense)),
              (''deleted_at'', JNull)])
       (Some [(''deleted_at'', JTime (now clk))]) client
       (set_expense (expense\<lparr>ex_deleted_at := Some (now clk)\<rparr>) s)))"

definition delete_expense ::
  "clock \<Rightarrow> BusinessContext \<Rightarrow> uuid \<Rightarrow> ClientInfo option \<Rightarrow> db \<Rightarrow> unit result \<times> db" where
  "delete_expense clk ctx eid client = transaction (delete_expense_body clk ctx eid client)"

definition suggested_categories :: "(string \<Rightarrow> int) \<Rightarrow> BusinessContext \<Rightarrow> db \<Rightarrow> string list" where
  "suggested_categories collate ctx s = (let used = used_categories collate (business_id ctx) s in
     SUGGESTED_CATEGORIES @ sort (remdups (filter (\<lambda>c. c \<notin> set SUGGESTED_CATEGORIES) used)))"

definition expense_iter_export ::
  "BusinessContext \<Rightarrow> (time \<times> time) option \<Rightarrow> string option \<Rightarrow> MoneyReceivedMethod option \<Rightarrow> db
    \<Rightarrow> expense list option" where
  "expense_iter_export ctx period category payment_method s =
     iter_pages (expense_export_batch (business_id ctx) (map_option fst period) (map_option snd period)
         category payment_method s) (\<lambda>batch. batch) expense_key EXPENSE_EXPORT_BATCH None"

subsection \<open>What the operations do\<close>

lemma repo_get_expense_SomeD:
  assumes "repo_get_expense bid eid s = Some e"
  shows "ex_id e = eid \<and> ex_business_id e = bid \<and> e \<in> set (expenses s)"
  using find_SomeD [OF assms [unfolded repo_get_expense_def]] by simp

definition expenses_ok :: "db \<Rightarrow> bool" where
  "expenses_ok s \<longleftrightarrow> distinct (map ex_id (expenses s)) \<and> list_all expense_checks (expenses s)"

lemma expenses_ok_writes: "writes T s s' \<Longrightarrow> T_expenses \<notin> T \<Longrightarrow> expenses_ok s' \<longleftrightarrow> expenses_ok s"
  by (simp add: writes_def expenses_ok_def)

abbreviation expense_tables :: "table set" where
  "expense_tables \<equiv> {T_expenses, T_audit_logs}"

lemma set_expense_simps [simp]:
  "expenses (set_expense e s) = update_where (\<lambda>r. ex_id r = ex_id e) (\<lambda>_. e) (expenses s)"
  by (simp add: set_expense_def)

lemma set_expense_ok: "expenses_ok s \<Longrightarrow> expense_checks e \<Longrightarrow> expenses_ok (set_expense e s)"
  by (auto simp: expenses_ok_def map_update_where list_all_iff set_update_where)

lemma set_expense_writes: "writes expense_tables s (set_expense e s)"
  by (simp add: writes_def set_expense_def)

lemma set_expense_grows: "grows s (set_expense e s)"
proof -
  have "known_ids (set_expense e s) = known_ids s"
    by (simp add: known_ids_def set_expense_def image_update_where)
  then show ?thesis by (simp add: grows_def set_expense_def)
qed

lemma create_expense_cases:
  assumes "create_expense clk ctx data s = (r, s')"
  obtains (failed) e where "r = Inl e" "s' = s"
    | (made) e where "r = Inr e" "s' = (drawn s)\<lparr>expenses := expenses s @ [e]\<rparr>" "expense_checks e"
        "ex_id e = new_id s" "ex_business_id e = business_id ctx" "ex_amount e = ec_amount data"
        "ex_deleted_at e = None" "resolve_incurred_at clk (ec_incurred_at data) = Inr (ex_incurred_at e)"
proof (cases "resolve_incurred_at clk (ec_incurred_at data)")
  case (Inl e)
  with assms show thesis by (intro failed [of e]) (auto simp: create_expense_def)
next
  case (Inr t)
  let ?e = "\<lparr>ex_id = new_id s, ex_business_id = business_id ctx, ex_amount = ec_amount data,
    ex_category = ec_category data, ex_payment_method = ec_payment_method data, ex_reference = ec_reference data,
    ex_note = ec_note data, ex_incurred_at = t, ex_deleted_at = None, ex_created_by = user_id ctx,
    ex_created_at = tx_now clk\<rparr>"
  have out: "transaction (\<lambda>s. add_expense (?e\<lparr>ex_id := new_id s\<rparr>) s) s = (r, s')"
    using assms Inr by (simp add: create_expense_def)
  show thesis
  proof (cases "fits_money (ex_amount ?e) \<and> expense_checks ?e")
    case True
    with out have "r = Inr ?e" "s' = (drawn s)\<lparr>expenses := expenses s @ [?e]\<rparr>"
      by (simp_all add: transaction_def add_expense_def flush_row_def)
    with True Inr show thesis by (intro made [of ?e]) simp_all
  next
    case False
    with out obtain e where "r = Inl e" "s' = s"
      by (auto simp: transaction_def add_expense_def flush_row_def raise_if_def split: if_splits)
    then show thesis by (rule failed)
  qed
qed

lemma update_expense_body_success:
  assumes "update_expense_body clk ctx eid data client s = Inr (e', s')"
  obtains (same) "repo_get_expense (business_id ctx) eid s = Some e'" "s' = s" "ex_deleted_at e' = None"
    | (changed) e t b a where "repo_get_expense (business_id ctx) eid s = Some e" "ex_deleted_at e = None"
        "e' = edited data t e" "expense_changes e e' \<noteq> []" "expense_checks e'"
        "s' = audit_record ctx ''expense.update'' EXPENSE_ENTITY eid (Some b) (Some a) client (set_expense e' s)"
        "eu_incurred_at data = None \<and> t = ex_incurred_at e
          \<or> (\<exists>u. eu_incurred_at data = Some u \<and> resolve_incurred_at clk (Some u) = Inr t)"
proof -
  from assms obtain e t where e: "repo_get_expense (business_id ctx) eid s = Some e" "ex_deleted_at e = None"
    and t: "(case eu_incurred_at data of None \<Rightarrow> Inr (ex_incurred_at e)
      | Some t \<Rightarrow> resolve_incurred_at clk (Some t)) = Inr t"
    and rest: "(let e1 = edited data t e; changes = expense_changes e e1 in
      if changes = [] then Inr (e, s)
      else bindR (flush_row (fits_money (ex_amount e1)) (expense_checks e1)) (\<lambda>_.
       Inr (e1, audit_record ctx ''expense.update'' EXPENSE_ENTITY (ex_id e)
         (Some (map (\<lambda>(n, b, a). (n, b)) changes)) (Some (map (\<lambda>(n, b, a). (n, a)) changes)) client
         (set_expense e1 s)))) = Inr (e', s')"
    by (auto simp: update_expense_body_def expense_of_ctx_def bindR_eq_Inr)
  have "ex_id e = eid" using repo_get_expense_SomeD [OF e(1)] by simp
  with e t rest show thesis
    by (cases "expense_changes e (edited data t e) = []")
      (auto simp: Let_def bindR_eq_Inr split: option.splits intro: same changed)
qed

lemma delete_expense_body_success:
  assumes "delete_expense_body clk ctx eid client s = Inr (u, s')"
  obtains (again) e where "repo_get_expense (business_id ctx) eid s = Some e" "ex_deleted_at e \<noteq> None" "s' = s"
    | (gone) e b a where "repo_get_expense (business_id ctx) eid s = Some e" "ex_deleted_at e = None"
        "s' = audit_record ctx ''expense.delete'' EXPENSE_ENTITY eid (Some b) (Some a) client
           (set_expense (e\<lparr>ex_deleted_at := Some (now clk)\<rparr>) s)"
proof -
  from assms obtain e where e: "repo_get_expense (business_id ctx) eid s = Some e"
    by (auto simp: delete_expense_body_def expense_of_ctx_def bindR_eq_Inr)
  have "ex_id e = eid" using repo_get_expense_SomeD [OF e] by simp
  with e assms show thesis
    by (cases "ex_deleted_at e")
      (auto simp: delete_expense_body_def expense_of_ctx_def bindR_eq_Inr intro: again gone)
qed

lemma expense_row_checks:
  "expenses_ok s \<Longrightarrow> repo_get_expense bid eid s = Some e \<Longrightarrow> expense_checks e"
  by (auto simp: expenses_ok_def list_all_iff dest: repo_get_expense_SomeD)

lemma update_expense_body_ok:
  assumes "update_expense_body clk ctx eid data client s = Inr (e', s')"
  shows "expenses_ok s \<Longrightarrow> expenses_ok s'" "writes expense_tables s s'" "grows s s'"
proof -
  have "(expenses_ok s \<longrightarrow> expenses_ok s') \<and> writes expense_tables s s' \<and> grows s s'"
    using assms
  proof (cases rule: update_expense_body_success)
    case same
    then show ?thesis by simp
  next
    case (changed e t b a)
    have "expenses_ok s' \<longleftrightarrow> expenses_ok (set_expense e' s)" by (simp add: changed(6) expenses_ok_def)
    with changed(5,6) set_expense_ok [of s e'] show ?thesis
      by (auto intro: writes_audit set_expense_writes grows_audit set_expense_grows)
  qed
  then show "expenses_ok s \<Longrightarrow> expenses_ok s'" "writes expense_tables s s'" "grows s s'" by simp_all
qed

lemma delete_expense_body_ok:
  assumes "delete_expense_body clk ctx eid client s = Inr (u, s')"
  shows "expenses_ok s \<Longrightarrow> expenses_ok s'" "writes expense_tables s s'" "grows s s'"
proof -
  have "(expenses_ok s \<longrightarrow> expenses_ok s') \<and> writes expense_tables s s' \<and> grows s s'"
    using assms
  proof (cases rule: delete_expense_body_success)
    case (again e)
    then show ?thesis by simp
  next
    case (gone e b a)
    let ?e' = "e\<lparr>ex_deleted_at := Some (now clk)\<rparr>"
    have "expenses_ok s' \<longleftrightarrow> expenses_ok (set_expense ?e' s)" by (simp add: gone(3) expenses_ok_def)
    moreover have "expense_checks ?e'" if "expenses_ok s"
      using expense_row_checks [OF that gone(1)] by (simp add: expense_checks_def)
    ultimately show ?thesis using gone(3) set_expense_ok [of s ?e']
      by (auto intro: writes_audit set_expense_writes grows_audit set_expense_grows)
  qed
  then show "expenses_ok s \<Longrightarrow> expenses_ok s'" "writes expense_tables s s'" "grows s s'" by simp_all
qed

lemma create_expense_ok:
  shows "expenses_ok s \<Longrightarrow> fresh_ok s \<Longrightarrow> expenses_ok (snd (create_expense clk ctx data s))"
    and "writes expense_tables s (snd (create_expense clk ctx data s))"
    and "grows s (snd (create_expense clk ctx data s))"
proof -
  obtain r s' where out: "create_expense clk ctx data s = (r, s')" by force
  from out have "(expenses_ok s \<longrightarrow> fresh_ok s \<longrightarrow> expenses_ok s') \<and> writes expense_tables s s' \<and> grows s s'"
  proof (cases rule: create_expense_cases)
    case (failed e)
    then show ?thesis by simp
  next
    case (made e)
    have "new_id s \<notin> ex_id ` set (expenses s)" if "fresh_ok s"
      using new_id_fresh [OF that] by (simp add: known_ids_def)
    moreover have "known_ids s' = known_ids s \<union> {new_id s}" by (auto simp: known_ids_def made(2,4))
    ultimately show ?thesis
      using made by (auto simp: expenses_ok_def writes_def grows_def new_id_def)
  qed
  then show "expenses_ok s \<Longrightarrow> fresh_ok s \<Longrightarrow> expenses_ok (snd (create_expense clk ctx data s))"
    "writes expense_tables s (snd (create_expense clk ctx data s))"
    "grows s (snd (create_expense clk ctx data s))" by (simp_all add: out)
qed

lemma update_expense_ok:
  shows "expenses_ok s \<Longrightarrow> expenses_ok (snd (update_expense clk ctx eid data client s))"
    and "writes expense_tables s (snd (update_expense clk ctx eid data client s))"
    and "grows s (snd (update_expense clk ctx eid data client s))"
  unfolding update_expense_def
  by (rule transaction_preserves [where P = expenses_ok], assumption, erule (1) update_expense_body_ok(1),
      rule writes_transaction, erule update_expense_body_ok(2), rule grows_transaction, erule update_expense_body_ok(3))

lemma delete_expense_ok:
  shows "expenses_ok s \<Longrightarrow> expenses_ok (snd (delete_expense clk ctx eid client s))"
    and "writes expense_tables s (snd (delete_expense clk ctx eid client s))"
    and "grows s (snd (delete_expense clk ctx eid client s))"
  unfolding delete_expense_def
  by (rule transaction_preserves [where P = expenses_ok], assumption, erule (1) delete_expense_body_ok(1),
      rule writes_transaction, erule delete_expense_body_ok(2), rule grows_transaction, erule delete_expense_body_ok(3))

subsection \<open>The export is a keyset query\<close>

interpretation expense_pages: keyset_query
  "expense_export_batch bid lo hi category payment_method s" "\<lambda>batch. batch" expense_key
  EXPENSE_EXPORT_BATCH "filtered bid lo hi category payment_method False s" "\<lambda>e. e"
  for bid lo hi category payment_method s
  by unfold_locales (simp_all add: EXPENSE_EXPORT_BATCH_def expense_export_batch_def page_def beyond_def)

lemma expense_iter_export_rows:
  assumes "distinct (map ex_id (expenses s))"
  shows "expense_iter_export ctx period category payment_method s
    = Some (sort_key expense_key (filtered (business_id ctx) (map_option fst period) (map_option snd period)
        category payment_method False s))"
proof -
  have "distinct (map ex_id (filtered bid lo hi category payment_method False s))" for bid lo hi
    unfolding filtered_def using assms by (rule distinct_map_filter)
  then have "distinct (map expense_key (filtered bid lo hi category payment_method False s))" for bid lo hi
    by (auto simp: distinct_map inj_on_def expense_key_def)
  then show ?thesis by (simp add: expense_iter_export_def expense_pages.pages_complete)
qed

subsection \<open>Totals\<close>

lemma sum_groups:
  fixes f :: "'a \<Rightarrow> int"
  assumes "finite V" and "g ` set rows \<subseteq> V"
  shows "(\<Sum>v \<in> V. total_where f (\<lambda>e. g e = v) rows) = sum_list (map f rows)"
  using assms
proof (induction rows)
  case Nil
  then show ?case by simp
next
  case (Cons r rows)
  then show ?case by (simp add: sum.distrib sum.delta)
qed

lemma group_totals_sum:
  "sum_list (map (\<lambda>(v, total, n). total) (group_totals g rows)) = sum_list (map ex_amount rows)"
proof -
  have "sum_list (map (\<lambda>(v, total, n). total) (group_totals g rows))
      = sum_list (map (\<lambda>v. total_where ex_amount (\<lambda>e. g e = v) rows) (remdups (map g rows)))"
    by (simp add: group_totals_def o_def)
  also have "\<dots> = (\<Sum>v \<in> set (map g rows). total_where ex_amount (\<lambda>e. g e = v) rows)"
    by (simp add: sum_list_distinct_conv_sum_set)
  also have "\<dots> = sum_list (map ex_amount rows)" by (rule sum_groups) simp_all
  finally show ?thesis .
qed

lemma sum_list_sort_key: "sum_list (map f (sort_key k xs)) = sum_list (map f (xs :: 'a list) :: int list)"
  by (metis mset_map mset_sort sum_mset_sum_list)

subsection \<open>Claims\<close>

text \<open>the expense totals of a period agree however they are grouped: the sums per category and the sums per
  payment method both add up to the sum of the period's expenses that are not deleted.\<close>

theorem expense_totals_agree:
  "sum_list (map (\<lambda>(c, total, n). total) (totals_by_category collate bid t0 t1 s))
     = sum_list (map ex_amount (in_period bid t0 t1 s))
   \<and> sum_list (map (\<lambda>(m, total, n). total) (totals_by_method bid t0 t1 s))
     = sum_list (map ex_amount (in_period bid t0 t1 s))"
  by (simp add: totals_by_category_def totals_by_method_def sum_list_sort_key group_totals_sum)

lemma set_expense_rows:
  assumes "distinct (map ex_id (expenses s))" and "repo_get_expense bid eid s = Some e" and "ex_id e' = eid"
  shows "expenses (set_expense e' s) = map (\<lambda>r. if r = e then e' else r) (expenses s)"
proof -
  have "ex_id r = eid \<longleftrightarrow> r = e" if "r \<in> set (expenses s)" for r
    using distinct_mapD [OF assms(1) that, of e] repo_get_expense_SomeD [OF assms(2)] by auto
  then show ?thesis using assms(3) by (simp add: set_expense_def update_where_def cong: map_cong)
qed

text \<open>deleting an expense keeps every row, takes exactly this expense out of the totals of every period, can be
  repeated without effect, and makes later edits fail with \<open>EXPENSE_DELETED\<close>.\<close>

theorem delete_expense_outcome:
  assumes "expenses_ok s" and "delete_expense clk ctx eid client s = (Inr (), s')"
  shows "map ex_id (expenses s') = map ex_id (expenses s)
    \<and> in_period bid t0 t1 s' = filter (\<lambda>e. ex_id e \<noteq> eid) (in_period bid t0 t1 s)
    \<and> delete_expense clk' ctx eid client' s' = (Inr (), s')
    \<and> update_expense clk' ctx eid data client' s' = (Inl ExpenseDeletedError, s')"
proof -
  have dist: "distinct (map ex_id (expenses s))" using assms(1) by (simp add: expenses_ok_def)
  have body: "delete_expense_body clk ctx eid client s = Inr ((), s')"
    using assms(2) by (simp add: delete_expense_def transaction_cases)
  then obtain e where e: "repo_get_expense (business_id ctx) eid s = Some e"
    and rows: "\<exists>d. expenses s' = map (\<lambda>r. if r = e then e\<lparr>ex_deleted_at := Some d\<rparr> else r) (expenses s)"
  proof (cases rule: delete_expense_body_success)
    case (again e)
    then obtain d where "ex_deleted_at e = Some d" by blast
    then have "e\<lparr>ex_deleted_at := Some d\<rparr> = e" by simp
    with again(1,3) show thesis by (intro that [of e] exI [of _ d]) (simp_all add: map_idI)
  next
    case (gone e b a)
    with repo_get_expense_SomeD [OF gone(1)] set_expense_rows [OF dist gone(1)] show thesis
      by (intro that [of e]) auto
  qed
  then obtain d where d: "expenses s' = map (\<lambda>r. if r = e then e\<lparr>ex_deleted_at := Some d\<rparr> else r) (expenses s)"
    by blast
  have id: "ex_id r = eid \<longleftrightarrow> r = e" if "r \<in> set (expenses s)" for r
    using distinct_mapD [OF dist that, of e] repo_get_expense_SomeD [OF e] by auto
  have "repo_get_expense (business_id ctx) eid s' = Some (e\<lparr>ex_deleted_at := Some d\<rparr>)"
  proof -
    have "find (\<lambda>r. ex_business_id r = business_id ctx \<and> ex_id r = eid)
        (map (\<lambda>r. if r = e then e\<lparr>ex_deleted_at := Some d\<rparr> else r) rs)
      = map_option (\<lambda>r. if r = e then e\<lparr>ex_deleted_at := Some d\<rparr> else r)
          (find (\<lambda>r. ex_business_id r = business_id ctx \<and> ex_id r = eid) rs)" for rs
      by (induction rs) auto
    with e show ?thesis by (simp add: repo_get_expense_def d)
  qed
  then have "delete_expense clk' ctx eid client' s' = (Inr (), s')"
    "update_expense clk' ctx eid data client' s' = (Inl ExpenseDeletedError, s')"
    by (simp_all add: delete_expense_def delete_expense_body_def update_expense_def update_expense_body_def
        expense_of_ctx_def transaction_def)
  moreover have "map ex_id (expenses s') = map ex_id (expenses s)" by (simp add: d)
  moreover have "filter P (map (\<lambda>r. if r = e then e\<lparr>ex_deleted_at := Some d\<rparr> else r) rs)
      = filter (\<lambda>r. ex_id r \<noteq> eid) (filter P rs)"
    if "set rs \<subseteq> set (expenses s)" "\<not> P (e\<lparr>ex_deleted_at := Some d\<rparr>)" for P rs
    using that
  proof (induction rs)
    case Nil
    then show ?case by simp
  next
    case (Cons r rs)
    then show ?case using id [of r] by auto
  qed
  then have "in_period bid t0 t1 s' = filter (\<lambda>e. ex_id e \<noteq> eid) (in_period bid t0 t1 s)"
    unfolding in_period_def d by simp
  ultimately show ?thesis by simp
qed

definition demo_expense :: ExpenseCreateRequest where
  "demo_expense = \<lparr>ec_amount = 50000, ec_category = ''RENT'', ec_payment_method = BY_CASH, ec_reference = None,
     ec_note = None, ec_incurred_at = None\<rparr>"

definition demo_costs :: db where
  "demo_costs = snd (create_expense demo_clock demo_owner demo_expense (empty_db id))"

theorem delete_expense_outcome_witness:
  "\<exists>s'. delete_expense demo_clock demo_owner 0 None demo_costs = (Inr (), s')
     \<and> in_period 900 0 2000 demo_costs \<noteq> [] \<and> in_period 900 0 2000 s' = []
     \<and> delete_expense demo_clock demo_owner 0 None s' = (Inr (), s')"
proof -
  have ok: "expenses_ok demo_costs" by code_simp
  have "fst (delete_expense demo_clock demo_owner 0 None demo_costs) = Inr ()" by code_simp
  then obtain s' where out: "delete_expense demo_clock demo_owner 0 None demo_costs = (Inr (), s')"
    by (cases "delete_expense demo_clock demo_owner 0 None demo_costs") simp
  have "map ex_id (in_period 900 0 2000 demo_costs) = [0]" by code_simp
  then have "in_period 900 0 2000 demo_costs \<noteq> []" "filter (\<lambda>e. ex_id e \<noteq> 0) (in_period 900 0 2000 demo_costs) = []"
    by (auto simp: map_eq_Cons_conv)
  with out delete_expense_outcome [OF ok out] show ?thesis by (intro exI [of _ s']) simp
qed

end
