(* ===== verification/Exports.thy ===== *)
theory Exports
  imports Sales Customers Expenses
begin

text \<open>
  The sales export (\<open>iter_export\<close> of \<open>services/sales.py\<close>, \<open>export_batch\<close> of \<open>repositories/sales.py\<close>), which
  reads the customers' names page by page, and the statement that all three exports end and are
  complete. The pages of one export are read from one state of the database; rows that other
  requests add while an export runs are outside the model.
\<close>

record ExportSale =
  es_sale :: sale
  es_customer_name :: "string option"

definition SALES_EXPORT_BATCH :: nat where
  "SALES_EXPORT_BATCH = 200"

definition sale_export_key :: "sale \<Rightarrow> time \<times> uuid" where
  "sale_export_key x = (s_sold_at x, s_id x)"

definition sales_in :: "uuid \<Rightarrow> time option \<Rightarrow> time option \<Rightarrow> db \<Rightarrow> sale list" where
  "sales_in bid sold_from sold_until s = filter (\<lambda>x. s_business_id x = bid
     \<and> opt_all (\<lambda>t. t \<le> s_sold_at x) sold_from \<and> opt_all (\<lambda>t. s_sold_at x < t) sold_until) (sales s)"

definition sales_export_batch ::
  "uuid \<Rightarrow> time option \<Rightarrow> time option \<Rightarrow> db \<Rightarrow> (time \<times> uuid) option \<Rightarrow> sale list" where
  "sales_export_batch bid sold_from sold_until s after =
     take SALES_EXPORT_BATCH (sort_key sale_export_key
       (filter (\<lambda>x. case after of None \<Rightarrow> True | Some a \<Rightarrow> a < sale_export_key x)
         (sales_in bid sold_from sold_until s)))"

text \<open>The names of the customers of one page, looked up with one query.\<close>

definition named_batch :: "uuid \<Rightarrow> db \<Rightarrow> sale list \<Rightarrow> ExportSale list" where
  "named_batch bid s batch =
     (let names = names_for bid (List.map_filter s_customer_id batch) s in
      map (\<lambda>x. \<lparr>es_sale = x, es_customer_name = Option.bind (s_customer_id x) names\<rparr>) batch)"

definition sales_iter_export :: "BusinessContext \<Rightarrow> (time \<times> time) option \<Rightarrow> db \<Rightarrow> ExportSale list option" where
  "sales_iter_export ctx period s =
     iter_pages (sales_export_batch (business_id ctx) (map_option fst period) (map_option snd period) s)
       (named_batch (business_id ctx) s) sale_export_key SALES_EXPORT_BATCH None"

text \<open>The exported row of a sale, without pages.\<close>

definition export_row :: "uuid \<Rightarrow> db \<Rightarrow> sale \<Rightarrow> ExportSale" where
  "export_row bid s x = \<lparr>es_sale = x, es_customer_name =
     Option.bind (s_customer_id x) (\<lambda>c. map_option c_name (repo_get_customer bid c s))\<rparr>"

lemma names_for_lookup:
  assumes "c \<in> set ids"
  shows "names_for bid ids s c = map_option c_name (repo_get_customer bid c s)"
proof -
  have "map_of (map (\<lambda>r. (c_id r, c_name r)) (filter (\<lambda>r. c_business_id r = bid \<and> c_id r \<in> set ids) rs)) c
      = map_option c_name (find (\<lambda>r. c_business_id r = bid \<and> c_id r = c) rs)" for rs
    using assms by (induction rs) auto
  moreover have "ids \<noteq> []" using assms by auto
  ultimately show ?thesis by (simp add: names_for_def repo_get_customer_def)
qed

lemma named_batch_rows: "named_batch bid s batch = map (export_row bid s) batch"
proof -
  have "c \<in> set (List.map_filter s_customer_id batch)" if "x \<in> set batch" "s_customer_id x = Some c" for x c
    using that by (force simp: map_filter_def)
  then show ?thesis
    by (auto simp: named_batch_def export_row_def Let_def names_for_lookup bind_eq_None_conv
        intro!: bind_option_cong)
qed

interpretation sale_pages: keyset_query "sales_export_batch bid lo hi s" "named_batch bid s" sale_export_key
  SALES_EXPORT_BATCH "sales_in bid lo hi s" "export_row bid s"
  for bid lo hi s
  by unfold_locales
    (simp_all add: SALES_EXPORT_BATCH_def sales_export_batch_def page_def beyond_def named_batch_rows)

lemma sales_iter_export_rows:
  assumes "distinct (map s_id (sales s))"
  shows "sales_iter_export ctx period s = Some (map (export_row (business_id ctx) s) (sort_key sale_export_key
    (sales_in (business_id ctx) (map_option fst period) (map_option snd period) s)))"
proof -
  have "distinct (map s_id (sales_in bid lo hi s))" for bid lo hi
    unfolding sales_in_def using assms by (rule distinct_map_filter)
  then have "distinct (map sale_export_key (sales_in bid lo hi s))" for bid lo hi
    by (auto simp: distinct_map inj_on_def sale_export_key_def)
  then show ?thesis by (simp add: sales_iter_export_def sale_pages.pages_complete)
qed

subsection \<open>Claims\<close>

text \<open>C13: each of the three CSV exports ends, whatever the size of the table, and lists each row of the caller's business
  (in the period, for sales and expenses; deleted expenses left out) exactly once, oldest first; every sale
  carries the name of its customer.\<close>

theorem exports_complete:
  assumes "credit_ok s" and "sales_ok s" and "expenses_ok s"
  shows "customer_iter_export ctx s
      = Some (sort_key customer_export_key (filter (\<lambda>c. c_business_id c = business_id ctx) (customers s)))
    \<and> expense_iter_export ctx period category payment_method s
      = Some (sort_key expense_key (filtered (business_id ctx) (map_option fst period) (map_option snd period)
          category payment_method False s))
    \<and> sales_iter_export ctx period s
      = Some (map (export_row (business_id ctx) s) (sort_key sale_export_key
          (sales_in (business_id ctx) (map_option fst period) (map_option snd period) s)))"
proof -
  from assms have "distinct (map c_id (customers s))" "distinct (map s_id (sales s))" "distinct (map ex_id (expenses s))"
    by (simp_all add: credit_ok_def sales_ok_def expenses_ok_def)
  then show ?thesis
    by (simp add: customer_iter_export_rows expense_iter_export_rows sales_iter_export_rows)
qed

theorem exports_complete_witness:
  "sales_iter_export demo_owner None demo_till = Some []
   \<and> customer_iter_export demo_owner demo_till
     = Some (sort_key customer_export_key (filter (\<lambda>c. c_business_id c = 900) (customers demo_till)))
   \<and> expense_iter_export demo_owner None None None demo_till = Some []"
proof -
  have "expenses_ok demo_till" by code_simp
  from exports_complete [OF demo_till_ok(2,4) this, of demo_owner None None None] show ?thesis
    by (simp add: sales_in_def filtered_def demo_till_def demo_owner_def empty_db_def)
qed

end
