(* ===== verification/Accounts.thy ===== *)
theory Accounts
  imports Sales Search
begin

text \<open>
  Users, businesses, memberships, refresh tokens and password-reset codes (\<open>app/models/user.py\<close>,
  \<open>app/models/business.py\<close>) with their repositories (\<open>app/repositories/users.py\<close>, \<open>businesses.py\<close>,
  \<open>refresh_tokens.py\<close>, \<open>password_resets.py\<close>). The tables of the accounts stand beside the tables of the shops: \<open>site\<close>
  is the whole database. Ids are drawn from the same source as those of the shops.

  A secret is stored only as its hash; the hash functions are fields of \<open>kit\<close> in \<open>Tokens\<close>, and the rows hold strings.
\<close>

subsection \<open>Tables\<close>

datatype BusinessType = GENERAL_SHOP | BOUTIQUE | SALON | RESTAURANT | ELECTRONICS | OTHER

record user =
  usr_id :: uuid
  usr_phone :: string
  usr_email :: "string option"
  usr_full_name :: string
  usr_password_hash :: "string option"
  usr_google_sub :: "string option"
  usr_is_active :: bool
  usr_must_change_password :: bool
  usr_last_login_at :: "time option"

text \<open>The JSON of \<open>businesses.settings\<close>: the empty object a new business starts with, the validated object, or the JSON null
  that the column stores when it is set to \<open>None\<close> (it is a \<open>JSONB\<close> column without \<open>none_as_null\<close>).\<close>

datatype stored_settings = Empty_Settings | Settings BusinessSettings | Null_Settings

record business =
  biz_id :: uuid
  biz_name :: string
  biz_business_type :: BusinessType
  biz_phone :: "string option"
  biz_address :: "string option"
  biz_currency :: string
  biz_timezone :: string
  biz_settings :: stored_settings
  biz_is_active :: bool
  biz_created_at :: time

record membership =
  mb_id :: uuid
  mb_business_id :: uuid
  mb_user_id :: uuid
  mb_role :: MembershipRole
  mb_is_active :: bool
  mb_created_at :: time

record refresh_token =
  rt_id :: uuid
  rt_family_id :: uuid
  rt_user_id :: uuid
  rt_token_hash :: string
  rt_parent_id :: "uuid option"
  rt_expires_at :: time
  rt_revoked_at :: "time option"
  rt_user_agent :: "string option"
  rt_ip :: "string option"

record reset_code =
  rc_id :: uuid
  rc_user_id :: uuid
  rc_code_hash :: string
  rc_expires_at :: time
  rc_attempts :: nat
  rc_used_at :: "time option"
  rc_ip :: "string option"
  rc_created_at :: time

record site =
  shop :: db
  users :: "user list"
  businesses :: "business list"
  memberships :: "membership list"
  refresh_tokens :: "refresh_token list"
  reset_codes :: "reset_code list"

definition empty_site :: "(nat \<Rightarrow> uuid) \<Rightarrow> site" where
  "empty_site u = \<lparr>shop = empty_db u, users = [], businesses = [], memberships = [], refresh_tokens = [], reset_codes = []\<rparr>"

abbreviation next_id :: "site \<Rightarrow> uuid" where
  "next_id s \<equiv> new_id (shop s)"

definition draw :: "site \<Rightarrow> site" where
  "draw s = s\<lparr>shop := drawn (shop s)\<rparr>"

definition audited ::
  "BusinessContext \<Rightarrow> string \<Rightarrow> string \<Rightarrow> uuid \<Rightarrow> payload option \<Rightarrow> payload option \<Rightarrow> ClientInfo option \<Rightarrow> site \<Rightarrow> site" where
  "audited ctx action entity_type entity_id before after client s =
     s\<lparr>shop := audit_record ctx action entity_type entity_id before after client (shop s)\<rparr>"

subsection \<open>Users and memberships\<close>

definition get_user_by_id :: "uuid \<Rightarrow> site \<Rightarrow> user option" where
  "get_user_by_id i s = find (\<lambda>u. usr_id u = i) (users s)"

definition get_user_by_phone :: "string \<Rightarrow> site \<Rightarrow> user option" where
  "get_user_by_phone p s = find (\<lambda>u. usr_phone u = p) (users s)"

definition get_user_by_email :: "string \<Rightarrow> site \<Rightarrow> user option" where
  "get_user_by_email e s = find (\<lambda>u. usr_email u = Some e) (users s)"

definition get_user_by_google_sub :: "string \<Rightarrow> site \<Rightarrow> user option" where
  "get_user_by_google_sub g s = find (\<lambda>u. usr_google_sub u = Some g) (users s)"

definition get_membership :: "uuid \<Rightarrow> uuid \<Rightarrow> site \<Rightarrow> membership option" where
  "get_membership uid bid s = find (\<lambda>m. mb_user_id m = uid \<and> mb_business_id m = bid) (memberships s)"

definition MAX_MEMBERS :: nat where "MAX_MEMBERS = 500"

definition oldest_first :: "membership list \<Rightarrow> membership list" where
  "oldest_first ms = sort_key mb_created_at (sort_key mb_id ms)"

definition list_memberships :: "uuid \<Rightarrow> site \<Rightarrow> membership list" where
  "list_memberships uid s = take MAX_MEMBERS (oldest_first (filter (\<lambda>m. mb_user_id m = uid) (memberships s)))"

definition repo_list_members :: "uuid \<Rightarrow> site \<Rightarrow> membership list" where
  "repo_list_members bid s = oldest_first (filter (\<lambda>m. mb_business_id m = bid) (memberships s))"

definition repo_get_member :: "uuid \<Rightarrow> uuid \<Rightarrow> site \<Rightarrow> membership option" where
  "repo_get_member bid uid s = find (\<lambda>m. mb_business_id m = bid \<and> mb_user_id m = uid) (memberships s)"

abbreviation active_owner :: "uuid \<Rightarrow> membership \<Rightarrow> bool" where
  "active_owner bid m \<equiv> mb_business_id m = bid \<and> mb_role m = OWNER \<and> mb_is_active m"

definition count_active_owners :: "uuid \<Rightarrow> site \<Rightarrow> nat" where
  "count_active_owners bid s = length (filter (active_owner bid) (memberships s))"

definition repo_get_business :: "uuid \<Rightarrow> site \<Rightarrow> business option" where
  "repo_get_business bid s = find (\<lambda>b. biz_id b = bid) (businesses s)"

text \<open>Inserting: the unique columns are checked in the order of their names, as one of them is reported.\<close>

definition user_unique :: "user \<Rightarrow> site \<Rightarrow> unit result" where
  "user_unique u s =
     bindR (raise_if (usr_email u \<noteq> None \<and> usr_email u \<in> usr_email ` set (users s)) (IntegrityError uq_users_email)) (\<lambda>_.
     bindR (raise_if (usr_google_sub u \<noteq> None \<and> usr_google_sub u \<in> usr_google_sub ` set (users s))
              (IntegrityError uq_users_google_sub)) (\<lambda>_.
     raise_if (usr_phone u \<in> usr_phone ` set (users s)) (IntegrityError uq_users_phone)))"

definition add_user :: "user \<Rightarrow> site \<Rightarrow> (user \<times> site) result" where
  "add_user u s = (let u = u\<lparr>usr_id := next_id s\<rparr> in
     bindR (user_unique u s) (\<lambda>_. Inr (u, (draw s)\<lparr>users := users s @ [u]\<rparr>)))"

definition add_business :: "clock \<Rightarrow> business \<Rightarrow> site \<Rightarrow> business \<times> site" where
  "add_business clk b s = (let b = b\<lparr>biz_id := next_id s, biz_created_at := tx_now clk\<rparr> in (b, (draw s)\<lparr>businesses := businesses s @ [b]\<rparr>))"

definition add_membership :: "clock \<Rightarrow> uuid \<Rightarrow> uuid \<Rightarrow> MembershipRole \<Rightarrow> site \<Rightarrow> (membership \<times> site) result" where
  "add_membership clk bid uid rl s =
     (let m = \<lparr>mb_id = next_id s, mb_business_id = bid, mb_user_id = uid, mb_role = rl, mb_is_active = True,
               mb_created_at = tx_now clk\<rparr> in
      bindR (raise_if ((bid, uid) \<in> (\<lambda>m. (mb_business_id m, mb_user_id m)) ` set (memberships s))
               (IntegrityError uq_business_memberships_business_id_user_id)) (\<lambda>_.
      Inr (m, (draw s)\<lparr>memberships := memberships s @ [m]\<rparr>)))"

definition set_user :: "user \<Rightarrow> site \<Rightarrow> site" where
  "set_user u s = s\<lparr>users := update_where (\<lambda>x. usr_id x = usr_id u) (\<lambda>_. u) (users s)\<rparr>"

definition set_membership :: "membership \<Rightarrow> site \<Rightarrow> site" where
  "set_membership m s = s\<lparr>memberships := update_where (\<lambda>x. mb_id x = mb_id m) (\<lambda>_. m) (memberships s)\<rparr>"

definition set_business :: "business \<Rightarrow> site \<Rightarrow> site" where
  "set_business b s = s\<lparr>businesses := update_where (\<lambda>x. biz_id x = biz_id b) (\<lambda>_. b) (businesses s)\<rparr>"

subsection \<open>Refresh tokens\<close>

definition create_refresh_token ::
  "uuid \<Rightarrow> string \<Rightarrow> time \<Rightarrow> uuid option \<Rightarrow> uuid option \<Rightarrow> string option \<Rightarrow> string option \<Rightarrow> site \<Rightarrow> (refresh_token \<times> site) result" where
  "create_refresh_token uid token_hash expires family parent agent address s =
     (let i = next_id s;
          row = \<lparr>rt_id = i, rt_family_id = (case family of None \<Rightarrow> i | Some f \<Rightarrow> f), rt_user_id = uid, rt_token_hash = token_hash,
                 rt_parent_id = parent, rt_expires_at = expires, rt_revoked_at = None, rt_user_agent = agent, rt_ip = address\<rparr> in
      bindR (raise_if (token_hash \<in> rt_token_hash ` set (refresh_tokens s)) (IntegrityError uq_refresh_tokens_token_hash)) (\<lambda>_.
      Inr (row, (draw s)\<lparr>refresh_tokens := refresh_tokens s @ [row]\<rparr>)))"

definition get_by_hash :: "string \<Rightarrow> site \<Rightarrow> refresh_token option" where
  "get_by_hash h s = find (\<lambda>t. rt_token_hash t = h) (refresh_tokens s)"

abbreviation usable :: "clock \<Rightarrow> refresh_token \<Rightarrow> bool" where
  "usable clk t \<equiv> rt_revoked_at t = None \<and> tx_now clk < rt_expires_at t"

definition revoke_where :: "clock \<Rightarrow> (refresh_token \<Rightarrow> bool) \<Rightarrow> site \<Rightarrow> site" where
  "revoke_where clk P s = s\<lparr>refresh_tokens := update_where (\<lambda>t. P t \<and> rt_revoked_at t = None)
     (\<lambda>t. t\<lparr>rt_revoked_at := Some (tx_now clk)\<rparr>) (refresh_tokens s)\<rparr>"

definition consume :: "clock \<Rightarrow> string \<Rightarrow> site \<Rightarrow> refresh_token option \<times> site" where
  "consume clk h s =
     (find (\<lambda>t. rt_token_hash t = h \<and> usable clk t) (refresh_tokens s),
      revoke_where clk (\<lambda>t. rt_token_hash t = h \<and> tx_now clk < rt_expires_at t) s)"

definition revoke_family :: "clock \<Rightarrow> uuid \<Rightarrow> site \<Rightarrow> site" where
  "revoke_family clk f = revoke_where clk (\<lambda>t. rt_family_id t = f)"

definition revoke_all_for_user :: "clock \<Rightarrow> uuid \<Rightarrow> site \<Rightarrow> site" where
  "revoke_all_for_user clk uid = revoke_where clk (\<lambda>t. rt_user_id t = uid)"

subsection \<open>Password-reset codes\<close>

definition MAX_ATTEMPTS :: nat where "MAX_ATTEMPTS = 5"

definition create_code :: "clock \<Rightarrow> uuid \<Rightarrow> string \<Rightarrow> time \<Rightarrow> string option \<Rightarrow> site \<Rightarrow> site" where
  "create_code clk uid code_hash expires address s =
     (draw s)\<lparr>reset_codes := reset_codes s @ [\<lparr>rc_id = next_id s, rc_user_id = uid, rc_code_hash = code_hash, rc_expires_at = expires,
        rc_attempts = 0, rc_used_at = None, rc_ip = address, rc_created_at = tx_now clk\<rparr>]\<rparr>"

abbreviation unexpired :: "clock \<Rightarrow> uuid \<Rightarrow> reset_code \<Rightarrow> bool" where
  "unexpired clk uid c \<equiv> rc_user_id c = uid \<and> rc_used_at c = None \<and> tx_now clk < rc_expires_at c"

abbreviation open_code :: "clock \<Rightarrow> uuid \<Rightarrow> reset_code \<Rightarrow> bool" where
  "open_code clk uid c \<equiv> unexpired clk uid c \<and> rc_attempts c < MAX_ATTEMPTS"

definition expire_open_codes :: "clock \<Rightarrow> uuid \<Rightarrow> site \<Rightarrow> site" where
  "expire_open_codes clk uid s =
     s\<lparr>reset_codes := update_where (unexpired clk uid) (\<lambda>c. c\<lparr>rc_expires_at := tx_now clk\<rparr>) (reset_codes s)\<rparr>"

definition latest_open_code :: "clock \<Rightarrow> uuid \<Rightarrow> site \<Rightarrow> reset_code option" where
  "latest_open_code clk uid s = (case rev (sort_key rc_created_at (filter (open_code clk uid) (reset_codes s))) of
     [] \<Rightarrow> None | c # _ \<Rightarrow> Some c)"

text \<open>\<open>one_or_none\<close> raises when two open codes of the user have the same hash.\<close>

definition consume_code :: "clock \<Rightarrow> uuid \<Rightarrow> string \<Rightarrow> site \<Rightarrow> (reset_code option \<times> site) result" where
  "consume_code clk uid h s =
     (let P = (\<lambda>c. open_code clk uid c \<and> rc_code_hash c = h) in
      bindR (raise_if (1 < length (filter P (reset_codes s))) RuntimeError) (\<lambda>_.
      Inr (find P (reset_codes s), s\<lparr>reset_codes := update_where P (\<lambda>c. c\<lparr>rc_used_at := Some (tx_now clk)\<rparr>) (reset_codes s)\<rparr>)))"

definition count_attempt :: "uuid \<Rightarrow> site \<Rightarrow> site" where
  "count_attempt i s = s\<lparr>reset_codes := update_where (\<lambda>c. rc_id c = i) (\<lambda>c. c\<lparr>rc_attempts := Suc (rc_attempts c)\<rparr>) (reset_codes s)\<rparr>"

end
