(* ===== verification/Catalogue.thy ===== *)
theory Catalogue
  imports Inventory Search
begin

text \<open>
  Categories and products: \<open>services/categories.py\<close>, \<open>services/products.py\<close>, \<open>repositories/categories.py\<close>,
  the product list of \<open>repositories/products.py\<close> and the request schemas of \<open>schemas/catalog.py\<close>.

  A PATCH request carries the set of fields that were present; \<open>None\<close> is an absent field, and for a
  nullable column \<open>Some None\<close> is an explicit null. The unique indexes are checked in the order in which
  the table declares them. \<open>ORDER BY lower(name)\<close> follows the collation \<open>collate\<close> of the database.

  The invariant \<open>catalog_ok\<close> (unique names, SKUs and barcodes per business; every category of a product
  is one of its own business) is kept by every operation here, and the product operations keep the
  stock ledger (\<open>stock_ok\<close>).
\<close>

subsection \<open>Requests\<close>

record CategoryRequest =
  cr_name :: string

record ProductCreateRequest =
  pc_name :: string
  pc_category_id :: "uuid option"
  pc_sku :: "string option"
  pc_barcode :: "string option"
  pc_unit :: string
  pc_selling_price :: money
  pc_cost_price :: "money option"
  pc_track_inventory :: bool
  pc_low_stock_threshold :: "quantity option"
  pc_opening_stock :: "quantity option"
  pc_opening_unit_cost :: "money option"

record ProductUpdateRequest =
  pu_name :: "string option"
  pu_category_id :: "uuid option option"
  pu_sku :: "string option option"
  pu_barcode :: "string option option"
  pu_unit :: "string option"
  pu_selling_price :: "money option"
  pu_cost_price :: "money option option"
  pu_track_inventory :: "bool option"
  pu_low_stock_threshold :: "quantity option option"
  pu_is_active :: "bool option"

definition clean_optional_text :: "string option \<Rightarrow> string option" where
  "clean_optional_text value =
     (case value of None \<Rightarrow> None | Some v \<Rightarrow> let v = py_strip v in if v = [] then None else Some v)"

definition valid_category :: "CategoryRequest \<Rightarrow> bool" where
  "valid_category d \<longleftrightarrow> 1 \<le> length (cr_name d) \<and> length (cr_name d) \<le> 60"

definition valid_product_create :: "ProductCreateRequest \<Rightarrow> bool" where
  "valid_product_create d \<longleftrightarrow>
     1 \<le> length (pc_name d) \<and> length (pc_name d) \<le> 120
     \<and> opt_all (\<lambda>c. length c \<le> 60) (pc_sku d) \<and> opt_all (\<lambda>c. length c \<le> 64) (pc_barcode d)
     \<and> 0 \<le> pc_selling_price d \<and> fits_money (pc_selling_price d)
     \<and> opt_all (\<lambda>c. 0 \<le> c \<and> fits_money c) (pc_cost_price d)
     \<and> opt_all (\<lambda>c. 0 \<le> c \<and> fits_quantity c) (pc_low_stock_threshold d)
     \<and> opt_all (\<lambda>c. 0 < c \<and> fits_quantity c) (pc_opening_stock d)
     \<and> opt_all (\<lambda>c. 0 \<le> c \<and> fits_money c) (pc_opening_unit_cost d)
     \<and> \<not> (pc_opening_stock d \<noteq> None \<and> \<not> pc_track_inventory d)
     \<and> \<not> (pc_opening_stock d = None \<and> pc_opening_unit_cost d \<noteq> None)
     \<and> \<not> (pc_opening_stock d \<noteq> None \<and> pc_opening_unit_cost d = None \<and> pc_cost_price d = None)"

definition valid_product_update :: "ProductUpdateRequest \<Rightarrow> bool" where
  "valid_product_update d \<longleftrightarrow>
     opt_all (\<lambda>n. 1 \<le> length n \<and> length n \<le> 120) (pu_name d)
     \<and> opt_all (opt_all (\<lambda>c. length c \<le> 60)) (pu_sku d)
     \<and> opt_all (opt_all (\<lambda>c. length c \<le> 64)) (pu_barcode d)
     \<and> opt_all (\<lambda>c. 0 \<le> c \<and> fits_money c) (pu_selling_price d)
     \<and> opt_all (opt_all (\<lambda>c. 0 \<le> c \<and> fits_money c)) (pu_cost_price d)
     \<and> opt_all (opt_all (\<lambda>c. 0 \<le> c \<and> fits_quantity c)) (pu_low_stock_threshold d)
     \<and> \<not> (pu_name d = None \<and> pu_category_id d = None \<and> pu_sku d = None \<and> pu_barcode d = None
          \<and> pu_unit d = None \<and> pu_selling_price d = None \<and> pu_cost_price d = None
          \<and> pu_track_inventory d = None \<and> pu_low_stock_threshold d = None \<and> pu_is_active d = None)"

subsection \<open>Categories\<close>

definition CATEGORY_LIST_LIMIT :: nat where
  "CATEGORY_LIST_LIMIT = 500"

definition repo_list_categories :: "(string \<Rightarrow> int) \<Rightarrow> uuid \<Rightarrow> db \<Rightarrow> category list" where
  "repo_list_categories collate bid s = take CATEGORY_LIST_LIMIT
     (sort_key (\<lambda>c. (collate (py_lower (cat_name c)), cat_id c))
       (filter (\<lambda>c. cat_business_id c = bid) (categories s)))"

definition repo_get_category :: "uuid \<Rightarrow> uuid \<Rightarrow> db \<Rightarrow> category option" where
  "repo_get_category bid cid s = find (\<lambda>c. cat_business_id c = bid \<and> cat_id c = cid) (categories s)"

definition count_products_in_category :: "uuid \<Rightarrow> uuid \<Rightarrow> db \<Rightarrow> nat" where
  "count_products_in_category bid cid s =
     length (filter (\<lambda>p. p_business_id p = bid \<and> p_category_id p = Some cid) (products s))"

definition category_exists_error :: error where
  "category_exists_error = ConflictError ''CATEGORY_EXISTS''"

definition list_categories :: "(string \<Rightarrow> int) \<Rightarrow> BusinessContext \<Rightarrow> db \<Rightarrow> category list" where
  "list_categories collate ctx s = repo_list_categories collate (business_id ctx) s"

definition get_category :: "BusinessContext \<Rightarrow> uuid \<Rightarrow> db \<Rightarrow> category result" where
  "get_category ctx cid s = the_or NotFoundError (repo_get_category (business_id ctx) cid s)"

text \<open>The unique index on \<open>(business_id, lower(name))\<close>, against the rows other than the one written.\<close>

definition category_key :: "category \<Rightarrow> uuid \<times> string" where
  "category_key c = (cat_business_id c, py_lower (cat_name c))"

definition flush_category :: "category \<Rightarrow> db \<Rightarrow> unit result" where
  "flush_category c s = raise_if
     (list_ex (\<lambda>r. cat_id r \<noteq> cat_id c \<and> category_key r = category_key c) (categories s))
     (IntegrityError uq_categories_business_id_lower_name)"

definition on_category_conflict :: "'a result \<times> db \<Rightarrow> 'a result \<times> db" where
  "on_category_conflict out = (case out of (r, s) \<Rightarrow>
     (if r = Inl (IntegrityError uq_categories_business_id_lower_name)
      then Inl category_exists_error else r, s))"

definition create_category_body ::
  "BusinessContext \<Rightarrow> CategoryRequest \<Rightarrow> db \<Rightarrow> (category \<times> db) result" where
  "create_category_body ctx data s =
     (let category = \<lparr>cat_id = new_id s, cat_business_id = business_id ctx, cat_name = cr_name data\<rparr> in
      bindR (flush_category category s) (\<lambda>_.
      Inr (category, (drawn s)\<lparr>categories := categories s @ [category]\<rparr>)))"

definition create_category ::
  "BusinessContext \<Rightarrow> CategoryRequest \<Rightarrow> db \<Rightarrow> category result \<times> db" where
  "create_category ctx data s = on_category_conflict (transaction (create_category_body ctx data) s)"

definition update_category_body ::
  "BusinessContext \<Rightarrow> uuid \<Rightarrow> CategoryRequest \<Rightarrow> db \<Rightarrow> (category \<times> db) result" where
  "update_category_body ctx cid data s =
     bindR (get_category ctx cid s) (\<lambda>category.
     let category = category\<lparr>cat_name := cr_name data\<rparr> in
     bindR (flush_category category s) (\<lambda>_.
     Inr (category, s\<lparr>categories :=
       update_where (\<lambda>c. cat_id c = cat_id category) (\<lambda>_. category) (categories s)\<rparr>)))"

definition update_category ::
  "BusinessContext \<Rightarrow> uuid \<Rightarrow> CategoryRequest \<Rightarrow> db \<Rightarrow> category result \<times> db" where
  "update_category ctx cid data s =
     on_category_conflict (transaction (update_category_body ctx cid data) s)"

definition delete_category_body :: "BusinessContext \<Rightarrow> uuid \<Rightarrow> db \<Rightarrow> (unit \<times> db) result" where
  "delete_category_body ctx cid s =
     bindR (get_category ctx cid s) (\<lambda>category.
     let in_use = count_products_in_category (business_id ctx) (cat_id category) s in
     bindR (raise_if (in_use \<noteq> 0) (ConflictError ''CATEGORY_IN_USE'')) (\<lambda>_.
     Inr ((), s\<lparr>categories := filter (\<lambda>c. cat_id c \<noteq> cat_id category) (categories s)\<rparr>)))"

definition delete_category :: "BusinessContext \<Rightarrow> uuid \<Rightarrow> db \<Rightarrow> unit result \<times> db" where
  "delete_category ctx cid s = transaction (delete_category_body ctx cid) s"

subsection \<open>Products\<close>

definition name_key :: "product \<Rightarrow> (uuid \<times> string) option" where
  "name_key p = (if p_is_active p then Some (p_business_id p, py_lower (p_name p)) else None)"

definition sku_key :: "product \<Rightarrow> (uuid \<times> string) option" where
  "sku_key p = map_option (Pair (p_business_id p)) (p_sku p)"

definition barcode_key :: "product \<Rightarrow> (uuid \<times> string) option" where
  "barcode_key p = map_option (Pair (p_business_id p)) (p_barcode p)"

definition taken :: "(product \<Rightarrow> 'k option) \<Rightarrow> product \<Rightarrow> product list \<Rightarrow> bool" where
  "taken k p rows \<longleftrightarrow> k p \<noteq> None \<and> list_ex (\<lambda>q. p_id q \<noteq> p_id p \<and> k q = k p) rows"

definition flush_product :: "product \<Rightarrow> db \<Rightarrow> unit result" where
  "flush_product p s =
     bindR (flush_row (product_fits p) (product_checks p)) (\<lambda>_.
     bindR (raise_if (taken name_key p (products s))
              (IntegrityError uq_products_business_id_lower_name_active)) (\<lambda>_.
     bindR (raise_if (taken sku_key p (products s)) (IntegrityError uq_products_business_id_sku)) (\<lambda>_.
     raise_if (taken barcode_key p (products s)) (IntegrityError uq_products_business_id_barcode))))"

fun translate :: "error \<Rightarrow> error" where
  "translate (IntegrityError uq_products_business_id_lower_name_active) = ConflictError ''PRODUCT_NAME_EXISTS''"
| "translate (IntegrityError uq_products_business_id_sku) = ConflictError ''SKU_EXISTS''"
| "translate (IntegrityError uq_products_business_id_barcode) = ConflictError ''BARCODE_EXISTS''"
| "translate e = e"

definition translated :: "'a result \<Rightarrow> 'a result" where
  "translated r = (case r of Inl e \<Rightarrow> Inl (translate e) | Inr x \<Rightarrow> Inr x)"

definition ensure_category :: "BusinessContext \<Rightarrow> uuid option \<Rightarrow> db \<Rightarrow> unit result" where
  "ensure_category ctx cid s =
     (case cid of None \<Rightarrow> Inr ()
      | Some c \<Rightarrow> raise_if (repo_get_category (business_id ctx) c s = None) NotFoundError)"

definition PRODUCT_LIST_LIMIT :: nat where
  "PRODUCT_LIST_LIMIT = 500"

definition matches_prefix :: "string \<Rightarrow> product \<Rightarrow> bool" where
  "matches_prefix query p = (let pat = escape_like (py_lower query) @ ''%'' in
     like pat (py_lower (p_name p))
     \<or> (case p_sku p of None \<Rightarrow> False | Some x \<Rightarrow> like pat (py_lower x))
     \<or> (case p_barcode p of None \<Rightarrow> False | Some x \<Rightarrow> like pat (py_lower x)))"

definition repo_list_products ::
  "(string \<Rightarrow> int) \<Rightarrow> uuid \<Rightarrow> string option \<Rightarrow> uuid option \<Rightarrow> bool \<Rightarrow> nat \<Rightarrow> db \<Rightarrow> product list" where
  "repo_list_products collate bid query cid include_archived limit s =
     take (min limit PRODUCT_LIST_LIMIT)
       (sort_key (\<lambda>p. (collate (py_lower (p_name p)), p_id p))
         (filter (\<lambda>p. p_business_id p = bid \<and> (include_archived \<or> p_is_active p)
            \<and> opt_all (\<lambda>c. p_category_id p = Some c) cid
            \<and> (truthy query \<longrightarrow> opt_all (\<lambda>q. matches_prefix q p) query)) (products s)))"

definition list_products ::
  "(string \<Rightarrow> int) \<Rightarrow> BusinessContext \<Rightarrow> string option \<Rightarrow> uuid option \<Rightarrow> bool \<Rightarrow> nat \<Rightarrow> db
    \<Rightarrow> product list result" where
  "list_products collate ctx query cid include_archived limit s =
     bindR (ensure_category ctx cid s) (\<lambda>_.
     Inr (repo_list_products collate (business_id ctx) query cid include_archived limit s))"

definition service_get_product :: "BusinessContext \<Rightarrow> uuid \<Rightarrow> db \<Rightarrow> product result" where
  "service_get_product ctx pid s = the_or NotFoundError (get_product (business_id ctx) pid s)"

text \<open>\<open>session.refresh(product)\<close>: the current row.\<close>

definition refreshed :: "uuid \<Rightarrow> db \<Rightarrow> (product \<times> db) result" where
  "refreshed pid s = bindR (the_or KeyError (product_row pid s)) (\<lambda>p. Inr (p, s))"

definition create_product_in_transaction ::
  "clock \<Rightarrow> BusinessContext \<Rightarrow> ProductCreateRequest \<Rightarrow> db \<Rightarrow> (product \<times> db) result" where
  "create_product_in_transaction clk ctx data s =
     bindR (ensure_category ctx (pc_category_id data) s) (\<lambda>_.
     let product = \<lparr>p_id = new_id s, p_business_id = business_id ctx,
           p_category_id = pc_category_id data, p_name = pc_name data, p_sku = pc_sku data,
           p_barcode = pc_barcode data, p_unit = pc_unit data,
           p_selling_price = pc_selling_price data, p_cost_price = pc_cost_price data,
           p_track_inventory = pc_track_inventory data, p_stock_quantity = 0,
           p_low_stock_threshold = pc_low_stock_threshold data, p_is_active = True\<rparr> in
     bindR (flush_product product s) (\<lambda>_.
     let s = (drawn s)\<lparr>products := products s @ [product]\<rparr> in
     case pc_opening_stock data of
       None \<Rightarrow> refreshed (p_id product) s
     | Some q \<Rightarrow>
         let unit_cost = (if pc_opening_unit_cost data \<noteq> None then pc_opening_unit_cost data
                          else pc_cost_price data) in
         bindR (apply_movement clk ctx (p_id product) INITIAL q unit_cost None None None None s)
           (\<lambda>(m, s). refreshed (p_id product) s)))"

definition create_product ::
  "clock \<Rightarrow> BusinessContext \<Rightarrow> ProductCreateRequest \<Rightarrow> db \<Rightarrow> product result \<times> db" where
  "create_product clk ctx data s =
     apfst translated (transaction (create_product_in_transaction clk ctx data) s)"

definition create_next ::
  "clock \<Rightarrow> BusinessContext \<Rightarrow> ProductCreateRequest \<Rightarrow> db \<times> product list \<Rightarrow> (db \<times> product list) result" where
  "create_next clk ctx data acc = (case acc of (s, created) \<Rightarrow>
     bindR (translated (create_product_in_transaction clk ctx data s)) (\<lambda>(p, s).
     Inr (s, created @ [p])))"

definition create_products_bulk_body ::
  "clock \<Rightarrow> BusinessContext \<Rightarrow> ProductCreateRequest list \<Rightarrow> db \<Rightarrow> (product list \<times> db) result" where
  "create_products_bulk_body clk ctx items s =
     bindR (foldR (create_next clk ctx) items (s, [])) (\<lambda>(s, created). Inr (created, s))"

definition create_products_bulk ::
  "clock \<Rightarrow> BusinessContext \<Rightarrow> ProductCreateRequest list \<Rightarrow> db \<Rightarrow> product list result \<times> db" where
  "create_products_bulk clk ctx items s =
     apfst translated (transaction (create_products_bulk_body clk ctx items) s)"

text \<open>The fields present in a PATCH, set on the row.\<close>

definition patched :: "ProductUpdateRequest \<Rightarrow> product \<Rightarrow> product" where
  "patched data p = p\<lparr>
     p_name := (case pu_name data of None \<Rightarrow> p_name p | Some v \<Rightarrow> v),
     p_category_id := (case pu_category_id data of None \<Rightarrow> p_category_id p | Some v \<Rightarrow> v),
     p_sku := (case pu_sku data of None \<Rightarrow> p_sku p | Some v \<Rightarrow> v),
     p_barcode := (case pu_barcode data of None \<Rightarrow> p_barcode p | Some v \<Rightarrow> v),
     p_unit := (case pu_unit data of None \<Rightarrow> p_unit p | Some v \<Rightarrow> v),
     p_selling_price := (case pu_selling_price data of None \<Rightarrow> p_selling_price p | Some v \<Rightarrow> v),
     p_cost_price := (case pu_cost_price data of None \<Rightarrow> p_cost_price p | Some v \<Rightarrow> v),
     p_track_inventory := (case pu_track_inventory data of None \<Rightarrow> p_track_inventory p | Some v \<Rightarrow> v),
     p_low_stock_threshold := (case pu_low_stock_threshold data of
        None \<Rightarrow> p_low_stock_threshold p | Some v \<Rightarrow> v),
     p_is_active := (case pu_is_active data of None \<Rightarrow> p_is_active p | Some v \<Rightarrow> v)\<rparr>"

text \<open>The price fields that change, as the audit row records them.\<close>

definition price_changes :: "product \<Rightarrow> product \<Rightarrow> payload \<times> payload" where
  "price_changes p p' =
     (let selling = (if p_selling_price p' = p_selling_price p then []
                     else [(''selling_price'', JMoney (p_selling_price p), JMoney (p_selling_price p'))]);
          cost = (if p_cost_price p' = p_cost_price p then []
                  else [(''cost_price'', opt_json JMoney (p_cost_price p), opt_json JMoney (p_cost_price p'))])
      in (map (\<lambda>(n, b, a). (n, b)) (selling @ cost), map (\<lambda>(n, b, a). (n, a)) (selling @ cost)))"

definition check_untracking :: "BusinessContext \<Rightarrow> ProductUpdateRequest \<Rightarrow> product \<Rightarrow> db \<Rightarrow> unit result" where
  "check_untracking ctx data product s =
     (if pu_track_inventory data = Some False \<and> p_track_inventory product then
        bindR (raise_if (p_stock_quantity product \<noteq> 0) (ConflictError ''PRODUCT_HAS_STOCK'')) (\<lambda>_.
        raise_if (count_movements_for_product (business_id ctx) (p_id product) s \<noteq> 0)
          (ConflictError ''PRODUCT_HAS_MOVEMENTS''))
      else Inr ())"

definition update_product_body ::
  "BusinessContext \<Rightarrow> uuid \<Rightarrow> ProductUpdateRequest \<Rightarrow> ClientInfo option \<Rightarrow> db \<Rightarrow> (product \<times> db) result" where
  "update_product_body ctx pid data client s =
     bindR (the_or NotFoundError (get_product_for_update (business_id ctx) pid s)) (\<lambda>product.
     bindR (case pu_category_id data of None \<Rightarrow> Inr () | Some c \<Rightarrow> ensure_category ctx c s) (\<lambda>_.
     bindR (check_untracking ctx data product s) (\<lambda>_.
     let product' = patched data product;
         (price_before, price_after) = price_changes product product' in
     bindR (if product' = product then Inr () else flush_product product' s) (\<lambda>_.
     let s = s\<lparr>products := update_where (\<lambda>p. p_id p = pid) (\<lambda>_. product') (products s)\<rparr>;
         s = (if price_after = [] then s
              else audit_record ctx ''product.price_change'' ENTITY_TYPE pid (Some price_before)
                     (Some price_after) client s);
         s = (if p_is_active product' = p_is_active product then s
              else audit_record ctx (if p_is_active product' then ''product.unarchive'' else ''product.archive'')
                     ENTITY_TYPE pid (Some [(''is_active'', JBool (\<not> p_is_active product'))])
                     (Some [(''is_active'', JBool (p_is_active product'))]) client s) in
     refreshed pid s))))"

definition update_product ::
  "BusinessContext \<Rightarrow> uuid \<Rightarrow> ProductUpdateRequest \<Rightarrow> ClientInfo option \<Rightarrow> db \<Rightarrow> product result \<times> db" where
  "update_product ctx pid data client s =
     apfst translated (transaction (update_product_body ctx pid data client) s)"

subsection \<open>The catalogue invariant\<close>

definition labelled :: "category list \<Rightarrow> product \<Rightarrow> bool" where
  "labelled cats p \<longleftrightarrow>
     opt_all (\<lambda>c. (c, p_business_id p) \<in> set (map (\<lambda>r. (cat_id r, cat_business_id r)) cats)) (p_category_id p)"

definition catalog_ok :: "db \<Rightarrow> bool" where
  "catalog_ok s \<longleftrightarrow> distinct (map cat_id (categories s)) \<and> distinct (map category_key (categories s))
     \<and> distinct (map p_id (products s))
     \<and> key_unique name_key (products s) \<and> key_unique sku_key (products s)
     \<and> key_unique barcode_key (products s)
     \<and> (\<forall>p \<in> set (products s). labelled (categories s) p)"

text \<open>The columns it reads.\<close>

definition catalog_view ::
  "product \<Rightarrow> uuid \<times> uuid \<times> uuid option \<times> string \<times> string option \<times> string option \<times> bool" where
  "catalog_view p = (p_id p, p_business_id p, p_category_id p, p_name p, p_sku p, p_barcode p, p_is_active p)"

lemma view_factors:
  "p_id = fst \<circ> catalog_view"
  "name_key = (\<lambda>(i, b, c, n, k, r, a). if a then Some (b, py_lower n) else None) \<circ> catalog_view"
  "sku_key = (\<lambda>(i, b, c, n, k, r, a). map_option (Pair b) k) \<circ> catalog_view"
  "barcode_key = (\<lambda>(i, b, c, n, k, r, a). map_option (Pair b) r) \<circ> catalog_view"
  by (auto simp: fun_eq_iff catalog_view_def name_key_def sku_key_def barcode_key_def)

lemma map_factor: "map v xs' = map v xs \<Longrightarrow> map (g \<circ> v) xs' = map (g \<circ> v) xs"
  by (simp flip: map_map)

lemma catalog_ok_cong:
  assumes "map catalog_view (products s') = map catalog_view (products s)" "categories s' = categories s"
  shows "catalog_ok s' \<longleftrightarrow> catalog_ok s"
proof -
  have refs: "(\<forall>p \<in> set (products u). labelled (categories s) p)
    \<longleftrightarrow> (\<forall>(i, b, c, v) \<in> set (map catalog_view (products u)).
      opt_all (\<lambda>c. (c, b) \<in> set (map (\<lambda>r. (cat_id r, cat_business_id r)) (categories s))) c)" for u
    by (simp add: catalog_view_def labelled_def)
  note same = map_factor [OF assms(1)]
  show ?thesis
    unfolding catalog_ok_def refs assms(2) unfolding assms(1)
    unfolding view_factors same key_unique_cong [OF same] ..
qed

lemma catalog_ok_writes:
  "writes T s s' \<Longrightarrow> T_products \<notin> T \<Longrightarrow> T_categories \<notin> T \<Longrightarrow> catalog_ok s' \<longleftrightarrow> catalog_ok s"
  by (rule catalog_ok_cong) (simp_all add: writes_def)

text \<open>Stock and cost changes are invisible to it.\<close>

definition same_catalog :: "db \<Rightarrow> db \<Rightarrow> bool" where
  "same_catalog s s' \<longleftrightarrow> map catalog_view (products s') = map catalog_view (products s)
     \<and> categories s' = categories s"

lemma same_catalog_refl [simp, intro]: "same_catalog s s"
  by (simp add: same_catalog_def)

lemma same_catalog_trans: "same_catalog s t \<Longrightarrow> same_catalog t u \<Longrightarrow> same_catalog s u"
  by (simp add: same_catalog_def)

lemma same_catalog_ok: "same_catalog s s' \<Longrightarrow> catalog_ok s' \<longleftrightarrow> catalog_ok s"
  by (rule catalog_ok_cong) (simp_all add: same_catalog_def)

lemma same_catalog_frame [simp]:
  "same_catalog s (audit_record ctx a e i b f c t) \<longleftrightarrow> same_catalog s t"
  "same_catalog s (set_stock pid q t) \<longleftrightarrow> same_catalog s t"
  "same_catalog s (set_cost_price pid m t) \<longleftrightarrow> same_catalog s t"
  by (simp_all add: same_catalog_def set_stock_def set_cost_price_def map_update_where catalog_view_def)

lemma same_catalog_writes:
  "writes T s s' \<Longrightarrow> T_products \<notin> T \<Longrightarrow> T_categories \<notin> T \<Longrightarrow> same_catalog s s'"
  by (simp add: writes_def same_catalog_def)

lemma apply_movement_same_catalog:
  assumes "apply_movement clk ctx pid ty d cost reason supplier sale occurred s = Inr (m, s')"
  shows "same_catalog s s'"
proof -
  from assms obtain q where "s' = (drawn (set_stock pid q s))\<lparr>movements := movements s @ [m]\<rparr>"
    by (auto simp: apply_movement_success)
  then show ?thesis
    using same_catalog_frame(2) [of s pid q s] by (simp add: same_catalog_def)
qed

lemma same_catalog_foldR:
  assumes "foldR f xs s = Inr s'" and "\<And>x t t'. x \<in> set xs \<Longrightarrow> f x t = Inr t' \<Longrightarrow> same_catalog t t'"
  shows "same_catalog s s'"
  by (rule foldR_invariant [OF assms(1), where P = "same_catalog s"])
    (use assms(2) same_catalog_trans in blast)+

lemma restock_in_transaction_same_catalog:
  "restock_in_transaction clk ctx data client extra s = Inr (m, s') \<Longrightarrow> same_catalog s s'"
  by (auto elim!: restock_in_transaction_success dest: apply_movement_same_catalog)

lemma restock_same_catalog: "same_catalog s (snd (restock clk ctx data client s))"
  by (cases "check_restock_permission ctx")
    (auto simp: restock_def intro!: transaction_preserves [where P = "same_catalog s"]
      intro: restock_in_transaction_same_catalog)

lemma adjust_same_catalog: "same_catalog s (snd (adjust clk ctx data client s))"
  unfolding adjust_def
  by (rule transaction_preserves) (auto elim!: adjust_body_success dest: apply_movement_same_catalog)

lemma set_initial_stock_same_catalog: "same_catalog s (snd (set_initial_stock clk ctx data client s))"
  unfolding set_initial_stock_def
  by (rule transaction_preserves)
    (auto elim!: set_initial_stock_body_success dest: apply_movement_same_catalog)

lemma recompute_stock_same_catalog: "same_catalog s (snd (recompute_stock ctx apply client s))"
proof -
  have loop: "same_catalog s (fst out)"
    if "foldR (recompute_product ctx apply client) ids (s, []) = Inr out" for ids out
    by (rule foldR_invariant [OF that, where P = "\<lambda>r. same_catalog s (fst r)"])
      (auto simp: recompute_product_def Let_def result_simps split: option.splits if_splits)
  have all: "same_catalog s s'" if body: "recompute_stock_body ctx apply client s = Inr (r, s')" for r s'
  proof -
    from body obtain found where "foldR (recompute_product ctx apply client)
        (list_tracked_product_ids (business_id ctx) s) (s, []) = Inr (s', found)"
      by (auto simp: recompute_stock_body_def Let_def bindR_eq_Inr)
    from loop [OF this] show ?thesis by simp
  qed
  show ?thesis
    unfolding recompute_stock_def
    by (rule transaction_preserves [where P = "same_catalog s"]) (simp, erule all)
qed

subsection \<open>Category operations\<close>

lemma labelled_mono: "labelled cats p \<Longrightarrow> labelled (cats @ cats') p"
  by (cases "p_category_id p") (auto simp: labelled_def)

lemma repo_get_category_SomeD:
  assumes "repo_get_category bid cid s = Some c"
  shows "cat_id c = cid \<and> cat_business_id c = bid \<and> c \<in> set (categories s)"
  using find_SomeD [OF assms [unfolded repo_get_category_def]] by simp

lemma flush_category_ok:
  "flush_category c s = Inr u \<longleftrightarrow>
     (\<forall>r \<in> set (categories s). cat_id r \<noteq> cat_id c \<longrightarrow> category_key r \<noteq> category_key c)"
  by (auto simp: flush_category_def list_ex_iff)

lemma snd_on_category_conflict [simp]: "snd (on_category_conflict out) = snd out"
  by (simp add: on_category_conflict_def split: prod.splits)

lemma create_category_body_success:
  "create_category_body ctx data s = Inr (c, s') \<longleftrightarrow>
     c = \<lparr>cat_id = new_id s, cat_business_id = business_id ctx, cat_name = cr_name data\<rparr>
     \<and> flush_category c s = Inr () \<and> s' = (drawn s)\<lparr>categories := categories s @ [c]\<rparr>"
  by (auto simp: create_category_body_def Let_def bindR_eq_Inr)

lemma update_category_body_success:
  "update_category_body ctx cid data s = Inr (c, s') \<longleftrightarrow>
     (\<exists>old. repo_get_category (business_id ctx) cid s = Some old \<and> c = old\<lparr>cat_name := cr_name data\<rparr>
        \<and> flush_category c s = Inr ()
        \<and> s' = s\<lparr>categories := update_where (\<lambda>r. cat_id r = cid) (\<lambda>_. c) (categories s)\<rparr>)"
  by (auto simp: update_category_body_def get_category_def Let_def bindR_eq_Inr
      dest: repo_get_category_SomeD)

lemma delete_category_body_success:
  "delete_category_body ctx cid s = Inr (u, s') \<longleftrightarrow>
     (\<exists>c. repo_get_category (business_id ctx) cid s = Some c
        \<and> count_products_in_category (business_id ctx) cid s = 0
        \<and> s' = s\<lparr>categories := filter (\<lambda>r. cat_id r \<noteq> cid) (categories s)\<rparr>)"
  by (auto simp: delete_category_body_def get_category_def Let_def bindR_eq_Inr
      dest: repo_get_category_SomeD)

lemma create_category_body_catalog_ok:
  assumes ok: "catalog_ok s" and fresh: "fresh_ok s"
    and body: "create_category_body ctx data s = Inr (c, s')"
  shows "catalog_ok s'"
proof -
  have new: "cat_id r \<noteq> new_id s" if "r \<in> set (categories s)" for r
    using new_id_fresh [OF fresh] that by (simp add: known_ids_def) (metis imageI)
  from body have "cat_id c = new_id s" "flush_category c s = Inr ()"
    and s': "s' = (drawn s)\<lparr>categories := categories s @ [c]\<rparr>"
    by (auto simp: create_category_body_success)
  with new have "category_key c \<notin> category_key ` set (categories s)" "cat_id c \<notin> cat_id ` set (categories s)"
    by (auto simp: flush_category_ok image_iff) metis+
  with ok show ?thesis by (simp add: catalog_ok_def s' labelled_mono)
qed

lemma update_category_body_catalog_ok:
  assumes ok: "catalog_ok s" and body: "update_category_body ctx cid data s = Inr (c, s')"
  shows "catalog_ok s'"
proof -
  from body obtain old where old: "repo_get_category (business_id ctx) cid s = Some old"
      "c = old\<lparr>cat_name := cr_name data\<rparr>" and flush: "flush_category c s = Inr ()"
    and s': "s' = s\<lparr>categories := update_where (\<lambda>r. cat_id r = cid) (\<lambda>_. c) (categories s)\<rparr>"
    by (auto simp: update_category_body_success)
  have c: "cat_id c = cid" "cat_business_id c = cat_business_id old" "cat_id old = cid" "old \<in> set (categories s)"
    using old repo_get_category_SomeD by auto
  have dist: "distinct (map cat_id (categories s))" "distinct (map category_key (categories s))"
    using ok by (auto simp: catalog_ok_def)
  have only: "r = old" if "r \<in> set (categories s)" "cat_id r = cid" for r
    using distinct_mapD [OF dist(1) that(1) c(4)] that(2) c(3) by simp
  have keep: "map (\<lambda>r. (cat_id r, cat_business_id r)) (categories s')
      = map (\<lambda>r. (cat_id r, cat_business_id r)) (categories s)"
    by (simp add: s' update_where_def c(1,2)) (metis only)
  then have ids: "map cat_id (categories s') = map cat_id (categories s)"
    using map_factor [OF keep, of fst] by (simp add: o_def)
  have "key_unique (\<lambda>r. Some (category_key r)) (categories s')"
    unfolding s' using flush c(1) dist
    by (simp, intro key_unique_update_one) (auto simp: key_unique_Some flush_category_ok)
  then have "distinct (map category_key (categories s'))" by (simp only: key_unique_Some)
  moreover have "labelled (categories s') p \<longleftrightarrow> labelled (categories s) p" for p
    by (simp only: labelled_def keep)
  ultimately show ?thesis using ok ids by (simp add: catalog_ok_def s')
qed

lemma delete_category_body_catalog_ok:
  assumes ok: "catalog_ok s" and body: "delete_category_body ctx cid s = Inr (u, s')"
  shows "catalog_ok s'"
proof -
  from body obtain c where c: "repo_get_category (business_id ctx) cid s = Some c"
    and unused: "count_products_in_category (business_id ctx) cid s = 0"
    and s': "s' = s\<lparr>categories := filter (\<lambda>r. cat_id r \<noteq> cid) (categories s)\<rparr>"
    by (auto simp: delete_category_body_success)
  have dist: "distinct (map cat_id (categories s))" using ok by (simp add: catalog_ok_def)
  have only: "r = c" if "r \<in> set (categories s)" "cat_id r = cid" for r
    using distinct_mapD [OF dist that(1), of c] that(2) repo_get_category_SomeD [OF c] by simp
  have "labelled (categories s') p" if p: "p \<in> set (products s)" "labelled (categories s) p" for p
  proof (cases "p_category_id p")
    case None
    then show ?thesis by (simp add: labelled_def)
  next
    case (Some i)
    with p(2) obtain r where r: "r \<in> set (categories s)" "cat_id r = i" "cat_business_id r = p_business_id p"
      by (auto simp: labelled_def)
    have "i \<noteq> cid"
    proof
      assume "i = cid"
      with only r repo_get_category_SomeD [OF c] have "p_business_id p = business_id ctx" by metis
      with unused p(1) Some \<open>i = cid\<close> show False
        by (simp add: count_products_in_category_def filter_empty_conv)
    qed
    with r Some show ?thesis by (force simp: labelled_def s')
  qed
  moreover have "distinct (map cat_id (categories s'))" "distinct (map category_key (categories s'))"
    using ok by (simp_all add: catalog_ok_def s' distinct_map_filter)
  ultimately show ?thesis using ok by (simp add: catalog_ok_def s')
qed

lemma create_category_catalog_ok:
  "catalog_ok s \<Longrightarrow> fresh_ok s \<Longrightarrow> catalog_ok (snd (create_category ctx data s))"
  unfolding create_category_def snd_on_category_conflict
  by (rule transaction_preserves [where P = catalog_ok]) (blast intro: create_category_body_catalog_ok)+

lemma update_category_catalog_ok: "catalog_ok s \<Longrightarrow> catalog_ok (snd (update_category ctx cid data s))"
  unfolding update_category_def snd_on_category_conflict
  by (rule transaction_preserves [where P = catalog_ok]) (blast intro: update_category_body_catalog_ok)+

lemma delete_category_catalog_ok: "catalog_ok s \<Longrightarrow> catalog_ok (snd (delete_category ctx cid s))"
  unfolding delete_category_def
  by (rule transaction_preserves [where P = catalog_ok]) (blast intro: delete_category_body_catalog_ok)+

lemma create_category_writes: "writes {T_categories} s (snd (create_category ctx data s))"
  unfolding create_category_def snd_on_category_conflict
  by (rule writes_transaction) (auto simp: create_category_body_success writes_def)

lemma update_category_writes: "writes {T_categories} s (snd (update_category ctx cid data s))"
  unfolding update_category_def snd_on_category_conflict
  by (rule writes_transaction) (auto simp: update_category_body_success writes_def)

lemma delete_category_writes: "writes {T_categories} s (snd (delete_category ctx cid s))"
  unfolding delete_category_def
  by (rule writes_transaction) (auto simp: delete_category_body_success writes_def)

lemma known_ids_categories:
  assumes "cat_id ` set cs \<subseteq> cat_id ` set (categories s) \<union> X"
  shows "known_ids (s\<lparr>categories := cs\<rparr>) \<subseteq> known_ids s \<union> X"
  using assms by (simp add: known_ids_def) blast

lemma create_category_grows: "grows s (snd (create_category ctx data s))"
  unfolding create_category_def snd_on_category_conflict
proof (rule grows_transaction)
  fix c s'
  assume "create_category_body ctx data s = Inr (c, s')"
  then have s': "s' = (drawn s)\<lparr>categories := categories s @ [c]\<rparr>" "cat_id c = new_id s"
    by (simp_all add: create_category_body_success)
  have "known_ids s' \<subseteq> known_ids (drawn s) \<union> {new_id s}"
    unfolding s'(1) by (rule known_ids_categories) (simp add: s'(2))
  then show "grows s s'" by (auto simp: grows_def s' new_id_def)
qed

lemma update_category_grows: "grows s (snd (update_category ctx cid data s))"
  unfolding update_category_def snd_on_category_conflict
proof (rule grows_transaction)
  fix c s'
  assume "update_category_body ctx cid data s = Inr (c, s')"
  then obtain old where old: "repo_get_category (business_id ctx) cid s = Some old"
      "c = old\<lparr>cat_name := cr_name data\<rparr>"
    and s': "s' = s\<lparr>categories := update_where (\<lambda>r. cat_id r = cid) (\<lambda>_. c) (categories s)\<rparr>"
    by (auto simp: update_category_body_success)
  have "cat_id c = cid" using repo_get_category_SomeD [OF old(1)] old(2) by simp
  then have "cat_id ` set (update_where (\<lambda>r. cat_id r = cid) (\<lambda>_. c) (categories s))
      = cat_id ` set (categories s)"
    by (intro image_update_where) simp
  then have "known_ids s' \<subseteq> known_ids s \<union> {}" unfolding s' by (intro known_ids_categories) simp
  then show "grows s s'" by (simp add: grows_def s')
qed

lemma delete_category_grows: "grows s (snd (delete_category ctx cid s))"
  unfolding delete_category_def
proof (rule grows_transaction)
  fix c s'
  assume "delete_category_body ctx cid s = Inr (c, s')"
  then have s': "s' = s\<lparr>categories := filter (\<lambda>r. cat_id r \<noteq> cid) (categories s)\<rparr>"
    by (auto simp: delete_category_body_success)
  have "known_ids s' \<subseteq> known_ids s \<union> {}" unfolding s' by (rule known_ids_categories) auto
  then show "grows s s'" by (simp add: grows_def s')
qed

subsection \<open>Product operations\<close>

lemma translated_simps [simp]:
  "translated (Inr x) = Inr x" "translated (Inl e) = Inl (translate e)"
  by (simp_all add: translated_def)

lemma translated_eq_Inr [result_simps]: "translated r = Inr x \<longleftrightarrow> r = Inr x"
  by (cases r) simp_all

lemma refreshed_success [result_simps]: "refreshed pid s = Inr (p, s') \<longleftrightarrow> product_row pid s = Some p \<and> s' = s"
  by (auto simp: refreshed_def bindR_eq_Inr)

lemma flush_product_ok:
  "flush_product p s = Inr u \<longleftrightarrow> product_fits p \<and> product_checks p
     \<and> \<not> taken name_key p (products s) \<and> \<not> taken sku_key p (products s)
     \<and> \<not> taken barcode_key p (products s)"
  by (auto simp: flush_product_def bindR_eq_Inr)

lemma not_taken:
  "\<not> taken k p rows \<longleftrightarrow> k p = None \<or> (\<forall>q \<in> set rows. p_id q \<noteq> p_id p \<longrightarrow> k q \<noteq> k p)"
  by (auto simp: taken_def list_ex_iff)

lemma ensure_category_ok:
  "ensure_category ctx cid s = Inr u \<longleftrightarrow> opt_all (\<lambda>c. repo_get_category (business_id ctx) c s \<noteq> None) cid"
  by (cases cid) (auto simp: ensure_category_def)

lemma ensure_category_labelled:
  assumes "ensure_category ctx (p_category_id p) s = Inr u" and "p_business_id p = business_id ctx"
  shows "labelled (categories s) p"
proof (cases "p_category_id p")
  case None
  then show ?thesis by (simp add: labelled_def)
next
  case (Some c)
  with assms(1) obtain r where "repo_get_category (business_id ctx) c s = Some r"
    by (auto simp: ensure_category_ok)
  from repo_get_category_SomeD [OF this] show ?thesis
    using Some assms(2) by (auto simp: labelled_def intro: image_eqI [where x = r])
qed

definition product_of :: "BusinessContext \<Rightarrow> ProductCreateRequest \<Rightarrow> uuid \<Rightarrow> product" where
  "product_of ctx data i = \<lparr>p_id = i, p_business_id = business_id ctx,
     p_category_id = pc_category_id data, p_name = pc_name data, p_sku = pc_sku data,
     p_barcode = pc_barcode data, p_unit = pc_unit data,
     p_selling_price = pc_selling_price data, p_cost_price = pc_cost_price data,
     p_track_inventory = pc_track_inventory data, p_stock_quantity = 0,
     p_low_stock_threshold = pc_low_stock_threshold data, p_is_active = True\<rparr>"

lemma product_of_simps [simp]:
  "p_id (product_of ctx data i) = i" "p_business_id (product_of ctx data i) = business_id ctx"
  "p_category_id (product_of ctx data i) = pc_category_id data" "p_name (product_of ctx data i) = pc_name data"
  "p_stock_quantity (product_of ctx data i) = 0" "p_is_active (product_of ctx data i)"
  "p_track_inventory (product_of ctx data i) = pc_track_inventory data"
  by (simp_all add: product_of_def)

definition with_product :: "product \<Rightarrow> db \<Rightarrow> db" where
  "with_product p s = (drawn s)\<lparr>products := products s @ [p]\<rparr>"

lemma create_product_success:
  assumes "create_product_in_transaction clk ctx data s = Inr (r, s')"
  obtains "ensure_category ctx (pc_category_id data) s = Inr ()"
      "flush_product (product_of ctx data (new_id s)) s = Inr ()"
      "pc_opening_stock data = None" "s' = with_product (product_of ctx data (new_id s)) s"
      "product_row (new_id s) s' = Some r"
  | q cost m where "ensure_category ctx (pc_category_id data) s = Inr ()"
      "flush_product (product_of ctx data (new_id s)) s = Inr ()"
      "pc_opening_stock data = Some q"
      "apply_movement clk ctx (new_id s) INITIAL q cost None None None None
         (with_product (product_of ctx data (new_id s)) s) = Inr (m, s')"
      "product_row (new_id s) s' = Some r"
  using assms
  by (cases "pc_opening_stock data")
    (auto simp: create_product_in_transaction_def Let_def bindR_eq_Inr refreshed_success product_of_def
      with_product_def)

lemma fresh_product_id: "fresh_ok s \<Longrightarrow> new_id s \<notin> p_id ` set (products s)"
  using new_id_fresh [of s] by (simp add: known_ids_def)

lemma with_product_catalog_ok:
  assumes ok: "catalog_ok s" and fresh: "fresh_ok s" and p: "p_id p = new_id s" "p_business_id p = business_id ctx"
    and cat: "ensure_category ctx (p_category_id p) s = Inr ()" and flush: "flush_product p s = Inr ()"
  shows "catalog_ok (with_product p s)"
proof -
  have ids: "p_id p \<notin> p_id ` set (products s)" using fresh_product_id [OF fresh] p(1) by simp
  then have new: "p_id r \<noteq> p_id p" if "r \<in> set (products s)" for r using that by (metis imageI)
  have un: "k p = None \<or> k p \<notin> k ` set (products s)" if "\<not> taken k p (products s)"
    for k :: "product \<Rightarrow> (uuid \<times> string) option"
    using that new by (auto simp: not_taken)
  from flush have "\<not> taken name_key p (products s)" "\<not> taken sku_key p (products s)"
      "\<not> taken barcode_key p (products s)" by (simp_all add: flush_product_ok)
  from this [THEN un] show ?thesis
    using ok ids ensure_category_labelled [OF cat p(2)] by (simp add: catalog_ok_def with_product_def)
qed

lemma with_product_stock_ok:
  assumes ok: "stock_ok s" and fresh: "fresh_ok s" and p: "p_id p = new_id s" "p_stock_quantity p = 0"
  shows "stock_ok (with_product p s)"
proof -
  have ids: "p_id p \<notin> p_id ` set (products s)" using fresh_product_id [OF fresh] p(1) by simp
  then have new: "p_id r \<noteq> p_id p" if "r \<in> set (products s)" for r using that by (metis imageI)
  have none: "m_product_id m \<noteq> p_id p" if "m \<in> set (movements s)" for m
    using ok that new unfolding stock_ok_def by metis
  then have "filter (\<lambda>m. m_product_id m = p_id p) (movements s) = []" by (auto simp: filter_empty_conv)
  then have own: "stock_account (with_product p s) p"
    using p(2) by (simp add: stock_account_def stock_entries_def with_product_def total_where_def)
  have acc: "stock_account (with_product p s) r \<longleftrightarrow> stock_account s r" for r
    by (simp add: stock_account_def stock_entries_def with_product_def)
  have "distinct (map p_id (products (with_product p s)))"
    using ok ids by (simp add: stock_ok_def with_product_def)
  moreover have "\<forall>r \<in> set (products (with_product p s)). stock_account (with_product p s) r"
    using ok own acc by (simp add: stock_ok_def with_product_def)
  moreover have "movements (with_product p s) = movements s" "set (products s) \<subseteq> set (products (with_product p s))"
    by (auto simp: with_product_def)
  ultimately show ?thesis using ok unfolding stock_ok_def by (metis subsetD)
qed

lemma with_product_grows: "p_id p = new_id s \<Longrightarrow> grows s (with_product p s)"
proof -
  assume p: "p_id p = new_id s"
  have "known_ids (with_product p s) = known_ids s \<union> {new_id s}"
    by (auto simp: known_ids_def with_product_def p)
  then show ?thesis by (auto simp: grows_def with_product_def new_id_def)
qed

lemma with_product_writes: "writes {T_products} s (with_product p s)"
  by (simp add: writes_def with_product_def)

lemma create_product_keeps:
  assumes "create_product_in_transaction clk ctx data s = Inr (r, s')" and "fresh_ok s"
  shows "catalog_ok s \<Longrightarrow> catalog_ok s'" and "stock_ok s \<Longrightarrow> stock_ok s'" and "grows s s'"
    and "writes {T_products, T_movements} s s'"
proof -
  let ?p = "product_of ctx data (new_id s)"
  let ?t = "with_product ?p s"
  from assms(1) have pre: "ensure_category ctx (p_category_id ?p) s = Inr ()" "flush_product ?p s = Inr ()"
    by (auto elim: create_product_success)
  note t = with_product_catalog_ok [OF _ assms(2) _ _ pre] with_product_stock_ok [OF _ assms(2), of ?p]
    with_product_grows [of ?p s] with_product_writes [of s ?p]
  from assms(1) have step: "s' = ?t \<or> (\<exists>q cost m. apply_movement clk ctx (new_id s) INITIAL q cost None None None None ?t
      = Inr (m, s'))"
    by (auto elim: create_product_success)
  show "catalog_ok s \<Longrightarrow> catalog_ok s'" using step t(1) same_catalog_ok [OF apply_movement_same_catalog] by auto
  show "stock_ok s \<Longrightarrow> stock_ok s'" using step t(2) apply_movement_stock_ok by auto
  show "grows s s'" using step t(3) by (auto intro: grows_trans dest!: apply_movement_grows)
  have "writes {T_products, T_movements} s ?t" by (rule writes_mono [OF t(4)]) simp
  then show "writes {T_products, T_movements} s s'"
    using step by (auto intro: writes_trans apply_movement_writes)
qed

lemma create_product_ops:
  assumes "fresh_ok s"
  shows "catalog_ok s \<Longrightarrow> catalog_ok (snd (create_product clk ctx data s))"
    and "stock_ok s \<Longrightarrow> stock_ok (snd (create_product clk ctx data s))"
    and "grows s (snd (create_product clk ctx data s))"
    and "writes {T_products, T_movements} s (snd (create_product clk ctx data s))"
proof -
  have eq: "snd (create_product clk ctx data s) = snd (transaction (create_product_in_transaction clk ctx data) s)"
    by (simp add: create_product_def)
  note keeps = create_product_keeps [OF _ assms]
  show "catalog_ok s \<Longrightarrow> catalog_ok (snd (create_product clk ctx data s))"
    unfolding eq by (rule transaction_preserves [where P = catalog_ok]) (blast intro: keeps(1))+
  show "stock_ok s \<Longrightarrow> stock_ok (snd (create_product clk ctx data s))"
    unfolding eq by (rule transaction_preserves [where P = stock_ok]) (blast intro: keeps(2))+
  show "grows s (snd (create_product clk ctx data s))"
    unfolding eq by (rule grows_transaction) (rule keeps(3))
  show "writes {T_products, T_movements} s (snd (create_product clk ctx data s))"
    unfolding eq by (rule writes_transaction) (rule keeps(4))
qed

text \<open>The bulk loop: each round creates one product.\<close>

lemma create_next_success:
  "create_next clk ctx data (s, ps) = Inr (s', ps') \<longleftrightarrow>
     (\<exists>p. create_product_in_transaction clk ctx data s = Inr (p, s') \<and> ps' = ps @ [p])"
  by (auto simp: create_next_def bindR_eq_Inr translated_eq_Inr)

lemma create_bulk_keeps:
  assumes "foldR (create_next clk ctx) items (s, ps) = Inr (s', ps')" and "fresh_ok s"
  shows "fresh_ok s' \<and> grows s s' \<and> writes {T_products, T_movements} s s'
    \<and> (catalog_ok s \<longrightarrow> catalog_ok s') \<and> (stock_ok s \<longrightarrow> stock_ok s')"
  using assms
proof (induction items arbitrary: s ps)
  case Nil
  then show ?case by simp
next
  case (Cons data items)
  then obtain p t where t: "create_product_in_transaction clk ctx data s = Inr (p, t)"
    and rest: "foldR (create_next clk ctx) items (t, ps @ [p]) = Inr (s', ps')"
    by (auto simp: bindR_eq_Inr create_next_success)
  note k = create_product_keeps [OF t Cons.prems(2)]
  have "fresh_ok t" by (rule grows_fresh_ok [OF k(3) Cons.prems(2)])
  from Cons.IH [OF rest this] k show ?case
    by (auto intro: grows_trans writes_trans)
qed

lemma create_products_bulk_body_success:
  "create_products_bulk_body clk ctx items s = Inr (ps, s') \<longleftrightarrow>
     foldR (create_next clk ctx) items (s, []) = Inr (s', ps)"
  by (auto simp: create_products_bulk_body_def bindR_eq_Inr)

lemma create_products_bulk_ops:
  assumes "fresh_ok s"
  shows "catalog_ok s \<Longrightarrow> catalog_ok (snd (create_products_bulk clk ctx items s))"
    and "stock_ok s \<Longrightarrow> stock_ok (snd (create_products_bulk clk ctx items s))"
    and "grows s (snd (create_products_bulk clk ctx items s))"
    and "writes {T_products, T_movements} s (snd (create_products_bulk clk ctx items s))"
proof -
  have eq: "snd (create_products_bulk clk ctx items s)
      = snd (transaction (create_products_bulk_body clk ctx items) s)"
    by (simp add: create_products_bulk_def)
  note keeps = create_bulk_keeps [OF create_products_bulk_body_success [THEN iffD1] assms]
  show "catalog_ok s \<Longrightarrow> catalog_ok (snd (create_products_bulk clk ctx items s))"
    unfolding eq by (rule transaction_preserves [where P = catalog_ok]) (blast dest: keeps)+
  show "stock_ok s \<Longrightarrow> stock_ok (snd (create_products_bulk clk ctx items s))"
    unfolding eq by (rule transaction_preserves [where P = stock_ok]) (blast dest: keeps)+
  show "grows s (snd (create_products_bulk clk ctx items s))"
    unfolding eq by (rule grows_transaction) (blast dest: keeps)
  show "writes {T_products, T_movements} s (snd (create_products_bulk clk ctx items s))"
    unfolding eq by (rule writes_transaction) (blast dest: keeps)
qed

text \<open>What a new product looks like: the row of the request, with the opening stock on it.\<close>

lemma create_product_row:
  assumes "create_product_in_transaction clk ctx data s = Inr (r, s')" and "fresh_ok s"
  shows "r = (product_of ctx data (new_id s))\<lparr>p_stock_quantity :=
      (case pc_opening_stock data of None \<Rightarrow> 0 | Some q \<Rightarrow> q)\<rparr>" (is "r = ?r")
    and "products s' = products s @ [r]"
proof -
  let ?p = "product_of ctx data (new_id s)"
  have ids: "p_id p \<noteq> new_id s" if "p \<in> set (products s)" for p
    using fresh_product_id [OF assms(2)] that by (metis imageI)
  have row: "product_row (new_id s) t = Some p"
    if "products t = products s @ [p]" "p_id p = new_id s" for t p
  proof -
    have "find (\<lambda>p. p_id p = new_id s) (products s) = None" using ids by (simp add: find_None_iff)
    then show ?thesis using that by (simp add: product_row_def find_append)
  qed
  have "r = ?r \<and> products s' = products s @ [r]"
    using assms(1)
  proof (rule create_product_success)
    assume *: "pc_opening_stock data = None" "s' = with_product ?p s" "product_row (new_id s) s' = Some r"
    have "product_row (new_id s) s' = Some ?p" by (rule row) (simp_all add: *(2) with_product_def)
    with * show ?thesis by (simp add: with_product_def product_of_def)
  next
    fix q cost m
    assume *: "pc_opening_stock data = Some q"
      "apply_movement clk ctx (new_id s) INITIAL q cost None None None None (with_product ?p s) = Inr (m, s')"
      "product_row (new_id s) s' = Some r"
    have t: "product_row (new_id s) (with_product ?p s) = Some ?p"
      by (rule row) (simp_all add: with_product_def)
    then have s': "s' = (drawn (set_stock (new_id s) q (with_product ?p s)))\<lparr>movements := movements s @ [m]\<rparr>"
      using *(2) by (auto simp: apply_movement_success with_product_def)
    have "update_where (\<lambda>p. p_id p = new_id s) (\<lambda>p. p\<lparr>p_stock_quantity := q\<rparr>) (products s) = products s"
      using ids by (rule update_where_none)
    then have prods: "products s' = products s @ [?p\<lparr>p_stock_quantity := q\<rparr>]"
      by (simp add: s' set_stock_def with_product_def)
    then have "product_row (new_id s) s' = Some (?p\<lparr>p_stock_quantity := q\<rparr>)" by (rule row) simp
    with * prods show ?thesis by simp
  qed
  then show "r = ?r" "products s' = products s @ [r]" by simp_all
qed

lemma create_bulk_rows:
  assumes "foldR (create_next clk ctx) items (s, ps) = Inr (s', ps')" and "fresh_ok s"
  shows "\<exists>new. ps' = ps @ new \<and> products s' = products s @ new
    \<and> map p_name new = map pc_name items
    \<and> (\<forall>p \<in> set new. p_business_id p = business_id ctx \<and> p_is_active p)
    \<and> map p_stock_quantity new = map (\<lambda>d. case pc_opening_stock d of None \<Rightarrow> 0 | Some q \<Rightarrow> q) items"
  using assms
proof (induction items arbitrary: s ps)
  case Nil
  then show ?case by simp
next
  case (Cons data items)
  then obtain p t where t: "create_product_in_transaction clk ctx data s = Inr (p, t)"
    and rest: "foldR (create_next clk ctx) items (t, ps @ [p]) = Inr (s', ps')"
    by (auto simp: bindR_eq_Inr create_next_success)
  have "fresh_ok t" by (rule grows_fresh_ok [OF create_product_keeps(3) [OF t Cons.prems(2)] Cons.prems(2)])
  from Cons.IH [OF rest this] obtain new where "ps' = (ps @ [p]) @ new" "products s' = products t @ new"
      "map p_name new = map pc_name items"
      "\<forall>p \<in> set new. p_business_id p = business_id ctx \<and> p_is_active p"
      "map p_stock_quantity new = map (\<lambda>d. case pc_opening_stock d of None \<Rightarrow> 0 | Some q \<Rightarrow> q) items"
    by blast
  with create_product_row [OF t Cons.prems(2)] show ?case
    by (intro exI [where x = "p # new"]) (auto split: option.splits)
qed

subsection \<open>Updating a product\<close>

lemma patched_simps [simp]:
  "p_id (patched data p) = p_id p" "p_business_id (patched data p) = p_business_id p"
  "p_stock_quantity (patched data p) = p_stock_quantity p"
  by (simp_all add: patched_def)

definition with_patched :: "uuid \<Rightarrow> product \<Rightarrow> db \<Rightarrow> db" where
  "with_patched pid p' s = s\<lparr>products := update_where (\<lambda>p. p_id p = pid) (\<lambda>_. p') (products s)\<rparr>"

text \<open>The audit rows of an update.\<close>

definition audited_update :: "BusinessContext \<Rightarrow> uuid \<Rightarrow> product \<Rightarrow> product \<Rightarrow> ClientInfo option \<Rightarrow> db \<Rightarrow> db" where
  "audited_update ctx pid p p' client s =
     (let s = (if snd (price_changes p p') = [] then s
               else audit_record ctx ''product.price_change'' ENTITY_TYPE pid (Some (fst (price_changes p p')))
                      (Some (snd (price_changes p p'))) client s) in
      if p_is_active p' = p_is_active p then s
      else audit_record ctx (if p_is_active p' then ''product.unarchive'' else ''product.archive'')
             ENTITY_TYPE pid (Some [(''is_active'', JBool (\<not> p_is_active p'))])
             (Some [(''is_active'', JBool (p_is_active p'))]) client s)"

lemma update_product_body_alt:
  "update_product_body ctx pid data client s =
     bindR (the_or NotFoundError (get_product (business_id ctx) pid s)) (\<lambda>p.
     bindR (case pu_category_id data of None \<Rightarrow> Inr () | Some c \<Rightarrow> ensure_category ctx c s) (\<lambda>_.
     bindR (check_untracking ctx data p s) (\<lambda>_.
     bindR (if patched data p = p then Inr () else flush_product (patched data p) s) (\<lambda>_.
     refreshed pid (audited_update ctx pid p (patched data p) client (with_patched pid (patched data p) s))))))"
  by (simp add: update_product_body_def audited_update_def with_patched_def Let_def split_beta)

lemma update_product_body_success:
  assumes "update_product_body ctx pid data client s = Inr (r, s')"
  obtains p where "get_product (business_id ctx) pid s = Some p"
    "pu_category_id data = None \<or> (\<exists>c. pu_category_id data = Some c \<and> ensure_category ctx c s = Inr ())"
    "check_untracking ctx data p s = Inr ()"
    "patched data p = p \<or> flush_product (patched data p) s = Inr ()"
    "s' = audited_update ctx pid p (patched data p) client (with_patched pid (patched data p) s)"
    "product_row pid s' = Some r"
  using assms
  by (auto simp: update_product_body_alt bindR_eq_Inr refreshed_success split: option.splits if_splits)

lemma audited_update_simps [simp]:
  "products (audited_update ctx pid p p' client s) = products s"
  "categories (audited_update ctx pid p p' client s) = categories s"
  "movements (audited_update ctx pid p p' client s) = movements s"
  by (simp_all add: audited_update_def Let_def)

lemma audited_update_frame:
  "stock_ok (audited_update ctx pid p p' client s) \<longleftrightarrow> stock_ok s"
  "catalog_ok (audited_update ctx pid p p' client s) \<longleftrightarrow> catalog_ok s"
  by (simp_all add: stock_ok_cong [of "audited_update ctx pid p p' client s" s]
      catalog_ok_cong [of "audited_update ctx pid p p' client s" s])

lemma audited_update_grows: "grows t s \<Longrightarrow> grows t (audited_update ctx pid p p' client s)"
  by (auto simp: audited_update_def Let_def intro!: grows_audit)

lemma audited_update_writes:
  "writes T t s \<Longrightarrow> T_audit_logs \<in> T \<Longrightarrow> writes T t (audited_update ctx pid p p' client s)"
  by (auto simp: audited_update_def Let_def intro!: writes_audit)

lemma with_patched_rows:
  assumes "distinct (map p_id (products s))" and "get_product bid pid s = Some p"
  shows "products (with_patched pid p' s) = map (\<lambda>q. if q = p then p' else q) (products s)"
proof -
  have "p_id q = pid \<longleftrightarrow> q = p" if "q \<in> set (products s)" for q
    using distinct_mapD [OF assms(1) that, of p] get_product_SomeD [OF assms(2)] by auto
  then show ?thesis by (simp add: with_patched_def update_where_def cong: map_cong)
qed

lemma check_untracking_ok:
  "check_untracking ctx data p s = Inr u \<longleftrightarrow>
     (pu_track_inventory data = Some False \<and> p_track_inventory p \<longrightarrow>
        p_stock_quantity p = 0 \<and> count_movements_for_product (business_id ctx) (p_id p) s = 0)"
  by (auto simp: check_untracking_def bindR_eq_Inr)

lemma update_product_stock_ok:
  assumes ok: "stock_ok s" and body: "update_product_body ctx pid data client s = Inr (r, s')"
  shows "stock_ok s'"
  using body
proof (rule update_product_body_success)
  fix p
  assume p: "get_product (business_id ctx) pid s = Some p" and un: "check_untracking ctx data p s = Inr ()"
    and s': "s' = audited_update ctx pid p (patched data p) client (with_patched pid (patched data p) s)"
  let ?t = "with_patched pid (patched data p) s"
  have dist: "distinct (map p_id (products s))" using ok by (simp add: stock_ok_def)
  have p': "p_id p = pid" "p_business_id p = business_id ctx" "p \<in> set (products s)"
    using get_product_SomeD [OF p] by simp_all
  have rows: "products ?t = map (\<lambda>q. if q = p then patched data p else q) (products s)"
    by (rule with_patched_rows [OF dist p])
  have ms: "movements ?t = movements s" by (simp add: with_patched_def)
  have "stock_account s p" using ok p'(3) by (simp add: stock_ok_def)
  moreover have "p_track_inventory (patched data p) \<or> stock_entries s pid = []"
  proof (cases "p_track_inventory p \<and> \<not> p_track_inventory (patched data p)")
    case True
    then have none: "count_movements_for_product (business_id ctx) pid s = 0"
      using un p'(1) by (auto simp: check_untracking_ok patched_def split: option.splits)
    have "m_business_id m = business_id ctx" if m: "m \<in> set (movements s)" "m_product_id m = pid" for m
    proof -
      from ok m obtain q where q: "q \<in> set (products s)" "p_id q = pid" "p_business_id q = m_business_id m"
        by (auto simp: stock_ok_def)
      with distinct_mapD [OF dist q(1) p'(3)] p' show ?thesis by simp
    qed
    with none show ?thesis by (auto simp: count_movements_for_product_def stock_entries_def filter_empty_conv)
  next
    case False
    with \<open>stock_account s p\<close> p'(1) show ?thesis by (auto simp: stock_account_def)
  qed
  ultimately have "stock_account ?t (patched data p)"
    using p'(1) by (simp add: stock_account_def stock_entries_def ms)
  moreover have "stock_account ?t q \<longleftrightarrow> stock_account s q" for q
    by (simp add: stock_account_def stock_entries_def ms)
  ultimately have "\<forall>q \<in> set (products ?t). stock_account ?t q"
    using ok by (auto simp: rows stock_ok_def)
  moreover have "map p_id (products ?t) = map p_id (products s)"
    and keep: "map (\<lambda>q. (p_id q, p_business_id q)) (products ?t) = map (\<lambda>q. (p_id q, p_business_id q)) (products s)"
    by (simp_all add: rows)
  moreover have "\<exists>q \<in> set (products ?t). p_id q = m_product_id m \<and> p_business_id q = m_business_id m"
    if "m \<in> set (movements s)" for m
  proof -
    from ok that have "(m_product_id m, m_business_id m) \<in> set (map (\<lambda>q. (p_id q, p_business_id q)) (products s))"
      by (force simp: stock_ok_def)
    then show ?thesis unfolding keep [symmetric] by auto
  qed
  ultimately have "stock_ok ?t" using ok by (simp add: stock_ok_def ms)
  then show ?thesis by (simp add: s' audited_update_frame)
qed

lemma update_product_catalog_ok:
  assumes ok: "catalog_ok s" and body: "update_product_body ctx pid data client s = Inr (r, s')"
  shows "catalog_ok s'"
  using body
proof (rule update_product_body_success)
  fix p
  assume p: "get_product (business_id ctx) pid s = Some p"
    and cat: "pu_category_id data = None \<or> (\<exists>c. pu_category_id data = Some c \<and> ensure_category ctx c s = Inr ())"
    and flush: "patched data p = p \<or> flush_product (patched data p) s = Inr ()"
    and s': "s' = audited_update ctx pid p (patched data p) client (with_patched pid (patched data p) s)"
  let ?p' = "patched data p"
  let ?t = "with_patched pid ?p' s"
  have dist: "distinct (map p_id (products s))" using ok by (simp add: catalog_ok_def)
  have p': "p_id p = pid" "p_business_id p = business_id ctx" "p \<in> set (products s)"
    using get_product_SomeD [OF p] by simp_all
  have rows: "products ?t = map (\<lambda>q. if q = p then ?p' else q) (products s)"
    by (rule with_patched_rows [OF dist p])
  have lab: "labelled (categories s) ?p'"
  proof (cases "pu_category_id data")
    case None
    then show ?thesis using ok p'(3) by (auto simp: catalog_ok_def labelled_def patched_def)
  next
    case (Some c)
    with cat p'(2) show ?thesis
      by (intro ensure_category_labelled [of ctx _ s "()"]) (auto simp: patched_def)
  qed
  have "catalog_ok ?t"
  proof (cases "?p' = p")
    case True
    have "products ?t = products s" unfolding rows using True by (simp add: map_idI)
    with ok show ?thesis by (simp add: catalog_ok_def with_patched_def)
  next
    case False
    with flush have nt: "\<not> taken name_key ?p' (products s)" "\<not> taken sku_key ?p' (products s)"
      "\<not> taken barcode_key ?p' (products s)" by (simp_all add: flush_product_ok)
    have un: "key_unique k (products ?t)" if "key_unique k (products s)" "\<not> taken k ?p' (products s)"
      for k :: "product \<Rightarrow> (uuid \<times> string) option"
      using that dist p'(1) unfolding with_patched_def
      by (simp, intro key_unique_update_one) (auto simp: not_taken)
    have "map p_id (products ?t) = map p_id (products s)" by (simp add: rows)
    then have "distinct (map p_id (products ?t))" using dist by simp
    moreover have "\<forall>q \<in> set (products ?t). labelled (categories s) q"
      using ok lab by (auto simp: rows catalog_ok_def)
    ultimately show ?thesis
      using ok un nt by (simp add: catalog_ok_def) (simp add: with_patched_def)
  qed
  then show ?thesis by (simp add: s' audited_update_frame)
qed

lemma with_patched_writes: "writes {T_products, T_audit_logs} s (with_patched pid p s)"
  by (simp add: writes_def with_patched_def)

lemma update_product_writes:
  "update_product_body ctx pid data client s = Inr (r, s') \<Longrightarrow> writes {T_products, T_audit_logs} s s'"
  by (erule update_product_body_success) (simp add: audited_update_writes with_patched_writes)

lemma update_product_grows:
  assumes "update_product_body ctx pid data client s = Inr (r, s')"
  shows "grows s s'"
  using assms
proof (rule update_product_body_success)
  fix p
  assume p: "get_product (business_id ctx) pid s = Some p"
    and s': "s' = audited_update ctx pid p (patched data p) client (with_patched pid (patched data p) s)"
  have "p_id ` set (products (with_patched pid (patched data p) s)) = p_id ` set (products s)"
    unfolding with_patched_def using get_product_SomeD [OF p] by (simp, intro image_update_where) simp
  then have "known_ids (with_patched pid (patched data p) s) = known_ids s"
    by (simp add: known_ids_def with_patched_def)
  then have "grows s (with_patched pid (patched data p) s)" by (simp add: grows_def with_patched_def)
  then show ?thesis unfolding s' by (rule audited_update_grows)
qed

lemma snd_update_product [simp]:
  "snd (update_product ctx pid data client s) = snd (transaction (update_product_body ctx pid data client) s)"
  by (simp add: update_product_def)

lemma update_product_ops:
  shows "catalog_ok s \<Longrightarrow> catalog_ok (snd (update_product ctx pid data client s))"
    and "stock_ok s \<Longrightarrow> stock_ok (snd (update_product ctx pid data client s))"
    and "grows s (snd (update_product ctx pid data client s))"
    and "writes {T_products, T_audit_logs} s (snd (update_product ctx pid data client s))"
  unfolding snd_update_product
proof -
  let ?s' = "snd (transaction (update_product_body ctx pid data client) s)"
  show "catalog_ok s \<Longrightarrow> catalog_ok ?s'"
    by (rule transaction_preserves [where P = catalog_ok]) (blast intro: update_product_catalog_ok)+
  show "stock_ok s \<Longrightarrow> stock_ok ?s'"
    by (rule transaction_preserves [where P = stock_ok]) (blast intro: update_product_stock_ok)+
  show "grows s ?s'" by (rule grows_transaction) (rule update_product_grows)
  show "writes {T_products, T_audit_logs} s ?s'" by (rule writes_transaction) (rule update_product_writes)
qed

lemma price_changes_empty:
  "snd (price_changes p p') = [] \<longleftrightarrow> p_selling_price p' = p_selling_price p \<and> p_cost_price p' = p_cost_price p"
  by (auto simp: price_changes_def Let_def)

lemma audited_update_logs:
  "(\<exists>a \<in> set (drop (length (audit_logs s)) (audit_logs (audited_update ctx pid p p' client s))).
      al_action a = ''product.price_change'')
    \<longleftrightarrow> p_selling_price p' \<noteq> p_selling_price p \<or> p_cost_price p' \<noteq> p_cost_price p"
  by (auto simp: audited_update_def audit_record_def Let_def price_changes_empty)

lemma audit_logs_with_patched [simp]: "audit_logs (with_patched pid p s) = audit_logs s"
  by (simp add: with_patched_def)

lemma product_row_audited_update [simp]:
  "product_row q (audited_update ctx pid p p' client s) = product_row q s"
  by (simp add: product_row_def)

lemma product_row_with_patched:
  assumes "distinct (map p_id (products s))" and "get_product bid pid s = Some p" and "p_id p' = pid"
  shows "product_row q (with_patched pid p' s) = (if q = pid then Some p' else product_row q s)"
proof -
  have row: "product_row pid s = Some p" by (rule get_product_row [OF assms(1,2)])
  have "product_row q (with_patched pid p' s)
      = map_option (\<lambda>r. if p_id r = pid then p' else r) (product_row q s)"
    unfolding product_row_def with_patched_def using assms(3) by (simp add: find_update_where)
  with row show ?thesis by (cases "product_row q s") (auto dest: product_row_SomeD)
qed

lemma matches_prefix_iff:
  "matches_prefix query p \<longleftrightarrow> prefix (py_lower query) (py_lower (p_name p))
     \<or> (\<exists>k. p_sku p = Some k \<and> prefix (py_lower query) (py_lower k))
     \<or> (\<exists>k. p_barcode p = Some k \<and> prefix (py_lower query) (py_lower k))"
  by (cases "p_sku p"; cases "p_barcode p") (simp_all add: matches_prefix_def like_prefix)

subsection \<open>Claims\<close>

text \<open>the setup wizard is all or nothing. Either every requested product is created, in order, active, in
  the caller's business, with its opening stock on the cache, after the existing rows, or nothing is
  written; and a clash of name, SKU or barcode is never reported as a raw database error.\<close>

theorem create_products_bulk_all_or_nothing:
  assumes "fresh_ok s" and "create_products_bulk clk ctx items s = (r, s')"
  shows "(case r of
      Inl e \<Rightarrow> s' = s \<and> e \<noteq> IntegrityError uq_products_business_id_lower_name_active
        \<and> e \<noteq> IntegrityError uq_products_business_id_sku
        \<and> e \<noteq> IntegrityError uq_products_business_id_barcode
    | Inr new \<Rightarrow> products s' = products s @ new \<and> map p_name new = map pc_name items
        \<and> (\<forall>p \<in> set new. p_business_id p = business_id ctx \<and> p_is_active p)
        \<and> map p_stock_quantity new
          = map (\<lambda>d. case pc_opening_stock d of None \<Rightarrow> 0 | Some q \<Rightarrow> q) items)"
proof (cases "create_products_bulk_body clk ctx items s")
  case (Inl e)
  moreover have "translate e \<noteq> IntegrityError uq_products_business_id_lower_name_active"
    "translate e \<noteq> IntegrityError uq_products_business_id_sku"
    "translate e \<noteq> IntegrityError uq_products_business_id_barcode"
    by (cases e rule: translate.cases; simp)+
  ultimately show ?thesis using assms(2) by (auto simp: create_products_bulk_def transaction_def)
next
  case (Inr out)
  then obtain new t where out: "create_products_bulk_body clk ctx items s = Inr (new, t)" by (cases out) simp
  then have "r = Inr new" "s' = t" using assms(2) by (auto simp: create_products_bulk_def transaction_def)
  with create_bulk_rows [OF out [unfolded create_products_bulk_body_success] assms(1)] show ?thesis by auto
qed

definition demo_new_product :: "string \<Rightarrow> quantity option \<Rightarrow> ProductCreateRequest" where
  "demo_new_product name opening = \<lparr>pc_name = name, pc_category_id = None, pc_sku = None, pc_barcode = None,
     pc_unit = ''PIECE'', pc_selling_price = 10000, pc_cost_price = Some 8000, pc_track_inventory = True,
     pc_low_stock_threshold = None, pc_opening_stock = opening, pc_opening_unit_cost = None\<rparr>"

theorem create_products_bulk_all_or_nothing_witness:
  "(case create_products_bulk demo_clock demo_owner
        [demo_new_product ''Unga'' (Some 5000), demo_new_product ''Sugar'' None] (empty_db id) of
      (r, s') \<Rightarrow> (\<exists>new. r = Inr new \<and> map p_stock_quantity new = [5000, 0] \<and> products s' = new))
   \<and> (case create_products_bulk demo_clock demo_owner
        [demo_new_product ''Unga'' (Some 5000), demo_new_product ''UNGA'' None] (empty_db id) of
      (r, s') \<Rightarrow> r = Inl (ConflictError ''PRODUCT_NAME_EXISTS'') \<and> s' = empty_db id)"
proof -
  let ?good = "[demo_new_product ''Unga'' (Some 5000), demo_new_product ''Sugar'' None]"
  let ?bad = "[demo_new_product ''Unga'' (Some 5000), demo_new_product ''UNGA'' None]"
  have fresh: "fresh_ok (empty_db id)" by (rule empty_db_fresh)
  have good: "\<not> isl (fst (create_products_bulk demo_clock demo_owner ?good (empty_db id)))" by code_simp
  have bad: "fst (create_products_bulk demo_clock demo_owner ?bad (empty_db id))
      = Inl (ConflictError ''PRODUCT_NAME_EXISTS'')" by code_simp
  have sums: "map (\<lambda>d. case pc_opening_stock d of None \<Rightarrow> 0 | Some q \<Rightarrow> q) ?good = [5000, 0]"
    by (simp add: demo_new_product_def)
  show ?thesis
    using create_products_bulk_all_or_nothing [OF fresh, of demo_clock demo_owner ?good]
      create_products_bulk_all_or_nothing [OF fresh, of demo_clock demo_owner ?bad] good bad sums
    by (auto simp: empty_db_def split: sum.splits prod.splits)
qed

text \<open>editing a product never changes a stock quantity, a movement, a sale or another product; a
  product with movements stays tracked, so its sales can still be voided; and the edit adds a
  \<open>product.price_change\<close> audit row exactly when the selling or the cost price changed.\<close>

theorem update_product_keeps_history:
  assumes "stock_ok s" and "update_product ctx pid data client s = (r, s')"
  shows "(case r of
      Inl e \<Rightarrow> s' = s
    | Inr p' \<Rightarrow> \<exists>p. get_product (business_id ctx) pid s = Some p \<and> p' = patched data p
        \<and> (\<forall>q. product_row q s' = (if q = pid then Some p' else product_row q s))
        \<and> (\<forall>q. stock_of s' q = stock_of s q)
        \<and> movements s' = movements s \<and> sales s' = sales s \<and> sale_items s' = sale_items s
        \<and> (p_track_inventory p \<and> stock_entries s pid \<noteq> [] \<longrightarrow> p_track_inventory p')
        \<and> ((\<exists>a \<in> set (drop (length (audit_logs s)) (audit_logs s')). al_action a = ''product.price_change'')
           \<longleftrightarrow> p_selling_price p' \<noteq> p_selling_price p \<or> p_cost_price p' \<noteq> p_cost_price p))"
proof (cases "update_product_body ctx pid data client s")
  case (Inl e)
  then show ?thesis using assms(2) by (auto simp: update_product_def transaction_def)
next
  case (Inr out)
  then obtain p' where body: "update_product_body ctx pid data client s = Inr (p', s')" and r: "r = Inr p'"
    using assms(2) by (cases out) (auto simp: update_product_def transaction_def)
  have dist: "distinct (map p_id (products s))" using assms(1) by (simp add: stock_ok_def)
  have ok': "stock_ok s'" by (rule update_product_stock_ok [OF assms(1) body])
  from body show ?thesis
  proof (rule update_product_body_success)
    fix p
    assume p: "get_product (business_id ctx) pid s = Some p"
      and s': "s' = audited_update ctx pid p (patched data p) client (with_patched pid (patched data p) s)"
      and row: "product_row pid s' = Some p'"
    have "p_id (patched data p) = pid" using get_product_SomeD [OF p] by simp
    note rows = product_row_with_patched [OF dist p this]
    have p': "p' = patched data p" using row by (simp add: s' rows)
    have "stock_of s' q = stock_of s q" for q
      using get_product_row [OF dist p] by (simp add: stock_of_def s' rows)
    moreover have "movements s' = movements s" "sales s' = sales s" "sale_items s' = sale_items s"
      using update_product_writes [OF body] by (simp_all add: writes_def)
    moreover from this have "p_track_inventory p'" if "stock_entries s pid \<noteq> []"
      using ok' row that by (auto simp: stock_ok_def stock_account_def stock_entries_def dest: product_row_SomeD)
    ultimately show ?thesis
      using p p' audited_update_logs [of "with_patched pid (patched data p) s" ctx pid p "patched data p" client]
      by (simp add: r s' rows)
  qed
qed

definition demo_stall :: db where
  "demo_stall = snd (create_product demo_clock demo_owner (demo_new_product ''Unga'' (Some 5000)) (empty_db id))"

definition demo_patch :: ProductUpdateRequest where
  "demo_patch = \<lparr>pu_name = None, pu_category_id = None, pu_sku = Some (Some ''U1''), pu_barcode = None,
     pu_unit = None, pu_selling_price = Some 12000, pu_cost_price = None, pu_track_inventory = None,
     pu_low_stock_threshold = None, pu_is_active = None\<rparr>"

lemma demo_stall_stock_ok: "stock_ok demo_stall"
  unfolding demo_stall_def
  by (rule create_product_ops(2) [OF empty_db_fresh]) (simp add: stock_ok_def empty_db_def)

theorem update_product_keeps_history_witness:
  "(case update_product demo_owner 0 demo_patch None demo_stall of (r, s') \<Rightarrow>
      (\<exists>p'. r = Inr p' \<and> p_selling_price p' = 12000 \<and> p_sku p' = Some ''U1'' \<and> stock_of s' 0 = 5000
         \<and> (\<exists>a \<in> set (drop (length (audit_logs demo_stall)) (audit_logs s')). al_action a = ''product.price_change'')))"
proof -
  obtain r s' where out: "update_product demo_owner 0 demo_patch None demo_stall = (r, s')" by force
  have "\<not> isl (fst (update_product demo_owner 0 demo_patch None demo_stall))" by code_simp
  then obtain p' where r: "r = Inr p'" by (cases r) (simp_all add: out)
  have "map_option p_selling_price (get_product (business_id demo_owner) 0 demo_stall) = Some 10000" by code_simp
  moreover have "stock_of demo_stall 0 = 5000" by code_simp
  moreover have "patched demo_patch p = p\<lparr>p_sku := Some ''U1'', p_selling_price := 12000\<rparr>" for p
    by (simp add: demo_patch_def patched_def)
  ultimately show ?thesis
    using update_product_keeps_history [OF demo_stall_stock_ok out] by (auto simp: out r)
qed

text \<open>searching the catalogue finds exactly the products of the caller's business (archived ones only when
  asked for, of the given category when one is given) whose name, SKU or barcode starts with the
  query in any letter case; a query with \<open>LIKE\<close> wildcards in it is taken literally. (When more products match
  than the page holds, the page is cut.)\<close>

theorem list_products_finds:
  assumes "list_products collate ctx (Some query) cid include_archived limit s = Inr found"
    and "query \<noteq> []" and "length (products s) \<le> min limit PRODUCT_LIST_LIMIT"
  shows "p \<in> set found \<longleftrightarrow>
     p \<in> set (products s) \<and> p_business_id p = business_id ctx \<and> (include_archived \<or> p_is_active p)
     \<and> (case cid of None \<Rightarrow> True | Some c \<Rightarrow> p_category_id p = Some c)
     \<and> (prefix (py_lower query) (py_lower (p_name p))
        \<or> (\<exists>k. p_sku p = Some k \<and> prefix (py_lower query) (py_lower k))
        \<or> (\<exists>k. p_barcode p = Some k \<and> prefix (py_lower query) (py_lower k)))"
proof -
  have "found = repo_list_products collate (business_id ctx) (Some query) cid include_archived limit s"
    using assms(1) by (simp add: list_products_def bindR_eq_Inr)
  moreover have "length (filter P (products s)) \<le> min limit PRODUCT_LIST_LIMIT" for P
    using assms(3) length_filter_le [of P "products s"] by linarith
  ultimately show ?thesis
    using assms(2) by (cases cid) (auto simp: repo_list_products_def truthy_def matches_prefix_iff)
qed

theorem list_products_finds_witness:
  "\<exists>found. list_products (\<lambda>n. int (length n)) demo_owner (Some ''un'') None False 50 demo_stall = Inr found
     \<and> map p_name found = [''Unga'']
     \<and> list_products (\<lambda>n. int (length n)) demo_owner (Some ''%'') None False 50 demo_stall = Inr []"
proof -
  obtain found where found: "list_products (\<lambda>n. int (length n)) demo_owner (Some ''un'') None False 50 demo_stall
      = Inr found"
    by (simp add: list_products_def ensure_category_def)
  have "map_sum (\<lambda>_. ()) (map p_name) (list_products (\<lambda>n. int (length n)) demo_owner (Some ''un'') None False 50 demo_stall)
      = Inr [''Unga'']" by code_simp
  moreover have "list_products (\<lambda>n. int (length n)) demo_owner (Some ''%'') None False 50 demo_stall = Inr []"
    by code_simp
  moreover have "length (products demo_stall) \<le> min 50 PRODUCT_LIST_LIMIT" by code_simp
  ultimately show ?thesis using found list_products_finds [OF found] by auto
qed

end
