(* ===== verification/Calendar.thy ===== *)
theory Calendar
  imports Prelude
begin

text \<open>
  The proleptic Gregorian calendar of Python's \<open>datetime\<close> module, as far as the backend uses it. A \<open>date\<close>
  is its ordinal (1 January of year 1 is 1), \<open>ord2ymd\<close> and \<open>ymd2ord\<close> are the conversions of
  \<open>date.fromordinal\<close> and \<open>date.toordinal\<close>. The main fact is that the conversions are inverse to each
  other on every ordinal, which is what \<open>date.replace(day=1)\<close> rests on.
\<close>

type_synonym date = int

definition leap_year :: "int \<Rightarrow> bool" where
  "leap_year y \<longleftrightarrow> y mod 4 = 0 \<and> (y mod 100 \<noteq> 0 \<or> y mod 400 = 0)"

definition days_in_month :: "int \<Rightarrow> int \<Rightarrow> int" where
  "days_in_month y m = (if m = 2 then if leap_year y then 29 else 28 else if m \<in> {4, 6, 9, 11} then 30 else 31)"

definition days_before_year :: "int \<Rightarrow> int" where
  "days_before_year y = (let n = y - 1 in n * 365 + n div 4 - n div 100 + n div 400)"

fun days_before_months :: "nat \<Rightarrow> int" where
  "days_before_months m = [0, 0, 31, 59, 90, 120, 151, 181, 212, 243, 273, 304, 334] ! m"

definition days_before_month :: "int \<Rightarrow> int \<Rightarrow> int" where
  "days_before_month y m = days_before_months (nat m) + (if 2 < m \<and> leap_year y then 1 else 0)"

definition ymd2ord :: "int \<Rightarrow> int \<Rightarrow> int \<Rightarrow> date" where
  "ymd2ord y m d = days_before_year y + days_before_month y m + d"

text \<open>Month and day of a year from the number of days that went before in that year.\<close>

definition month_day :: "bool \<Rightarrow> int \<Rightarrow> int \<times> int" where
  "month_day leap n =
     (let m = (n + 50) div 32;
          preceding = days_before_months (nat m) + (if 2 < m \<and> leap then 1 else 0) in
      if preceding > n
      then let m = m - 1 in (m, n - (days_before_months (nat m) + (if 2 < m \<and> leap then 1 else 0)) + 1)
      else (m, n - preceding + 1))"

definition ord2ymd :: "date \<Rightarrow> int \<times> int \<times> int" where
  "ord2ymd ordinal =
     (let n = ordinal - 1;
          n400 = n div 146097; n = n mod 146097;
          n100 = n div 36524; n = n mod 36524;
          n4 = n div 1461; n = n mod 1461;
          n1 = n div 365; n = n mod 365;
          year = n400 * 400 + 1 + n100 * 100 + n4 * 4 + n1 in
      if n1 = 4 \<or> n100 = 4 then (year - 1, 12, 31)
      else let (m, d) = month_day (n1 = 3 \<and> (n4 \<noteq> 24 \<or> n100 = 3)) n in (year, m, d))"

text \<open>Monday is 0.\<close>

definition weekday :: "date \<Rightarrow> int" where
  "weekday d = (d + 6) mod 7"

definition MAXORDINAL :: date where
  "MAXORDINAL = 3652059"

definition first_of_month :: "date \<Rightarrow> date" where
  "first_of_month day = (case ord2ymd day of (y, m, d) \<Rightarrow> ymd2ord y m 1)"

subsection \<open>Laws\<close>

lemma month_day_bounds:
  assumes "0 \<le> n" "n < (if leap then 366 else 365)" and "month_day leap n = (m, d)"
  shows "1 \<le> m" "m \<le> 12" "1 \<le> d" "d \<le> 31"
    "n + 1 = days_before_months (nat m) + (if 2 < m \<and> leap then 1 else 0) + d"
proof -
  have "(n + 50) div 32 \<in> {1..12}" using assms(1,2) by (auto split: if_splits)
  then have "(n + 50) div 32 \<in> set [1..12]" by simp
  then have "1 \<le> m \<and> m \<le> 12 \<and> 1 \<le> d \<and> d \<le> 31
      \<and> n + 1 = days_before_months (nat m) + (if 2 < m \<and> leap then 1 else 0) + d"
    using assms by (auto simp: month_day_def Let_def upto_rec1 nat_numeral split: if_splits)
  then show "1 \<le> m" "m \<le> 12" "1 \<le> d" "d \<le> 31"
    "n + 1 = days_before_months (nat m) + (if 2 < m \<and> leap then 1 else 0) + d" by auto
qed

lemma days_before_year_parts:
  assumes "0 \<le> b" "b \<le> 3" "0 \<le> c" "c \<le> 24" "0 \<le> e" "e \<le> 3"
  shows "days_before_year (a * 400 + 1 + b * 100 + c * 4 + e) = a * 146097 + b * 36524 + c * 1461 + e * 365"
proof -
  let ?n = "a * 400 + b * 100 + c * 4 + e"
  have "?n div 4 = a * 100 + b * 25 + c" by (rule int_div_pos_eq [of _ _ _ e]) (use assms in simp_all)
  moreover have "?n div 100 = a * 4 + b"
    by (rule int_div_pos_eq [of _ _ _ "c * 4 + e"]) (use assms in simp_all)
  moreover have "?n div 400 = a"
    by (rule int_div_pos_eq [of _ _ _ "b * 100 + c * 4 + e"]) (use assms in simp_all)
  ultimately show ?thesis by (simp add: days_before_year_def Let_def algebra_simps)
qed

lemma leap_year_parts:
  assumes "0 \<le> b" "b \<le> 3" "0 \<le> c" "c \<le> 24" "0 \<le> e" "e \<le> 3"
  shows "leap_year (a * 400 + 1 + b * 100 + c * 4 + e) \<longleftrightarrow> e = 3 \<and> (c \<noteq> 24 \<or> b = 3)"
proof -
  define k where "k = c * 4 + e + 1"
  let ?y = "a * 400 + 1 + b * 100 + c * 4 + e"
  have y: "?y = 4 * (a * 100 + b * 25 + c) + (e + 1)" "?y = 100 * (a * 4 + b) + k"
      "?y = 400 * a + (b * 100 + k)" "1 \<le> k" "k \<le> 100"
    using assms by (simp_all add: k_def)
  have "?y mod 4 = 0 \<longleftrightarrow> e = 3"
    unfolding y(1) mod_mult_self4 using assms by (cases "e = 3") simp_all
  moreover have "?y mod 100 = 0 \<longleftrightarrow> k = 100"
    unfolding y(2) mod_mult_self4 using y(4,5) by (cases "k = 100") simp_all
  moreover have "?y mod 400 = 0 \<longleftrightarrow> b = 3 \<and> k = 100"
  proof (cases "b = 3 \<and> k = 100")
    case False
    then have "b * 100 + k < 400" using assms y(5) by linarith
    with False assms y(4) show ?thesis unfolding y(3) mod_mult_self4 by (simp add: mod_pos_pos_trivial)
  next
    case True
    then show ?thesis unfolding y(3) mod_mult_self4 by simp
  qed
  moreover have "k = 100 \<longleftrightarrow> c = 24 \<and> e = 3" using assms unfolding k_def by linarith
  ultimately show ?thesis by (auto simp: leap_year_def)
qed

text \<open>The position of a day in its 400-year cycle.\<close>

lemma cycle_parts:
  fixes n :: int
  obtains a b c e r where "n = a * 146097 + b * 36524 + c * 1461 + e * 365 + r"
    "a = n div 146097" "b = n mod 146097 div 36524" "c = n mod 146097 mod 36524 div 1461"
    "e = n mod 146097 mod 36524 mod 1461 div 365" "r = n mod 146097 mod 36524 mod 1461 mod 365"
    "0 \<le> b" "b \<le> 4" "0 \<le> c" "c \<le> 24" "0 \<le> e" "e \<le> 4" "0 \<le> r" "r < 365"
    "b = 4 \<longrightarrow> c = 0 \<and> e = 0 \<and> r = 0" "e = 4 \<longrightarrow> r = 0 \<and> (c = 24 \<longrightarrow> b = 4)"
proof -
  define m where "m = n mod 146097"
  define k where "k = m mod 36524"
  define j where "j = k mod 1461"
  have m: "0 \<le> m" "m < 146097" and k: "0 \<le> k" "k < 36524" and j: "0 \<le> j" "j < 1461"
    by (simp_all add: m_def k_def j_def)
  have parts: "n = n div 146097 * 146097 + m" "m = m div 36524 * 36524 + k" "k = k div 1461 * 1461 + j"
      "j = j div 365 * 365 + j mod 365"
    by (simp_all add: m_def k_def j_def)
  have n: "n = n div 146097 * 146097 + m div 36524 * 36524 + k div 1461 * 1461 + j div 365 * 365 + j mod 365"
    using parts by linarith
  have bnd: "0 \<le> m div 36524" "m div 36524 \<le> 4" "0 \<le> k div 1461" "k div 1461 \<le> 24"
      "0 \<le> j div 365" "j div 365 \<le> 4" "0 \<le> j mod 365" "j mod 365 < 365"
    using m k j by linarith+
  have "k = 0" if "m div 36524 = 4" using that m parts(2) k by linarith
  then have b4: "m div 36524 = 4 \<longrightarrow> k div 1461 = 0 \<and> j div 365 = 0 \<and> j mod 365 = 0"
    by (simp add: j_def)
  have "j mod 365 = 0" if "j div 365 = 4" using that j parts(4) by linarith
  moreover have "j div 365 \<noteq> 4" if "k div 1461 = 24" using that k parts(3) j by linarith
  ultimately have e4: "j div 365 = 4 \<longrightarrow> j mod 365 = 0 \<and> (k div 1461 = 24 \<longrightarrow> m div 36524 = 4)" by blast
  show ?thesis
    by (rule that [OF n refl _ _ _ _ bnd b4 e4]) (simp_all only: m_def k_def j_def)
qed

theorem ord2ymd_inverse:
  assumes "ord2ymd n = (y, m, d)"
  shows "ymd2ord y m d = n" "1 \<le> m" "m \<le> 12" "1 \<le> d" "d \<le> 31"
proof -
  obtain a b c e r where n: "n - 1 = a * 146097 + b * 36524 + c * 1461 + e * 365 + r"
    and defs: "a = (n - 1) div 146097" "b = (n - 1) mod 146097 div 36524"
      "c = (n - 1) mod 146097 mod 36524 div 1461"
      "e = (n - 1) mod 146097 mod 36524 mod 1461 div 365" "r = (n - 1) mod 146097 mod 36524 mod 1461 mod 365"
    and bnd: "0 \<le> b" "b \<le> 4" "0 \<le> c" "c \<le> 24" "0 \<le> e" "e \<le> 4" "0 \<le> r" "r < 365"
      "b = 4 \<longrightarrow> c = 0 \<and> e = 0 \<and> r = 0" "e = 4 \<longrightarrow> r = 0 \<and> (c = 24 \<longrightarrow> b = 4)"
    by (rule cycle_parts)
  let ?y = "a * 400 + 1 + b * 100 + c * 4 + e"
  have ymd: "(y, m, d) = (if e = 4 \<or> b = 4 then (?y - 1, 12, 31)
      else (?y, month_day (e = 3 \<and> (c \<noteq> 24 \<or> b = 3)) r))"
    using assms by (simp add: ord2ymd_def Let_def defs [symmetric] split_beta split: if_splits)
  have "ymd2ord y m d = n \<and> 1 \<le> m \<and> m \<le> 12 \<and> 1 \<le> d \<and> d \<le> 31"
  proof (cases "e = 4 \<or> b = 4")
    case True
    define b' where "b' = (if b = 4 then 3 else b)"
    define c' where "c' = (if b = 4 then 24 else c)"
    have b': "0 \<le> b'" "b' \<le> 3" "0 \<le> c'" "c' \<le> 24" "c' \<noteq> 24 \<or> b' = 3"
      and y: "y = a * 400 + 1 + b' * 100 + c' * 4 + 3" and md: "m = 12" "d = 31"
      and n': "n = a * 146097 + b' * 36524 + c' * 1461 + 3 * 365 + 366"
      using True ymd bnd n by (auto simp: b'_def c'_def)
    have "days_before_year y = a * 146097 + b' * 36524 + c' * 1461 + 3 * 365" "leap_year y"
      using days_before_year_parts [of b' c' 3 a] leap_year_parts [of b' c' 3 a] b' by (simp_all add: y)
    then show ?thesis
      by (simp add: n' md ymd2ord_def days_before_month_def)
  next
    case False
    then have bnd': "b \<le> 3" "e \<le> 3" using bnd by auto
    have y: "y = ?y" and md: "month_day (leap_year y) r = (m, d)"
      using False ymd leap_year_parts [of b c e a] bnd bnd' by auto
    have "days_before_year y = n - 1 - r" using y n days_before_year_parts [of b c e a] bnd bnd' by simp
    moreover have "r < (if leap_year y then 366 else 365)" using bnd by simp
    note month_day_bounds [OF bnd(7) this md]
    ultimately show ?thesis unfolding ymd2ord_def days_before_month_def by linarith
  qed
  then show "ymd2ord y m d = n" "1 \<le> m" "m \<le> 12" "1 \<le> d" "d \<le> 31" by simp_all
qed

lemma first_of_month_bounds: "first_of_month d \<le> d" "d - first_of_month d \<le> 30"
proof -
  obtain y m k where k: "ord2ymd d = (y, m, k)" by (metis prod_cases3)
  have "first_of_month d = d - k + 1"
    using ord2ymd_inverse(1) [OF k] by (simp add: first_of_month_def k ymd2ord_def)
  with ord2ymd_inverse(4,5) [OF k] show "first_of_month d \<le> d" "d - first_of_month d \<le> 30" by auto
qed

lemma weekday_bounds: "0 \<le> weekday d" "weekday d \<le> 6"
  using pos_mod_bound [of 7 "d + 6"] by (simp_all add: weekday_def)

lemma monday: "weekday (d - weekday d) = 0"
  unfolding weekday_def by presburger

end
