(* ===== verification/Periods.thy ===== *)
theory Periods
  imports Schema Calendar
begin

text \<open>
  Report periods: \<open>analytics/periods.py\<close> and the helpers of the routers that turn query parameters into a
  period (\<open>api/v1/common.py\<close>, \<open>_period\<close> of \<open>api/v1/analytics.py\<close>).

  The time zone database is a parameter: \<open>local_date tz t\<close> is the calendar day of the instant \<open>t\<close> in \<open>tz\<close>, and
  \<open>wall tz d\<close> the instant of local midnight of the day \<open>d\<close>. Instants are microseconds since 1970-01-01T00:00Z;
  converting one to a \<open>datetime\<close> outside the years 1 to 9999 raises \<open>OverflowError\<close>, as does \<open>date + timedelta\<close>.
\<close>

datatype NamedPeriod = TODAY | YESTERDAY | THIS_WEEK | THIS_MONTH | CUSTOM

datatype Granularity = DAY | WEEK | MONTH

record Period =
  pd_timezone :: string
  pd_date_from :: date
  pd_date_to :: date
  pd_start :: time
  pd_end :: time

definition DAY_MICROS :: time where
  "DAY_MICROS = 86400000000"

text \<open>The ordinal of 1970-01-01.\<close>

definition EPOCH :: date where
  "EPOCH = 719163"

definition in_datetime_range :: "time \<Rightarrow> bool" where
  "in_datetime_range t \<longleftrightarrow> (1 - EPOCH) * DAY_MICROS \<le> t \<and> t < (MAXORDINAL + 1 - EPOCH) * DAY_MICROS"

definition plus_days :: "date \<Rightarrow> int \<Rightarrow> date result" where
  "plus_days d n = bindR (raise_if (\<not> (1 \<le> d + n \<and> d + n \<le> MAXORDINAL)) OverflowError) (\<lambda>_. Inr (d + n))"

definition local_midnight :: "(string \<Rightarrow> date \<Rightarrow> time) \<Rightarrow> date \<Rightarrow> string \<Rightarrow> time result" where
  "local_midnight wall day tz =
     bindR (raise_if (\<not> in_datetime_range (wall tz day)) OverflowError) (\<lambda>_. Inr (wall tz day))"

definition period_for_dates :: "(string \<Rightarrow> date \<Rightarrow> time) \<Rightarrow> string \<Rightarrow> date \<Rightarrow> date \<Rightarrow> Period result" where
  "period_for_dates wall tz date_from date_to =
     bindR (raise_if (date_to < date_from) ValueError) (\<lambda>_.
     bindR (local_midnight wall date_from tz) (\<lambda>start.
     bindR (plus_days date_to 1) (\<lambda>next_day.
     bindR (local_midnight wall next_day tz) (\<lambda>until.
     Inr \<lparr>pd_timezone = tz, pd_date_from = date_from, pd_date_to = date_to, pd_start = start, pd_end = until\<rparr>))))"

fun resolve_period ::
  "(string \<Rightarrow> time \<Rightarrow> date) \<Rightarrow> (string \<Rightarrow> date \<Rightarrow> time) \<Rightarrow> clock \<Rightarrow> string \<Rightarrow> NamedPeriod \<Rightarrow> date option \<Rightarrow> date option
    \<Rightarrow> Period result" where
  "resolve_period local_date wall clk tz TODAY date_from date_to =
     (let today = local_date tz (now clk) in period_for_dates wall tz today today)"
| "resolve_period local_date wall clk tz YESTERDAY date_from date_to =
     (let today = local_date tz (now clk) in
      bindR (plus_days today (- 1)) (\<lambda>yesterday. period_for_dates wall tz yesterday yesterday))"
| "resolve_period local_date wall clk tz THIS_WEEK date_from date_to =
     (let today = local_date tz (now clk) in
      bindR (plus_days today (- weekday today)) (\<lambda>monday. period_for_dates wall tz monday today))"
| "resolve_period local_date wall clk tz THIS_MONTH date_from date_to =
     (let today = local_date tz (now clk) in period_for_dates wall tz (first_of_month today) today)"
| "resolve_period local_date wall clk tz CUSTOM date_from date_to =
     (case (date_from, date_to) of
        (Some f, Some t) \<Rightarrow> period_for_dates wall tz f t
      | _ \<Rightarrow> Inl ValueError)"

definition MAX_CUSTOM_DAYS :: int where
  "MAX_CUSTOM_DAYS = 366"

definition InvalidPeriodError :: error where
  "InvalidPeriodError = UnprocessableError ''INVALID_PERIOD''"

text \<open>\<open>except ValueError as exc: raise InvalidPeriodError(...)\<close>: no other exception is caught.\<close>

definition invalid_period :: "'a result \<Rightarrow> 'a result" where
  "invalid_period r = (case r of Inl e \<Rightarrow> Inl (if e = ValueError then InvalidPeriodError else e) | Inr x \<Rightarrow> Inr x)"

definition analytics_period ::
  "(string \<Rightarrow> time \<Rightarrow> date) \<Rightarrow> (string \<Rightarrow> date \<Rightarrow> time) \<Rightarrow> clock \<Rightarrow> BusinessContext \<Rightarrow> NamedPeriod
    \<Rightarrow> date option \<Rightarrow> date option \<Rightarrow> Period result" where
  "analytics_period local_date wall clk ctx period date_from date_to =
     bindR (invalid_period (resolve_period local_date wall clk (timezone ctx) period date_from date_to)) (\<lambda>resolved.
     bindR (raise_if (pd_date_to resolved - pd_date_from resolved \<ge> MAX_CUSTOM_DAYS) InvalidPeriodError) (\<lambda>_.
     Inr resolved))"

definition optional_period ::
  "(string \<Rightarrow> date \<Rightarrow> time) \<Rightarrow> BusinessContext \<Rightarrow> date option \<Rightarrow> date option \<Rightarrow> Period option result" where
  "optional_period wall ctx date_from date_to =
     (case (date_from, date_to) of
        (None, None) \<Rightarrow> Inr None
      | (Some f, Some t) \<Rightarrow> bindR (invalid_period (period_for_dates wall (timezone ctx) f t)) (Inr \<circ> Some)
      | _ \<Rightarrow> Inl InvalidPeriodError)"

subsection \<open>What a period covers\<close>

text \<open>
  What the code relies on of the time zone database: local midnight is the first instant of its day.
\<close>

definition day_starts :: "(string \<Rightarrow> time \<Rightarrow> date) \<Rightarrow> (string \<Rightarrow> date \<Rightarrow> time) \<Rightarrow> string \<Rightarrow> bool" where
  "day_starts local_date wall tz \<longleftrightarrow> (\<forall>t d. local_date tz t < d \<longleftrightarrow> t < wall tz d)"

definition covers :: "Period \<Rightarrow> time \<Rightarrow> bool" where
  "covers p t \<longleftrightarrow> pd_start p \<le> t \<and> t < pd_end p"

lemma period_for_dates_success:
  "period_for_dates wall tz f t = Inr p \<longleftrightarrow> f \<le> t \<and> t < MAXORDINAL \<and> 0 \<le> t \<and> in_datetime_range (wall tz f)
     \<and> in_datetime_range (wall tz (t + 1))
     \<and> p = \<lparr>pd_timezone = tz, pd_date_from = f, pd_date_to = t, pd_start = wall tz f, pd_end = wall tz (t + 1)\<rparr>"
  by (auto simp: period_for_dates_def local_midnight_def plus_days_def result_simps)

lemma period_for_dates_covers:
  assumes "period_for_dates wall tz f t = Inr p" and "day_starts local_date wall tz"
  shows "covers p x \<longleftrightarrow> pd_date_from p \<le> local_date tz x \<and> local_date tz x \<le> pd_date_to p"
proof -
  have "local_date tz x < d \<longleftrightarrow> x < wall tz d" for d using assms(2) by (simp add: day_starts_def)
  from this [of f] this [of "t + 1"] show ?thesis
    using assms(1) by (auto simp: period_for_dates_success covers_def)
qed

text \<open>The days a named period stands for.\<close>

definition named_days :: "date \<Rightarrow> NamedPeriod \<Rightarrow> date \<Rightarrow> date \<Rightarrow> bool" where
  "named_days today named f t = (case named of
     TODAY \<Rightarrow> f = today \<and> t = today
   | YESTERDAY \<Rightarrow> f = today - 1 \<and> t = today - 1
   | THIS_WEEK \<Rightarrow> weekday f = 0 \<and> today - 6 \<le> f \<and> t = today
   | THIS_MONTH \<Rightarrow> (\<exists>y m d. ord2ymd today = (y, m, d) \<and> f = ymd2ord y m 1) \<and> today - 30 \<le> f \<and> t = today
   | CUSTOM \<Rightarrow> True)"

lemma resolve_period_days:
  assumes "resolve_period local_date wall clk tz named df dt = Inr p"
  obtains f t where "period_for_dates wall tz f t = Inr p" "named_days (local_date tz (now clk)) named f t"
    "named = CUSTOM \<longrightarrow> df = Some f \<and> dt = Some t"
proof (cases named)
  case THIS_WEEK
  with assms that monday weekday_bounds(2) show ?thesis
    by (fastforce simp: plus_days_def result_simps named_days_def Let_def)
next
  case THIS_MONTH
  with assms that first_of_month_bounds(2) show ?thesis
    by (fastforce simp: named_days_def Let_def first_of_month_def split: prod.splits)
qed (use assms that in \<open>auto simp: plus_days_def result_simps named_days_def Let_def split: option.splits\<close>)

text \<open>
  C15: A report period covers exactly the instants whose day in the time zone of the shop lies between its
  two dates, both included. \<open>today\<close> is the current day, \<open>yesterday\<close> the one before, \<open>this_week\<close> starts on
  the Monday of the last seven days and \<open>this_month\<close> on the first of the current month; both end today,
  and each of the three that include today covers the current instant. An accepted period spans at
  most 366 days.
\<close>
theorem analytics_period_covers:
  assumes "analytics_period local_date wall clk ctx named df dt = Inr p"
    and "day_starts local_date wall (timezone ctx)"
  shows "(\<forall>t. covers p t \<longleftrightarrow> pd_date_from p \<le> local_date (timezone ctx) t \<and> local_date (timezone ctx) t \<le> pd_date_to p)
    \<and> named_days (local_date (timezone ctx) (now clk)) named (pd_date_from p) (pd_date_to p)
    \<and> (named = CUSTOM \<longrightarrow> df = Some (pd_date_from p) \<and> dt = Some (pd_date_to p))
    \<and> (named \<in> {TODAY, THIS_WEEK, THIS_MONTH} \<longrightarrow> covers p (now clk))
    \<and> pd_date_from p \<le> pd_date_to p \<and> pd_date_to p - pd_date_from p < 366"
proof -
  let ?today = "local_date (timezone ctx) (now clk)"
  have r: "resolve_period local_date wall clk (timezone ctx) named df dt = Inr p"
    and len: "pd_date_to p - pd_date_from p < 366"
    using assms(1) by (auto simp: analytics_period_def invalid_period_def MAX_CUSTOM_DAYS_def result_simps
        split: sum.splits if_splits)
  from r obtain f t where p: "period_for_dates wall (timezone ctx) f t = Inr p"
    and days: "named_days ?today named f t" and custom: "named = CUSTOM \<longrightarrow> df = Some f \<and> dt = Some t"
    by (rule resolve_period_days)
  have ft: "pd_date_from p = f" "pd_date_to p = t" "f \<le> t" using p by (simp_all add: period_for_dates_success)
  note cov = period_for_dates_covers [OF p assms(2), unfolded ft]
  have "covers p (now clk)" if "named \<in> {TODAY, THIS_WEEK, THIS_MONTH}"
  proof -
    have "t = ?today" using that days by (cases named) (simp_all add: named_days_def)
    with ft(3) show ?thesis unfolding cov by simp
  qed
  moreover have "\<forall>x. covers p x \<longleftrightarrow> f \<le> local_date (timezone ctx) x \<and> local_date (timezone ctx) x \<le> t"
    using cov by blast
  ultimately show ?thesis unfolding ft using days custom len [unfolded ft] ft(3) by blast
qed

text \<open>The shops' default zone, three hours ahead of UTC all year round.\<close>

definition nairobi_date :: "string \<Rightarrow> time \<Rightarrow> date" where
  "nairobi_date tz t = (t + 10800000000) div DAY_MICROS + EPOCH"

definition nairobi_wall :: "string \<Rightarrow> date \<Rightarrow> time" where
  "nairobi_wall tz d = (d - EPOCH) * DAY_MICROS - 10800000000"

lemma nairobi_day_starts: "day_starts nairobi_date nairobi_wall tz"
proof -
  have "x div 86400000000 < k \<longleftrightarrow> x < k * 86400000000" for x k :: int
    using pos_imp_zdiv_neg_iff [of 86400000000 "x + - k * 86400000000"]
    unfolding div_mult_self1 [OF zero_neq_numeral [symmetric]] by linarith
  from this [of "t + 10800000000" "d - EPOCH" for t d]
  have "(t + 10800000000) div DAY_MICROS + EPOCH < d \<longleftrightarrow> t + 10800000000 < (d - EPOCH) * DAY_MICROS" for t d
    unfolding DAY_MICROS_def less_diff_eq by simp
  then show ?thesis by (auto simp: day_starts_def nairobi_date_def nairobi_wall_def)
qed

definition nairobi_owner :: BusinessContext where
  "nairobi_owner = \<lparr>user_id = 1, business_id = 1, membership_id = 1, role = OWNER, timezone = ''Africa/Nairobi'',
     settings = \<lparr>staff_can_restock = False, sale_backdate_days = 7, low_stock_default_threshold = 5\<rparr>\<rparr>"

definition nairobi_now :: clock where
  "nairobi_now = \<lparr>now = 1790000000000000, tx_now = 1790000000000000\<rparr>"

theorem analytics_period_covers_witness:
  "analytics_period nairobi_date nairobi_wall nairobi_now nairobi_owner THIS_WEEK None None
     = Inr \<lparr>pd_timezone = ''Africa/Nairobi'', pd_date_from = 739880, pd_date_to = 739880,
         pd_start = 1789938000000000, pd_end = 1790024400000000\<rparr> \<and> weekday 739880 = 0"
proof -
  have p: "analytics_period nairobi_date nairobi_wall nairobi_now nairobi_owner THIS_WEEK None None
      = Inr \<lparr>pd_timezone = ''Africa/Nairobi'', pd_date_from = 739880, pd_date_to = 739880,
          pd_start = 1789938000000000, pd_end = 1790024400000000\<rparr>"
    by code_simp
  from analytics_period_covers [OF p nairobi_day_starts] p show ?thesis by (simp add: named_days_def)
qed

text \<open>
  A period that ends on the last day of the calendar, 31 December 9999, is not answered with
  \<open>INVALID_PERIOD\<close>: computing the following day raises \<open>OverflowError\<close>, which no handler translates.
\<close>
theorem last_day_overflows:
  assumes "f \<le> MAXORDINAL" and "in_datetime_range (wall (timezone ctx) f)"
  shows "analytics_period local_date wall clk ctx CUSTOM (Some f) (Some MAXORDINAL) = Inl OverflowError
    \<and> optional_period wall ctx (Some f) (Some MAXORDINAL) = Inl OverflowError"
  using assms by (simp add: analytics_period_def optional_period_def invalid_period_def period_for_dates_def
      local_midnight_def plus_days_def raise_if_def)

theorem last_day_overflows_witness:
  "analytics_period nairobi_date nairobi_wall nairobi_now nairobi_owner CUSTOM (Some MAXORDINAL) (Some MAXORDINAL)
     = Inl OverflowError"
  using last_day_overflows [of MAXORDINAL nairobi_wall nairobi_owner nairobi_date nairobi_now]
  by (simp add: in_datetime_range_def nairobi_wall_def MAXORDINAL_def EPOCH_def DAY_MICROS_def)

end
