(* ===== verification/Copilot.thy ===== *)
theory Copilot
  imports Accounts Catalogue Periods
begin

text \<open>
  The assistant of the owner: its conversations (\<open>models/ai.py\<close>, \<open>repositories/ai.py\<close>), the actions it may propose
  (\<open>ai/proposals.py\<close>), the orchestrator that answers a question (\<open>AIService\<close> of \<open>ai/service.py\<close>) and the one place where a
  confirmed proposal becomes a record (\<open>services/ai_actions.py\<close>).

  The provider of the language model is a parameter, a function from the prompt and the turns so far to a response or an
  error; the read tools are a parameter too: they run in a savepoint that is always rolled back, so they cannot change a table,
  and only what they answer matters. Timings, token counts of the cache that is created, and the description texts of the
  tools are left out.
\<close>

subsection \<open>Tables\<close>

datatype AIMessageRole = USER | ASSISTANT
datatype ProposalStatus = PENDING | APPLIED | REJECTED | EXPIRED
datatype ProposalKind = K_PRODUCT | K_SALE | K_REPAYMENT | K_RESTOCK

record ProposeProduct =
  pn_name :: string
  pn_selling_price :: money
  pn_cost_price :: "money option"
  pn_unit :: string
  pn_track_inventory :: bool
  pn_opening_stock :: "quantity option"

record ProposeSale =
  ps_lines :: "SaleLineRequest list"
  ps_payments :: "PaymentLineRequest list"
  ps_customer_id :: "uuid option"
  ps_note :: "string option"

record ProposeRepayment =
  py_customer_id :: uuid
  py_amount :: money
  py_method :: MoneyReceivedMethod
  py_reference :: "string option"

record ProposeRestock =
  pk_product_id :: uuid
  pk_quantity :: quantity
  pk_unit_cost :: "money option"
  pk_supplier_name :: "string option"

text \<open>A payload is the fields of one of the models, or JSON that none of them accepts.\<close>

datatype proposal =
    Product_Proposal ProposeProduct
  | Sale_Proposal ProposeSale
  | Repayment_Proposal ProposeRepayment
  | Restock_Proposal ProposeRestock
  | Malformed string

record StoredProposal =
  sp_kind :: ProposalKind
  sp_payload :: proposal

record conversation =
  cv_id :: uuid
  cv_business_id :: uuid
  cv_user_id :: uuid
  cv_title :: "string option"
  cv_updated_at :: time

record ai_message =
  am_id :: uuid
  am_business_id :: uuid
  am_conversation_id :: uuid
  am_role :: AIMessageRole
  am_content :: string
  am_tool_calls :: "(string \<times> bool) list option"
  am_model :: "string option"
  am_input_tokens :: "int option"
  am_output_tokens :: "int option"
  am_cache_read_tokens :: "int option"
  am_stop_reason :: "string option"
  am_proposal :: "StoredProposal option"
  am_proposal_status :: "ProposalStatus option"
  am_proposal_entity_id :: "uuid option"
  am_proposal_applied_at :: "time option"
  am_created_at :: time

text \<open>The whole database: the site, the tables of the assistant, and the keys of the stored images.\<close>

record platform =
  home :: site
  ai_conversations :: "conversation list"
  ai_messages :: "ai_message list"
  blobs :: "string list"

abbreviation books :: "platform \<Rightarrow> db" where
  "books s \<equiv> shop (home s)"

definition with_books :: "db \<Rightarrow> platform \<Rightarrow> platform" where
  "with_books d s = s\<lparr>home := (home s)\<lparr>shop := d\<rparr>\<rparr>"

definition on_books :: "(db \<Rightarrow> 'a result \<times> db) \<Rightarrow> platform \<Rightarrow> 'a result \<times> platform" where
  "on_books f s = (case f (books s) of (r, d) \<Rightarrow> (r, with_books d s))"

subsection \<open>The repository\<close>

definition MAX_CONVERSATIONS :: nat where "MAX_CONVERSATIONS = 50"
definition MAX_MESSAGES :: nat where "MAX_MESSAGES = 200"

definition add_conversation :: "conversation \<Rightarrow> platform \<Rightarrow> conversation \<times> platform" where
  "add_conversation c s = (let c = c\<lparr>cv_id := new_id (books s)\<rparr> in
     (c, (with_books (drawn (books s)) s)\<lparr>ai_conversations := ai_conversations s @ [c]\<rparr>))"

definition ai_get_conversation :: "uuid \<Rightarrow> uuid \<Rightarrow> uuid \<Rightarrow> platform \<Rightarrow> conversation option" where
  "ai_get_conversation bid uid cid s =
     find (\<lambda>c. cv_business_id c = bid \<and> cv_user_id c = uid \<and> cv_id c = cid) (ai_conversations s)"

definition ai_list_conversations :: "uuid \<Rightarrow> uuid \<Rightarrow> nat \<Rightarrow> platform \<Rightarrow> conversation list" where
  "ai_list_conversations bid uid limit s = take (min limit MAX_CONVERSATIONS)
     (sort_key (\<lambda>c. - cv_updated_at c) (sort_key cv_id
       (filter (\<lambda>c. cv_business_id c = bid \<and> cv_user_id c = uid) (ai_conversations s))))"

definition ai_add_message :: "ai_message \<Rightarrow> platform \<Rightarrow> ai_message \<times> platform" where
  "ai_add_message m s = (let m = m\<lparr>am_id := new_id (books s)\<rparr> in
     (m, (with_books (drawn (books s)) s)\<lparr>ai_messages := ai_messages s @ [m]\<rparr>))"

definition last_of :: "nat \<Rightarrow> 'a list \<Rightarrow> 'a list" where
  "last_of n xs = drop (length xs - n) xs"

definition ai_list_messages :: "uuid \<Rightarrow> uuid \<Rightarrow> nat \<Rightarrow> platform \<Rightarrow> ai_message list" where
  "ai_list_messages bid cid limit s = last_of (min limit MAX_MESSAGES)
     (sort_key am_created_at (sort_key am_id
       (filter (\<lambda>m. am_business_id m = bid \<and> am_conversation_id m = cid) (ai_messages s))))"

definition count_user_messages_since :: "uuid \<Rightarrow> time \<Rightarrow> platform \<Rightarrow> nat" where
  "count_user_messages_since bid since s =
     length (filter (\<lambda>m. am_business_id m = bid \<and> am_role m = USER \<and> since \<le> am_created_at m) (ai_messages s))"

definition ai_get_message :: "uuid \<Rightarrow> uuid \<Rightarrow> uuid \<Rightarrow> platform \<Rightarrow> ai_message option" where
  "ai_get_message bid cid mid s =
     find (\<lambda>m. am_business_id m = bid \<and> am_conversation_id m = cid \<and> am_id m = mid) (ai_messages s)"

definition set_conversation :: "conversation \<Rightarrow> platform \<Rightarrow> platform" where
  "set_conversation c s = s\<lparr>ai_conversations := update_where (\<lambda>x. cv_id x = cv_id c) (\<lambda>_. c) (ai_conversations s)\<rparr>"

definition set_ai_message :: "ai_message \<Rightarrow> platform \<Rightarrow> platform" where
  "set_ai_message m s = s\<lparr>ai_messages := update_where (\<lambda>x. am_id x = am_id m) (\<lambda>_. m) (ai_messages s)\<rparr>"

subsection \<open>Proposals\<close>

definition proposal_kind :: "proposal \<Rightarrow> ProposalKind option" where
  "proposal_kind p = (case p of Product_Proposal _ \<Rightarrow> Some K_PRODUCT | Sale_Proposal _ \<Rightarrow> Some K_SALE
     | Repayment_Proposal _ \<Rightarrow> Some K_REPAYMENT | Restock_Proposal _ \<Rightarrow> Some K_RESTOCK | Malformed _ \<Rightarrow> None)"

definition PRODUCT_UNITS :: "string list" where
  "PRODUCT_UNITS = [''piece'', ''kg'', ''g'', ''litre'', ''ml'', ''metre'', ''pack'', ''service'', ''other'']"

definition good_money :: "money \<Rightarrow> bool" where
  "good_money x \<longleftrightarrow> 0 \<le> x \<and> fits_money x"

definition good_quantity :: "quantity \<Rightarrow> bool" where
  "good_quantity x \<longleftrightarrow> 0 < x \<and> fits_quantity x"

definition valid_product_proposal :: "ProposeProduct \<Rightarrow> bool" where
  "valid_product_proposal p \<longleftrightarrow> 1 \<le> length (pn_name p) \<and> length (pn_name p) \<le> 120 \<and> good_money (pn_selling_price p)
     \<and> opt_all good_money (pn_cost_price p) \<and> pn_unit p \<in> set PRODUCT_UNITS \<and> opt_all good_quantity (pn_opening_stock p)"

definition valid_sale_proposal :: "ProposeSale \<Rightarrow> bool" where
  "valid_sale_proposal p \<longleftrightarrow> 1 \<le> length (ps_lines p) \<and> length (ps_lines p) \<le> 30
     \<and> list_all (\<lambda>l. good_quantity (sl_quantity l) \<and> opt_all good_money (sl_unit_price l)) (ps_lines p)
     \<and> 1 \<le> length (ps_payments p) \<and> length (ps_payments p) \<le> 5
     \<and> list_all (\<lambda>l. 0 < pl_amount l \<and> fits_money (pl_amount l) \<and> opt_all (\<lambda>x. length x \<le> 64) (pl_reference l)) (ps_payments p)
     \<and> opt_all (\<lambda>x. length x \<le> 255) (ps_note p)
     \<and> (list_ex (\<lambda>l. pl_method l = CREDIT) (ps_payments p) \<longrightarrow> ps_customer_id p \<noteq> None)"

definition valid_repayment_proposal :: "ProposeRepayment \<Rightarrow> bool" where
  "valid_repayment_proposal p \<longleftrightarrow> 0 < py_amount p \<and> fits_money (py_amount p) \<and> opt_all (\<lambda>x. length x \<le> 64) (py_reference p)"

definition valid_restock_proposal :: "ProposeRestock \<Rightarrow> bool" where
  "valid_restock_proposal p \<longleftrightarrow> good_quantity (pk_quantity p) \<and> opt_all good_money (pk_unit_cost p)
     \<and> opt_all (\<lambda>x. length x \<le> 120) (pk_supplier_name p)"

definition valid_payload :: "proposal \<Rightarrow> bool" where
  "valid_payload p = (case p of Product_Proposal x \<Rightarrow> valid_product_proposal x | Sale_Proposal x \<Rightarrow> valid_sale_proposal x
     | Repayment_Proposal x \<Rightarrow> valid_repayment_proposal x | Restock_Proposal x \<Rightarrow> valid_restock_proposal x | Malformed _ \<Rightarrow> False)"

text \<open>\<open>None\<close> is the \<open>ValidationError\<close> of the schema.\<close>

definition validate_proposal :: "ProposalKind \<Rightarrow> proposal \<Rightarrow> proposal option" where
  "validate_proposal kind payload = (if proposal_kind payload = Some kind \<and> valid_payload payload then Some payload else None)"

definition PROPOSAL_TOOLS :: "(string \<times> ProposalKind) list" where
  "PROPOSAL_TOOLS = [(''propose_product'', K_PRODUCT), (''propose_sale'', K_SALE), (''propose_repayment'', K_REPAYMENT),
     (''propose_restock'', K_RESTOCK)]"


subsection \<open>Conversations\<close>

definition create_conversation :: "clock \<Rightarrow> BusinessContext \<Rightarrow> string option \<Rightarrow> platform \<Rightarrow> conversation result \<times> platform" where
  "create_conversation clk ctx title = transaction (\<lambda>s. Inr (add_conversation
     \<lparr>cv_id = 0, cv_business_id = business_id ctx, cv_user_id = user_id ctx, cv_title = (if truthy title then title else None),
      cv_updated_at = tx_now clk\<rparr> s))"

definition list_conversations :: "BusinessContext \<Rightarrow> nat \<Rightarrow> platform \<Rightarrow> conversation list" where
  "list_conversations ctx limit s = ai_list_conversations (business_id ctx) (user_id ctx) limit s"

definition get_conversation :: "BusinessContext \<Rightarrow> uuid \<Rightarrow> platform \<Rightarrow> (conversation \<times> ai_message list) result" where
  "get_conversation ctx cid s =
     bindR (the_or NotFoundError (ai_get_conversation (business_id ctx) (user_id ctx) cid s)) (\<lambda>c.
     Inr (c, ai_list_messages (business_id ctx) (cv_id c) MAX_MESSAGES s))"

subsection \<open>Quota\<close>

text \<open>The settings the service reads, and the time zone database as in \<open>Periods\<close>.\<close>

record ai_settings =
  ai_model :: string
  ai_max_tool_rounds :: nat
  ai_history_messages :: nat
  ai_daily_message_limit :: nat
  ai_monthly_message_limit :: nat
  zone_date :: "string \<Rightarrow> time \<Rightarrow> date"
  zone_midnight :: "string \<Rightarrow> date \<Rightarrow> time"

record Quota =
  qt_daily_limit :: nat
  qt_daily_used :: nat
  qt_monthly_limit :: nat
  qt_monthly_used :: nat
  qt_resets_at :: time

definition local_day_start :: "ai_settings \<Rightarrow> string \<Rightarrow> time \<Rightarrow> time" where
  "local_day_start cfg tz t = zone_midnight cfg tz (zone_date cfg tz t)"

definition local_month_start :: "ai_settings \<Rightarrow> string \<Rightarrow> time \<Rightarrow> time" where
  "local_month_start cfg tz t = zone_midnight cfg tz (first_of_month (zone_date cfg tz t))"

definition quota :: "ai_settings \<Rightarrow> BusinessContext \<Rightarrow> time \<Rightarrow> platform \<Rightarrow> Quota" where
  "quota cfg ctx t s =
     (let day_start = local_day_start cfg (timezone ctx) t; month_start = local_month_start cfg (timezone ctx) t in
      \<lparr>qt_daily_limit = ai_daily_message_limit cfg, qt_daily_used = count_user_messages_since (business_id ctx) day_start s,
       qt_monthly_limit = ai_monthly_message_limit cfg, qt_monthly_used = count_user_messages_since (business_id ctx) month_start s,
       qt_resets_at = day_start + DAY_MICROS\<rparr>)"

definition AIQuotaExceededError :: error where "AIQuotaExceededError = AppError 429 ''AI_QUOTA_EXCEEDED''"

definition enforce_quota :: "Quota \<Rightarrow> unit result" where
  "enforce_quota q =
     bindR (raise_if (qt_daily_limit q \<le> qt_daily_used q) AIQuotaExceededError) (\<lambda>_.
     raise_if (qt_monthly_limit q \<le> qt_monthly_used q) AIQuotaExceededError)"

subsection \<open>The provider\<close>

record ToolCall =
  tc_id :: string
  tc_name :: string
  tc_input :: proposal

record Usage =
  input_tokens :: int
  output_tokens :: int
  cache_read_input_tokens :: int

definition plus_usage :: "Usage \<Rightarrow> Usage \<Rightarrow> Usage" where
  "plus_usage a b = \<lparr>input_tokens = input_tokens a + input_tokens b, output_tokens = output_tokens a + output_tokens b,
     cache_read_input_tokens = cache_read_input_tokens a + cache_read_input_tokens b\<rparr>"

record ProviderResponse =
  pr_text :: string
  pr_tool_calls :: "ToolCall list"
  pr_stop_reason :: string
  pr_usage :: Usage
  pr_model :: string
  pr_unsupported_blocks :: "string list"

text \<open>What is sent: a turn of the stored history, a response replayed verbatim, or the results of its tool calls (the id of the call,
  the output, whether it is an error).\<close>

datatype turn = Said AIMessageRole string | Replayed ProviderResponse | Results "(string \<times> string \<times> bool) list"

record prompt =
  pt_business_name :: string
  pt_business_type :: BusinessType
  pt_currency :: string
  pt_user_first_name :: string
  pt_context :: BusinessContext
  pt_now :: time

type_synonym provider = "prompt \<Rightarrow> turn list \<Rightarrow> ProviderResponse result"

definition AIUnavailableError :: "string \<Rightarrow> error" where "AIUnavailableError code = AppError 503 code"

text \<open>Consecutive messages of one role are joined; a window that starts with an answer loses it.\<close>

fun join_turns :: "(AIMessageRole \<times> string) list \<Rightarrow> (AIMessageRole \<times> string) list \<Rightarrow> (AIMessageRole \<times> string) list" where
  "join_turns acc [] = acc"
| "join_turns acc ((r, x) # xs) =
     (if acc \<noteq> [] \<and> fst (last acc) = r then join_turns (butlast acc @ [(r, snd (last acc) @ [CHR 0x0A, CHR 0x0A] @ x)]) xs
      else join_turns (acc @ [(r, x)]) xs)"

definition history_messages :: "ai_settings \<Rightarrow> ai_message list \<Rightarrow> (AIMessageRole \<times> string) list" where
  "history_messages cfg history =
     (let window = (if ai_history_messages cfg = 0 then history else last_of (ai_history_messages cfg) history);
          turns = join_turns [] (map (\<lambda>m. (am_role m, am_content m)) window) in
      if turns \<noteq> [] \<and> fst (hd turns) \<noteq> USER then tl turns else turns)"

subsection \<open>A turn of the model\<close>

record progress =
  pg_usage :: Usage
  pg_model_used :: string
  pg_records :: "(string \<times> bool) list"
  pg_proposal :: "StoredProposal option"

definition capture_proposal :: "ToolCall \<Rightarrow> ProposalKind \<Rightarrow> progress \<Rightarrow> progress" where
  "capture_proposal call kind p = (case validate_proposal kind (tc_input call) of
     None \<Rightarrow> p\<lparr>pg_records := pg_records p @ [(tc_name call, False)], pg_proposal := None\<rparr>
   | Some parsed \<Rightarrow> p\<lparr>pg_records := pg_records p @ [(tc_name call, True)], pg_proposal := Some \<lparr>sp_kind = kind, sp_payload = parsed\<rparr>\<rparr>)"

text \<open>\<open>tool call\<close> is the output of a read tool and whether it succeeded.\<close>

definition run_tool :: "(ToolCall \<Rightarrow> string \<times> bool) \<Rightarrow> ToolCall \<Rightarrow> (string \<times> bool) \<times> (string \<times> string \<times> bool)" where
  "run_tool tool call = (case tool call of (out, ok) \<Rightarrow> ((take 60 (tc_name call), ok), (tc_id call, out, \<not> ok)))"

datatype round = Answer ProviderResponse progress | More "turn list" progress

definition model_round :: "provider \<Rightarrow> prompt \<Rightarrow> (ToolCall \<Rightarrow> string \<times> bool) \<Rightarrow> turn list \<Rightarrow> progress \<Rightarrow> round result" where
  "model_round respond pt tool turns p =
     bindR (respond pt turns) (\<lambda>response.
     let p = p\<lparr>pg_usage := plus_usage (pg_usage p) (pr_usage response),
               pg_model_used := (if pr_model response \<noteq> [] then pr_model response else pg_model_used p)\<rparr> in
     bindR (raise_if (pr_unsupported_blocks response \<noteq> []) (AIUnavailableError ''AI_INVALID_RESPONSE'')) (\<lambda>_.
     if pr_stop_reason response \<noteq> ''tool_use'' \<or> pr_tool_calls response = [] then Inr (Answer response p)
     else (case find (\<lambda>c. map_of PROPOSAL_TOOLS (tc_name c) \<noteq> None) (pr_tool_calls response) of
         Some c \<Rightarrow> Inr (Answer response (capture_proposal c (the (map_of PROPOSAL_TOOLS (tc_name c))) p))
       | None \<Rightarrow> let results = map (run_tool tool) (pr_tool_calls response) in
           Inr (More (turns @ [Replayed response, Results (map snd results)]) (p\<lparr>pg_records := pg_records p @ map fst results\<rparr>)))))"

text \<open>\<open>left\<close> is the number of tool rounds that may still follow.\<close>

primrec converse ::
  "provider \<Rightarrow> prompt \<Rightarrow> (ToolCall \<Rightarrow> string \<times> bool) \<Rightarrow> nat \<Rightarrow> turn list \<Rightarrow> progress \<Rightarrow> (ProviderResponse \<times> progress) result" where
  "converse respond pt tool 0 turns p =
     bindR (model_round respond pt tool turns p) (\<lambda>out. case out of
       Answer response p \<Rightarrow> Inr (response, p) | More _ _ \<Rightarrow> Inl (AIUnavailableError ''AI_INCOMPLETE''))"
| "converse respond pt tool (Suc left) turns p =
     bindR (model_round respond pt tool turns p) (\<lambda>out. case out of
       Answer response p \<Rightarrow> Inr (response, p) | More turns p \<Rightarrow> converse respond pt tool left turns p)"

definition fallback_text :: "ProposalKind option \<Rightarrow> string" where
  "fallback_text k = (case k of None \<Rightarrow> []
     | Some K_PRODUCT \<Rightarrow> ''I prepared a new product. Check it and tap Confirm to add it.''
     | Some K_SALE \<Rightarrow> ''I prepared this sale. Check it and tap Confirm to record it.''
     | Some K_REPAYMENT \<Rightarrow> ''I prepared this deni payment. Check it and tap Confirm to record it.''
     | Some K_RESTOCK \<Rightarrow> ''I prepared this restock. Check it and tap Confirm to add the stock.'')"

subsection \<open>Asking\<close>

record AskResult =
  ar_conversation :: conversation
  ar_user_message :: ai_message
  ar_assistant_message :: ai_message
  ar_quota :: Quota

definition plain_message :: "BusinessContext \<Rightarrow> uuid \<Rightarrow> AIMessageRole \<Rightarrow> string \<Rightarrow> time \<Rightarrow> ai_message" where
  "plain_message ctx cid r x t = \<lparr>am_id = 0, am_business_id = business_id ctx, am_conversation_id = cid, am_role = r, am_content = x,
     am_tool_calls = None, am_model = None, am_input_tokens = None, am_output_tokens = None, am_cache_read_tokens = None,
     am_stop_reason = None, am_proposal = None, am_proposal_status = None, am_proposal_entity_id = None,
     am_proposal_applied_at = None, am_created_at = t\<rparr>"

text \<open>The question is stored, unless the last message of the conversation is the same question.\<close>

definition store_question ::
  "ai_settings \<Rightarrow> clock \<Rightarrow> BusinessContext \<Rightarrow> conversation \<Rightarrow> ai_message list \<Rightarrow> string \<Rightarrow> platform
    \<Rightarrow> (ai_message \<times> conversation \<times> ai_message list) result \<times> platform" where
  "store_question cfg clk ctx c history content s =
     (if history \<noteq> [] \<and> am_role (last history) = USER \<and> am_content (last history) = content
      then (Inr (last history, c, history), s)
      else (case enforce_quota (quota cfg ctx (now clk) s) of
          Inl e \<Rightarrow> (Inl e, s)
        | Inr _ \<Rightarrow> transaction (\<lambda>s.
            let (m, s) = ai_add_message (plain_message ctx (cv_id c) USER content (now clk)) s;
                c' = (if cv_title c = None then c\<lparr>cv_title := Some (take 120 content), cv_updated_at := tx_now clk\<rparr> else c) in
            Inr ((m, c', history @ [m]), if cv_title c = None then set_conversation c' s else s)) s))"

definition answer_message :: "clock \<Rightarrow> BusinessContext \<Rightarrow> uuid \<Rightarrow> ProviderResponse \<Rightarrow> progress \<Rightarrow> ai_message" where
  "answer_message clk ctx cid response p =
     (plain_message ctx cid ASSISTANT
        (if pr_text response \<noteq> [] then pr_text response else fallback_text (map_option sp_kind (pg_proposal p))) (now clk))
     \<lparr>am_tool_calls := (if pg_records p = [] then None else Some (pg_records p)), am_model := Some (take 60 (pg_model_used p)),
      am_input_tokens := Some (input_tokens (pg_usage p)), am_output_tokens := Some (output_tokens (pg_usage p)),
      am_cache_read_tokens := Some (cache_read_input_tokens (pg_usage p)), am_stop_reason := Some (take 30 (pr_stop_reason response)),
      am_proposal := pg_proposal p, am_proposal_status := map_option (\<lambda>_. PENDING) (pg_proposal p)\<rparr>"

definition prompt_for :: "BusinessContext \<Rightarrow> time \<Rightarrow> platform \<Rightarrow> prompt result" where
  "prompt_for ctx t s =
     (case (repo_get_business (business_id ctx) (home s), get_user_by_id (user_id ctx) (home s)) of
        (Some b, Some u) \<Rightarrow> Inr \<lparr>pt_business_name = biz_name b, pt_business_type = biz_business_type b, pt_currency = biz_currency b,
          pt_user_first_name = takeWhile (\<lambda>x. x \<noteq> CHR '' '') (usr_full_name u), pt_context = ctx, pt_now = t\<rparr>
      | _ \<Rightarrow> Inl NotFoundError)"

definition ask_model ::
  "ai_settings \<Rightarrow> provider \<Rightarrow> (BusinessContext \<Rightarrow> time \<Rightarrow> platform \<Rightarrow> ToolCall \<Rightarrow> string \<times> bool) \<Rightarrow> clock \<Rightarrow> BusinessContext \<Rightarrow> ai_message list
    \<Rightarrow> platform \<Rightarrow> (ProviderResponse \<times> progress) result" where
  "ask_model cfg respond tool clk ctx history s =
     bindR (prompt_for ctx (now clk) s) (\<lambda>pt.
     bindR (converse respond pt (tool ctx (now clk) s) (ai_max_tool_rounds cfg)
              (map (\<lambda>(r, x). Said r x) (history_messages cfg history))
              \<lparr>pg_usage = \<lparr>input_tokens = 0, output_tokens = 0, cache_read_input_tokens = 0\<rparr>, pg_model_used = ai_model cfg,
               pg_records = [], pg_proposal = None\<rparr>) (\<lambda>(response, p).
     bindR (raise_if (pr_stop_reason response = ''refusal'') (AIUnavailableError ''AI_REFUSED'')) (\<lambda>_.
     bindR (raise_if (pr_text response = [] \<and> pg_proposal p = None) (AIUnavailableError ''AI_INVALID_RESPONSE'')) (\<lambda>_.
     Inr (response, p)))))"

definition store_answer ::
  "ai_settings \<Rightarrow> clock \<Rightarrow> clock \<Rightarrow> BusinessContext \<Rightarrow> conversation \<Rightarrow> ai_message \<Rightarrow> ProviderResponse \<times> progress \<Rightarrow> platform \<Rightarrow> AskResult result \<times> platform" where
  "store_answer cfg clk clk' ctx c question answer =
     transaction (\<lambda>s.
       let (m, s) = ai_add_message (answer_message clk' ctx (cv_id c) (fst answer) (snd answer)) s;
           c = c\<lparr>cv_updated_at := now clk'\<rparr>; s = set_conversation c s in
       Inr (\<lparr>ar_conversation = c, ar_user_message = question, ar_assistant_message = m, ar_quota = quota cfg ctx (now clk) s\<rparr>, s))"

text \<open>\<open>clk\<close> is the clock of the question, \<open>clk'\<close> the one of the answer.\<close>

definition ask ::
  "ai_settings \<Rightarrow> provider \<Rightarrow> (BusinessContext \<Rightarrow> time \<Rightarrow> platform \<Rightarrow> ToolCall \<Rightarrow> string \<times> bool) \<Rightarrow> clock \<Rightarrow> clock \<Rightarrow> BusinessContext \<Rightarrow> uuid \<Rightarrow> string
    \<Rightarrow> platform \<Rightarrow> AskResult result \<times> platform" where
  "ask cfg respond tool clk clk' ctx cid content s =
     (case get_conversation ctx cid s of
        Inl e \<Rightarrow> (Inl e, s)
      | Inr (c, history) \<Rightarrow> (case store_question cfg clk ctx c history (py_strip content) s of
          (Inl e, s) \<Rightarrow> (Inl e, s)
        | (Inr (question, c, history), s) \<Rightarrow> (case ask_model cfg respond tool clk ctx history s of
            Inl e \<Rightarrow> (Inl e, s)
          | Inr answer \<Rightarrow> store_answer cfg clk clk' ctx c question answer s)))"

end
