(* ===== verification/Analytics.thy ===== *)
theory Analytics
  imports Sales Expenses Periods "HOL-Library.AList"
begin

text \<open>
  The reports: \<open>analytics/queries.py\<close>. Every function is a set of SQL aggregates over the tables and a
  little arithmetic on their results.

  \<^item> A join is the list of the matching pairs of rows; \<open>GROUP BY\<close> is \<open>group_by\<close>; \<open>SUM\<close> of a column is
    \<open>sql_sum\<close>, which skips \<open>NULL\<close> and is \<open>NULL\<close> without a value.
  \<^item> Amounts are summed as the rationals they stand for and leave the database through \<open>money_of\<close>
    (\<open>_money\<close>), which rounds half up to the cent. Only cost figures have more than two decimals.
  \<^item> A Python dictionary is an association list in insertion order.
  \<^item> The bucket of an instant (\<open>date_trunc\<close> on the local wall time, evaluated by the database) is the
    parameter \<open>bucket granularity tz\<close>; the collation of names is the parameter \<open>collate\<close>.
\<close>

subsection \<open>Aggregates\<close>

definition sql_sum :: "rat option list \<Rightarrow> rat option" where
  "sql_sum vs = (case List.map_filter (\<lambda>v. v) vs of [] \<Rightarrow> None | xs \<Rightarrow> Some (sum_list xs))"

definition money_of :: "rat option \<Rightarrow> money" where
  "money_of v = (case v of None \<Rightarrow> 0 | Some x \<Rightarrow> round_money x)"

text \<open>\<open>Decimal(str(value)).quantize(Decimal("0.001"))\<close> of a sum of quantities, which has three decimals.\<close>

definition quantity_of :: "quantity list \<Rightarrow> quantity" where
  "quantity_of qs = sum_list qs"

definition group_by :: "('r \<Rightarrow> 'k) \<Rightarrow> 'r list \<Rightarrow> ('k \<times> 'r list) list" where
  "group_by key rows = map (\<lambda>k. (k, filter (\<lambda>r. key r = k) rows)) (remdups (map key rows))"

definition dict_get :: "'v \<Rightarrow> ('k \<times> 'v) list \<Rightarrow> 'k \<Rightarrow> 'v" where
  "dict_get dflt d k = (case map_of d k of None \<Rightarrow> dflt | Some v \<Rightarrow> v)"

definition MAX_ROWS :: nat where
  "MAX_ROWS = 200"

definition completed_sales_in :: "uuid \<Rightarrow> Period \<Rightarrow> sale \<Rightarrow> bool" where
  "completed_sales_in bid p x \<longleftrightarrow> s_business_id x = bid \<and> s_status x = COMPLETED
     \<and> pd_start p \<le> s_sold_at x \<and> s_sold_at x < pd_end p"

definition cogs_line :: "sale_item \<Rightarrow> rat option" where
  "cogs_line i = map_option (\<lambda>c. millis (si_quantity i) * cents c) (si_unit_cost i)"

definition line_revenue :: "sale_item \<Rightarrow> rat" where
  "line_revenue i = cents (si_line_total i) - cents (si_discount_allocated i)"

text \<open>The rows of the joins: lines and payments of the completed sales of a period.\<close>

definition period_sales :: "uuid \<Rightarrow> Period \<Rightarrow> db \<Rightarrow> sale list" where
  "period_sales bid p s = filter (completed_sales_in bid p) (sales s)"

definition sold_lines :: "uuid \<Rightarrow> Period \<Rightarrow> db \<Rightarrow> (sale_item \<times> sale) list" where
  "sold_lines bid p s = [(i, x). i \<leftarrow> sale_items s, x \<leftarrow> sales s,
     s_id x = si_sale_id i \<and> si_business_id i = bid \<and> completed_sales_in bid p x]"

definition period_payments :: "uuid \<Rightarrow> Period \<Rightarrow> db \<Rightarrow> (payment \<times> sale) list" where
  "period_payments bid p s = [(t, x). t \<leftarrow> payments s, x \<leftarrow> sales s,
     s_id x = pay_sale_id t \<and> pay_business_id t = bid \<and> completed_sales_in bid p x]"

definition money_payments :: "uuid \<Rightarrow> Period \<Rightarrow> db \<Rightarrow> (payment \<times> sale) list" where
  "money_payments bid p s = filter (\<lambda>(t, x). pay_status t = PAY_CONFIRMED \<and> pay_method t \<noteq> CREDIT)
     (period_payments bid p s)"

definition period_repayments :: "uuid \<Rightarrow> Period \<Rightarrow> db \<Rightarrow> credit_transaction list" where
  "period_repayments bid p s = filter (\<lambda>t. ct_business_id t = bid \<and> ct_entry_type t = REPAYMENT
     \<and> pd_start p \<le> ct_occurred_at t \<and> ct_occurred_at t < pd_end p) (credit_transactions s)"

subsection \<open>Summary\<close>

record CostFigures =
  cogs :: money
  lines_missing_cost :: nat
  products_missing_cost :: nat

record Summary =
  sum_sales_count :: nat
  sum_revenue :: money
  sum_discounts :: money
  sum_cogs :: money
  sum_lines_missing_cost :: nat
  sum_products_missing_cost :: nat
  sum_gross_profit :: money
  sum_expenses :: money
  sum_net_profit :: money
  sum_tender_split :: "(string \<times> money) list"
  sum_cash_collected :: "(string \<times> money) list"
  sum_cash_collected_total :: money
  sum_receivables_outstanding :: money

definition method_value :: "PaymentMethod \<Rightarrow> string" where
  "method_value m = (case m of CASH \<Rightarrow> ''CASH'' | MPESA \<Rightarrow> ''MPESA'' | CREDIT \<Rightarrow> ''CREDIT'')"

definition received_value :: "MoneyReceivedMethod \<Rightarrow> string" where
  "received_value m = (case m of BY_CASH \<Rightarrow> ''CASH'' | BY_MPESA \<Rightarrow> ''MPESA'')"

definition sales_totals :: "uuid \<Rightarrow> Period \<Rightarrow> db \<Rightarrow> nat \<times> money \<times> money" where
  "sales_totals bid p s = (let rows = period_sales bid p s in
     (length rows, money_of (sql_sum (map (Some \<circ> cents \<circ> s_total_amount) rows)),
      money_of (sql_sum (map (Some \<circ> cents \<circ> s_discount_amount) rows))))"

definition missing_cost :: "(sale_item \<times> sale) list \<Rightarrow> (sale_item \<times> sale) list" where
  "missing_cost rows = filter (\<lambda>(i, x). si_unit_cost i = None) rows"

definition cost_figures :: "uuid \<Rightarrow> Period \<Rightarrow> db \<Rightarrow> CostFigures" where
  "cost_figures bid p s = (let rows = sold_lines bid p s in
     \<lparr>cogs = money_of (sql_sum (map (cogs_line \<circ> fst) rows)),
      lines_missing_cost = length (missing_cost rows),
      products_missing_cost = length (remdups (map (si_product_id \<circ> fst) (missing_cost rows)))\<rparr>)"

definition tender_split :: "uuid \<Rightarrow> Period \<Rightarrow> db \<Rightarrow> (string \<times> money) list" where
  "tender_split bid p s =
     fold (\<lambda>(method, rows) split. AList.update (method_value method)
         (money_of (sql_sum (map (Some \<circ> cents \<circ> pay_amount \<circ> fst) rows))) split)
       (group_by (pay_method \<circ> fst) (period_payments bid p s))
       [(method_value CASH, 0), (method_value MPESA, 0), (method_value CREDIT, 0)]"

text \<open>\<open>d[k] = d.get(k, ZERO) + _money(total)\<close> for each row of a query.\<close>

definition collect :: "('k \<times> rat option) list \<Rightarrow> ('k \<times> money) list \<Rightarrow> ('k \<times> money) list" where
  "collect rows d = fold (\<lambda>(k, total) d. AList.update k (dict_get 0 d k + money_of total) d) rows d"

definition cash_collected :: "uuid \<Rightarrow> Period \<Rightarrow> db \<Rightarrow> (string \<times> money) list" where
  "cash_collected bid p s =
     (let tenders = map (\<lambda>(m, rows). (method_value m, sql_sum (map (Some \<circ> cents \<circ> pay_amount \<circ> fst) rows)))
            (group_by (pay_method \<circ> fst) (money_payments bid p s));
          repayments = map (\<lambda>(m, rows). (m, sql_sum (map (\<lambda>t. Some (- cents (ct_amount t))) rows)))
            (group_by ct_payment_method (period_repayments bid p s)) in
      collect (List.map_filter (\<lambda>(m, total). map_option (\<lambda>m. (received_value m, total)) m) repayments)
        (collect tenders [(''CASH'', 0), (''MPESA'', 0)]))"

definition expenses_total :: "uuid \<Rightarrow> Period \<Rightarrow> db \<Rightarrow> money" where
  "expenses_total bid p s =
     money_of (sql_sum (map (Some \<circ> cents \<circ> ex_amount) (in_period bid (pd_start p) (pd_end p) s)))"

definition receivables :: "uuid \<Rightarrow> db \<Rightarrow> money" where
  "receivables bid s = money_of (sql_sum (map (Some \<circ> cents \<circ> c_balance)
     (filter (\<lambda>c. c_business_id c = bid \<and> 0 < c_balance c) (customers s))))"

definition summary :: "uuid \<Rightarrow> Period \<Rightarrow> db \<Rightarrow> Summary" where
  "summary bid p s =
     (case sales_totals bid p s of (sales_count, revenue, discounts) \<Rightarrow>
      let costs = cost_figures bid p s; split = tender_split bid p s; cash = cash_collected bid p s;
          spent = expenses_total bid p s; gross_profit = revenue - cogs costs in
      \<lparr>sum_sales_count = sales_count, sum_revenue = revenue, sum_discounts = discounts, sum_cogs = cogs costs,
       sum_lines_missing_cost = lines_missing_cost costs,
       sum_products_missing_cost = products_missing_cost costs, sum_gross_profit = gross_profit,
       sum_expenses = spent, sum_net_profit = gross_profit - spent, sum_tender_split = split,
       sum_cash_collected = cash, sum_cash_collected_total = sum_list (map snd cash),
       sum_receivables_outstanding = receivables bid s\<rparr>)"

subsection \<open>Time series\<close>

record Bucket =
  bk_bucket_start :: date
  bk_sales_count :: nat
  bk_revenue :: money
  bk_discounts :: money
  bk_cogs :: money
  bk_lines_missing_cost :: nat
  bk_gross_profit :: money
  bk_cash_collected :: money
  bk_expenses :: money
  bk_net_profit :: money

definition timeseries ::
  "(Granularity \<Rightarrow> string \<Rightarrow> time \<Rightarrow> date) \<Rightarrow> uuid \<Rightarrow> Period \<Rightarrow> Granularity \<Rightarrow> db \<Rightarrow> Bucket list" where
  "timeseries bucket bid p granularity s =
     (let day = bucket granularity (pd_timezone p);
          buckets = map (\<lambda>(b, rows). (b, (length rows,
              money_of (sql_sum (map (Some \<circ> cents \<circ> s_total_amount) rows)),
              money_of (sql_sum (map (Some \<circ> cents \<circ> s_discount_amount) rows)))))
            (group_by (day \<circ> s_sold_at) (period_sales bid p s));
          costs = map (\<lambda>(b, rows). (b, (money_of (sql_sum (map (cogs_line \<circ> fst) rows)), length (missing_cost rows))))
            (group_by (day \<circ> s_sold_at \<circ> snd) (sold_lines bid p s));
          tenders = map (\<lambda>(b, rows). (b, money_of (sql_sum (map (Some \<circ> cents \<circ> pay_amount \<circ> fst) rows))))
            (group_by (day \<circ> s_sold_at \<circ> snd) (money_payments bid p s));
          cash = collect (map (\<lambda>(b, rows). (b, sql_sum (map (\<lambda>t. Some (- cents (ct_amount t))) rows)))
            (group_by (day \<circ> ct_occurred_at) (period_repayments bid p s))) tenders;
          spending = map (\<lambda>(b, rows). (b, money_of (sql_sum (map (Some \<circ> cents \<circ> ex_amount) rows))))
            (group_by (day \<circ> ex_incurred_at) (in_period bid (pd_start p) (pd_end p) s)) in
      map (\<lambda>b. case (dict_get (0, 0, 0) buckets b, dict_get (0, 0) costs b) of
            ((n, revenue, discounts), (cost, missing)) \<Rightarrow>
            let gross_profit = revenue - cost; spent = dict_get 0 spending b in
            \<lparr>bk_bucket_start = b, bk_sales_count = n, bk_revenue = revenue, bk_discounts = discounts,
             bk_cogs = cost, bk_lines_missing_cost = missing, bk_gross_profit = gross_profit,
             bk_cash_collected = dict_get 0 cash b, bk_expenses = spent, bk_net_profit = gross_profit - spent\<rparr>)
        (sort (remdups (map fst buckets @ map fst cash @ map fst spending))))"

subsection \<open>Products and categories\<close>

datatype ProductSort = BY_QUANTITY | BY_REVENUE | BY_PROFIT

record ProductPerformance =
  pp_product_id :: uuid
  pp_name :: string
  pp_is_active :: bool
  pp_category_id :: "uuid option"
  pp_quantity :: quantity
  pp_revenue :: money
  pp_cogs :: money
  pp_gross_profit :: money
  pp_sales_count :: nat
  pp_lines_missing_cost :: nat

definition sold_products :: "uuid \<Rightarrow> Period \<Rightarrow> db \<Rightarrow> (product \<times> sale_item \<times> sale) list" where
  "sold_products bid p s = [(q, r). r \<leftarrow> sold_lines bid p s, q \<leftarrow> products s, p_id q = si_product_id (fst r)]"

definition revenue_sum :: "(sale_item \<times> sale) list \<Rightarrow> rat option" where
  "revenue_sum rows = sql_sum (map (Some \<circ> line_revenue \<circ> fst) rows)"

text \<open>\<open>coalesce(sum(...), 0)\<close>.\<close>

definition cogs_sum :: "(sale_item \<times> sale) list \<Rightarrow> rat" where
  "cogs_sum rows = (case sql_sum (map (cogs_line \<circ> fst) rows) of None \<Rightarrow> 0 | Some x \<Rightarrow> x)"

definition sort_value :: "ProductSort \<Rightarrow> (sale_item \<times> sale) list \<Rightarrow> rat" where
  "sort_value order rows = (let revenue = (case revenue_sum rows of None \<Rightarrow> 0 | Some x \<Rightarrow> x) in
     case order of BY_QUANTITY \<Rightarrow> millis (quantity_of (map (si_quantity \<circ> fst) rows))
     | BY_REVENUE \<Rightarrow> revenue | BY_PROFIT \<Rightarrow> revenue - cogs_sum rows)"

definition product_row :: "product \<times> (sale_item \<times> sale) list \<Rightarrow> ProductPerformance" where
  "product_row g = (case g of (q, rows) \<Rightarrow>
     \<lparr>pp_product_id = p_id q, pp_name = p_name q, pp_is_active = p_is_active q, pp_category_id = p_category_id q,
      pp_quantity = quantity_of (map (si_quantity \<circ> fst) rows), pp_revenue = money_of (revenue_sum rows),
      pp_cogs = money_of (Some (cogs_sum rows)),
      pp_gross_profit = money_of (revenue_sum rows) - money_of (Some (cogs_sum rows)),
      pp_sales_count = length (remdups (map (si_sale_id \<circ> fst) rows)),
      pp_lines_missing_cost = length (missing_cost rows)\<rparr>)"

text \<open>\<open>GROUP BY Product.id\<close>: the other columns of the product depend on its id.\<close>

definition product_groups :: "uuid \<Rightarrow> Period \<Rightarrow> db \<Rightarrow> (product \<times> (sale_item \<times> sale) list) list" where
  "product_groups bid p s =
     map (\<lambda>(k, rows). (fst (hd rows), map snd rows)) (group_by (p_id \<circ> fst) (sold_products bid p s))"

definition product_performance ::
  "(string \<Rightarrow> int) \<Rightarrow> uuid \<Rightarrow> Period \<Rightarrow> ProductSort \<Rightarrow> nat \<Rightarrow> db \<Rightarrow> ProductPerformance list" where
  "product_performance collate bid p order limit s =
     map product_row (take (min limit MAX_ROWS)
       (sort_key (\<lambda>(q, rows). (- sort_value order rows, collate (py_lower (p_name q)), p_id q))
         (product_groups bid p s)))"

record SlowProduct =
  sp_product_id :: uuid
  sp_name :: string
  sp_stock_quantity :: quantity
  sp_last_sold_at :: "time option"

definition sql_max :: "time list \<Rightarrow> time option" where
  "sql_max ts = (case ts of [] \<Rightarrow> None | t # ts \<Rightarrow> Some (fold max ts t))"

definition last_sales :: "uuid \<Rightarrow> db \<Rightarrow> (uuid \<times> time option) list" where
  "last_sales bid s = map (\<lambda>(k, rows). (k, sql_max (map (s_sold_at \<circ> snd) rows)))
     (group_by (si_product_id \<circ> fst) [(i, x). i \<leftarrow> sale_items s, x \<leftarrow> sales s,
       s_id x = si_sale_id i \<and> si_business_id i = bid \<and> s_status x = COMPLETED])"

text \<open>\<open>ORDER BY last_sold_at ASC NULLS FIRST\<close>.\<close>

definition nulls_first :: "time option \<Rightarrow> int \<times> time" where
  "nulls_first t = (case t of None \<Rightarrow> (0, 0) | Some t \<Rightarrow> (1, t))"

definition slow_products :: "(string \<Rightarrow> int) \<Rightarrow> uuid \<Rightarrow> time \<Rightarrow> nat \<Rightarrow> db \<Rightarrow> SlowProduct list" where
  "slow_products collate bid since limit s =
     (let joined = map (\<lambda>q. (q, dict_get None (last_sales bid s) (p_id q))) (products s) in
      map (\<lambda>(q, last). \<lparr>sp_product_id = p_id q, sp_name = p_name q, sp_stock_quantity = p_stock_quantity q,
             sp_last_sold_at = last\<rparr>)
        (take (min limit MAX_ROWS)
          (sort_key (\<lambda>(q, last). (nulls_first last, - p_stock_quantity q, collate (py_lower (p_name q)), p_id q))
            (filter (\<lambda>(q, last). p_business_id q = bid \<and> p_is_active q \<and> p_track_inventory q
                \<and> 0 < p_stock_quantity q \<and> opt_all (\<lambda>t. t < since) last) joined))))"

record CategoryPerformance =
  cp_category_id :: "uuid option"
  cp_name :: "string option"
  cp_quantity :: quantity
  cp_revenue :: money
  cp_cogs :: money
  cp_gross_profit :: money
  cp_lines_missing_cost :: nat

text \<open>\<open>max(Category.name)\<close> over the outer join: the ids of categories are unique, so a group has one name.\<close>

definition category_name :: "uuid \<Rightarrow> uuid option \<Rightarrow> db \<Rightarrow> string option" where
  "category_name bid cid s = map_option cat_name (find (\<lambda>c. Some (cat_id c) = cid \<and> cat_business_id c = bid) (categories s))"

definition nulls_last :: "('a \<Rightarrow> int) \<Rightarrow> 'a option \<Rightarrow> int \<times> int" where
  "nulls_last f v = (case v of None \<Rightarrow> (1, 0) | Some x \<Rightarrow> (0, f x))"

definition category_performance :: "(string \<Rightarrow> int) \<Rightarrow> uuid \<Rightarrow> Period \<Rightarrow> db \<Rightarrow> CategoryPerformance list" where
  "category_performance collate bid p s =
     map (\<lambda>(cid, rows). let rows = map snd rows in
         \<lparr>cp_category_id = cid, cp_name = category_name bid cid s,
          cp_quantity = quantity_of (map (si_quantity \<circ> fst) rows), cp_revenue = money_of (revenue_sum rows),
          cp_cogs = money_of (Some (cogs_sum rows)),
          cp_gross_profit = money_of (revenue_sum rows) - money_of (Some (cogs_sum rows)),
          cp_lines_missing_cost = length (missing_cost rows)\<rparr>)
       (sort_key (\<lambda>(cid, rows). (- sort_value BY_REVENUE (map snd rows), nulls_last collate (category_name bid cid s),
            nulls_last int cid))
         (group_by (p_category_id \<circ> fst) (sold_products bid p s)))"

subsection \<open>Expenses\<close>

record ExpenseGroup =
  eg_key :: string
  eg_total :: money
  eg_count :: nat

record ExpenseBreakdown =
  eb_total :: money
  eb_count :: nat
  eb_by_category :: "ExpenseGroup list"
  eb_by_method :: "(string \<times> money) list"

definition expense_breakdown :: "(string \<Rightarrow> int) \<Rightarrow> uuid \<Rightarrow> Period \<Rightarrow> db \<Rightarrow> ExpenseBreakdown" where
  "expense_breakdown collate bid p s =
     (let by_category = map (\<lambda>(c, total, n). \<lparr>eg_key = c, eg_total = round_money (cents total), eg_count = n\<rparr>)
            (totals_by_category collate bid (pd_start p) (pd_end p) s);
          by_method = fold (\<lambda>(m, total, n) d. AList.update (received_value m) (round_money (cents total)) d)
            (totals_by_method bid (pd_start p) (pd_end p) s) [(''CASH'', 0), (''MPESA'', 0)] in
      \<lparr>eb_total = sum_list (map eg_total by_category), eb_count = sum_list (map eg_count by_category),
       eb_by_category = by_category, eb_by_method = by_method\<rparr>)"

subsection \<open>Laws of the aggregates\<close>

definition value_or_0 :: "rat option \<Rightarrow> rat" where
  "value_or_0 v = (case v of None \<Rightarrow> 0 | Some x \<Rightarrow> x)"

lemma value_or_0_sql_sum: "value_or_0 (sql_sum vs) = sum_list (map value_or_0 vs)"
proof -
  have "sum_list (List.map_filter (\<lambda>v. v) vs) = sum_list (map value_or_0 vs)"
    by (induction vs) (auto simp: map_filter_simps value_or_0_def split: option.splits)
  then show ?thesis by (auto simp: sql_sum_def value_or_0_def split: list.splits)
qed

lemma round_money_0 [simp]: "round_money 0 = 0"
  using round_money_cents [of 0] by (simp add: cents_def)

lemma money_of_value: "money_of v = round_money (value_or_0 v)"
  by (simp add: money_of_def value_or_0_def split: option.splits)

lemma sum_cents: "(\<Sum>r\<leftarrow>rows. cents (f r)) = cents (\<Sum>r\<leftarrow>rows. f r)"
  by (induction rows) (simp_all add: cents_def add_divide_distrib)

lemma money_of_sum [simp]: "money_of (sql_sum (map (\<lambda>r. Some (cents (f r))) rows)) = (\<Sum>r\<leftarrow>rows. f r)"
  by (simp add: money_of_value value_or_0_sql_sum o_def sum_cents) (simp add: value_or_0_def sum_cents)

lemma cents_minus: "- cents c = cents (- c)" "cents a - cents b = cents (a - b)"
  by (simp_all add: cents_def diff_divide_distrib)

lemma round_half_up_error: "\<bar>of_int (round_half_up y) - y\<bar> \<le> 1 / 2"
proof (cases "0 \<le> y")
  case True
  then show ?thesis unfolding round_half_up_def abs_le_iff using floor_correct [of "y + 1 / 2"] by simp linarith
next
  case False
  then show ?thesis unfolding round_half_up_def abs_le_iff using floor_correct [of "- y + 1 / 2"] by simp linarith
qed

lemma round_money_error: "\<bar>of_int (round_money x) - 100 * x\<bar> \<le> 1 / 2"
  using round_half_up_error [of "x * 100"] by (simp add: round_money_def mult.commute)

text \<open>Rounding the parts of a sum to the cent and rounding the sum: half a cent for every part, and for the sum.\<close>

lemma rounded_parts:
  "2 * \<bar>(\<Sum>k\<leftarrow>ks. round_money (x k)) - round_money (\<Sum>k\<leftarrow>ks. x k)\<bar> \<le> int (length ks) + 1"
proof -
  have "\<bar>of_int (\<Sum>k\<leftarrow>ks. round_money (x k)) - 100 * (\<Sum>k\<leftarrow>ks. x k)\<bar> \<le> of_nat (length ks) / 2"
  proof (induction ks)
    case (Cons k ks)
    let ?n = "of_int (\<Sum>k\<leftarrow>ks. round_money (x k)) :: rat" and ?r = "of_int (round_money (x k)) :: rat"
    have "\<bar>(?r - 100 * x k) + (?n - 100 * (\<Sum>k\<leftarrow>ks. x k))\<bar> \<le> 1 / 2 + of_nat (length ks) / 2"
      using round_money_error [of "x k"] Cons.IH by linarith
    then show ?case by (simp add: algebra_simps add_divide_distrib)
  qed simp
  with round_money_error [of "\<Sum>k\<leftarrow>ks. x k"]
  have "\<bar>of_int (\<Sum>k\<leftarrow>ks. round_money (x k)) - of_int (round_money (\<Sum>k\<leftarrow>ks. x k)) :: rat\<bar>
      \<le> of_nat (length ks) / 2 + 1 / 2"
    by linarith
  then have "(of_int (2 * \<bar>(\<Sum>k\<leftarrow>ks. round_money (x k)) - round_money (\<Sum>k\<leftarrow>ks. x k)\<bar>) :: rat)
      \<le> of_int (int (length ks) + 1)"
    by simp
  then show ?thesis by (simp only: of_int_le_iff)
qed

lemma sum_over_keys:
  fixes v :: "'r \<Rightarrow> 'a :: comm_monoid_add"
  assumes "distinct ks" and "key ` set rows \<subseteq> set ks"
  shows "(\<Sum>k\<leftarrow>ks. \<Sum>r\<leftarrow>filter (\<lambda>r. key r = k) rows. v r) = (\<Sum>r\<leftarrow>rows. v r)"
  using assms(2)
proof (induction rows)
  case (Cons r rows)
  have "(\<Sum>k\<leftarrow>ks. \<Sum>r\<leftarrow>filter (\<lambda>r. key r = k) (r # rows). v r)
      = (\<Sum>k\<leftarrow>ks. (if key r = k then v r else 0)) + (\<Sum>k\<leftarrow>ks. \<Sum>r\<leftarrow>filter (\<lambda>r. key r = k) rows. v r)"
    by (subst sum_list_addf [symmetric]) (rule arg_cong [where f = sum_list], simp)
  also have "(\<Sum>k\<leftarrow>ks. (if key r = k then v r else 0)) = v r"
    using Cons.prems assms(1) by (subst sum_list_distinct_conv_sum_set) (auto simp: sum.delta')
  finally show ?case using Cons by simp
qed simp

lemma keys_group_by: "map fst (group_by key rows) = remdups (map key rows)"
  by (simp add: group_by_def o_def)

lemma map_of_group_by:
  "map_of (map (\<lambda>(k, rows). (k, f rows)) (group_by key rows)) k
   = (if k \<in> key ` set rows then Some (f (filter (\<lambda>r. key r = k) rows)) else None)"
proof -
  have "map_of (map (\<lambda>k. (k, g k)) ks) k = (if k \<in> set ks then Some (g k) else None)" for g :: "'b \<Rightarrow> 'a" and ks
    by (induction ks) auto
  from this [of "\<lambda>k. f (filter (\<lambda>r. key r = k) rows)" "remdups (map key rows)"] show ?thesis
    by (simp add: group_by_def o_def)
qed

lemma filter_none: "k \<notin> key ` set rows \<Longrightarrow> filter (\<lambda>r. key r = k) rows = []"
  by (auto simp: filter_empty_conv)

lemma dict_get_group_by:
  "f [] = dflt \<Longrightarrow> dict_get dflt (map (\<lambda>(k, rows). (k, f rows)) (group_by key rows)) k
     = f (filter (\<lambda>r. key r = k) rows)"
  by (auto simp: dict_get_def map_of_group_by filter_none)

lemma dict_get_update: "dict_get dflt (AList.update k v d) k' = (if k' = k then v else dict_get dflt d k')"
  by (simp add: dict_get_def update_conv)

lemma collect_simps [simp]:
  "collect [] d = d"
  "collect ((k, v) # rows) d = collect rows (AList.update k (dict_get 0 d k + money_of v) d)"
  by (simp_all add: collect_def)

lemma dict_get_collect:
  "dict_get 0 (collect rows d) k = dict_get 0 d k + (\<Sum>(k', v)\<leftarrow>filter (\<lambda>r. fst r = k) rows. money_of v)"
  by (induction rows arbitrary: d) (auto simp: dict_get_update)

lemma keys_collect: "fst ` set (collect rows d) = fst ` set d \<union> fst ` set rows"
proof (induction rows arbitrary: d)
  case (Cons r rows)
  show ?case by (cases r) (simp add: Cons.IH dom_update insert_commute)
qed simp

lemma distinct_collect: "distinct (map fst d) \<Longrightarrow> distinct (map fst (collect rows d))"
  by (induction rows arbitrary: d) (auto simp: distinct_update)

subsection \<open>Sums over a period\<close>

lemma join_sum:
  fixes v :: "'t \<Rightarrow> 'a :: comm_monoid_add"
  shows "(\<Sum>(t, x)\<leftarrow>[(t, x). t \<leftarrow> ts, x \<leftarrow> xs, f x = g t \<and> A t \<and> B x]. v t)
    = (\<Sum>x\<leftarrow>filter B xs. \<Sum>t\<leftarrow>filter (\<lambda>t. g t = f x \<and> A t) ts. v t)"
proof (induction ts)
  case (Cons t ts)
  have "(\<Sum>(t, x)\<leftarrow>[(t, x). x \<leftarrow> xs, f x = g t \<and> A t \<and> B x]. v t)
      = (\<Sum>x\<leftarrow>filter B xs. if g t = f x \<and> A t then v t else 0)"
    by (induction xs) auto
  with Cons show ?case
    by (simp add: sum_list_addf [symmetric] if_distrib cong: if_cong)
       (rule arg_cong [where f = sum_list], rule map_cong, auto)
qed simp

text \<open>The lines and payments of a sale belong to the sale's business, and every payment is confirmed.\<close>

definition children_ok :: "db \<Rightarrow> bool" where
  "children_ok s \<longleftrightarrow> (\<forall>x \<in> set (sales s).
     (\<forall>i \<in> set (items_of (s_id x) s). si_business_id i = s_business_id x)
     \<and> (\<forall>t \<in> set (payments_of (s_id x) s). pay_business_id t = s_business_id x \<and> pay_status t = PAY_CONFIRMED))"

lemma period_payments_sum:
  fixes v :: "payment \<Rightarrow> 'a :: comm_monoid_add"
  assumes "children_ok s"
  shows "(\<Sum>(t, x)\<leftarrow>period_payments bid p s. v t) = (\<Sum>x\<leftarrow>period_sales bid p s. \<Sum>t\<leftarrow>payments_of (s_id x) s. v t)"
proof -
  have "filter (\<lambda>t. pay_sale_id t = s_id x \<and> pay_business_id t = bid) (payments s) = payments_of (s_id x) s"
    if "x \<in> set (period_sales bid p s)" for x
    using assms that
    by (auto simp: children_ok_def period_sales_def completed_sales_in_def payments_of_def intro!: filter_cong)
  moreover have "(\<Sum>(t, x)\<leftarrow>period_payments bid p s. v t)
      = (\<Sum>x\<leftarrow>period_sales bid p s. \<Sum>t\<leftarrow>filter (\<lambda>t. pay_sale_id t = s_id x \<and> pay_business_id t = bid) (payments s). v t)"
    unfolding period_payments_def period_sales_def by (rule join_sum [where A = "\<lambda>t. pay_business_id t = bid"])
  ultimately show ?thesis by (simp cong: map_cong)
qed

lemma sold_lines_sum:
  fixes v :: "sale_item \<Rightarrow> 'a :: comm_monoid_add"
  assumes "children_ok s"
  shows "(\<Sum>(i, x)\<leftarrow>sold_lines bid p s. v i) = (\<Sum>x\<leftarrow>period_sales bid p s. \<Sum>i\<leftarrow>items_of (s_id x) s. v i)"
proof -
  have "filter (\<lambda>i. si_sale_id i = s_id x \<and> si_business_id i = bid) (sale_items s) = items_of (s_id x) s"
    if "x \<in> set (period_sales bid p s)" for x
    using assms that
    by (auto simp: children_ok_def period_sales_def completed_sales_in_def items_of_def intro!: filter_cong)
  moreover have "(\<Sum>(t, x)\<leftarrow>sold_lines bid p s. v t)
      = (\<Sum>x\<leftarrow>period_sales bid p s. \<Sum>t\<leftarrow>filter (\<lambda>t. si_sale_id t = s_id x \<and> si_business_id t = bid) (sale_items s). v t)"
    unfolding sold_lines_def period_sales_def by (rule join_sum [where A = "\<lambda>t. si_business_id t = bid"])
  ultimately show ?thesis by (simp cong: map_cong)
qed

lemma group_sum:
  fixes v :: "'r \<Rightarrow> 'a :: comm_monoid_add"
  shows "(\<Sum>(k, rows)\<leftarrow>group_by key rows. \<Sum>r\<leftarrow>rows. v r) = (\<Sum>r\<leftarrow>rows. v r)"
  using sum_over_keys [of "remdups (map key rows)" key rows v] by (simp add: group_by_def o_def)

lemma sum_update:
  "distinct (map fst d) \<Longrightarrow>
     sum_list (map snd (AList.update k (dict_get 0 d k + v) d)) = sum_list (map snd d) + (v :: money)"
proof (induction d)
  case (Cons r d)
  have "dict_get 0 d k = 0" if "k \<notin> fst ` set d"
    using that by (simp add: dict_get_def map_of_eq_None_iff [THEN iffD2])
  then show ?case using Cons by (cases r) (auto simp: dict_get_def image_iff)
qed (simp add: dict_get_def)

lemma sum_collect:
  "distinct (map fst d) \<Longrightarrow>
     sum_list (map snd (collect rows d)) = sum_list (map snd d) + (\<Sum>(k, v)\<leftarrow>rows. money_of v)"
  by (induction rows arbitrary: d) (auto simp: sum_update distinct_update)

lemma map_of_updates:
  "distinct (map fst rows) \<Longrightarrow> map_of (fold (\<lambda>(k, v). AList.update k v) rows d) k
     = (case map_of rows k of None \<Rightarrow> map_of d k | Some v \<Rightarrow> Some v)"
proof (induction rows arbitrary: d)
  case (Cons r rows)
  then show ?case
    by (cases r) (auto simp: update_conv map_of_eq_None_iff [THEN iffD2] split: option.splits)
qed simp

lemma sum_updates:
  "distinct (map fst rows) \<Longrightarrow> distinct (map fst d) \<Longrightarrow> \<forall>r \<in> set rows. dict_get 0 d (fst r) = 0 \<Longrightarrow>
     sum_list (map snd (fold (\<lambda>(k, v). AList.update k v) rows d)) = sum_list (map snd d) + sum_list (map snd rows :: money list)"
proof (induction rows arbitrary: d)
  case (Cons r rows)
  obtain k v where r: "r = (k, v)" by (cases r)
  have "\<forall>r \<in> set rows. dict_get 0 (AList.update k v d) (fst r) = 0"
    using Cons.prems r by (force simp: dict_get_update)
  then show ?case using Cons sum_update [of d k v] r by (simp add: distinct_update)
qed simp

lemma method_value_inject: "method_value m = method_value m' \<longleftrightarrow> m = m'"
  by (cases m; cases m') (simp_all add: method_value_def)

text \<open>The tenders of a period by method.\<close>

lemma tender_split_updates:
  "tender_split bid p s = fold (\<lambda>(k, v). AList.update k v)
     (map (\<lambda>(m, rows). (method_value m, \<Sum>(t, x)\<leftarrow>rows. pay_amount t)) (group_by (pay_method \<circ> fst) (period_payments bid p s)))
     [(method_value CASH, 0), (method_value MPESA, 0), (method_value CREDIT, 0)]"
  by (simp add: tender_split_def fold_map o_def case_prod_beta')

lemma distinct_methods:
  "distinct (map fst (map (\<lambda>(m, rows). (method_value m, f rows)) (group_by key rows)))"
  using distinct_remdups [of "map key rows"]
  by (simp add: group_by_def o_def distinct_map inj_on_def method_value_inject)

lemma tender_split_total:
  "sum_list (map snd (tender_split bid p s)) = (\<Sum>(t, x)\<leftarrow>period_payments bid p s. pay_amount t)"
proof -
  have "dict_get 0 [(method_value CASH, 0), (method_value MPESA, 0), (method_value CREDIT, 0)] k = (0 :: money)" for k
    by (simp add: dict_get_def)
  then show ?thesis
    unfolding tender_split_updates
    by (subst sum_updates [OF distinct_methods])
       (simp_all add: method_value_inject o_def case_prod_beta' group_sum [unfolded case_prod_beta'])
qed

lemma tender_split_method:
  "map_of (tender_split bid p s) (method_value m)
     = Some (\<Sum>(t, x)\<leftarrow>filter (\<lambda>(t, x). pay_method t = m) (period_payments bid p s). pay_amount t)"
proof -
  let ?rows = "period_payments bid p s"
  have "map_of (map (\<lambda>(m, rows). (method_value m, f rows)) g) (method_value m) = map_of (map (\<lambda>(m, rows). (m, f rows)) g) m"
    for f :: "(payment \<times> sale) list \<Rightarrow> money" and g
    by (induction g) (auto simp: method_value_inject)
  from this [of "\<lambda>rows. \<Sum>(t, x)\<leftarrow>rows. pay_amount t" "group_by (pay_method \<circ> fst) ?rows"]
  have grp: "map_of (map (\<lambda>(m, rows). (method_value m, \<Sum>(t, x)\<leftarrow>rows. pay_amount t)) (group_by (pay_method \<circ> fst) ?rows))
      (method_value m) = (if m \<in> (pay_method \<circ> fst) ` set ?rows
        then Some (\<Sum>(t, x)\<leftarrow>filter (\<lambda>r. (pay_method \<circ> fst) r = m) ?rows. pay_amount t) else None)"
    unfolding map_of_group_by .
  have flt: "filter (\<lambda>r. (pay_method \<circ> fst) r = m) ?rows = filter (\<lambda>(t, x). pay_method t = m) ?rows"
    by (rule filter_cong) auto
  have none: "filter (\<lambda>(t, x). pay_method t = m) ?rows = []" if "m \<notin> (pay_method \<circ> fst) ` set ?rows"
    unfolding flt [symmetric] by (rule filter_none [OF that])
  have base: "map_of [(method_value CASH, 0), (method_value MPESA, 0), (method_value CREDIT, 0)] (method_value m) = Some (0 :: money)"
    by (cases m) (simp_all add: method_value_inject)
  show ?thesis
    unfolding tender_split_updates map_of_updates [OF distinct_methods] grp flt base using none by simp
qed

text \<open>The money that came in: tenders other than credit, and repayments.\<close>

lemma distinct_cash: "distinct (map fst [(''CASH'', 0 :: money), (''MPESA'', 0)])"
  by simp

lemma cash_collected_total:
  assumes "\<forall>t \<in> set (credit_transactions s). credit_checks t"
  shows "sum_list (map snd (cash_collected bid p s))
    = (\<Sum>(t, x)\<leftarrow>money_payments bid p s. pay_amount t) + (\<Sum>t\<leftarrow>period_repayments bid p s. - ct_amount t)"
proof -
  let ?g = "group_by ct_payment_method (period_repayments bid p s)"
  have "m \<noteq> None" if "(m, rows) \<in> set ?g" for m rows
    using that assms by (auto simp: group_by_def period_repayments_def credit_checks_def)
  then have "(\<Sum>(k, v)\<leftarrow>List.map_filter (\<lambda>(m, t). map_option (\<lambda>m. (received_value m, t)) m)
        (map (\<lambda>(m, rows). (m, sql_sum (map (\<lambda>t. Some (- cents (ct_amount t))) rows))) g). money_of v)
      = (\<Sum>(k, rows)\<leftarrow>g. \<Sum>t\<leftarrow>rows. - ct_amount t)" if "set g \<subseteq> set ?g" for g
    using that
  proof (induction g)
    case (Cons r g)
    then obtain m rows where "r = (Some m, rows)" by (cases r) fastforce
    with Cons show ?case by (simp add: map_filter_simps cents_minus)
  qed (simp add: map_filter_simps)
  from this [of ?g] have "(\<Sum>(k, v)\<leftarrow>List.map_filter (\<lambda>(m, t). map_option (\<lambda>m. (received_value m, t)) m)
        (map (\<lambda>(m, rows). (m, sql_sum (map (\<lambda>t. Some (- cents (ct_amount t))) rows))) ?g). money_of v)
      = (\<Sum>t\<leftarrow>period_repayments bid p s. - ct_amount t)"
    using group_sum [of "\<lambda>t. - ct_amount t" ct_payment_method "period_repayments bid p s"] by simp
  moreover have "(\<Sum>(k, v)\<leftarrow>map (\<lambda>(m, rows). (method_value m, sql_sum (map (Some \<circ> cents \<circ> pay_amount \<circ> fst) rows)))
        (group_by (pay_method \<circ> fst) (money_payments bid p s)). money_of v) = (\<Sum>(t, x)\<leftarrow>money_payments bid p s. pay_amount t)"
    by (simp add: o_def case_prod_beta' group_sum [unfolded case_prod_beta'])
  ultimately show ?thesis
    unfolding cash_collected_def Let_def
    by (simp add: sum_collect distinct_collect [OF distinct_cash])
qed

lemma sales_totals_sums:
  "sales_totals bid p s = (length (period_sales bid p s), \<Sum>x\<leftarrow>period_sales bid p s. s_total_amount x,
     \<Sum>x\<leftarrow>period_sales bid p s. s_discount_amount x)"
  by (simp add: sales_totals_def Let_def o_def)

lemma money_payments_split:
  assumes "children_ok s"
  shows "(\<Sum>(t, x)\<leftarrow>money_payments bid p s. pay_amount t) + (\<Sum>(t, x)\<leftarrow>filter (\<lambda>(t, x). pay_method t = CREDIT)
     (period_payments bid p s). pay_amount t) = (\<Sum>(t, x)\<leftarrow>period_payments bid p s. pay_amount t)"
proof -
  have "pay_status t = PAY_CONFIRMED" if "(t, x) \<in> set (period_payments bid p s)" for t x
    using that assms by (force simp: period_payments_def children_ok_def payments_of_def)
  then have "(\<Sum>(t, x)\<leftarrow>filter (\<lambda>(t, x). pay_status t = PAY_CONFIRMED \<and> pay_method t \<noteq> CREDIT) rows. pay_amount t)
      + (\<Sum>(t, x)\<leftarrow>filter (\<lambda>(t, x). pay_method t = CREDIT) rows. pay_amount t) = (\<Sum>(t, x)\<leftarrow>rows. pay_amount t)"
    if "set rows \<subseteq> set (period_payments bid p s)" for rows
    using that by (induction rows) auto
  then show ?thesis by (simp add: money_payments_def)
qed

text \<open>
  The summary of a period adds up. On a consistent database its tenders by method sum to the revenue, the
  revenue is the sum of the subtotals less the discounts, and the money collected is the revenue less
  what was bought on credit plus the repayments of the period.
\<close>
theorem summary_adds_up:
  assumes "sales_ok s" and "children_ok s" and "\<forall>t \<in> set (credit_transactions s). credit_checks t"
  shows "sum_list (map snd (sum_tender_split (summary bid p s))) = sum_revenue (summary bid p s)
    \<and> sum_revenue (summary bid p s) = (\<Sum>x\<leftarrow>period_sales bid p s. s_subtotal x) - sum_discounts (summary bid p s)
    \<and> (\<exists>on_credit. map_of (sum_tender_split (summary bid p s)) ''CREDIT'' = Some on_credit
        \<and> sum_cash_collected_total (summary bid p s)
          = sum_revenue (summary bid p s) - on_credit - (\<Sum>t\<leftarrow>period_repayments bid p s. ct_amount t))
    \<and> sum_net_profit (summary bid p s)
        = sum_revenue (summary bid p s) - sum_cogs (summary bid p s) - sum_expenses (summary bid p s)"
proof -
  let ?xs = "period_sales bid p s" and ?S = "summary bid p s"
  have sub: "set ?xs \<subseteq> set (sales s)" by (auto simp: period_sales_def)
  have paid: "(\<Sum>t\<leftarrow>payments_of (s_id x) s. pay_amount t) = s_total_amount x"
    and checks: "s_total_amount x = s_subtotal x - s_discount_amount x" if "x \<in> set ?xs" for x
    using that sub assms(1) by (auto simp: sales_ok_def sale_ok_def sale_checks_def)
  have revenue: "sum_revenue ?S = (\<Sum>x\<leftarrow>?xs. s_total_amount x)" "sum_discounts ?S = (\<Sum>x\<leftarrow>?xs. s_discount_amount x)"
    by (simp_all add: summary_def sales_totals_sums Let_def)
  have split: "sum_tender_split ?S = tender_split bid p s" "sum_cash_collected_total ?S = sum_list (map snd (cash_collected bid p s))"
      "sum_net_profit ?S = sum_revenue ?S - sum_cogs ?S - sum_expenses ?S"
    by (simp_all add: summary_def Let_def split_beta)
  have payments: "(\<Sum>(t, x)\<leftarrow>period_payments bid p s. pay_amount t) = sum_revenue ?S"
    unfolding period_payments_sum [OF assms(2)] revenue by (intro arg_cong [where f = sum_list] map_cong) (simp_all add: paid)
  have "sum_revenue ?S = (\<Sum>x\<leftarrow>?xs. s_subtotal x) - sum_discounts ?S"
    unfolding revenue sum_list_subtractf [symmetric] by (intro arg_cong [where f = sum_list] map_cong) (simp_all add: checks)
  moreover have "(\<Sum>t\<leftarrow>period_repayments bid p s. - ct_amount t) = - (\<Sum>t\<leftarrow>period_repayments bid p s. ct_amount t)"
    by (simp add: uminus_sum_list_map o_def)
  ultimately show ?thesis
    using tender_split_method [of bid p s CREDIT] money_payments_split [OF assms(2), of bid p]
    unfolding split tender_split_total payments cash_collected_total [OF assms(3)]
    by (simp add: method_value_def)
qed

text \<open>Two half kilos that cost one cent a kilo each, sold for 3.00 and 2.00, half of it on credit.\<close>

definition demo_line :: "uuid \<Rightarrow> uuid \<Rightarrow> money \<Rightarrow> sale_item" where
  "demo_line i pid price = \<lparr>si_id = i, si_business_id = 900, si_sale_id = 300, si_product_id = pid, si_product_name = ''Salt'',
     si_quantity = 500, si_unit_price = price, si_default_unit_price = price, si_unit_cost = Some 1,
     si_line_total = price, si_discount_allocated = 0\<rparr>"

definition demo_day :: db where
  "demo_day = (empty_db id)\<lparr>products := [demo_product 101 ''Sugar 1kg'' 15000 10000, demo_product 102 ''Salt 1kg'' 6500 48000],
     sales := [\<lparr>s_id = 300, s_business_id = 900, s_customer_id = Some 111, s_idempotency_key = 77, s_idempotency_hash = [],
       s_status = COMPLETED, s_subtotal = 500, s_discount_amount = 0, s_total_amount = 500, s_note = None, s_sold_at = 50,
       s_voided_at = None, s_voided_by = None, s_void_reason = None, s_created_by = 901, s_created_at = 50\<rparr>],
     sale_items := [demo_line 301 101 300, demo_line 302 102 200],
     payments := [\<lparr>pay_id = 303, pay_business_id = 900, pay_sale_id = 300, pay_method = CASH, pay_amount = 250,
        pay_status = PAY_CONFIRMED, pay_reference = None, pay_created_at = 50\<rparr>,
       \<lparr>pay_id = 304, pay_business_id = 900, pay_sale_id = 300, pay_method = CREDIT, pay_amount = 250,
        pay_status = PAY_CONFIRMED, pay_reference = None, pay_created_at = 50\<rparr>],
     customers := [demo_customer], credit_transactions := [demo_charge], draws := 400\<rparr>"

definition demo_period :: Period where
  "demo_period = \<lparr>pd_timezone = ''Africa/Nairobi'', pd_date_from = 1, pd_date_to = 1, pd_start = 0, pd_end = 10000\<rparr>"

theorem summary_adds_up_witness:
  "sum_revenue (summary 900 demo_period demo_day) = 500
    \<and> sum_list (map snd (sum_tender_split (summary 900 demo_period demo_day))) = 500"
proof -
  have "sales_ok demo_day" "children_ok demo_day" "\<forall>t \<in> set (credit_transactions demo_day). credit_checks t"
      "map s_total_amount (period_sales 900 demo_period demo_day) = [500]"
    by code_simp+
  moreover from this(4) have "sum_revenue (summary 900 demo_period demo_day) = 500"
    by (simp add: summary_def sales_totals_sums Let_def)
  ultimately show ?thesis using summary_adds_up [of demo_day 900 demo_period] by simp
qed

subsection \<open>The time series\<close>

definition series_days :: "(time \<Rightarrow> date) \<Rightarrow> uuid \<Rightarrow> Period \<Rightarrow> db \<Rightarrow> date list" where
  "series_days day bid p s = sort (remdups (map (day \<circ> s_sold_at) (period_sales bid p s)
     @ map (day \<circ> s_sold_at \<circ> snd) (money_payments bid p s) @ map (day \<circ> ct_occurred_at) (period_repayments bid p s)
     @ map (day \<circ> ex_incurred_at) (in_period bid (pd_start p) (pd_end p) s)))"

definition series_row :: "(time \<Rightarrow> date) \<Rightarrow> uuid \<Rightarrow> Period \<Rightarrow> db \<Rightarrow> date \<Rightarrow> Bucket" where
  "series_row day bid p s b =
     (let sold = filter (\<lambda>x. day (s_sold_at x) = b) (period_sales bid p s);
          rows = filter (\<lambda>r. day (s_sold_at (snd r)) = b) (sold_lines bid p s);
          revenue = (\<Sum>x\<leftarrow>sold. s_total_amount x); cost = money_of (sql_sum (map (cogs_line \<circ> fst) rows));
          spent = (\<Sum>e\<leftarrow>filter (\<lambda>e. day (ex_incurred_at e) = b) (in_period bid (pd_start p) (pd_end p) s). ex_amount e) in
      \<lparr>bk_bucket_start = b, bk_sales_count = length sold, bk_revenue = revenue,
       bk_discounts = (\<Sum>x\<leftarrow>sold. s_discount_amount x), bk_cogs = cost, bk_lines_missing_cost = length (missing_cost rows),
       bk_gross_profit = revenue - cost,
       bk_cash_collected = (\<Sum>r\<leftarrow>filter (\<lambda>r. day (s_sold_at (snd r)) = b) (money_payments bid p s). pay_amount (fst r))
         + (\<Sum>t\<leftarrow>filter (\<lambda>t. day (ct_occurred_at t) = b) (period_repayments bid p s). - ct_amount t),
       bk_expenses = spent, bk_net_profit = revenue - cost - spent\<rparr>)"

lemma sort_remdups_cong: "set xs = set ys \<Longrightarrow> sort (remdups xs) = sort (remdups (ys :: 'a :: linorder list))"
  by (metis sorted_list_of_set_sort_remdups)

lemma keys_of_groups: "map fst (map (\<lambda>(k, rows). (k, f rows)) (group_by key rows)) = remdups (map key rows)"
  by (simp add: group_by_def o_def)

lemma set_keys_collect: "set (map fst (collect rows d)) = set (map fst d) \<union> set (map fst rows)"
  using keys_collect [of rows d] by simp

lemma dict_get_collect_groups:
  "money_of (f []) = 0 \<Longrightarrow> dict_get 0 (collect (map (\<lambda>(k, rows). (k, f rows)) (group_by key rows)) d) k
     = dict_get 0 d k + money_of (f (filter (\<lambda>r. key r = k) rows))"
proof -
  assume f: "money_of (f []) = 0"
  have "(\<Sum>(k', v)\<leftarrow>filter (\<lambda>r. fst r = k) (map (\<lambda>k. (k, g k)) ks). money_of v) = (if k \<in> set ks then money_of (g k) else 0)"
    if "distinct ks" for g and ks
    using that by (induction ks) auto
  from this [of "remdups (map key rows)" "\<lambda>k. f (filter (\<lambda>r. key r = k) rows)"]
  show ?thesis
    using f filter_none [of k key rows] by (simp add: dict_get_collect group_by_def o_def)
qed

lemma timeseries_rows:
  "timeseries bucket bid p g s
     = map (series_row (bucket g (pd_timezone p)) bid p s) (series_days (bucket g (pd_timezone p)) bid p s)"
proof -
  let ?day = "bucket g (pd_timezone p)"
  have days: "sort (remdups (map fst (map (\<lambda>(b, rows). (b, f1 rows)) (group_by (?day \<circ> s_sold_at) (period_sales bid p s)))
        @ map fst (collect (map (\<lambda>(b, rows). (b, f2 rows)) (group_by (?day \<circ> ct_occurred_at) (period_repayments bid p s)))
            (map (\<lambda>(b, rows). (b, f3 rows)) (group_by (?day \<circ> s_sold_at \<circ> snd) (money_payments bid p s))))
        @ map fst (map (\<lambda>(b, rows). (b, f4 rows)) (group_by (?day \<circ> ex_incurred_at) (in_period bid (pd_start p) (pd_end p) s)))))
      = series_days ?day bid p s" for f1 :: "sale list \<Rightarrow> nat \<times> money \<times> money" and f2 f3 and f4 :: "expense list \<Rightarrow> money"
    unfolding series_days_def
    by (rule sort_remdups_cong) (simp only: set_append keys_of_groups set_keys_collect set_remdups, blast)
  have dflt: "money_of (sql_sum []) = 0" by (simp add: sql_sum_def money_of_def map_filter_simps)
  show ?thesis
    unfolding timeseries_def Let_def days
    by (rule map_cong [OF refl])
       (simp add: dict_get_group_by dict_get_collect_groups dflt missing_cost_def series_row_def o_def cents_minus Let_def)
qed

lemma money_of_cogs: "money_of (sql_sum (map (cogs_line \<circ> fst) rows)) = round_money (\<Sum>r\<leftarrow>rows. value_or_0 (cogs_line (fst r)))"
  by (simp add: money_of_value value_or_0_sql_sum o_def)

lemma series_days_props:
  "distinct (series_days day bid p s)" "sorted (series_days day bid p s)"
  "set (series_days day bid p s) = (day \<circ> s_sold_at) ` set (period_sales bid p s)
     \<union> (day \<circ> s_sold_at \<circ> snd) ` set (money_payments bid p s) \<union> (day \<circ> ct_occurred_at) ` set (period_repayments bid p s)
     \<union> (day \<circ> ex_incurred_at) ` set (in_period bid (pd_start p) (pd_end p) s)"
  unfolding series_days_def by auto

lemma sold_lines_sales: "snd ` set (sold_lines bid p s) \<subseteq> set (period_sales bid p s)"
  by (auto simp: sold_lines_def period_sales_def)

lemma length_as_sum: "length xs = (\<Sum>x\<leftarrow>xs. 1)" "length (filter P xs) = (\<Sum>x\<leftarrow>xs. if P x then 1 else 0)"
  by (induction xs) auto

text \<open>
  The time series of a period, for any way of cutting it into buckets, adds up to the summary of the period:
  the counts, the revenue, the discounts, the money collected, the expenses and the lines without a
  cost exactly, and the cost of goods, which is rounded in each bucket, up to half a cent for each bucket and
  half a cent for the total. The buckets come in ascending order, each once.
\<close>
theorem timeseries_adds_up:
  assumes "\<forall>t \<in> set (credit_transactions s). credit_checks t"
  shows "sum_list (map bk_sales_count (timeseries bucket bid p g s)) = sum_sales_count (summary bid p s)
    \<and> sum_list (map bk_revenue (timeseries bucket bid p g s)) = sum_revenue (summary bid p s)
    \<and> sum_list (map bk_discounts (timeseries bucket bid p g s)) = sum_discounts (summary bid p s)
    \<and> sum_list (map bk_cash_collected (timeseries bucket bid p g s)) = sum_cash_collected_total (summary bid p s)
    \<and> sum_list (map bk_expenses (timeseries bucket bid p g s)) = sum_expenses (summary bid p s)
    \<and> sum_list (map bk_lines_missing_cost (timeseries bucket bid p g s)) = sum_lines_missing_cost (summary bid p s)
    \<and> 2 * \<bar>sum_list (map bk_cogs (timeseries bucket bid p g s)) - sum_cogs (summary bid p s)\<bar>
        \<le> int (length (timeseries bucket bid p g s)) + 1
    \<and> sorted (map bk_bucket_start (timeseries bucket bid p g s))
    \<and> distinct (map bk_bucket_start (timeseries bucket bid p g s))"
proof -
  let ?day = "bucket g (pd_timezone p)" and ?S = "summary bid p s"
  let ?ks = "series_days ?day bid p s" and ?row = "series_row ?day bid p s"
  have S: "sum_sales_count ?S = length (period_sales bid p s)" "sum_revenue ?S = (\<Sum>x\<leftarrow>period_sales bid p s. s_total_amount x)"
      "sum_discounts ?S = (\<Sum>x\<leftarrow>period_sales bid p s. s_discount_amount x)"
      "sum_expenses ?S = (\<Sum>e\<leftarrow>in_period bid (pd_start p) (pd_end p) s. ex_amount e)"
      "sum_cash_collected_total ?S = (\<Sum>r\<leftarrow>money_payments bid p s. pay_amount (fst r)) + (\<Sum>t\<leftarrow>period_repayments bid p s. - ct_amount t)"
      "sum_lines_missing_cost ?S = length (missing_cost (sold_lines bid p s))"
      "sum_cogs ?S = round_money (\<Sum>r\<leftarrow>sold_lines bid p s. value_or_0 (cogs_line (fst r)))"
    using cash_collected_total [OF assms, of bid p]
    by (simp_all add: summary_def sales_totals_sums Let_def cost_figures_def money_of_cogs [unfolded comp_def] expenses_total_def o_def case_prod_beta')
  have cov: "(\<lambda>x. ?day (s_sold_at x)) ` set (period_sales bid p s) \<subseteq> set ?ks"
      "(\<lambda>r. ?day (s_sold_at (snd r))) ` set (money_payments bid p s) \<subseteq> set ?ks"
      "(\<lambda>t. ?day (ct_occurred_at t)) ` set (period_repayments bid p s) \<subseteq> set ?ks"
      "(\<lambda>e. ?day (ex_incurred_at e)) ` set (in_period bid (pd_start p) (pd_end p) s) \<subseteq> set ?ks"
    unfolding series_days_props(3) by auto
  have cov': "(\<lambda>r. ?day (s_sold_at (snd r))) ` set (sold_lines bid p s) \<subseteq> set ?ks"
    using cov(1) sold_lines_sales [of bid p s] by auto
  note sums = sum_over_keys [OF series_days_props(1)]
  have "(\<Sum>b\<leftarrow>?ks. bk_cash_collected (?row b)) = sum_cash_collected_total ?S"
    by (simp add: series_row_def Let_def sum_list_addf sums [OF cov(2)] sums [OF cov(3)] S(5))
  moreover have "2 * \<bar>(\<Sum>b\<leftarrow>?ks. bk_cogs (?row b)) - sum_cogs ?S\<bar> \<le> int (length ?ks) + 1"
    using rounded_parts [of "\<lambda>b. \<Sum>r\<leftarrow>filter (\<lambda>r. ?day (s_sold_at (snd r)) = b) (sold_lines bid p s). value_or_0 (cogs_line (fst r))" ?ks]
    unfolding sums [OF cov'] by (simp add: series_row_def Let_def money_of_cogs S(7))
  moreover have "(\<Sum>b\<leftarrow>?ks. bk_sales_count (?row b)) = sum_sales_count ?S"
    using sums [OF cov(1), of "\<lambda>_. 1 :: nat"] by (simp add: series_row_def Let_def S(1) length_as_sum(1))
  moreover have "(\<Sum>b\<leftarrow>?ks. bk_lines_missing_cost (?row b)) = sum_lines_missing_cost ?S"
    using sums [OF cov', of "\<lambda>r. if si_unit_cost (fst r) = None then 1 else 0 :: nat"]
    by (simp add: series_row_def Let_def S(6) missing_cost_def length_as_sum(2) case_prod_beta')
  moreover have "(\<Sum>b\<leftarrow>?ks. bk_revenue (?row b)) = sum_revenue ?S" "(\<Sum>b\<leftarrow>?ks. bk_discounts (?row b)) = sum_discounts ?S"
      "(\<Sum>b\<leftarrow>?ks. bk_expenses (?row b)) = sum_expenses ?S"
    by (simp_all add: series_row_def Let_def S sums [OF cov(1)] sums [OF cov(4)])
  moreover have "map (bk_bucket_start \<circ> ?row) ?ks = ?ks" by (simp add: series_row_def Let_def o_def)
  ultimately show ?thesis
    unfolding timeseries_rows using series_days_props(1,2) [of ?day bid p s] by (simp add: o_def)
qed

theorem timeseries_adds_up_witness:
  "sum_list (map bk_revenue (timeseries (\<lambda>g tz t. t) 900 demo_period DAY demo_day)) = 500"
proof -
  have "\<forall>t \<in> set (credit_transactions demo_day). credit_checks t"
      "map s_total_amount (period_sales 900 demo_period demo_day) = [500]"
    by code_simp+
  then show ?thesis using timeseries_adds_up [of demo_day "\<lambda>g tz t. t" 900 demo_period DAY]
    by (simp add: summary_def sales_totals_sums Let_def)
qed

subsection \<open>Products\<close>

text \<open>Every line names a product of the catalogue (the foreign key of \<open>sale_items\<close>).\<close>

definition lines_ok :: "db \<Rightarrow> bool" where
  "lines_ok s \<longleftrightarrow> (\<forall>i \<in> set (sale_items s). si_product_id i \<in> p_id ` set (products s))"

lemma one_match:
  assumes "distinct (map f xs)" and "k \<in> f ` set xs"
  shows "map g [x. x \<leftarrow> xs, f x = k] = [g (the (find (\<lambda>x. f x = k) xs))]"
  using assms
proof (induction xs)
  case (Cons x xs)
  show ?case
  proof (cases "f x = k")
    case True
    then have "[x. x \<leftarrow> xs, f x = k] = []" using Cons.prems(1) by (auto simp: image_iff)
    with True show ?thesis by simp
  qed (use Cons in auto)
qed simp

lemma sold_products_lines:
  assumes "distinct (map p_id (products s))" and "lines_ok s"
  shows "map snd (sold_products bid p s) = sold_lines bid p s"
proof -
  have "map snd [(q, r). r \<leftarrow> rs, q \<leftarrow> products s, p_id q = si_product_id (fst r)] = rs"
    if "set rs \<subseteq> set (sold_lines bid p s)" for rs
    using that
  proof (induction rs)
    case (Cons r rs)
    then have "si_product_id (fst r) \<in> p_id ` set (products s)" using assms(2) by (auto simp: lines_ok_def sold_lines_def)
    from one_match [OF assms(1) this, of "\<lambda>q. r"]
    have "map snd [(q, r). q \<leftarrow> products s, p_id q = si_product_id (fst r)] = [r]"
      by (simp add: map_concat o_def if_distrib cong: if_cong)
    with Cons show ?case by simp
  qed simp
  then show ?thesis by (simp add: sold_products_def)
qed

lemma product_groups_sum:
  fixes v :: "sale_item \<times> sale \<Rightarrow> 'a :: comm_monoid_add"
  assumes "distinct (map p_id (products s))" and "lines_ok s"
  shows "(\<Sum>g\<leftarrow>product_groups bid p s. \<Sum>r\<leftarrow>snd g. v r) = (\<Sum>r\<leftarrow>sold_lines bid p s. v r)"
  using group_sum [of "\<lambda>r. v (snd r)" "p_id \<circ> fst" "sold_products bid p s"]
  unfolding sold_products_lines [OF assms, symmetric]
  by (simp add: product_groups_def o_def case_prod_beta')

lemma sum_sorted: "(\<Sum>x\<leftarrow>sort_key k xs. f x) = (\<Sum>x\<leftarrow>xs. f x :: 'b :: comm_monoid_add)"
  by (metis mset_map mset_sort sum_mset_sum_list)

text \<open>
  C16: Performance by product. When no product is cut off by the limit, the revenues of the products add up to
  the revenue of the period: the discount of a sale is counted once, on its lines. The cost of goods of
  the products adds up to that of the period up to half a cent for each product and half a cent
  for the total, because it is rounded for each product; the gross profit inherits that difference.
\<close>
theorem product_performance_adds_up:
  assumes "sales_ok s" and "children_ok s" and "lines_ok s" and "distinct (map p_id (products s))"
    and "length (product_groups bid p s) \<le> min limit MAX_ROWS"
  shows "sum_list (map pp_revenue (product_performance collate bid p order limit s)) = sum_revenue (summary bid p s)
    \<and> 2 * \<bar>sum_list (map pp_cogs (product_performance collate bid p order limit s)) - sum_cogs (summary bid p s)\<bar>
        \<le> int (length (product_performance collate bid p order limit s)) + 1
    \<and> sum_list (map pp_gross_profit (product_performance collate bid p order limit s))
        = sum_list (map pp_revenue (product_performance collate bid p order limit s))
          - sum_list (map pp_cogs (product_performance collate bid p order limit s))"
proof -
  let ?S = "summary bid p s" and ?gs = "product_groups bid p s"
  have rows: "(\<Sum>x\<leftarrow>product_performance collate bid p order limit s. f x) = (\<Sum>g\<leftarrow>?gs. f (product_row g))" 
    for f :: "ProductPerformance \<Rightarrow> money"
    using assms(5) by (simp add: product_performance_def o_def sum_sorted)
  have len: "length (product_performance collate bid p order limit s) = length ?gs"
    using assms(5) by (simp add: product_performance_def)
  have revenue: "pp_revenue (product_row g) = (\<Sum>r\<leftarrow>snd g. si_line_total (fst r) - si_discount_allocated (fst r))" for g
    by (simp add: product_row_def revenue_sum_def line_revenue_def cents_minus o_def split_beta)
  have cogs: "pp_cogs (product_row g) = round_money (\<Sum>r\<leftarrow>snd g. value_or_0 (cogs_line (fst r)))" for g
    using money_of_cogs [of "snd g"]
    by (simp add: product_row_def cogs_sum_def money_of_def value_or_0_def o_def split_beta split: option.splits)
  have "(\<Sum>i\<leftarrow>items_of (s_id x) s. si_line_total i - si_discount_allocated i) = s_total_amount x"
    if "x \<in> set (period_sales bid p s)" for x
    using that assms(1)
    by (auto simp: sales_ok_def sale_ok_def sale_checks_def period_sales_def sum_list_subtractf)
  then have "(\<Sum>r\<leftarrow>sold_lines bid p s. si_line_total (fst r) - si_discount_allocated (fst r)) = sum_revenue ?S"
    using sold_lines_sum [OF assms(2), of "\<lambda>i. si_line_total i - si_discount_allocated i" bid p]
    by (simp add: summary_def sales_totals_sums Let_def case_prod_beta' cong: map_cong)
  then have "(\<Sum>x\<leftarrow>product_performance collate bid p order limit s. pp_revenue x) = sum_revenue ?S"
    unfolding rows revenue product_groups_sum [OF assms(4,3)] .
  moreover have "2 * \<bar>(\<Sum>x\<leftarrow>product_performance collate bid p order limit s. pp_cogs x) - sum_cogs ?S\<bar> \<le> int (length ?gs) + 1"
    using rounded_parts [of "\<lambda>g. \<Sum>r\<leftarrow>snd g. value_or_0 (cogs_line (fst r))" ?gs]
    unfolding rows cogs product_groups_sum [OF assms(4,3)]
    by (simp add: summary_def Let_def cost_figures_def money_of_cogs [unfolded comp_def] o_def split_beta)
  moreover have "(\<Sum>x\<leftarrow>product_performance collate bid p order limit s. pp_gross_profit x)
      = (\<Sum>x\<leftarrow>product_performance collate bid p order limit s. pp_revenue x)
        - (\<Sum>x\<leftarrow>product_performance collate bid p order limit s. pp_cogs x)"
    unfolding rows by (simp add: product_row_def split_beta sum_list_subtractf)
  ultimately show ?thesis unfolding len by blast
qed

theorem product_performance_adds_up_witness:
  "sum_list (map pp_revenue (product_performance (\<lambda>n. 0) 900 demo_period BY_REVENUE 10 demo_day)) = 500"
proof -
  have "sales_ok demo_day" "children_ok demo_day" "lines_ok demo_day" "distinct (map p_id (products demo_day))"
      "length (product_groups 900 demo_period demo_day) \<le> min 10 MAX_ROWS"
      "map s_total_amount (period_sales 900 demo_period demo_day) = [500]"
    by code_simp+
  then show ?thesis using product_performance_adds_up [of demo_day 900 demo_period 10 "\<lambda>n. 0" BY_REVENUE]
    by (simp add: summary_def sales_totals_sums Let_def)
qed

text \<open>
  The difference is real: two half kilos at one cent a kilo cost one cent together and one cent each, so the profits of
  the two products add up to one cent less than the profit of the period.
\<close>

lemma product_profit_differs:
  "sum_list (map pp_gross_profit (product_performance (\<lambda>n. 0) 900 demo_period BY_REVENUE 10 demo_day)) = 498
    \<and> sum_gross_profit (summary 900 demo_period demo_day) = 499"
proof -
  have groups: "map snd (product_groups 900 demo_period demo_day)
      = [[(demo_line 301 101 300, hd (sales demo_day))], [(demo_line 302 102 200, hd (sales demo_day))]]"
    and lines: "sold_lines 900 demo_period demo_day = [(demo_line 301 101 300, hd (sales demo_day)), (demo_line 302 102 200, hd (sales demo_day))]"
    and total: "map s_total_amount (period_sales 900 demo_period demo_day) = [500]"
    by code_simp+
  have cost: "money_of (Some (cogs_sum [(demo_line i pid price, x)])) = 1"
      "money_of (revenue_sum [(demo_line i pid price, x)]) = price" for i pid price x
    by (simp add: cogs_sum_def sql_sum_def map_filter_simps cogs_line_def demo_line_def
        money_of_def round_money_def round_half_up_def millis_def cents_def)
      (simp add: revenue_sum_def sql_sum_def map_filter_simps line_revenue_def demo_line_def money_of_def cents_minus)
  have "money_of (sql_sum (map (cogs_line \<circ> fst) (sold_lines 900 demo_period demo_day))) = 1"
    by (simp add: lines sql_sum_def map_filter_simps cogs_line_def demo_line_def money_of_def round_money_def
        round_half_up_def millis_def cents_def floor_eq_iff)
  then have "sum_gross_profit (summary 900 demo_period demo_day) = 499"
    using total by (simp add: summary_def sales_totals_sums Let_def cost_figures_def)
  moreover have "length (product_groups 900 demo_period demo_day) = 2" using groups by (metis length_map list.size(3,4) One_nat_def Suc_1 add_0_right add_Suc_right)
  moreover have "(\<Sum>g\<leftarrow>product_groups 900 demo_period demo_day. pp_gross_profit (product_row g)) = 498"
  proof -
    have "(\<Sum>g\<leftarrow>product_groups 900 demo_period demo_day. pp_gross_profit (product_row g))
        = (\<Sum>rows\<leftarrow>map snd (product_groups 900 demo_period demo_day). money_of (revenue_sum rows) - money_of (Some (cogs_sum rows)))"
      by (simp add: product_row_def split_beta o_def)
    also have "\<dots> = 498" unfolding groups by (simp add: cost)
    finally show ?thesis .
  qed
  ultimately show ?thesis by (simp add: product_performance_def sum_sorted o_def MAX_ROWS_def)
qed

end
