(* ===== verification/Regex.thy ===== *)
theory Regex
  imports Prelude
begin

text \<open>
  The part of Python's \<open>re\<close> that the SMS parser uses: a backtracking matcher. A regular expression maps a
  position to the list of the positions where a match can end, in the order in which the engine tries
  them, with the groups captured on the way; the match that \<open>re\<close> reports is the first of the list.
  A position is the previous character (for \<open>\b\<close>), the rest of the text and the captured groups.

  \<open>r*\<close> repeats while the body makes progress. Its fuel is the length of the rest: at the end of the text no
  body can make progress, so it never cuts a repetition short (\<open>star_fuel\<close>).
\<close>

record pos =
  prev :: "char option"
  rest :: string
  groups :: "(string \<times> string) list"

datatype re =
    Eps
  | Cls "char \<Rightarrow> bool"
  | Bound
  | Cat re re
  | Alt re re
  | Star bool re
  | Grp string re

definition word_char :: "char \<Rightarrow> bool" where
  "word_char c \<longleftrightarrow> (let n = of_char c :: int in
     48 \<le> n \<and> n \<le> 57 \<or> 65 \<le> n \<and> n \<le> 90 \<or> n = 95 \<or> 97 \<le> n \<and> n \<le> 122)"

definition at_boundary :: "pos \<Rightarrow> bool" where
  "at_boundary p \<longleftrightarrow>
     (case prev p of None \<Rightarrow> False | Some c \<Rightarrow> word_char c) \<noteq> (case rest p of [] \<Rightarrow> False | c # cs \<Rightarrow> word_char c)"

definition step :: "(char \<Rightarrow> bool) \<Rightarrow> pos \<Rightarrow> pos list" where
  "step P p = (case rest p of [] \<Rightarrow> [] | c # cs \<Rightarrow> if P c then [p\<lparr>prev := Some c, rest := cs\<rparr>] else [])"

fun star :: "(pos \<Rightarrow> pos list) \<Rightarrow> bool \<Rightarrow> nat \<Rightarrow> pos \<Rightarrow> pos list" where
  "star f greedy 0 p = [p]"
| "star f greedy (Suc n) p =
     (let more = concat (map (star f greedy n) (filter (\<lambda>q. length (rest q) < length (rest p)) (f p))) in
      if greedy then more @ [p] else p # more)"

text \<open>The text between two positions of one match.\<close>

definition consumed :: "pos \<Rightarrow> pos \<Rightarrow> string" where
  "consumed p q = take (length (rest p) - length (rest q)) (rest p)"

primrec ends :: "re \<Rightarrow> pos \<Rightarrow> pos list" where
  "ends Eps = (\<lambda>p. [p])"
| "ends (Cls P) = step P"
| "ends Bound = (\<lambda>p. if at_boundary p then [p] else [])"
| "ends (Cat a b) = (\<lambda>p. concat (map (ends b) (ends a p)))"
| "ends (Alt a b) = (\<lambda>p. ends a p @ ends b p)"
| "ends (Star greedy r) = (\<lambda>p. star (ends r) greedy (length (rest p)) p)"
| "ends (Grp n r) = (\<lambda>p. map (\<lambda>q. q\<lparr>groups := (n, consumed p q) # groups q\<rparr>) (ends r p))"

definition first :: "'a list \<Rightarrow> 'a option" where
  "first xs = (case xs of [] \<Rightarrow> None | x # _ \<Rightarrow> Some x)"

definition start_at :: "char option \<Rightarrow> string \<Rightarrow> pos" where
  "start_at pv t = \<lparr>prev = pv, rest = t, groups = []\<rparr>"

text \<open>\<open>pattern.match\<close>, \<open>pattern.search\<close> and \<open>pattern.sub("", ..)\<close> for a pattern that cannot match the empty text.\<close>

definition match_at :: "re \<Rightarrow> char option \<Rightarrow> string \<Rightarrow> pos option" where
  "match_at r pv t = first (ends r (start_at pv t))"

definition re_match :: "re \<Rightarrow> string \<Rightarrow> pos option" where
  "re_match r t = match_at r None t"

fun search_from :: "re \<Rightarrow> char option \<Rightarrow> string \<Rightarrow> pos option" where
  "search_from r pv [] = match_at r pv []"
| "search_from r pv (c # cs) =
     (case match_at r pv (c # cs) of Some p \<Rightarrow> Some p | None \<Rightarrow> search_from r (Some c) cs)"

definition re_search :: "re \<Rightarrow> string \<Rightarrow> pos option" where
  "re_search r t = search_from r None t"

function remove_from :: "re \<Rightarrow> char option \<Rightarrow> string \<Rightarrow> string" where
  "remove_from r pv [] = []"
| "remove_from r pv (c # cs) =
     (case match_at r pv (c # cs) of
        Some p \<Rightarrow> if length (rest p) < length (c # cs) then remove_from r (prev p) (rest p)
                  else c # remove_from r (Some c) cs
      | None \<Rightarrow> c # remove_from r (Some c) cs)"
  by pat_completeness auto
termination
  by (relation "measure (\<lambda>(r, pv, t). length t)") auto

definition re_remove :: "re \<Rightarrow> string \<Rightarrow> string" where
  "re_remove r t = remove_from r None t"

definition group :: "string \<Rightarrow> pos \<Rightarrow> string option" where
  "group n p = map_of (groups p) n"

subsection \<open>Abbreviated patterns\<close>

definition same_letter :: "char \<Rightarrow> char \<Rightarrow> bool" where
  "same_letter a b \<longleftrightarrow> lower_char a = lower_char b"

text \<open>A literal under \<open>re.IGNORECASE\<close>.\<close>

definition lit :: "string \<Rightarrow> re" where
  "lit t = foldr (\<lambda>c r. Cat (Cls (same_letter c)) r) t Eps"

definition opt :: "re \<Rightarrow> re" where "opt r = Alt r Eps"
definition many :: "re \<Rightarrow> re" where "many r = Star True r"
definition many1 :: "re \<Rightarrow> re" where "many1 r = Cat r (Star True r)"
definition many1_lazy :: "re \<Rightarrow> re" where "many1_lazy r = Cat r (Star False r)"

fun exactly :: "nat \<Rightarrow> re \<Rightarrow> re" where
  "exactly 0 r = Eps"
| "exactly (Suc n) r = Cat r (exactly n r)"

fun at_most :: "nat \<Rightarrow> re \<Rightarrow> re" where
  "at_most 0 r = Eps"
| "at_most (Suc n) r = Alt (Cat r (at_most n r)) Eps"

fun cats :: "re list \<Rightarrow> re" where
  "cats [] = Eps"
| "cats (r # rs) = Cat r (cats rs)"

fun alts :: "re list \<Rightarrow> re" where
  "alts [] = Cls (\<lambda>_. False)"
| "alts [r] = r"
| "alts (r # rs) = Alt r (alts rs)"

definition digit :: re where "digit = Cls (\<lambda>c. c \<in> set ''0123456789'')"
definition space :: re where "space = Cls is_space"
definition any_char :: re where "any_char = Cls (\<lambda>c. c \<noteq> CHR 0x0A)"
definition chr :: "char \<Rightarrow> re" where "chr c = Cls (\<lambda>d. d = c)"
definition one_of :: "string \<Rightarrow> re" where "one_of cs = Cls (\<lambda>d. d \<in> set cs)"

text \<open>The class \<open>[A-Z0-9]\<close> under \<open>re.IGNORECASE\<close>.\<close>

definition alnum_char :: "char \<Rightarrow> bool" where
  "alnum_char c \<longleftrightarrow> (let n = of_char c :: int in
     48 \<le> n \<and> n \<le> 57 \<or> 65 \<le> n \<and> n \<le> 90 \<or> 97 \<le> n \<and> n \<le> 122)"

subsection \<open>What a match is\<close>

text \<open>A match never moves backwards and ends at a suffix of the text it started from.\<close>

definition suffix_of :: "pos \<Rightarrow> pos \<Rightarrow> bool" where
  "suffix_of p q \<longleftrightarrow> (\<exists>t. rest p = t @ rest q)"

lemma suffix_of_refl [simp]: "suffix_of p p"
  by (simp add: suffix_of_def)

lemma suffix_of_trans: "suffix_of p q \<Longrightarrow> suffix_of q u \<Longrightarrow> suffix_of p u"
  unfolding suffix_of_def by (metis append.assoc)

lemma star_suffix:
  assumes "\<And>p q. q \<in> set (f p) \<Longrightarrow> suffix_of p q"
  shows "q \<in> set (star f greedy n p) \<Longrightarrow> suffix_of p q"
proof (induction n arbitrary: p)
  case 0
  then show ?case by simp
next
  case (Suc n)
  then show ?case by (auto simp: Let_def split: if_splits intro: suffix_of_trans assms)
qed

lemma ends_suffix: "q \<in> set (ends r p) \<Longrightarrow> suffix_of p q"
proof (induction r arbitrary: p q)
  case (Cls P)
  then show ?case by (cases "rest p") (auto simp: step_def suffix_of_def split: if_splits)
next
  case (Cat a b)
  then obtain u where "u \<in> set (ends a p)" "q \<in> set (ends b u)" by auto
  with Cat.IH show ?case by (blast intro: suffix_of_trans)
next
  case (Star greedy r)
  then show ?case by (auto intro: star_suffix)
next
  case (Grp n r)
  then show ?case by (auto simp: suffix_of_def)
qed (auto split: if_splits)

lemma consumed_append:
  assumes "suffix_of p q" and "suffix_of q u"
  shows "consumed p u = consumed p q @ consumed q u"
  using assms by (auto simp: suffix_of_def consumed_def)

lemma consumed_rest: "suffix_of p q \<Longrightarrow> rest p = consumed p q @ rest q"
  by (auto simp: suffix_of_def consumed_def)

text \<open>More fuel than there is text left changes nothing: a repetition is never cut short.\<close>

lemma star_fuel: "length (rest p) \<le> n \<Longrightarrow> star f greedy n p = star f greedy (length (rest p)) p"
proof (induction n arbitrary: p rule: less_induct)
  case (less n)
  show ?case
  proof (cases n)
    case 0
    with less.prems show ?thesis by simp
  next
    case (Suc m)
    have body: "star f greedy m q = star f greedy (length (rest q)) q" if "length (rest q) < length (rest p)" for q
      using that less.prems Suc by (intro less.IH) auto
    show ?thesis
    proof (cases "length (rest p)")
      case 0
      then show ?thesis by (simp add: Suc)
    next
      case l: (Suc k)
      have "star f greedy k q = star f greedy (length (rest q)) q" if "length (rest q) < length (rest p)" for q
        using that l less.prems Suc by (intro less.IH) auto
      with body have "map (star f greedy m) (filter (\<lambda>q. length (rest q) < length (rest p)) (f p))
          = map (star f greedy k) (filter (\<lambda>q. length (rest q) < length (rest p)) (f p))"
        by simp
      from this [unfolded l] show ?thesis unfolding Suc l star.simps Let_def by (simp only:)
    qed
  qed
qed

subsection \<open>The language of a pattern\<close>

text \<open>What a pattern can consume, without regard to boundaries and to the order of attempts.\<close>

inductive in_lang :: "re \<Rightarrow> string \<Rightarrow> bool" where
  lang_eps: "in_lang Eps []"
| lang_cls: "P c \<Longrightarrow> in_lang (Cls P) [c]"
| lang_bound: "in_lang Bound []"
| lang_cat: "in_lang a u \<Longrightarrow> in_lang b v \<Longrightarrow> in_lang (Cat a b) (u @ v)"
| lang_alt1: "in_lang a u \<Longrightarrow> in_lang (Alt a b) u"
| lang_alt2: "in_lang b u \<Longrightarrow> in_lang (Alt a b) u"
| lang_star0: "in_lang (Star g r) []"
| lang_star1: "in_lang r u \<Longrightarrow> in_lang (Star g r) v \<Longrightarrow> in_lang (Star g r) (u @ v)"
| lang_grp: "in_lang r u \<Longrightarrow> in_lang (Grp n r) u"

inductive_simps in_lang_simps [simp]:
  "in_lang Eps w" "in_lang (Cls P) w" "in_lang Bound w" "in_lang (Alt a b) w" "in_lang (Grp n r) w"

inductive_simps in_lang_Cat: "in_lang (Cat a b) w"

lemma in_lang_Cls_Cat: "in_lang (Cat (Cls P) r) w \<longleftrightarrow> (\<exists>c v. w = c # v \<and> P c \<and> in_lang r v)"
  by (auto simp: in_lang_Cat) (metis append_Cons append_Nil)

lemma star_sound:
  assumes "\<And>p q. q \<in> set (f p) \<Longrightarrow> suffix_of p q \<and> in_lang r (consumed p q)"
  shows "q \<in> set (star f g n p) \<Longrightarrow> in_lang (Star g r) (consumed p q)"
proof (induction n arbitrary: p)
  case 0
  then show ?case by (simp add: consumed_def lang_star0)
next
  case (Suc n)
  then consider "q = p" | u where "u \<in> set (f p)" "q \<in> set (star f g n u)"
    by (auto simp: Let_def split: if_splits)
  then show ?case
  proof cases
    case 1
    then show ?thesis by (simp add: consumed_def lang_star0)
  next
    case (2 u)
    with assms have u: "suffix_of p u" "in_lang r (consumed p u)" by blast+
    have "suffix_of u q" by (rule star_suffix [OF _ 2(2)]) (use assms in blast)
    then have "consumed p q = consumed p u @ consumed u q" by (rule consumed_append [OF u(1)])
    moreover have "in_lang (Star g r) (consumed u q)" by (rule Suc.IH [OF 2(2)])
    ultimately show ?thesis using u(2) by (simp add: lang_star1)
  qed
qed

text \<open>The matcher only consumes what the pattern describes.\<close>

lemma ends_sound: "q \<in> set (ends r p) \<Longrightarrow> in_lang r (consumed p q)"
proof (induction r arbitrary: p q)
  case (Cls P)
  then show ?case by (cases "rest p") (auto simp: step_def consumed_def split: if_splits)
next
  case (Cat a b)
  then obtain u where u: "u \<in> set (ends a p)" "q \<in> set (ends b u)" by auto
  from u Cat.IH have "in_lang (Cat a b) (consumed p u @ consumed u q)" by (blast intro: lang_cat)
  with consumed_append [OF ends_suffix [OF u(1)] ends_suffix [OF u(2)]] show ?case by simp
next
  case (Star g r)
  then show ?case by (auto intro!: star_sound ends_suffix)
next
  case (Grp n r)
  then show ?case by (auto simp: consumed_def)
qed (auto simp: consumed_def split: if_splits)

text \<open>The groups of a pattern, and those every match sets.\<close>

primrec groups_of :: "re \<Rightarrow> (string \<times> re) list" where
  "groups_of Eps = []"
| "groups_of (Cls P) = []"
| "groups_of Bound = []"
| "groups_of (Cat a b) = groups_of a @ groups_of b"
| "groups_of (Alt a b) = groups_of a @ groups_of b"
| "groups_of (Star g r) = groups_of r"
| "groups_of (Grp n r) = (n, r) # groups_of r"

primrec always_sets :: "string \<Rightarrow> re \<Rightarrow> bool" where
  "always_sets n Eps = False"
| "always_sets n (Cls P) = False"
| "always_sets n Bound = False"
| "always_sets n (Cat a b) = (always_sets n a \<or> always_sets n b)"
| "always_sets n (Alt a b) = (always_sets n a \<and> always_sets n b)"
| "always_sets n (Star g r) = False"
| "always_sets n (Grp m r) = (m = n \<or> always_sets n r)"

definition captures_from :: "(string \<times> re) list \<Rightarrow> pos \<Rightarrow> pos \<Rightarrow> bool" where
  "captures_from gs p q \<longleftrightarrow> set (groups p) \<subseteq> set (groups q)
     \<and> (\<forall>(n, w) \<in> set (groups q). (n, w) \<in> set (groups p) \<or> (\<exists>r. (n, r) \<in> set gs \<and> in_lang r w))"

lemma captures_from_refl [simp]: "captures_from gs p p"
  by (auto simp: captures_from_def)

lemma captures_from_trans:
  "captures_from gs p u \<Longrightarrow> captures_from hs u q \<Longrightarrow> set gs \<subseteq> set ks \<Longrightarrow> set hs \<subseteq> set ks \<Longrightarrow> captures_from ks p q"
  unfolding captures_from_def by (fastforce simp: subset_iff)

lemma captures_from_mono: "captures_from gs p q \<Longrightarrow> set gs \<subseteq> set ks \<Longrightarrow> captures_from ks p q"
  by (rule captures_from_trans [of gs p q ks q]) simp_all

lemma star_captures:
  assumes "\<And>p q. q \<in> set (f p) \<Longrightarrow> captures_from gs p q"
  shows "q \<in> set (star f g n p) \<Longrightarrow> captures_from gs p q"
proof (induction n arbitrary: p)
  case 0
  then show ?case by simp
next
  case (Suc n)
  then consider "q = p" | u where "u \<in> set (f p)" "q \<in> set (star f g n u)"
    by (auto simp: Let_def split: if_splits)
  then show ?case
  proof cases
    case (2 u)
    with assms Suc.IH have "captures_from gs p u" "captures_from gs u q" by blast+
    then show ?thesis by (rule captures_from_trans) simp_all
  qed simp
qed

text \<open>A captured text belongs to the language of a group of that name.\<close>

lemma ends_captures: "q \<in> set (ends r p) \<Longrightarrow> captures_from (groups_of r) p q"
proof (induction r arbitrary: p q)
  case (Cls P)
  then show ?case by (cases "rest p") (auto simp: step_def captures_from_def split: if_splits)
next
  case (Cat a b)
  then obtain u where "u \<in> set (ends a p)" "q \<in> set (ends b u)" by auto
  with Cat.IH have "captures_from (groups_of a) p u" "captures_from (groups_of b) u q" by blast+
  then show ?case by (rule captures_from_trans) simp_all
next
  case (Alt a b)
  then consider "q \<in> set (ends a p)" | "q \<in> set (ends b p)" by auto
  then show ?case
    using Alt.IH(1) [of q p, THEN captures_from_mono] Alt.IH(2) [of q p, THEN captures_from_mono] by cases auto
next
  case (Star g r)
  then show ?case by (auto intro: star_captures)
next
  case (Grp n r)
  then obtain u where u: "u \<in> set (ends r p)" and q: "q = u\<lparr>groups := (n, consumed p u) # groups u\<rparr>" by auto
  with Grp.IH [OF u] ends_sound [OF u] show ?case by (fastforce simp: captures_from_def)
qed (auto split: if_splits)

lemma ends_always_sets: "q \<in> set (ends r p) \<Longrightarrow> always_sets n r \<Longrightarrow> n \<in> fst ` set (groups q)"
proof (induction r arbitrary: p q)
  case (Cat a b)
  then obtain u where u: "u \<in> set (ends a p)" "q \<in> set (ends b u)" by auto
  have "set (groups u) \<subseteq> set (groups q)" using ends_captures [OF u(2)] by (simp add: captures_from_def)
  moreover have "n \<in> fst ` set (groups u) \<or> n \<in> fst ` set (groups q)"
    using Cat.IH(1) [OF u(1)] Cat.IH(2) [OF u(2)] Cat.prems(2) by auto
  ultimately show ?case by (meson image_mono subsetD)
qed (auto split: if_splits)

text \<open>The same for the matches the module functions return.\<close>

lemma match_at_ends: "match_at r pv t = Some p \<Longrightarrow> p \<in> set (ends r (start_at pv t))"
  by (auto simp: match_at_def first_def split: list.splits)

lemma search_from_ends: "search_from r pv t = Some p \<Longrightarrow> \<exists>pv' t'. p \<in> set (ends r (start_at pv' t'))"
  by (induction r pv t rule: search_from.induct) (auto split: option.splits dest: match_at_ends)

lemma found_ends:
  "re_match r t = Some p \<or> re_search r t = Some p \<Longrightarrow> \<exists>pv' t'. p \<in> set (ends r (start_at pv' t'))"
  by (auto simp: re_match_def re_search_def dest: match_at_ends search_from_ends)

lemma group_in_lang:
  assumes "re_match r t = Some p \<or> re_search r t = Some p" and "group n p = Some w"
  obtains r' where "(n, r') \<in> set (groups_of r)" "in_lang r' w"
proof -
  from found_ends [OF assms(1)] obtain pv' t' where "p \<in> set (ends r (start_at pv' t'))" by blast
  from ends_captures [OF this] map_of_SomeD [OF assms(2) [unfolded group_def]] show thesis
    using that by (auto simp: captures_from_def start_at_def)
qed

lemma group_set:
  assumes "re_match r t = Some p \<or> re_search r t = Some p" and "always_sets n r"
  obtains w where "group n p = Some w"
proof -
  from found_ends [OF assms(1)] obtain pv' t' where "p \<in> set (ends r (start_at pv' t'))" by blast
  from ends_always_sets [OF this assms(2)] that show thesis
    by (auto simp: group_def) (metis domD dom_map_of_conv_image_fst image_eqI fst_conv)
qed

text \<open>Lengths.\<close>

lemma in_lang_exactly: "in_lang (exactly n (Cls P)) w \<longleftrightarrow> length w = n \<and> list_all P w"
proof (induction n arbitrary: w)
  case 0
  then show ?case by auto
next
  case (Suc n)
  then show ?case by (cases w) (auto simp: in_lang_Cls_Cat)
qed

lemma in_lang_at_most: "in_lang (at_most n (Cls P)) w \<longleftrightarrow> length w \<le> n \<and> list_all P w"
proof (induction n arbitrary: w)
  case 0
  then show ?case by auto
next
  case (Suc n)
  then show ?case by (cases w) (auto simp: in_lang_Cls_Cat)
qed

primrec min_len :: "re \<Rightarrow> nat" where
  "min_len Eps = 0"
| "min_len (Cls P) = 1"
| "min_len Bound = 0"
| "min_len (Cat a b) = min_len a + min_len b"
| "min_len (Alt a b) = min (min_len a) (min_len b)"
| "min_len (Star g r) = 0"
| "min_len (Grp n r) = min_len r"

text \<open>\<open>None\<close> is no bound.\<close>

primrec max_len :: "re \<Rightarrow> nat option" where
  "max_len Eps = Some 0"
| "max_len (Cls P) = Some 1"
| "max_len Bound = Some 0"
| "max_len (Cat a b) = (case (max_len a, max_len b) of (Some m, Some n) \<Rightarrow> Some (m + n) | _ \<Rightarrow> None)"
| "max_len (Alt a b) = (case (max_len a, max_len b) of (Some m, Some n) \<Rightarrow> Some (max m n) | _ \<Rightarrow> None)"
| "max_len (Star g r) = None"
| "max_len (Grp n r) = max_len r"

lemma in_lang_min_len: "in_lang r w \<Longrightarrow> min_len r \<le> length w"
  by (induction rule: in_lang.induct) auto

lemma in_lang_max_len: "in_lang r w \<Longrightarrow> max_len r = Some n \<Longrightarrow> length w \<le> n"
  by (induction arbitrary: n rule: in_lang.induct)
    (fastforce split: option.splits prod.splits)+

lemma groups_of_plain [simp]:
  "groups_of (exactly n (Cls P)) = []" "groups_of (at_most n (Cls P)) = []"
  "groups_of (lit t) = []" "groups_of space = []" "groups_of digit = []" "groups_of any_char = []"
  "groups_of (chr c) = []" "groups_of (one_of cs) = []"
  "groups_of (many r) = groups_of r" "groups_of (many1 r) = groups_of r @ groups_of r"
  "groups_of (many1_lazy r) = groups_of r @ groups_of r" "groups_of (opt r) = groups_of r"
proof -
  show "groups_of (exactly n (Cls P)) = []" by (induction n) auto
  show "groups_of (at_most n (Cls P)) = []" by (induction n) auto
  show "groups_of (lit t) = []" by (induction t) (auto simp: lit_def)
qed (simp_all add: space_def digit_def any_char_def chr_def one_of_def many_def many1_def many1_lazy_def opt_def)

end
