(* ===== verification/Sms_Parser.thy ===== *)
theory Sms_Parser
  imports Schema Regex Calendar
begin

text \<open>
  The M-Pesa confirmation parser (\<open>mpesa/parser.py\<close>), pattern by pattern. Text is ASCII. Converting a
  date and a time of day in Nairobi to UTC is left to the time zone database: \<open>nairobi y m d h min\<close> is the
  instant.
\<close>

datatype SmsDirection = RECEIVED | SENT | DIRECTION_UNKNOWN

record ParsedSms =
  sms_code :: string
  sms_amount :: money
  sms_direction :: SmsDirection
  sms_kind :: SmsKind
  sms_sender_name :: "string option"
  sms_sender_phone_masked :: "string option"
  sms_sender_last3 :: "string option"
  sms_account_reference :: "string option"
  sms_occurred_at :: time
  sms_raw_text :: string

definition MAX_NAME_LENGTH :: nat where
  "MAX_NAME_LENGTH = 120"

subsection \<open>Patterns\<close>

definition CODE :: re where
  "CODE = cats [many space, Grp ''1'' (exactly 10 (Cls alnum_char)), many1 space, lit ''Confirmed'', Bound]"

definition currency :: re where
  "currency = cats [Alt (lit ''Ksh'') (lit ''KES''), opt (chr (CHR ''.'')), opt space]"

definition AMOUNT :: re where
  "AMOUNT = cats [Bound, currency,
     Grp ''1'' (Alt (cats [digit, at_most 2 digit, many1 (Cat (chr (CHR '','')) (exactly 3 digit))]) (many1 digit)),
     opt (Cat (chr (CHR ''.'')) (Grp ''2'' (Cat digit (at_most 1 digit))))]"

definition RECEIVED_RE :: re where
  "RECEIVED_RE = cats [Bound, alts [lit ''you have received'', lit ''received from'', lit ''paid by''], Bound]"

definition SENT_RE :: re where
  "SENT_RE = cats [Bound, alts [lit ''sent to'', lit ''paid to'', Cat (lit ''withdraw'') (opt (lit ''n'')),
     lit ''withdraw'', lit ''bought'', lit ''of airtime'', lit ''airtime for'', lit ''give''], Bound]"

definition PHONE :: re where
  "PHONE = alts [
     cats [chr (CHR ''0''), one_of ''17'', exactly 2 digit, exactly 2 (chr (CHR ''*'')), at_most 1 (chr (CHR ''*'')),
           exactly 3 digit],
     cats [opt (chr (CHR ''+'')), lit ''254'', exactly 9 digit],
     cats [chr (CHR ''0''), one_of ''17'', exactly 8 digit]]"

definition FROM :: re where
  "FROM = cats [Bound, lit ''from'', many1 space, Grp ''name'' (many1_lazy any_char), many1 space, Grp ''phone'' PHONE]"

definition FROM_NO_PHONE :: re where
  "FROM_NO_PHONE = cats [Bound, lit ''from'', many1 space, Grp ''name'' (many1_lazy any_char), many1 space,
     Alt (cats [lit ''on'', many1 space, digit]) (Cat (lit ''for account'') Bound)]"

definition PAID_BY :: re where
  "PAID_BY = cats [Bound, lit ''paid by'', many1 space, Grp ''name'' (many1_lazy any_char), many1 space,
     Grp ''phone'' PHONE]"

definition ACCOUNT :: re where
  "ACCOUNT = cats [Bound, Alt (lit ''for account'') (lit ''Account Number''), many1 space,
     Grp ''acct'' (Cat (Cls alnum_char) (at_most 63 (Cls (\<lambda>c. alnum_char c \<or> c \<in> set ''-/_.''))))]"

definition WHEN :: re where
  "WHEN = cats [Bound, lit ''on'', many1 space,
     Grp ''1'' (Cat digit (at_most 1 digit)), chr (CHR ''/''), Grp ''2'' (Cat digit (at_most 1 digit)), chr (CHR ''/''),
     Grp ''3'' (Alt (exactly 2 digit) (exactly 4 digit)), many1 space, lit ''at'', many1 space,
     Grp ''4'' (Cat digit (at_most 1 digit)), chr (CHR '':''), Grp ''5'' (exactly 2 digit), many space,
     Grp ''6'' (Alt (lit ''AM'') (lit ''PM'')), Bound]"

definition BALANCE :: re where
  "BALANCE = cats [many space, lit ''New'', many1 space,
     many (Cls (\<lambda>c. alnum_char c \<and> \<not> c \<in> set ''0123456789'' \<or> c \<in> set ''- '')),
     lit ''balance'', many1 space, lit ''is'', many1 space, currency,
     many1 (Cls (\<lambda>c. c \<in> set ''0123456789,'')),
     opt (cats [chr (CHR ''.''), digit, at_most 1 digit]), opt (chr (CHR ''.''))]"

definition TRAILING_PUNCT :: string where
  "TRAILING_PUNCT = ''.,;:''"

subsection \<open>Text\<close>

text \<open>\<open>" ".join(text.split())\<close>\<close>

function split_words :: "string \<Rightarrow> string list" where
  "split_words t = (let t = dropWhile is_space t in
     if t = [] then []
     else takeWhile (\<lambda>c. \<not> is_space c) t # split_words (dropWhile (\<lambda>c. \<not> is_space c) t))"
  by pat_completeness auto
termination
proof (relation "measure length", simp)
  fix t x :: string
  assume "x = dropWhile is_space t" and "x \<noteq> []"
  moreover from this have "\<not> is_space (hd x)" using hd_dropWhile by blast
  ultimately obtain c cs where "x = c # cs" "\<not> is_space c" by (metis list.sel(1) neq_Nil_conv)
  moreover have "length x \<le> length t" using \<open>x = dropWhile is_space t\<close> by (simp add: length_dropWhile_le)
  moreover have "length (dropWhile (\<lambda>c. \<not> is_space c) cs) \<le> length cs" by (rule length_dropWhile_le)
  ultimately show "(dropWhile (\<lambda>c. \<not> is_space c) x, t) \<in> measure length" by simp
qed

declare split_words.simps [simp del]

fun join_words :: "string list \<Rightarrow> string" where
  "join_words [] = []"
| "join_words [w] = w"
| "join_words (w # ws) = w @ CHR '' '' # join_words ws"

definition flatten :: "string \<Rightarrow> string" where
  "flatten t = join_words (split_words t)"

text \<open>\<open>s.strip(chars)\<close> and \<open>s.rstrip(chars)\<close>\<close>

definition rstrip_chars :: "string \<Rightarrow> string \<Rightarrow> string" where
  "rstrip_chars cs t = rev (dropWhile (\<lambda>c. c \<in> set cs) (rev t))"

definition strip_chars :: "string \<Rightarrow> string \<Rightarrow> string" where
  "strip_chars cs t = rstrip_chars cs (dropWhile (\<lambda>c. c \<in> set cs) t)"

fun starts_with :: "string \<Rightarrow> string \<Rightarrow> bool" where
  "starts_with t [] = True"
| "starts_with [] (n # ns) = False"
| "starts_with (c # cs) (n # ns) = (c = n \<and> starts_with cs ns)"

fun contains :: "string \<Rightarrow> string \<Rightarrow> bool" where
  "contains [] needle = (needle = [])"
| "contains (c # cs) needle = (starts_with (c # cs) needle \<or> contains cs needle)"

definition digit_value :: "char \<Rightarrow> int" where
  "digit_value c = of_char c - 48"

definition int_of :: "string \<Rightarrow> int" where
  "int_of ds = foldl (\<lambda>n c. 10 * n + digit_value c) 0 ds"

subsection \<open>The parser\<close>

definition redact_balance :: "string \<Rightarrow> string" where
  "redact_balance t = py_strip (re_remove BALANCE t)"

text \<open>In cents. The decimal context has 28 digits: \<open>quantize\<close> raises beyond that and the parser gives up.\<close>

definition amount_of :: "string \<Rightarrow> string option \<Rightarrow> money option" where
  "amount_of whole hundred =
     (let units = int_of (filter (\<lambda>c. c \<noteq> CHR '','') whole);
          hundredths = (case hundred of None \<Rightarrow> 0 | Some f \<Rightarrow> int_of (take 2 (f @ ''00'')));
          v = 100 * units + hundredths in
      if v \<ge> 10 ^ 28 then None else if v > 0 then Some v else None)"

text \<open>\<open>datetime(y, m, d, h, min)\<close> raises \<open>ValueError\<close> outside the calendar.\<close>

definition occurred_at_of ::
  "(int \<Rightarrow> int \<Rightarrow> int \<Rightarrow> int \<Rightarrow> int \<Rightarrow> time) \<Rightarrow> pos \<Rightarrow> time option" where
  "occurred_at_of nairobi p =
     (let g = (\<lambda>n. case group n p of None \<Rightarrow> [] | Some t \<Rightarrow> t);
          y = int_of (g ''3''); y = (if y < 100 then 2000 + y else y);
          mon = int_of (g ''2''); day = int_of (g ''1'');
          h = int_of (g ''4'') mod 12 + (if py_upper (g ''6'') = ''PM'' then 12 else 0);
          min = int_of (g ''5'') in
      if 1 \<le> y \<and> y \<le> 9999 \<and> 1 \<le> mon \<and> mon \<le> 12 \<and> 1 \<le> day \<and> day \<le> days_in_month y mon \<and> min < 60
      then Some (nairobi y mon day h min) else None)"

definition kind_of :: "string \<Rightarrow> SmsDirection \<Rightarrow> bool \<Rightarrow> SmsKind" where
  "kind_of flat direction has_account = (let lowered = py_lower flat in
     if contains lowered ''new business balance'' then POCHI
     else if has_account then PAYBILL
     else if contains lowered ''new till balance'' \<or> contains lowered ''new utility balance''
             \<or> contains lowered ''paid by'' then TILL
     else if contains lowered ''paid to'' then TILL
     else if contains lowered ''new m-pesa balance'' \<and> direction \<noteq> DIRECTION_UNKNOWN then SEND_MONEY
     else KIND_UNKNOWN)"

definition clean_name :: "string option \<Rightarrow> string option" where
  "clean_name name = (if \<not> truthy name then None
     else let cleaned = take MAX_NAME_LENGTH (strip_chars (TRAILING_PUNCT @ '' '') (flatten (the name))) in
       if cleaned = [] then None else Some cleaned)"

definition last3_of :: "string option \<Rightarrow> string option" where
  "last3_of phone = (case phone of None \<Rightarrow> None
     | Some ph \<Rightarrow> let l = drop (length ph - 3) ph in
         if ph \<noteq> [] \<and> l \<noteq> [] \<and> list_all (\<lambda>c. c \<in> set ''0123456789'') l then Some l else None)"

text \<open>The sender: the first of the two patterns with a phone number, else a name without one.\<close>

definition sender_of :: "string \<Rightarrow> string option \<times> string option" where
  "sender_of flat =
     (case re_search FROM flat of
        Some p \<Rightarrow> (group ''name'' p, group ''phone'' p)
      | None \<Rightarrow>
          (case re_search PAID_BY flat of
             Some p \<Rightarrow> (group ''name'' p, group ''phone'' p)
           | None \<Rightarrow>
               (case re_search FROM_NO_PHONE flat of
                  Some p \<Rightarrow> (group ''name'' p, None)
                | None \<Rightarrow> (None, None))))"

definition parse_mpesa_sms ::
  "(int \<Rightarrow> int \<Rightarrow> int \<Rightarrow> int \<Rightarrow> int \<Rightarrow> time) \<Rightarrow> string \<Rightarrow> ParsedSms option" where
  "parse_mpesa_sms nairobi t =
     (let flat = flatten t in
      case (re_match CODE flat, re_search AMOUNT flat, re_search WHEN flat) of
        (Some code_match, Some amount_match, Some when_match) \<Rightarrow>
          (case (amount_of (the (group ''1'' amount_match)) (group ''2'' amount_match),
                 occurred_at_of nairobi when_match) of
             (Some amount, Some occurred_at) \<Rightarrow>
               let received = re_search RECEIVED_RE flat \<noteq> None;
                   sent = re_search SENT_RE flat \<noteq> None;
                   direction = (if received then RECEIVED else if sent then SENT else DIRECTION_UNKNOWN);
                   (name, phone) = sender_of flat;
                   account = Option.bind (re_search ACCOUNT flat) (group ''acct'') in
               Some \<lparr>sms_code = py_upper (the (group ''1'' code_match)), sms_amount = amount,
                 sms_direction = direction, sms_kind = kind_of flat direction (account \<noteq> None),
                 sms_sender_name = clean_name name, sms_sender_phone_masked = phone,
                 sms_sender_last3 = last3_of phone,
                 sms_account_reference = map_option (rstrip_chars TRAILING_PUNCT) account,
                 sms_occurred_at = occurred_at, sms_raw_text = t\<rparr>
           | _ \<Rightarrow> None)
      | _ \<Rightarrow> None)"

subsection \<open>The fields of a parsed message\<close>

definition upper_alnum :: "char \<Rightarrow> bool" where
  "upper_alnum c \<longleftrightarrow> c \<in> set ''ABCDEFGHIJKLMNOPQRSTUVWXYZ0123456789''"

lemma upper_char_alnum: "alnum_char c \<Longrightarrow> upper_alnum (upper_char c)"
proof -
  have "list_all (\<lambda>c. alnum_char c \<longrightarrow> upper_alnum (upper_char c)) (Enum.enum :: char list)" by code_simp
  moreover assume "alnum_char c"
  ultimately show ?thesis by (auto simp: list_all_iff enum_UNIV)
qed

lemma code_group:
  assumes "re_match CODE t = Some p"
  shows "\<exists>w. group ''1'' p = Some w \<and> length w = 10 \<and> list_all alnum_char w"
proof -
  from assms obtain w where w: "group ''1'' p = Some w"
    by (auto simp: CODE_def elim: group_set [OF disjI1])
  from assms w obtain r where "(''1'', r) \<in> set (groups_of CODE)" "in_lang r w"
    by (blast elim: group_in_lang [OF disjI1])
  with w show ?thesis by (auto simp: CODE_def in_lang_exactly)
qed

lemma phone_length: "in_lang PHONE w \<Longrightarrow> 9 \<le> length w \<and> length w \<le> 13"
proof -
  have "min_len PHONE = 9" "max_len PHONE = Some 13" by code_simp+
  moreover assume "in_lang PHONE w"
  ultimately show ?thesis using in_lang_min_len in_lang_max_len by fastforce
qed

lemma groups_of_PHONE [simp]: "groups_of PHONE = []"
  by code_simp

lemma phone_group:
  assumes "re_search r t = Some p" and "r = FROM \<or> r = PAID_BY" and "group ''phone'' p = Some w"
  shows "in_lang PHONE w"
proof -
  from assms(1,3) obtain r' where "(''phone'', r') \<in> set (groups_of r)" "in_lang r' w"
    by (blast elim: group_in_lang [OF disjI2])
  with assms(2) show ?thesis by (auto simp: FROM_def PAID_BY_def)
qed

lemma sender_phone: "snd (sender_of flat) = Some w \<Longrightarrow> in_lang PHONE w"
  by (auto simp: sender_of_def split: option.splits intro: phone_group)

lemma account_length:
  assumes "Option.bind (re_search ACCOUNT flat) (group ''acct'') = Some w"
  shows "length w \<le> 64"
proof -
  from assms obtain p where p: "re_search ACCOUNT flat = Some p" "group ''acct'' p = Some w"
    by (auto simp: bind_eq_Some_conv)
  then obtain r where "(''acct'', r) \<in> set (groups_of ACCOUNT)" "in_lang r w"
    by (blast elim: group_in_lang [OF disjI2])
  then show ?thesis by (auto simp: ACCOUNT_def in_lang_Cls_Cat in_lang_at_most)
qed

lemma rstrip_chars_length: "length (rstrip_chars cs t) \<le> length t"
  by (simp add: rstrip_chars_def) (metis length_dropWhile_le length_rev)

lemma last3_of_Some:
  assumes "last3_of phone = Some l" and "\<And>w. phone = Some w \<Longrightarrow> 9 \<le> length w"
  shows "length l = 3 \<and> list_all (\<lambda>c. c \<in> set ''0123456789'') l"
  using assms by (auto simp: last3_of_def Let_def split: option.splits if_splits)

lemma clean_name_Some: "clean_name name = Some n \<Longrightarrow> n \<noteq> [] \<and> length n \<le> 120"
  by (auto simp: clean_name_def Let_def MAX_NAME_LENGTH_def split: if_splits)

lemma parse_mpesa_sms_SomeD:
  assumes "parse_mpesa_sms nairobi t = Some m"
  obtains p where "re_match CODE (flatten t) = Some p" "sms_code m = py_upper (the (group ''1'' p))"
    "0 < sms_amount m" "sms_amount m < 10 ^ 28"
    "sms_sender_name m = clean_name (fst (sender_of (flatten t)))"
    "sms_sender_phone_masked m = snd (sender_of (flatten t))"
    "sms_sender_last3 m = last3_of (snd (sender_of (flatten t)))"
    "sms_account_reference m
      = map_option (rstrip_chars TRAILING_PUNCT) (Option.bind (re_search ACCOUNT (flatten t)) (group ''acct''))"
    "sms_raw_text m = t"
  using assms
  by (fastforce simp: parse_mpesa_sms_def Let_def amount_of_def split_beta split: option.splits if_splits)

subsection \<open>Claims\<close>


lemma parse_mpesa_sms_SomeI:
  assumes "re_match CODE (flatten t) = Some p" and "re_search AMOUNT (flatten t) = Some q"
    and "re_search WHEN (flatten t) = Some r"
    and "amount_of (the (group ''1'' q)) (group ''2'' q) = Some a" and "occurred_at_of nairobi r = Some d"
    and "re_search RECEIVED_RE (flatten t) = None" and "re_search SENT_RE (flatten t) = None"
    and "sender_of (flatten t) = (None, None)"
  shows "\<exists>m. parse_mpesa_sms nairobi t = Some m \<and> sms_code m = py_upper (the (group ''1'' p)) \<and> sms_amount m = a
    \<and> sms_direction m = DIRECTION_UNKNOWN \<and> sms_sender_name m = None \<and> sms_sender_phone_masked m = None
    \<and> sms_sender_last3 m = None \<and> opt_all (\<lambda>a. length a \<le> 64) (sms_account_reference m)"
proof (cases "Option.bind (re_search ACCOUNT (flatten t)) (group ''acct'')")
  case None
  with assms show ?thesis by (simp add: parse_mpesa_sms_def Let_def clean_name_def last3_of_def truthy_def)
next
  case (Some w)
  from account_length [OF Some] rstrip_chars_length [of TRAILING_PUNCT w] Some assms show ?thesis
    by (simp add: parse_mpesa_sms_def Let_def clean_name_def last3_of_def truthy_def)
qed

definition demo_sms :: string where
  "demo_sms = ''rk1test001 Confirmed Ksh5 on 1/9/26 at 2:15PM''"

definition demo_nairobi :: "int \<Rightarrow> int \<Rightarrow> int \<Rightarrow> int \<Rightarrow> int \<Rightarrow> time" where
  "demo_nairobi y mo d h mi = ((y * 12 + mo) * 31 + d) * 1440 + h * 60 + mi"

lemma demo_sms_parses:
  "\<exists>m. parse_mpesa_sms demo_nairobi demo_sms = Some m \<and> sms_code m = ''RK1TEST001'' \<and> sms_amount m = 500
     \<and> sms_direction m = DIRECTION_UNKNOWN \<and> sms_sender_name m = None \<and> sms_sender_phone_masked m = None
     \<and> sms_sender_last3 m = None \<and> opt_all (\<lambda>a. length a \<le> 64) (sms_account_reference m)"
proof -
  have flat: "flatten demo_sms = demo_sms" by code_simp
  have "map_option (\<lambda>p. py_upper (the (group ''1'' p))) (re_match CODE demo_sms) = Some ''RK1TEST001''" by code_simp
  then obtain p where p: "re_match CODE demo_sms = Some p" "py_upper (the (group ''1'' p)) = ''RK1TEST001''" by auto
  have "map_option (\<lambda>q. amount_of (the (group ''1'' q)) (group ''2'' q)) (re_search AMOUNT demo_sms) = Some (Some 500)"
    by code_simp
  then obtain q where q: "re_search AMOUNT demo_sms = Some q"
      "amount_of (the (group ''1'' q)) (group ''2'' q) = Some 500" by auto
  have "map_option (\<lambda>r. occurred_at_of demo_nairobi r \<noteq> None) (re_search WHEN demo_sms) = Some True" by code_simp
  then obtain r d where r: "re_search WHEN demo_sms = Some r" "occurred_at_of demo_nairobi r = Some d" by auto
  have sent: "re_search SENT_RE demo_sms = None" by code_simp
  have received: "re_search RECEIVED_RE demo_sms = None" by code_simp
  have sender: "sender_of demo_sms = (None, None)" by code_simp
  from parse_mpesa_sms_SomeI [of demo_sms, unfolded flat, OF p(1) q(1) r(1) q(2) r(2) received sent sender]
  show ?thesis unfolding p(2) .
qed


end
