(* ===== verification/Mpesa.thy ===== *)
theory Mpesa
  imports Analytics Sms_Parser Search
begin

text \<open>
  Pasted M-Pesa messages: \<open>services/mpesa.py\<close>, \<open>repositories/mpesa.py\<close> and \<open>schemas/mpesa.py\<close>. The two hooks that
  sales and repayments call are in \<open>Mpesa_Links\<close>; here are pasting, matching, recording a repayment from a
  message, ignoring, the lists with their suggestions, and the daily reconciliation.

  The service parses the message with \<open>parse_mpesa_sms\<close>, whose time zone conversion is the parameter
  \<open>nairobi\<close>; \<open>wall\<close> is the parameter of \<open>Periods\<close>. The idempotency key of a repayment recorded from a message is
  \<open>uuid5\<close> of the message id, a parameter like the digest \<open>sha\<close>.

  The lemmas show that every operation keeps \<open>mpesa_ok\<close>, \<open>credit_ok\<close> and the id invariant, that the codes it
  stores are normalised (\<open>messages_ok\<close>), and how each operation moves a message through its states.
\<close>

subsection \<open>Requests and results\<close>

record MpesaMatchRequest =
  mr_payment_id :: "uuid option"
  mr_credit_transaction_id :: "uuid option"

definition exactly_one_target :: "MpesaMatchRequest \<Rightarrow> bool" where
  "exactly_one_target d \<longleftrightarrow> (mr_payment_id d = None) \<noteq> (mr_credit_transaction_id d = None)"

record MpesaRepaymentRequest =
  mq_customer_id :: uuid
  mq_allow_overpayment :: bool

record MpesaIgnoreRequest =
  mi_reason :: "string option"

definition valid_ignore :: "MpesaIgnoreRequest \<Rightarrow> bool" where
  "valid_ignore d \<longleftrightarrow> opt_all (\<lambda>r. length r \<le> 255) (mi_reason d)"

definition NotMoneyReceivedError :: error where
  "NotMoneyReceivedError = UnprocessableError ''NOT_MONEY_RECEIVED''"

definition InvalidTransitionError :: error where
  "InvalidTransitionError = ConflictError ''MPESA_INVALID_TRANSITION''"

definition MATCH_WINDOW :: time where
  "MATCH_WINDOW = 7200000000"

record Candidates =
  cd_payments :: "(payment \<times> sale) list"
  cd_customers :: "customer list"

record MessageView =
  mv_message :: mpesa_message
  mv_sale_id :: "uuid option"
  mv_customer_id :: "uuid option"
  mv_candidates :: "Candidates option"

record Pasted =
  pa_view :: MessageView
  pa_created :: bool

record Reconciliation =
  rc_date :: date
  rc_received_count :: nat
  rc_received_total :: money
  rc_matched_count :: nat
  rc_matched_total :: money
  rc_unmatched_count :: nat
  rc_unmatched_total :: money
  rc_ignored_count :: nat
  rc_unparsed_count :: nat
  rc_recorded_in_app :: money

subsection \<open>Queries\<close>

definition MESSAGE_LIST_LIMIT :: nat where
  "MESSAGE_LIST_LIMIT = 200"

definition MAX_CANDIDATES :: nat where
  "MAX_CANDIDATES = 5"

definition repo_get_message :: "uuid \<Rightarrow> uuid \<Rightarrow> db \<Rightarrow> mpesa_message option" where
  "repo_get_message bid mid s = find (\<lambda>m. mm_business_id m = bid \<and> mm_id m = mid) (mpesa_messages s)"

definition get_by_code :: "uuid \<Rightarrow> string \<Rightarrow> db \<Rightarrow> mpesa_message option" where
  "get_by_code bid code s = find (\<lambda>m. mm_business_id m = bid \<and> mm_code m = Some code) (mpesa_messages s)"

definition message_time :: "mpesa_message \<Rightarrow> time" where
  "message_time m = (case mm_occurred_at m of None \<Rightarrow> mm_created_at m | Some t \<Rightarrow> t)"

definition repo_list_messages ::
  "uuid \<Rightarrow> MpesaMessageStatus option \<Rightarrow> time option \<Rightarrow> time option \<Rightarrow> nat \<Rightarrow> db \<Rightarrow> mpesa_message list" where
  "repo_list_messages bid status occurred_from occurred_until limit s =
     take (min limit MESSAGE_LIST_LIMIT) (rev (sort_key (\<lambda>m. (message_time m, mm_id m))
       (filter (\<lambda>m. mm_business_id m = bid \<and> opt_all (\<lambda>st. mm_status m = st) status
          \<and> opt_all (\<lambda>t. t \<le> message_time m) occurred_from \<and> opt_all (\<lambda>t. message_time m < t) occurred_until)
         (mpesa_messages s))))"

definition payment_linked :: "uuid \<Rightarrow> uuid \<Rightarrow> db \<Rightarrow> bool" where
  "payment_linked bid pid s \<longleftrightarrow> (\<exists>m \<in> set (mpesa_messages s). mm_business_id m = bid \<and> mm_payment_id m = Some pid)"

definition repayment_linked :: "uuid \<Rightarrow> uuid \<Rightarrow> db \<Rightarrow> bool" where
  "repayment_linked bid tid s \<longleftrightarrow>
     (\<exists>m \<in> set (mpesa_messages s). mm_business_id m = bid \<and> mm_credit_transaction_id m = Some tid)"

definition unlinked_payments :: "uuid \<Rightarrow> db \<Rightarrow> (payment \<times> sale) list" where
  "unlinked_payments bid s = [(t, x). t \<leftarrow> payments s, x \<leftarrow> sales s,
     s_id x = pay_sale_id t \<and> pay_business_id t = bid \<and> pay_method t = MPESA \<and> pay_status t = PAY_CONFIRMED
     \<and> s_status x = COMPLETED \<and> \<not> payment_linked bid (pay_id t) s]"

definition first_by :: "('a \<Rightarrow> time) \<Rightarrow> 'a list \<Rightarrow> 'a option" where
  "first_by k xs = (case sort_key k xs of [] \<Rightarrow> None | x # _ \<Rightarrow> Some x)"

definition find_payment_by_reference :: "uuid \<Rightarrow> string \<Rightarrow> db \<Rightarrow> payment option" where
  "find_payment_by_reference bid code s =
     first_by pay_created_at (filter (\<lambda>t. code_of (pay_reference t) = Some code) (map fst (unlinked_payments bid s)))"

definition mpesa_repayments :: "uuid \<Rightarrow> db \<Rightarrow> credit_transaction list" where
  "mpesa_repayments bid s = filter (\<lambda>t. ct_business_id t = bid \<and> ct_entry_type t = REPAYMENT
     \<and> ct_payment_method t = Some BY_MPESA \<and> \<not> repayment_linked bid (ct_id t) s) (credit_transactions s)"

definition find_repayment_by_reference :: "uuid \<Rightarrow> string \<Rightarrow> db \<Rightarrow> credit_transaction option" where
  "find_repayment_by_reference bid code s =
     first_by ct_created_at (filter (\<lambda>t. code_of (ct_reference t) = Some code) (mpesa_repayments bid s))"

definition get_unlinked_payment :: "uuid \<Rightarrow> uuid \<Rightarrow> db \<Rightarrow> payment option" where
  "get_unlinked_payment bid pid s = find (\<lambda>t. pay_id t = pid) (map fst (unlinked_payments bid s))"

definition get_unlinked_repayment :: "uuid \<Rightarrow> uuid \<Rightarrow> db \<Rightarrow> credit_transaction option" where
  "get_unlinked_repayment bid tid s = find (\<lambda>t. ct_id t = tid) (mpesa_repayments bid s)"

definition known_codes :: "uuid \<Rightarrow> db \<Rightarrow> string list" where
  "known_codes bid s = List.map_filter mm_code (filter (\<lambda>m. mm_business_id m = bid) (mpesa_messages s))"

definition candidate_payments :: "uuid \<Rightarrow> money \<Rightarrow> time \<Rightarrow> time \<Rightarrow> nat \<Rightarrow> db \<Rightarrow> (payment \<times> sale) list" where
  "candidate_payments bid amount around window limit s =
     take limit (sort_key (\<lambda>(t, x). (\<bar>s_sold_at x - around\<bar>, s_id x))
       (filter (\<lambda>(t, x). pay_amount t = amount \<and> around - window \<le> s_sold_at x \<and> s_sold_at x \<le> around + window
            \<and> opt_all (\<lambda>c. c \<notin> set (known_codes bid s)) (code_of (pay_reference t)))
         (unlinked_payments bid s)))"

definition candidate_customers :: "(string \<Rightarrow> int) \<Rightarrow> uuid \<Rightarrow> string \<Rightarrow> nat \<Rightarrow> db \<Rightarrow> customer list" where
  "candidate_customers collate bid last3 limit s =
     (if last3 = [] \<or> \<not> list_all is_digit last3 then []
      else take limit (sort_key (\<lambda>c. (- c_balance c, collate (py_lower (c_name c))))
        (filter (\<lambda>c. c_business_id c = bid \<and> c_is_active c
           \<and> (case c_phone c of None \<Rightarrow> False | Some ph \<Rightarrow> like (CHR ''%'' # last3) ph)) (customers s))))"

definition daily_totals :: "uuid \<Rightarrow> time \<Rightarrow> time \<Rightarrow> db \<Rightarrow> (MpesaMessageStatus \<times> nat \<times> money) list" where
  "daily_totals bid start until s =
     map (\<lambda>(st, rows). (st, length rows, quantize_cent (case sql_sum (map (\<lambda>m. map_option cents (mm_amount m)) rows)
            of None \<Rightarrow> 0 | Some x \<Rightarrow> x)))
       (group_by mm_status (filter (\<lambda>m. mm_business_id m = bid
          \<and> (case mm_occurred_at m of None \<Rightarrow> False | Some t \<Rightarrow> start \<le> t \<and> t < until)) (mpesa_messages s)))"

definition unparsed_count :: "uuid \<Rightarrow> time \<Rightarrow> time \<Rightarrow> db \<Rightarrow> nat" where
  "unparsed_count bid start until s = length (filter (\<lambda>m. mm_business_id m = bid \<and> mm_status m = UNPARSED
     \<and> start \<le> mm_created_at m \<and> mm_created_at m < until) (mpesa_messages s))"

definition sale_id_of_payment :: "uuid \<Rightarrow> uuid \<Rightarrow> db \<Rightarrow> uuid option" where
  "sale_id_of_payment bid pid s =
     map_option pay_sale_id (find (\<lambda>t. pay_business_id t = bid \<and> pay_id t = pid) (payments s))"

definition customer_id_of_repayment :: "uuid \<Rightarrow> uuid \<Rightarrow> db \<Rightarrow> uuid option" where
  "customer_id_of_repayment bid tid s =
     map_option ct_customer_id (find (\<lambda>t. ct_business_id t = bid \<and> ct_id t = tid) (credit_transactions s))"

subsection \<open>Views\<close>

definition view_of :: "(string \<Rightarrow> int) \<Rightarrow> BusinessContext \<Rightarrow> bool \<Rightarrow> db \<Rightarrow> mpesa_message \<Rightarrow> MessageView" where
  "view_of collate ctx with_candidates s message =
     \<lparr>mv_message = message,
      mv_sale_id = Option.bind (mm_payment_id message) (\<lambda>pid. sale_id_of_payment (business_id ctx) pid s),
      mv_customer_id = Option.bind (mm_credit_transaction_id message) (\<lambda>tid. customer_id_of_repayment (business_id ctx) tid s),
      mv_candidates =
        (case (mm_amount message, mm_occurred_at message) of
           (Some amount, Some occurred_at) \<Rightarrow>
             if with_candidates \<and> mm_status message = UNMATCHED
             then Some \<lparr>cd_payments = candidate_payments (business_id ctx) amount occurred_at MATCH_WINDOW MAX_CANDIDATES s,
                        cd_customers = (case mm_sender_last3 message of None \<Rightarrow> []
                           | Some last3 \<Rightarrow> if last3 = [] then []
                               else candidate_customers collate (business_id ctx) last3 MAX_CANDIDATES s)\<rparr>
             else None
         | _ \<Rightarrow> None)\<rparr>"

definition message_of_ctx :: "BusinessContext \<Rightarrow> uuid \<Rightarrow> db \<Rightarrow> mpesa_message result" where
  "message_of_ctx ctx mid s = the_or NotFoundError (repo_get_message (business_id ctx) mid s)"

definition require_status :: "mpesa_message \<Rightarrow> MpesaMessageStatus \<Rightarrow> unit result" where
  "require_status message wanted = raise_if (mm_status message \<noteq> wanted) InvalidTransitionError"

definition get_message :: "(string \<Rightarrow> int) \<Rightarrow> BusinessContext \<Rightarrow> uuid \<Rightarrow> db \<Rightarrow> MessageView result" where
  "get_message collate ctx mid s = bindR (message_of_ctx ctx mid s) (\<lambda>m. Inr (view_of collate ctx True s m))"

definition list_messages ::
  "(string \<Rightarrow> int) \<Rightarrow> (string \<Rightarrow> date \<Rightarrow> time) \<Rightarrow> BusinessContext \<Rightarrow> MpesaMessageStatus option \<Rightarrow> date option \<Rightarrow> date option
    \<Rightarrow> nat \<Rightarrow> db \<Rightarrow> MessageView list result" where
  "list_messages collate wall ctx status date_from date_to limit s =
     bindR (case (date_from, date_to) of
              (Some f, Some t) \<Rightarrow> bindR (period_for_dates wall (timezone ctx) f t)
                (\<lambda>p. Inr (Some (pd_start p), Some (pd_end p)))
            | _ \<Rightarrow> Inr (None, None)) (\<lambda>(start, until).
     Inr (map (view_of collate ctx False s) (repo_list_messages (business_id ctx) status start until limit s)))"

definition reconciliation ::
  "(string \<Rightarrow> date \<Rightarrow> time) \<Rightarrow> BusinessContext \<Rightarrow> date \<Rightarrow> db \<Rightarrow> Reconciliation result" where
  "reconciliation wall ctx day s =
     bindR (period_for_dates wall (timezone ctx) day day) (\<lambda>period.
     let totals = daily_totals (business_id ctx) (pd_start period) (pd_end period) s;
         matched = dict_get (0, 0) totals MATCHED; unmatched = dict_get (0, 0) totals UNMATCHED;
         ignored = dict_get (0, 0) totals IGNORED;
         recorded = cash_collected (business_id ctx) period s in
     Inr \<lparr>rc_date = day, rc_received_count = fst matched + fst unmatched, rc_received_total = snd matched + snd unmatched,
       rc_matched_count = fst matched, rc_matched_total = snd matched, rc_unmatched_count = fst unmatched,
       rc_unmatched_total = snd unmatched, rc_ignored_count = fst ignored,
       rc_unparsed_count = unparsed_count (business_id ctx) (pd_start period) (pd_end period) s,
       rc_recorded_in_app = dict_get 0 recorded ''MPESA''\<rparr>)"

subsection \<open>Operations\<close>

definition flush_message :: "mpesa_message \<Rightarrow> mpesa_message list \<Rightarrow> unit result" where
  "flush_message m others =
     bindR (flush_row (mpesa_fits m) (mpesa_checks m)) (\<lambda>_.
     raise_if (code_key m \<noteq> None \<and> code_key m \<in> code_key ` set others) (IntegrityError uq_mpesa_messages_business_id_code))"

definition add_message :: "mpesa_message \<Rightarrow> db \<Rightarrow> (mpesa_message \<times> db) result" where
  "add_message m s = bindR (flush_message m (mpesa_messages s)) (\<lambda>_.
     Inr (m, (drawn s)\<lparr>mpesa_messages := mpesa_messages s @ [m]\<rparr>))"

text \<open>Writing a changed message back: the row is flushed as an \<open>UPDATE\<close> of its id.\<close>

definition set_message :: "mpesa_message \<Rightarrow> db \<Rightarrow> db result" where
  "set_message m s = bindR (flush_row (mpesa_fits m) (mpesa_checks m)) (\<lambda>_.
     Inr (s\<lparr>mpesa_messages := update_where (\<lambda>r. mm_id r = mm_id m) (\<lambda>_. m) (mpesa_messages s)\<rparr>))"

text \<open>\<open>_mark_matched\<close> sets the same columns as the hook's \<open>UPDATE\<close>.\<close>

definition mark_matched :: "clock \<Rightarrow> BusinessContext \<Rightarrow> uuid option \<Rightarrow> uuid option \<Rightarrow> mpesa_message \<Rightarrow> mpesa_message" where
  "mark_matched clk ctx payment_id credit_transaction_id = linked_to payment_id credit_transaction_id (user_id ctx) (now clk)"

definition link_existing_record :: "clock \<Rightarrow> BusinessContext \<Rightarrow> mpesa_message \<Rightarrow> db \<Rightarrow> mpesa_message" where
  "link_existing_record clk ctx message s =
     (case mm_code message of
        None \<Rightarrow> message
      | Some code \<Rightarrow>
          (case find_payment_by_reference (business_id ctx) code s of
             Some payment \<Rightarrow> mark_matched clk ctx (Some (pay_id payment)) None message
           | None \<Rightarrow>
               (case find_repayment_by_reference (business_id ctx) code s of
                  Some repayment \<Rightarrow> mark_matched clk ctx None (Some (ct_id repayment)) message
                | None \<Rightarrow> message)))"

definition status_text :: "MpesaMessageStatus \<Rightarrow> string" where
  "status_text st = (case st of UNPARSED \<Rightarrow> ''UNPARSED'' | UNMATCHED \<Rightarrow> ''UNMATCHED'' | MATCHED \<Rightarrow> ''MATCHED''
     | IGNORED \<Rightarrow> ''IGNORED'')"

definition kind_text :: "SmsKind \<Rightarrow> string" where
  "kind_text k = (case k of POCHI \<Rightarrow> ''POCHI'' | TILL \<Rightarrow> ''TILL'' | PAYBILL \<Rightarrow> ''PAYBILL'' | SEND_MONEY \<Rightarrow> ''SEND_MONEY''
     | KIND_UNKNOWN \<Rightarrow> ''UNKNOWN'')"

definition audit_message :: "BusinessContext \<Rightarrow> string \<Rightarrow> mpesa_message \<Rightarrow> ClientInfo option \<Rightarrow> db \<Rightarrow> db" where
  "audit_message ctx action message client s =
     audit_record ctx action MPESA_ENTITY (mm_id message) None
       (Some [(''status'', JText (status_text (mm_status message))), (''code'', opt_json JText (mm_code message)),
              (''amount'', opt_json JMoney (mm_amount message)), (''kind'', opt_json (JText \<circ> kind_text) (mm_kind message)),
              (''payment_id'', opt_json JUuid (mm_payment_id message)),
              (''credit_transaction_id'', opt_json JUuid (mm_credit_transaction_id message))]) client s"

definition unparsed_message :: "clock \<Rightarrow> BusinessContext \<Rightarrow> string \<Rightarrow> uuid \<Rightarrow> mpesa_message" where
  "unparsed_message clk ctx t i = \<lparr>mm_id = i, mm_business_id = business_id ctx, mm_created_by = user_id ctx,
     mm_status = UNPARSED, mm_raw_text = redact_balance t, mm_code = None, mm_amount = None, mm_kind = None,
     mm_sender_name = None, mm_sender_phone_masked = None, mm_sender_last3 = None, mm_account_reference = None,
     mm_occurred_at = None, mm_payment_id = None, mm_credit_transaction_id = None, mm_matched_at = None,
     mm_matched_by = None, mm_ignored_at = None, mm_ignored_by = None, mm_ignore_reason = None,
     mm_created_at = tx_now clk\<rparr>"

definition parsed_message :: "clock \<Rightarrow> BusinessContext \<Rightarrow> string \<Rightarrow> ParsedSms \<Rightarrow> uuid \<Rightarrow> mpesa_message" where
  "parsed_message clk ctx t p i = (unparsed_message clk ctx t i)\<lparr>mm_status := UNMATCHED,
     mm_code := Some (sms_code p), mm_amount := Some (sms_amount p), mm_kind := Some (sms_kind p),
     mm_sender_name := sms_sender_name p, mm_sender_phone_masked := sms_sender_phone_masked p,
     mm_sender_last3 := sms_sender_last3 p, mm_account_reference := sms_account_reference p,
     mm_occurred_at := Some (sms_occurred_at p)\<rparr>"

definition paste_unparsed_body ::
  "clock \<Rightarrow> BusinessContext \<Rightarrow> string \<Rightarrow> ClientInfo option \<Rightarrow> db \<Rightarrow> (mpesa_message \<times> db) result" where
  "paste_unparsed_body clk ctx t client s =
     bindR (add_message (unparsed_message clk ctx t (new_id s)) s) (\<lambda>(message, s).
     Inr (message, audit_message ctx ''mpesa.paste'' message client s))"

definition paste_parsed_body ::
  "clock \<Rightarrow> BusinessContext \<Rightarrow> string \<Rightarrow> ParsedSms \<Rightarrow> ClientInfo option \<Rightarrow> db \<Rightarrow> (mpesa_message \<times> db) result" where
  "paste_parsed_body clk ctx t parsed client s =
     bindR (add_message (parsed_message clk ctx t parsed (new_id s)) s) (\<lambda>(message, s).
     let message = link_existing_record clk ctx message s in
     bindR (set_message message s) (\<lambda>s.
     Inr (message, audit_message ctx ''mpesa.paste'' message client s)))"

definition paste ::
  "(string \<Rightarrow> int) \<Rightarrow> (int \<Rightarrow> int \<Rightarrow> int \<Rightarrow> int \<Rightarrow> int \<Rightarrow> time) \<Rightarrow> clock \<Rightarrow> BusinessContext \<Rightarrow> string \<Rightarrow> ClientInfo option \<Rightarrow> db
    \<Rightarrow> Pasted result \<times> db" where
  "paste collate nairobi clk ctx t client s =
     (let view = (\<lambda>s m. view_of collate ctx True s m) in
      case parse_mpesa_sms nairobi t of
        None \<Rightarrow>
          (case transaction (paste_unparsed_body clk ctx t client) s of
             (Inl e, s) \<Rightarrow> (Inl e, s)
           | (Inr message, s) \<Rightarrow> (Inr \<lparr>pa_view = view s message, pa_created = True\<rparr>, s))
      | Some parsed \<Rightarrow>
          if sms_direction parsed = SENT then (Inl NotMoneyReceivedError, s)
          else case get_by_code (business_id ctx) (sms_code parsed) s of
            Some existing \<Rightarrow> (Inr \<lparr>pa_view = view s existing, pa_created = False\<rparr>, s)
          | None \<Rightarrow>
              (case transaction (paste_parsed_body clk ctx t parsed client) s of
                 (Inl e, s) \<Rightarrow>
                   (if e \<noteq> IntegrityError uq_mpesa_messages_business_id_code then (Inl e, s)
                    else case get_by_code (business_id ctx) (sms_code parsed) s of
                      None \<Rightarrow> (Inl e, s)
                    | Some existing \<Rightarrow> (Inr \<lparr>pa_view = view s existing, pa_created = False\<rparr>, s))
               | (Inr message, s) \<Rightarrow> (Inr \<lparr>pa_view = view s message, pa_created = True\<rparr>, s)))"

definition match_body ::
  "clock \<Rightarrow> BusinessContext \<Rightarrow> uuid \<Rightarrow> MpesaMatchRequest \<Rightarrow> ClientInfo option \<Rightarrow> db \<Rightarrow> (mpesa_message \<times> db) result" where
  "match_body clk ctx mid data client s =
     bindR (message_of_ctx ctx mid s) (\<lambda>message.
     bindR (require_status message UNMATCHED) (\<lambda>_.
     bindR (case (mr_payment_id data, mr_credit_transaction_id data) of
              (Some pid, _) \<Rightarrow>
                bindR (the_or NotFoundError (get_unlinked_payment (business_id ctx) pid s)) (\<lambda>payment.
                Inr (mark_matched clk ctx (Some (pay_id payment)) None message, (''payment_id'', JUuid (pay_id payment))))
            | (None, Some tid) \<Rightarrow>
                bindR (the_or NotFoundError (get_unlinked_repayment (business_id ctx) tid s)) (\<lambda>repayment.
                Inr (mark_matched clk ctx None (Some (ct_id repayment)) message,
                     (''credit_transaction_id'', JUuid (ct_id repayment))))
            | (None, None) \<Rightarrow> Inl NotFoundError) (\<lambda>(message, after).
     bindR (set_message message s) (\<lambda>s.
     Inr (message, audit_record ctx ''mpesa.match'' MPESA_ENTITY (mm_id message) None
       (Some [after, (''via'', JText ''manual'')]) client s)))))"

text \<open>After a transaction the services return the view of the stored message.\<close>

definition viewed :: "(string \<Rightarrow> int) \<Rightarrow> BusinessContext \<Rightarrow> mpesa_message result \<times> db \<Rightarrow> MessageView result \<times> db" where
  "viewed collate ctx out = (case out of (r, s) \<Rightarrow>
     (case r of Inl e \<Rightarrow> Inl e | Inr m \<Rightarrow> Inr (view_of collate ctx True s m), s))"

definition match_message ::
  "(string \<Rightarrow> int) \<Rightarrow> clock \<Rightarrow> BusinessContext \<Rightarrow> uuid \<Rightarrow> MpesaMatchRequest \<Rightarrow> ClientInfo option \<Rightarrow> db
    \<Rightarrow> MessageView result \<times> db" where
  "match_message collate clk ctx mid data client s =
     viewed collate ctx (transaction (match_body clk ctx mid data client) s)"

definition repayment_request :: "mpesa_message \<Rightarrow> MpesaRepaymentRequest \<Rightarrow> RepaymentRequest result" where
  "repayment_request message data =
     (case (mm_code message, mm_amount message) of
        (Some code, Some amount) \<Rightarrow>
          Inr \<lparr>rp_amount = amount, rp_payment_method = BY_MPESA, rp_reference = Some code,
               rp_allow_overpayment = mq_allow_overpayment data\<rparr>
      | _ \<Rightarrow> Inl InvalidTransitionError)"

definition record_repayment_for_message ::
  "(string \<Rightarrow> int) \<Rightarrow> (json \<Rightarrow> string) \<Rightarrow> (uuid \<Rightarrow> uuid) \<Rightarrow> clock \<Rightarrow> BusinessContext \<Rightarrow> uuid \<Rightarrow> MpesaRepaymentRequest
    \<Rightarrow> ClientInfo option \<Rightarrow> db \<Rightarrow> MessageView result \<times> db" where
  "record_repayment_for_message collate sha uuid5 clk ctx mid data client s =
     (case bindR (message_of_ctx ctx mid s) (\<lambda>message.
           bindR (require_status message UNMATCHED) (\<lambda>_. repayment_request message data)) of
        Inl e \<Rightarrow> (Inl e, s)
      | Inr request \<Rightarrow>
          (case record_repayment sha clk ctx (mq_customer_id data) request client (Some (uuid5 mid)) s of
             (Inl e, s) \<Rightarrow> (Inl e, s)
           | (Inr posted, s) \<Rightarrow> (get_message collate ctx mid s, s)))"

definition ignored_by :: "clock \<Rightarrow> BusinessContext \<Rightarrow> MpesaIgnoreRequest \<Rightarrow> mpesa_message \<Rightarrow> mpesa_message" where
  "ignored_by clk ctx data m = m\<lparr>mm_status := IGNORED, mm_ignored_by := Some (user_id ctx),
     mm_ignored_at := Some (now clk), mm_ignore_reason := mi_reason data\<rparr>"

definition ignore_body ::
  "clock \<Rightarrow> BusinessContext \<Rightarrow> uuid \<Rightarrow> MpesaIgnoreRequest \<Rightarrow> ClientInfo option \<Rightarrow> db \<Rightarrow> (mpesa_message \<times> db) result" where
  "ignore_body clk ctx mid data client s =
     bindR (message_of_ctx ctx mid s) (\<lambda>message.
     if mm_status message = IGNORED then Inr (message, s)
     else bindR (raise_if (mm_status message = MATCHED) InvalidTransitionError) (\<lambda>_.
       let message' = ignored_by clk ctx data message in
       bindR (set_message message' s) (\<lambda>s.
       Inr (message', audit_record ctx ''mpesa.ignore'' MPESA_ENTITY (mm_id message)
         (Some [(''status'', JText (status_text (mm_status message)))])
         (Some [(''status'', JText (status_text IGNORED)), (''reason'', opt_json JText (mi_reason data))]) client s))))"

definition ignore_message ::
  "(string \<Rightarrow> int) \<Rightarrow> clock \<Rightarrow> BusinessContext \<Rightarrow> uuid \<Rightarrow> MpesaIgnoreRequest \<Rightarrow> ClientInfo option \<Rightarrow> db
    \<Rightarrow> MessageView result \<times> db" where
  "ignore_message collate clk ctx mid data client s =
     (if role ctx \<noteq> OWNER then (Inl (PermissionDeniedError ''FORBIDDEN''), s)
      else viewed collate ctx (transaction (ignore_body clk ctx mid data client) s))"

subsection \<open>The desk: the states of the messages\<close>

text \<open>
  The abstract machine. A message arrives in any state but \<open>IGNORED\<close>, is linked and unlinked, and is dismissed from
  the two states in which nothing is linked. Nothing leaves \<open>IGNORED\<close> and no message disappears.
\<close>

type_synonym desk = "uuid \<rightharpoonup> MpesaMessageStatus"

inductive desk_step :: "desk \<Rightarrow> desk \<Rightarrow> bool" where
  receive: "A i = None \<Longrightarrow> st \<noteq> IGNORED \<Longrightarrow> desk_step A (A(i \<mapsto> st))"
| link: "A i = Some UNMATCHED \<Longrightarrow> desk_step A (A(i \<mapsto> MATCHED))"
| unlink: "A i = Some MATCHED \<Longrightarrow> desk_step A (A(i \<mapsto> UNMATCHED))"
| dismiss: "A i = Some st \<Longrightarrow> st \<in> {UNPARSED, UNMATCHED} \<Longrightarrow> desk_step A (A(i \<mapsto> IGNORED))"

inductive_cases desk_stepE: "desk_step A B"

lemma desk_step_dom: "desk_step A B \<Longrightarrow> dom A \<subseteq> dom B"
  by (auto elim!: desk_stepE)

lemma desk_step_ignored: "desk_step A B \<Longrightarrow> A i = Some IGNORED \<Longrightarrow> B i = Some IGNORED"
  by (auto elim!: desk_stepE split: if_splits)

definition desk_of :: "mpesa_message list \<Rightarrow> desk" where
  "desk_of ms = map_of (map (\<lambda>m. (mm_id m, mm_status m)) ms)"

text \<open>What never changes in a message.\<close>

definition letter :: "mpesa_message \<Rightarrow> mpesa_message" where
  "letter m = m\<lparr>mm_status := UNPARSED, mm_payment_id := None, mm_credit_transaction_id := None, mm_matched_at := None,
     mm_matched_by := None, mm_ignored_at := None, mm_ignored_by := None, mm_ignore_reason := None\<rparr>"

definition evolves :: "db \<Rightarrow> db \<Rightarrow> bool" where
  "evolves s s' \<longleftrightarrow> desk_step\<^sup>*\<^sup>* (desk_of (mpesa_messages s)) (desk_of (mpesa_messages s'))
     \<and> prefix (map letter (mpesa_messages s)) (map letter (mpesa_messages s'))"

text \<open>Ids are unique, and codes are stored the way references are normalised.\<close>

definition messages_ok :: "db \<Rightarrow> bool" where
  "messages_ok s \<longleftrightarrow> distinct (map mm_id (mpesa_messages s))
     \<and> (\<forall>m \<in> set (mpesa_messages s). opt_all (\<lambda>c. normalise (Some c) = Some c) (mm_code m))"

lemma evolves_refl [simp, intro]: "evolves s s"
  by (simp add: evolves_def)

lemma evolves_trans: "evolves s t \<Longrightarrow> evolves t u \<Longrightarrow> evolves s u"
  by (meson evolves_def rtranclp_trans prefix_order.trans)

lemma evolves_same: "mpesa_messages s' = mpesa_messages s \<Longrightarrow> evolves s s'"
  by (simp add: evolves_def)

lemma evolves_writes: "writes T s s' \<Longrightarrow> T_mpesa_messages \<notin> T \<Longrightarrow> evolves s s'"
  by (rule evolves_same) (simp add: writes_def)

lemma evolves_audit [simp]: "evolves s (audit_record ctx a e i b f c t) \<longleftrightarrow> evolves s t"
  by (simp add: evolves_def)

lemma letter_simps [simp]:
  "mm_id (letter m) = mm_id m" "mm_code (letter m) = mm_code m" "mm_business_id (letter m) = mm_business_id m"
  by (simp_all add: letter_def)

lemma letters_ok:
  assumes "map letter ms' = map letter ms"
  shows "map mm_id ms' = map mm_id ms" "map mm_code ms' = map mm_code ms"
  using arg_cong [where f = "map mm_id", OF assms] arg_cong [where f = "map mm_code", OF assms] by (simp_all add: o_def)

lemma messages_ok_letters:
  assumes "map letter (mpesa_messages s') = map letter (mpesa_messages s)"
  shows "messages_ok s' \<longleftrightarrow> messages_ok s"
proof -
  have img: "mm_code ` set (mpesa_messages s') = mm_code ` set (mpesa_messages s)"
    using arg_cong [where f = set, OF letters_ok(2) [OF assms]] by simp
  have eq: "messages_ok t \<longleftrightarrow> distinct (map mm_id (mpesa_messages t))
      \<and> mm_code ` set (mpesa_messages t) \<subseteq> {c. opt_all (\<lambda>c. normalise (Some c) = Some c) c}" for t
    by (auto simp: messages_ok_def)
  show ?thesis unfolding eq letters_ok(1) [OF assms] img ..
qed

lemma messages_ok_writes: "writes T s s' \<Longrightarrow> T_mpesa_messages \<notin> T \<Longrightarrow> messages_ok s' \<longleftrightarrow> messages_ok s"
  by (simp add: messages_ok_def writes_def)

lemma messages_ok_audit [simp]: "messages_ok (audit_record ctx a e i b f c t) \<longleftrightarrow> messages_ok t"
  by (simp add: messages_ok_def)

text \<open>Replacing the one message with a given id.\<close>

lemma desk_of_update:
  assumes "distinct (map mm_id ms)" and "m \<in> set ms" and "mm_id m' = mm_id m"
  shows "desk_of (update_where (\<lambda>r. mm_id r = mm_id m) (\<lambda>_. m') ms) = (desk_of ms)(mm_id m \<mapsto> mm_status m')"
  using assms(1,2)
proof (induction ms)
  case (Cons r ms)
  show ?case
  proof (cases "r = m")
    case True
    then have "update_where (\<lambda>r. mm_id r = mm_id m) (\<lambda>_. m') ms = ms"
      using Cons.prems(1) by (intro update_where_none) (simp, metis imageI)
    with True assms(3) show ?thesis by (auto simp: desk_of_def)
  next
    case False
    with Cons have "mm_id r \<noteq> mm_id m" "desk_of (update_where (\<lambda>r. mm_id r = mm_id m) (\<lambda>_. m') ms)
        = (desk_of ms)(mm_id m \<mapsto> mm_status m')" by auto
    then show ?thesis by (auto simp: desk_of_def)
  qed
qed simp

lemma desk_of_lookup: "distinct (map mm_id ms) \<Longrightarrow> m \<in> set ms \<Longrightarrow> desk_of ms (mm_id m) = Some (mm_status m)"
  by (simp add: desk_of_def o_def)

definition allowed :: "MpesaMessageStatus \<Rightarrow> MpesaMessageStatus \<Rightarrow> bool" where
  "allowed st st' \<longleftrightarrow> (st, st') \<in> {(UNMATCHED, MATCHED), (MATCHED, UNMATCHED), (UNPARSED, IGNORED), (UNMATCHED, IGNORED)}"

lemma allowed_desk_step: "A i = Some st \<Longrightarrow> allowed st st' \<Longrightarrow> desk_step A (A(i \<mapsto> st'))"
  by (auto simp: allowed_def intro: desk_step.intros)

lemma update_one_evolves:
  assumes "distinct (map mm_id ms)" and "m \<in> set ms" and "letter m' = letter m" and "allowed (mm_status m) (mm_status m')"
  defines "ms' \<equiv> update_where (\<lambda>r. mm_id r = mm_id m) (\<lambda>_. m') ms"
  shows "desk_step (desk_of ms) (desk_of ms')" "map letter ms' = map letter ms"
proof -
  have id: "mm_id m' = mm_id m" using arg_cong [where f = mm_id, OF assms(3)] by simp
  show "desk_step (desk_of ms) (desk_of ms')"
    unfolding ms'_def desk_of_update [OF assms(1,2) id]
    by (rule allowed_desk_step [where st = "mm_status m"]) (rule desk_of_lookup [OF assms(1,2)], rule assms(4))
  have "r = m" if "r \<in> set ms" "mm_id r = mm_id m" for r
    using assms(1,2) that by (metis distinct_mapD)
  then show "map letter ms' = map letter ms" using assms(3) by (auto simp: ms'_def update_where_def)
qed

lemma update_hit_one:
  assumes "distinct (map mm_id ms)" and "filter hit ms = [m]"
  shows "update_where hit change ms = update_where (\<lambda>r. mm_id r = mm_id m) (\<lambda>_. change m) ms"
proof -
  have m: "m \<in> set ms" "hit m" using assms(2) by (auto simp: filter_eq_Cons_iff)
  have "hit r \<longleftrightarrow> mm_id r = mm_id m" if "r \<in> set ms" for r
    using that m assms(1) filter_singleton_eq [OF assms(2)] by (metis distinct_mapD)
  moreover have "r = m" if "r \<in> set ms" "mm_id r = mm_id m" for r
    using that m assms(1) by (metis distinct_mapD)
  ultimately show ?thesis by (auto simp: update_where_def)
qed

lemma update_returning_evolves:
  assumes "update_returning hit change s = Inr (r, s')" and "messages_ok s"
    and "\<And>m. hit m \<Longrightarrow> letter (change m) = letter m \<and> allowed (mm_status m) (mm_status (change m))"
  shows "evolves s s' \<and> messages_ok s'"
  using assms(1)
proof (cases rule: update_returning_cases)
  case none
  with assms(2) show ?thesis by simp
next
  case (one m)
  have m: "m \<in> set (mpesa_messages s)" "hit m" using one(1) by (auto simp: filter_eq_Cons_iff)
  have dist: "distinct (map mm_id (mpesa_messages s))" using assms(2) by (simp add: messages_ok_def)
  note upd = update_one_evolves [OF dist m(1), of "change m"]
  have ms: "mpesa_messages s' = update_where (\<lambda>r. mm_id r = mm_id m) (\<lambda>_. change m) (mpesa_messages s)"
    using one(4) update_hit_one [OF dist one(1)] by simp
  from upd assms(3) [OF m(2)] have "evolves s s'" "map letter (mpesa_messages s') = map letter (mpesa_messages s)"
    unfolding evolves_def ms by auto
  with messages_ok_letters [of s' s] assms(2) show ?thesis by simp
qed

lemma link_reference_evolves:
  assumes "link_reference_in_transaction clk ctx ref p c via client s = Inr s'" and "messages_ok s"
  shows "evolves s s' \<and> messages_ok s'"
proof (cases "normalise ref")
  case None
  with assms show ?thesis by (simp add: link_reference_in_transaction_def)
next
  case (Some code)
  then obtain r t where t: "link_by_code (business_id ctx) code p c (user_id ctx) (now clk) s = Inr (r, t)"
    and s': "mpesa_messages s' = mpesa_messages t"
    using assms(1) by (auto simp: link_reference_in_transaction_def result_simps split: option.splits)
  have "evolves s t \<and> messages_ok t"
    by (rule update_returning_evolves [OF t [unfolded link_by_code_def] assms(2)])
       (auto simp: linkable_def linked_to_def letter_def allowed_def)
  with s' show ?thesis by (simp add: evolves_def messages_ok_def)
qed

lemma unlink_payment_evolves:
  assumes "unlink_payment_in_transaction ctx p client s = Inr s'" and "messages_ok s"
  shows "evolves s s' \<and> messages_ok s'"
proof -
  from assms(1) obtain r t where t: "unlink_payment (business_id ctx) p s = Inr (r, t)"
    and s': "mpesa_messages s' = mpesa_messages t"
    by (auto simp: unlink_payment_in_transaction_def result_simps split: option.splits)
  have "evolves s t \<and> messages_ok t"
    by (rule update_returning_evolves [OF t [unfolded unlink_payment_def] assms(2)]) (auto simp: letter_def allowed_def)
  with s' show ?thesis by (simp add: evolves_def messages_ok_def)
qed

subsection \<open>The operations keep the invariants\<close>

abbreviation desk_tables :: "table set" where
  "desk_tables \<equiv> {T_mpesa_messages, T_audit_logs}"

lemma repo_get_message_SomeD:
  assumes "repo_get_message bid mid s = Some m"
  shows "m \<in> set (mpesa_messages s)" "mm_id m = mid" "mm_business_id m = bid"
  using find_SomeD [OF assms [unfolded repo_get_message_def]] by auto

lemma message_of_ctx_success:
  "message_of_ctx ctx mid s = Inr m \<longleftrightarrow> repo_get_message (business_id ctx) mid s = Some m"
  by (simp add: message_of_ctx_def)

lemma filter_key_singleton: "distinct (map f xs) \<Longrightarrow> x \<in> set xs \<Longrightarrow> filter (\<lambda>y. f y = f x) xs = [x]"
proof (induction xs)
  case (Cons y xs)
  show ?case
  proof (cases "x = y")
    case True
    then have "filter (\<lambda>z. f z = f x) xs = []" using Cons.prems(1) by (simp add: filter_empty_conv) (metis imageI)
    with True show ?thesis by simp
  qed (use Cons in auto)
qed simp

lemma known_ids_messages:
  "known_ids (s\<lparr>mpesa_messages := ms\<rparr>) \<subseteq> known_ids s \<union> message_ids ms"
  by (auto simp: known_ids_def)

text \<open>An \<open>UPDATE\<close> of one message that does not link a record twice.\<close>

lemma set_message_ok:
  assumes "set_message m' s = Inr s'" and "messages_ok s" and "m \<in> set (mpesa_messages s)"
    and "letter m' = letter m" and "allowed (mm_status m) (mm_status m')"
    and "mm_payment_id m' = None \<or> payment_link m' \<notin> payment_link ` set (mpesa_messages s) \<and> the (mm_payment_id m') \<in> known_ids s"
    and "mm_credit_transaction_id m' = None
      \<or> repayment_link m' \<notin> repayment_link ` set (mpesa_messages s) \<and> the (mm_credit_transaction_id m') \<in> known_ids s"
  shows "mpesa_ok s \<Longrightarrow> mpesa_ok s'" and "evolves s s'" and "messages_ok s'" and "grows s s'" and "writes desk_tables s s'"
proof -
  have id: "mm_id m' = mm_id m" and code: "code_key m' = code_key m"
    using arg_cong [where f = mm_id, OF assms(4)] arg_cong [where f = code_key, OF assms(4)]
    by (simp_all add: code_key_def)
  have s': "s' = s\<lparr>mpesa_messages := update_where (\<lambda>r. mm_id r = mm_id m) (\<lambda>_. m') (mpesa_messages s)\<rparr>"
    and chk: "mpesa_checks m'"
    using assms(1) by (auto simp: set_message_def result_simps id)
  have dist: "distinct (map mm_id (mpesa_messages s))" using assms(2) by (simp add: messages_ok_def)
  note upd = update_one_evolves [OF dist assms(3-5)]
  show "evolves s s'" unfolding evolves_def s' using upd by simp
  show "messages_ok s'" using messages_ok_letters [of s' s] upd(2) assms(2) by (simp add: s')
  show "writes desk_tables s s'" by (simp add: s' writes_def)
  have hit: "filter (\<lambda>r. mm_id r = mm_id m) (mpesa_messages s) = [m]"
    using dist assms(3) by (rule filter_key_singleton)
  note ku = key_unique_update_hit [OF _ hit, where change = "\<lambda>_. m'"]
  have "payment_link m' = None" if "mm_payment_id m' = None" using that by (simp add: payment_link_def)
  moreover have "repayment_link m' = None" if "mm_credit_transaction_id m' = None" using that by (simp add: repayment_link_def)
  ultimately have link: "payment_link m' = None \<or> payment_link m' \<notin> payment_link ` set (mpesa_messages s)"
      "repayment_link m' = None \<or> repayment_link m' \<notin> repayment_link ` set (mpesa_messages s)"
    using assms(6,7) by satx+
  show "mpesa_ok s'" if ok: "mpesa_ok s"
  proof -
    have "list_all mpesa_checks (mpesa_messages s')"
      using ok chk by (auto simp: s' mpesa_ok_def list_all_iff set_update_where)
    moreover have "key_unique code_key (mpesa_messages s')" "key_unique payment_link (mpesa_messages s')"
        "key_unique repayment_link (mpesa_messages s')"
      unfolding s' db.simps using ok code link by (auto simp: mpesa_ok_def intro!: ku)
    ultimately show ?thesis by (simp add: mpesa_ok_def)
  qed
  have "message_ids (mpesa_messages s') \<subseteq> message_ids (mpesa_messages s) \<union> {i. mm_payment_id m' = Some i \<or> mm_credit_transaction_id m' = Some i}"
    by (auto simp: s' message_ids_def set_update_where id split: if_splits) (use assms(3) in blast)+
  moreover have "message_ids (mpesa_messages s) \<subseteq> known_ids s" by (auto simp: known_ids_def)
  ultimately have "known_ids s' \<subseteq> known_ids s"
    using known_ids_messages [where s = s and ms = "mpesa_messages s'"] assms(6,7) by (auto simp: s')
  then show "grows s s'" by (auto simp: grows_def s')
qed

lemma unlinked_paymentsD:
  assumes "t \<in> fst ` set (unlinked_payments bid s)" and "mm_business_id m = bid" and "mm_payment_id m = Some (pay_id t)"
  shows "payment_link m \<notin> payment_link ` set (mpesa_messages s)" "pay_id t \<in> known_ids s"
proof -
  from assms(1) have t: "t \<in> set (payments s)" "\<not> payment_linked bid (pay_id t) s" by (auto simp: unlinked_payments_def)
  have m: "payment_link m = Some (bid, pay_id t)" using assms(2,3) by (simp add: payment_link_def)
  have "payment_link r \<noteq> Some (bid, pay_id t)" if "r \<in> set (mpesa_messages s)" for r
    using t(2) that by (auto simp: payment_linked_def payment_link_def)
  then show "payment_link m \<notin> payment_link ` set (mpesa_messages s)" unfolding m by force
  show "pay_id t \<in> known_ids s" using t(1) by (simp add: known_ids_def)
qed

lemma mpesa_repaymentsD:
  assumes "t \<in> set (mpesa_repayments bid s)" and "mm_business_id m = bid" and "mm_credit_transaction_id m = Some (ct_id t)"
  shows "repayment_link m \<notin> repayment_link ` set (mpesa_messages s)" "ct_id t \<in> known_ids s"
proof -
  from assms(1) have t: "t \<in> set (credit_transactions s)" "\<not> repayment_linked bid (ct_id t) s" by (auto simp: mpesa_repayments_def)
  have m: "repayment_link m = Some (bid, ct_id t)" using assms(2,3) by (simp add: repayment_link_def)
  have "repayment_link r \<noteq> Some (bid, ct_id t)" if "r \<in> set (mpesa_messages s)" for r
    using t(2) that by (auto simp: repayment_linked_def repayment_link_def)
  then show "repayment_link m \<notin> repayment_link ` set (mpesa_messages s)" unfolding m by force
  show "ct_id t \<in> known_ids s" using t(1) by (simp add: known_ids_def)
qed

lemma first_by_SomeD: "first_by k xs = Some x \<Longrightarrow> x \<in> set xs"
proof -
  assume "first_by k xs = Some x"
  then obtain ys where "sort_key k xs = x # ys" by (auto simp: first_by_def split: list.splits)
  then show "x \<in> set xs" using set_sort [of k xs] by auto
qed

lemma mark_matched_simps [simp]:
  "mm_payment_id (mark_matched clk ctx p c m) = p" "mm_credit_transaction_id (mark_matched clk ctx p c m) = c"
  "mm_status (mark_matched clk ctx p c m) = MATCHED" "letter (mark_matched clk ctx p c m) = letter m"
  "mm_id (mark_matched clk ctx p c m) = mm_id m" "mm_business_id (mark_matched clk ctx p c m) = mm_business_id m"
  "mm_code (mark_matched clk ctx p c m) = mm_code m" "mm_amount (mark_matched clk ctx p c m) = mm_amount m"
  by (simp_all add: mark_matched_def linked_to_def letter_def)

text \<open>What linking an existing record can do to a new message.\<close>

lemma link_existing_record_cases:
  obtains (payment) t where "t \<in> fst ` set (unlinked_payments (business_id ctx) s)" "mm_code m = code_of (pay_reference t)"
      "link_existing_record clk ctx m s = mark_matched clk ctx (Some (pay_id t)) None m"
    | (repayment) t where "t \<in> set (mpesa_repayments (business_id ctx) s)" "mm_code m = code_of (ct_reference t)"
      "link_existing_record clk ctx m s = mark_matched clk ctx None (Some (ct_id t)) m"
    | (none) "link_existing_record clk ctx m s = m"
      "\<forall>code. mm_code m = Some code \<longrightarrow> find_payment_by_reference (business_id ctx) code s = None
         \<and> find_repayment_by_reference (business_id ctx) code s = None"
proof (cases "mm_code m")
  case (Some code)
  show thesis
  proof (cases "find_payment_by_reference (business_id ctx) code s")
    case None
    show thesis
    proof (cases "find_repayment_by_reference (business_id ctx) code s")
      case (Some t)
      then have "t \<in> set (mpesa_repayments (business_id ctx) s)" "code_of (ct_reference t) = mm_code m"
        using first_by_SomeD [OF Some [unfolded find_repayment_by_reference_def]] \<open>mm_code m = Some code\<close> by auto
      with Some None \<open>mm_code m = Some code\<close> show thesis by (intro repayment [of t]) (simp_all add: link_existing_record_def)
    qed (use None Some none in \<open>simp add: link_existing_record_def\<close>)
  next
    case (Some t)
    then have "t \<in> fst ` set (unlinked_payments (business_id ctx) s)" "code_of (pay_reference t) = mm_code m"
      using first_by_SomeD [OF Some [unfolded find_payment_by_reference_def]] \<open>mm_code m = Some code\<close> by auto
    with Some \<open>mm_code m = Some code\<close> show thesis by (intro payment [of t]) (simp_all add: link_existing_record_def)
  qed
qed (simp add: none link_existing_record_def)

lemma match_body_success:
  assumes "match_body clk ctx mid data client s = Inr (m', s')"
  obtains m t f where "repo_get_message (business_id ctx) mid s = Some m" "mm_status m = UNMATCHED"
    "set_message m' s = Inr t" "s' = audit_record ctx ''mpesa.match'' MPESA_ENTITY (mm_id m') None f client t"
    "(\<exists>p \<in> fst ` set (unlinked_payments (business_id ctx) s). mr_payment_id data = Some (pay_id p)
        \<and> m' = mark_matched clk ctx (Some (pay_id p)) None m)
     \<or> (\<exists>r \<in> set (mpesa_repayments (business_id ctx) s). mr_credit_transaction_id data = Some (ct_id r)
        \<and> m' = mark_matched clk ctx None (Some (ct_id r)) m)"
proof -
  from assms obtain m where m: "repo_get_message (business_id ctx) mid s = Some m" "mm_status m = UNMATCHED"
    by (auto simp: match_body_def require_status_def message_of_ctx_success result_simps)
  show thesis
  proof (cases "mr_payment_id data")
    case (Some pid)
    with assms m obtain p t f where p: "get_unlinked_payment (business_id ctx) pid s = Some p"
        "m' = mark_matched clk ctx (Some (pay_id p)) None m" "set_message m' s = Inr t"
        "s' = audit_record ctx ''mpesa.match'' MPESA_ENTITY (mm_id m') None f client t"
      by (auto simp: match_body_def require_status_def message_of_ctx_success result_simps)
    moreover from p(1) have "pay_id p = pid" "p \<in> fst ` set (unlinked_payments (business_id ctx) s)"
      using find_SomeD [OF p(1) [unfolded get_unlinked_payment_def]] by auto
    ultimately show thesis using that m Some by blast
  next
    case None
    with assms m obtain tid r t f where r: "mr_credit_transaction_id data = Some tid"
        "get_unlinked_repayment (business_id ctx) tid s = Some r"
        "m' = mark_matched clk ctx None (Some (ct_id r)) m" "set_message m' s = Inr t"
        "s' = audit_record ctx ''mpesa.match'' MPESA_ENTITY (mm_id m') None f client t"
      by (auto simp: match_body_def require_status_def message_of_ctx_success result_simps split: option.splits)
    moreover from r(2) have "ct_id r = tid" "r \<in> set (mpesa_repayments (business_id ctx) s)"
      using find_SomeD [OF r(2) [unfolded get_unlinked_repayment_def]] by auto
    ultimately show thesis using that m by blast
  qed
qed

definition desk_keeps :: "db \<Rightarrow> db \<Rightarrow> bool" where
  "desk_keeps s s' \<longleftrightarrow> (mpesa_ok s \<longrightarrow> mpesa_ok s') \<and> evolves s s' \<and> messages_ok s' \<and> grows s s' \<and> writes desk_tables s s'"

lemma desk_keeps_refl [simp]: "messages_ok s \<Longrightarrow> desk_keeps s s"
  by (simp add: desk_keeps_def)

lemma desk_keeps_audit: "desk_keeps s t \<Longrightarrow> desk_keeps s (audit_record ctx a e i b f c t)"
  by (auto simp: desk_keeps_def)

lemma match_body_keeps:
  assumes "match_body clk ctx mid data client s = Inr (m', s')" and "messages_ok s"
  shows "desk_keeps s s'"
  using assms(1)
proof (rule match_body_success)
  fix m t f
  assume m: "repo_get_message (business_id ctx) mid s = Some m" "mm_status m = UNMATCHED" "set_message m' s = Inr t"
    and s': "s' = audit_record ctx ''mpesa.match'' MPESA_ENTITY (mm_id m') None f client t"
    and how: "(\<exists>p \<in> fst ` set (unlinked_payments (business_id ctx) s). mr_payment_id data = Some (pay_id p)
        \<and> m' = mark_matched clk ctx (Some (pay_id p)) None m)
     \<or> (\<exists>r \<in> set (mpesa_repayments (business_id ctx) s). mr_credit_transaction_id data = Some (ct_id r)
        \<and> m' = mark_matched clk ctx None (Some (ct_id r)) m)"
  note mem = repo_get_message_SomeD [OF m(1)]
  note ok = set_message_ok [OF m(3) assms(2) mem(1)]
  have "letter m' = letter m" "allowed (mm_status m) (mm_status m')"
    using how m(2) by (auto simp: allowed_def)
  moreover have "mm_payment_id m' = None \<or> payment_link m' \<notin> payment_link ` set (mpesa_messages s) \<and> the (mm_payment_id m') \<in> known_ids s"
    using how mem(3) unlinked_paymentsD [of _ "business_id ctx" s m'] by fastforce
  moreover have "mm_credit_transaction_id m' = None \<or> repayment_link m' \<notin> repayment_link ` set (mpesa_messages s)
      \<and> the (mm_credit_transaction_id m') \<in> known_ids s"
    using how mem(3) mpesa_repaymentsD [of _ "business_id ctx" s m'] by fastforce
  ultimately have "desk_keeps s t" unfolding desk_keeps_def using ok by blast
  then show ?thesis unfolding s' by (rule desk_keeps_audit)
qed

lemma ignore_body_success:
  assumes "ignore_body clk ctx mid data client s = Inr (m', s')"
  obtains (again) "repo_get_message (business_id ctx) mid s = Some m'" "mm_status m' = IGNORED" "s' = s"
    | (dismissed) m t b f where "repo_get_message (business_id ctx) mid s = Some m" "mm_status m \<in> {UNPARSED, UNMATCHED}"
        "m' = ignored_by clk ctx data m" "set_message m' s = Inr t"
        "s' = audit_record ctx ''mpesa.ignore'' MPESA_ENTITY (mm_id m) b f client t"
proof -
  from assms obtain m where m: "repo_get_message (business_id ctx) mid s = Some m"
    by (auto simp: ignore_body_def message_of_ctx_success result_simps)
  show thesis
  proof (cases "mm_status m = IGNORED")
    case True
    with assms m have "m' = m" "s' = s" by (simp_all add: ignore_body_def message_of_ctx_def)
    with m True show thesis by (intro that(1)) simp_all
  next
    case False
    with assms m have "mm_status m \<noteq> MATCHED" by (auto simp: ignore_body_def message_of_ctx_def raise_if_def)
    with False have "mm_status m \<in> {UNPARSED, UNMATCHED}" by (cases "mm_status m") auto
    moreover from assms m False obtain t b f where "m' = ignored_by clk ctx data m" "set_message m' s = Inr t"
        "s' = audit_record ctx ''mpesa.ignore'' MPESA_ENTITY (mm_id m) b f client t"
      by (auto simp: ignore_body_def message_of_ctx_success result_simps Let_def)
    ultimately show thesis using m by (intro that(2))
  qed
qed

lemma ignored_by_simps [simp]:
  "mm_status (ignored_by clk ctx data m) = IGNORED" "letter (ignored_by clk ctx data m) = letter m"
  "mm_id (ignored_by clk ctx data m) = mm_id m" "mm_payment_id (ignored_by clk ctx data m) = mm_payment_id m"
  "mm_credit_transaction_id (ignored_by clk ctx data m) = mm_credit_transaction_id m"
  by (simp_all add: ignored_by_def letter_def)

lemma ignore_body_keeps:
  assumes "ignore_body clk ctx mid data client s = Inr (m', s')" and "messages_ok s"
  shows "desk_keeps s s'"
  using assms(1)
proof (cases rule: ignore_body_success)
  case again
  with assms(2) show ?thesis by simp
next
  case (dismissed m t b f)
  have "mpesa_checks m'" using dismissed(4) by (auto simp: set_message_def result_simps)
  then have "mm_payment_id m' = None" "mm_credit_transaction_id m' = None"
    using dismissed(3) by (auto simp: mpesa_checks_def)
  moreover have "letter m' = letter m" "allowed (mm_status m) (mm_status m')"
    using dismissed(2,3) by (auto simp: allowed_def)
  ultimately have "desk_keeps s t"
    unfolding desk_keeps_def using set_message_ok [OF dismissed(4) assms(2) repo_get_message_SomeD(1) [OF dismissed(1)]] by blast
  then show ?thesis unfolding dismissed(5) by (rule desk_keeps_audit)
qed

text \<open>A new message.\<close>

lemma new_message_keeps:
  assumes "mpesa_messages s' = mpesa_messages s @ [m]" and "writes desk_tables s s'" and "draws s < draws s'"
    and "fresh_ok s" and "messages_ok s" and "mm_id m = new_id s" and "mm_status m \<noteq> IGNORED"
    and "opt_all (\<lambda>c. normalise (Some c) = Some c) (mm_code m)" and "mpesa_checks m"
    and "code_key m = None \<or> code_key m \<notin> code_key ` set (mpesa_messages s)"
    and "mm_payment_id m = None \<or> payment_link m \<notin> payment_link ` set (mpesa_messages s) \<and> the (mm_payment_id m) \<in> known_ids s"
    and "mm_credit_transaction_id m = None
      \<or> repayment_link m \<notin> repayment_link ` set (mpesa_messages s) \<and> the (mm_credit_transaction_id m) \<in> known_ids s"
  shows "desk_keeps s s'"
proof -
  have "message_ids (mpesa_messages s) \<subseteq> known_ids s" by (auto simp: known_ids_def)
  then have fresh: "mm_id m \<notin> mm_id ` set (mpesa_messages s)"
    using new_id_fresh [OF assms(4)] assms(6) by (auto simp: message_ids_def)
  have "desk_of (mpesa_messages s) (mm_id m) = None" using fresh by (simp add: desk_of_def map_of_eq_None_iff image_image)
  then have "desk_step (desk_of (mpesa_messages s)) ((desk_of (mpesa_messages s))(mm_id m \<mapsto> mm_status m))"
    using assms(7) by (rule desk_step.receive)
  moreover have "desk_of (mpesa_messages s') = (desk_of (mpesa_messages s))(mm_id m \<mapsto> mm_status m)"
    using \<open>desk_of (mpesa_messages s) (mm_id m) = None\<close>
    by (auto simp: assms(1) desk_of_def map_add_def split: option.splits)
  ultimately have "evolves s s'" by (simp add: evolves_def assms(1))
  moreover have "messages_ok s'" using assms(5,8) fresh by (simp add: messages_ok_def assms(1))
  moreover have "mpesa_ok s'" if "mpesa_ok s"
    using that assms(9-12) by (auto simp: mpesa_ok_def assms(1) payment_link_def repayment_link_def)
  moreover have "grows s s'"
  proof -
    have "known_ids s' \<subseteq> known_ids s \<union> message_ids (mpesa_messages s')"
      using assms(2) unfolding writes_def known_ids_def by auto
    moreover have "message_ids (mpesa_messages s') \<subseteq> message_ids (mpesa_messages s) \<union> {new_id s}
        \<union> {i. mm_payment_id m = Some i \<or> mm_credit_transaction_id m = Some i}"
      by (auto simp: message_ids_def assms(1) assms(6))
    moreover have "new_id s \<in> uuid4 s ` {draws s..<draws s'}" using assms(3) by (simp add: new_id_def)
    ultimately show ?thesis
      using assms(2,11,12) \<open>message_ids (mpesa_messages s) \<subseteq> known_ids s\<close> by (auto simp: grows_def writes_def)
  qed
  ultimately show ?thesis using assms(2) by (simp add: desk_keeps_def)
qed

lemma upper_alnum_normal: "upper_alnum c \<Longrightarrow> upper_char c = c \<and> \<not> is_space c"
proof -
  have "list_all (\<lambda>c. upper_alnum c \<longrightarrow> upper_char c = c \<and> \<not> is_space c) (Enum.enum :: char list)" by code_simp
  moreover assume "upper_alnum c"
  ultimately show ?thesis by (auto simp: list_all_iff enum_UNIV)
qed

lemma strip_unspaced: "list_all (\<lambda>c. \<not> is_space c) t \<Longrightarrow> py_strip t = t"
proof -
  assume "list_all (\<lambda>c. \<not> is_space c) t"
  then have "dropWhile is_space t = t" "dropWhile is_space (rev t) = rev t"
    by (simp_all add: dropWhile_eq_self_iff list_all_iff hd_in_set) (metis hd_in_set set_rev rev_is_Nil_conv)
  then show ?thesis by (simp add: py_strip_def)
qed

text \<open>The parser returns codes in the form in which references are compared.\<close>

lemma parsed_code_normal:
  assumes "parse_mpesa_sms nairobi t = Some p"
  shows "normalise (Some (sms_code p)) = Some (sms_code p)" "0 < sms_amount p"
proof -
  from assms obtain q where q: "re_match CODE (flatten t) = Some q" "sms_code p = py_upper (the (group ''1'' q))"
    and "0 < sms_amount p" by (rule parse_mpesa_sms_SomeD)
  from code_group [OF q(1)] q(2) have c: "length (sms_code p) = 10" "list_all upper_alnum (sms_code p)"
    by (auto simp: py_upper_def list_all_iff upper_char_alnum)
  have "py_strip (sms_code p) = sms_code p" using c(2) by (intro strip_unspaced) (auto simp: list_all_iff upper_alnum_normal)
  moreover have "py_upper (sms_code p) = sms_code p"
    using c(2) by (simp add: py_upper_def list_all_iff upper_alnum_normal map_idI)
  ultimately show "normalise (Some (sms_code p)) = Some (sms_code p)" using c(1) by (auto simp: normalise_def Let_def)
qed (use assms in \<open>auto elim: parse_mpesa_sms_SomeD\<close>)

lemma add_message_success:
  "add_message m s = Inr (m', s') \<longleftrightarrow> m' = m \<and> s' = (drawn s)\<lparr>mpesa_messages := mpesa_messages s @ [m]\<rparr>
     \<and> mpesa_fits m \<and> mpesa_checks m \<and> (code_key m = None \<or> code_key m \<notin> code_key ` set (mpesa_messages s))"
  by (auto simp: add_message_def flush_message_def result_simps)

lemma paste_unparsed_keeps:
  assumes "paste_unparsed_body clk ctx t client s = Inr (m, s')" and "messages_ok s" and "fresh_ok s"
  shows "desk_keeps s s'"
proof -
  let ?m = "unparsed_message clk ctx t (new_id s)"
  from assms(1) have m: "mpesa_checks ?m"
    and s': "\<exists>f. s' = audit_record ctx ''mpesa.paste'' MPESA_ENTITY (new_id s) None f client ((drawn s)\<lparr>mpesa_messages := mpesa_messages s @ [?m]\<rparr>)"
    by (auto simp: paste_unparsed_body_def audit_message_def add_message_success result_simps unparsed_message_def)
  have "mm_id ?m = new_id s" "mm_status ?m = UNPARSED" "mm_code ?m = None" "mm_payment_id ?m = None"
      "mm_credit_transaction_id ?m = None" "code_key ?m = None"
    by (simp_all add: unparsed_message_def code_key_def)
  with m assms(2,3) have "desk_keeps s ((drawn s)\<lparr>mpesa_messages := mpesa_messages s @ [?m]\<rparr>)"
    by (intro new_message_keeps [where m = ?m]) (simp_all add: writes_def)
  with s' show ?thesis by (auto intro: desk_keeps_audit)
qed

lemma link_existing_record_simps [simp]:
  "mm_id (link_existing_record clk ctx m s) = mm_id m" "mm_code (link_existing_record clk ctx m s) = mm_code m"
  "mm_amount (link_existing_record clk ctx m s) = mm_amount m"
  "mm_business_id (link_existing_record clk ctx m s) = mm_business_id m"
  by (cases rule: link_existing_record_cases [of ctx s m clk]; simp)+

lemma update_last:
  "i r \<notin> i ` set rows \<Longrightarrow> update_where (\<lambda>x. i x = i r) (\<lambda>_. v) (rows @ [r]) = rows @ [v]"
proof -
  assume "i r \<notin> i ` set rows"
  then have "update_where (\<lambda>x. i x = i r) (\<lambda>_. v) rows = rows" by (intro update_where_none) (metis imageI)
  then show ?thesis by simp
qed

lemma paste_parsed_success:
  assumes "paste_parsed_body clk ctx t p client s = Inr (m', s')" and "fresh_ok s"
  obtains f where "mpesa_messages s' = mpesa_messages s @ [m']" "writes desk_tables s s'" "draws s < draws s'"
    "mm_id m' = new_id s" "mpesa_checks m'" "code_key m' \<notin> code_key ` set (mpesa_messages s)"
    "m' = link_existing_record clk ctx (parsed_message clk ctx t p (new_id s))
       ((drawn s)\<lparr>mpesa_messages := mpesa_messages s @ [parsed_message clk ctx t p (new_id s)]\<rparr>)"
proof -
  let ?m = "parsed_message clk ctx t p (new_id s)"
  let ?s0 = "(drawn s)\<lparr>mpesa_messages := mpesa_messages s @ [?m]\<rparr>"
  let ?m' = "link_existing_record clk ctx ?m ?s0"
  have id: "mm_id ?m = new_id s" "code_key ?m \<noteq> None" "mm_business_id ?m = business_id ctx" 
    by (simp_all add: parsed_message_def unparsed_message_def code_key_def)
  from assms(1) obtain t1 f where m': "m' = ?m'" and key: "code_key ?m \<notin> code_key ` set (mpesa_messages s)"
    and set: "set_message ?m' ?s0 = Inr t1"
    and s': "s' = audit_record ctx ''mpesa.paste'' MPESA_ENTITY (mm_id ?m') None f client t1"
    using id(2) by (auto simp: paste_parsed_body_def audit_message_def add_message_success result_simps Let_def)
  have "new_id s \<notin> mm_id ` set (mpesa_messages s)"
    using new_id_fresh [OF assms(2)] by (auto simp: known_ids_def message_ids_def)
  then have "update_where (\<lambda>r. mm_id r = mm_id ?m) (\<lambda>_. ?m') (mpesa_messages s @ [?m]) = mpesa_messages s @ [?m']"
    by (intro update_last) (simp add: id(1))
  then have t1: "t1 = ?s0\<lparr>mpesa_messages := mpesa_messages s @ [?m']\<rparr>" and chk: "mpesa_checks ?m'"
    using set by (auto simp: set_message_def result_simps)
  have "code_key ?m' = code_key ?m" by (simp add: code_key_def)
  with key chk show thesis
    by (intro that) (simp_all add: s' t1 m' writes_def id)
qed

lemma paste_parsed_keeps:
  assumes "paste_parsed_body clk ctx t p client s = Inr (m', s')" and "messages_ok s" and "fresh_ok s"
    and "normalise (Some (sms_code p)) = Some (sms_code p)"
  shows "desk_keeps s s'"
  using assms(1,3)
proof (rule paste_parsed_success)
  let ?m = "parsed_message clk ctx t p (new_id s)"
  let ?s0 = "(drawn s)\<lparr>mpesa_messages := mpesa_messages s @ [?m]\<rparr>"
  assume s': "mpesa_messages s' = mpesa_messages s @ [m']" "writes desk_tables s s'" "draws s < draws s'"
    and m': "mm_id m' = new_id s" "mpesa_checks m'" "code_key m' \<notin> code_key ` set (mpesa_messages s)"
      "m' = link_existing_record clk ctx ?m ?s0"
  have m: "mm_business_id ?m = business_id ctx" "mm_code ?m = Some (sms_code p)" "mm_status ?m = UNMATCHED"
      "mm_payment_id ?m = None" "mm_credit_transaction_id ?m = None"
    by (simp_all add: parsed_message_def unparsed_message_def)
  have ids: "known_ids ?s0 \<subseteq> insert (new_id s) (known_ids s)"
    by (auto simp: known_ids_def message_ids_def parsed_message_def unparsed_message_def)
  have "mm_status m' \<noteq> IGNORED \<and> (mm_payment_id m' = None \<or> payment_link m' \<notin> payment_link ` set (mpesa_messages s) \<and> the (mm_payment_id m') \<in> known_ids s)
    \<and> (mm_credit_transaction_id m' = None
      \<or> repayment_link m' \<notin> repayment_link ` set (mpesa_messages s) \<and> the (mm_credit_transaction_id m') \<in> known_ids s)"
  proof (cases rule: link_existing_record_cases [of ctx ?s0 ?m clk])
    case (payment r)
    then have "r \<in> set (payments s)" by (auto simp: unlinked_payments_def)
    then have "pay_id r \<in> known_ids s" by (simp add: known_ids_def)
    with payment m m'(4) unlinked_paymentsD(1) [OF payment(1), of m'] show ?thesis by simp
  next
    case (repayment r)
    then have "r \<in> set (credit_transactions s)" by (auto simp: mpesa_repayments_def)
    then have "ct_id r \<in> known_ids s" by (simp add: known_ids_def)
    with repayment m m'(4) mpesa_repaymentsD(1) [OF repayment(1), of m'] show ?thesis by simp
  next
    case none
    with m m'(4) show ?thesis by simp
  qed
  moreover have "mm_code m' = Some (sms_code p)" using m m'(4) by simp
  ultimately show ?thesis
    using s' m'(1-3) assms(2-4) by (intro new_message_keeps [where m = m']) simp_all
qed

subsection \<open>The public operations\<close>

lemma paste_cases:
  assumes "paste collate nairobi clk ctx t client s = (r, s')"
  obtains (failed) e where "r = Inl e" "s' = s"
    | (known) p m where "parse_mpesa_sms nairobi t = Some p" "get_by_code (business_id ctx) (sms_code p) s = Some m"
        "r = Inr \<lparr>pa_view = view_of collate ctx True s m, pa_created = False\<rparr>" "s' = s"
    | (unparsed) m where "parse_mpesa_sms nairobi t = None" "paste_unparsed_body clk ctx t client s = Inr (m, s')"
        "r = Inr \<lparr>pa_view = view_of collate ctx True s' m, pa_created = True\<rparr>"
    | (parsed) p m where "parse_mpesa_sms nairobi t = Some p" "sms_direction p \<noteq> SENT"
        "get_by_code (business_id ctx) (sms_code p) s = None" "paste_parsed_body clk ctx t p client s = Inr (m, s')"
        "r = Inr \<lparr>pa_view = view_of collate ctx True s' m, pa_created = True\<rparr>"
proof (cases "parse_mpesa_sms nairobi t")
  case None
  with assms show thesis using failed unparsed
    by (auto simp: paste_def Let_def transaction_def split: sum.splits prod.splits)
next
  case (Some p)
  show thesis
  proof (cases "sms_direction p = SENT")
    case True
    with Some assms failed show thesis by (auto simp: paste_def)
  next
    case dir: False
    show thesis
    proof (cases "get_by_code (business_id ctx) (sms_code p) s")
      case None
      show thesis
      proof (cases "paste_parsed_body clk ctx t p client s")
        case (Inl e)
        with Some dir None assms have "r = Inl e" "s' = s"
          by (auto simp: paste_def Let_def transaction_def split: if_splits)
        then show thesis by (rule failed)
      next
        case (Inr ms)
        obtain m t' where ms: "ms = (m, t')" by (cases ms)
        with Inr Some dir None assms have "r = Inr \<lparr>pa_view = view_of collate ctx True t' m, pa_created = True\<rparr>" "s' = t'"
          by (auto simp: paste_def Let_def transaction_def)
        with Inr ms show thesis by (intro parsed [OF Some dir None]) auto
      qed
    next
      case found: (Some m)
      with Some dir assms have "r = Inr \<lparr>pa_view = view_of collate ctx True s m, pa_created = False\<rparr>" "s' = s"
        by (auto simp: paste_def Let_def)
      then show thesis by (rule known [OF Some found])
    qed
  qed
qed

lemma paste_keeps:
  assumes "messages_ok s" and "fresh_ok s"
  shows "desk_keeps s (snd (paste collate nairobi clk ctx t client s))"
proof -
  obtain r s' where out: "paste collate nairobi clk ctx t client s = (r, s')" by force
  then have "desk_keeps s s'"
    by (cases rule: paste_cases)
       (use assms paste_unparsed_keeps paste_parsed_keeps parsed_code_normal(1) in auto)
  with out show ?thesis by simp
qed

lemma snd_viewed [simp]: "snd (viewed collate ctx out) = snd out"
  by (simp add: viewed_def split: prod.splits)

lemma match_message_keeps: "messages_ok s \<Longrightarrow> desk_keeps s (snd (match_message collate clk ctx mid data client s))"
  unfolding match_message_def snd_viewed
  by (rule transaction_preserves [where P = "desk_keeps s"], simp, rule match_body_keeps)

lemma ignore_message_keeps: "messages_ok s \<Longrightarrow> desk_keeps s (snd (ignore_message collate clk ctx mid data client s))"
proof (cases "role ctx = OWNER")
  case True
  assume ok: "messages_ok s"
  have "desk_keeps s (snd (transaction (ignore_body clk ctx mid data client) s))"
    by (rule transaction_preserves [where P = "desk_keeps s"], simp add: ok, rule ignore_body_keeps [OF _ ok])
  with True show ?thesis by (simp add: ignore_message_def)
qed (simp add: ignore_message_def)

lemma record_repayment_for_message_state:
  "snd (record_repayment_for_message collate sha uuid5 clk ctx mid data client s) = s
   \<or> (\<exists>req. snd (record_repayment_for_message collate sha uuid5 clk ctx mid data client s)
        = snd (record_repayment sha clk ctx (mq_customer_id data) req client (Some (uuid5 mid)) s))"
  by (auto simp: record_repayment_for_message_def split: sum.splits prod.splits) (metis snd_conv)+

lemma record_repayment_evolves:
  assumes "messages_ok s"
  shows "evolves s (snd (record_repayment sha clk ctx cid data client key s))
    \<and> messages_ok (snd (record_repayment sha clk ctx cid data client key s))"
  unfolding record_repayment_def Let_def on_integrity_error_snd
proof (rule transaction_preserves [where P = "\<lambda>t. evolves s t \<and> messages_ok t"])
  fix posted s'
  assume "record_repayment_body clk ctx cid data client key
    (map_option (\<lambda>_. payload_hash sha ''repayment'' cid (repayment_dump data)) key) s = Inr (posted, s')"
  then show "evolves s s' \<and> messages_ok s'"
  proof (cases rule: record_repayment_success)
    case (replayed c t)
    with assms show ?thesis by simp
  next
    case (fresh c t s1 s2 f)
    note w = post_entry_writes [OF fresh(3)]
    have s1: "evolves s s1" "messages_ok s1" using assms evolves_writes [OF w] messages_ok_writes [OF w] by simp_all
    then have "evolves s1 s2 \<and> messages_ok s2"
      using fresh(4) link_reference_evolves by (auto split: if_splits)
    with s1 show ?thesis unfolding fresh(6) by (auto intro: evolves_trans)
  qed
qed (use assms in simp)

subsection \<open>Claims\<close>

text \<open>What pasting does to the row of its code.\<close>

lemma get_by_code_new:
  assumes "get_by_code bid code s = None" and "mpesa_messages s' = mpesa_messages s @ [m]"
    and "mm_business_id m = bid" and "mm_code m = Some code"
  shows "get_by_code bid code s' = Some m"
  using assms by (simp add: get_by_code_def find_append)



text \<open>Recording a repayment from a message: the reference is the code of the message, which is unique and normalised,
  so the hook links this message and no other.\<close>

lemma linkable_singleton:
  assumes "mpesa_ok s" and "m \<in> set (mpesa_messages s)" and "mm_code m = Some code" and "mm_status m = UNMATCHED"
    and "messages_ok s"
  shows "filter (linkable (mm_business_id m) code) (mpesa_messages s) = [m]"
proof -
  have "x = m" if "x \<in> set (mpesa_messages s)" "linkable (mm_business_id m) code x" for x
    using assms that by (intro key_uniqueD [of code_key "mpesa_messages s"]) (auto simp: mpesa_ok_def code_key_def linkable_def)
  then have "filter (linkable (mm_business_id m) code) (mpesa_messages s) = filter (\<lambda>r. mm_id r = mm_id m) (mpesa_messages s)"
    using assms by (intro filter_cong) (auto simp: linkable_def messages_ok_def dest: distinct_mapD)
  with assms(2,5) show ?thesis by (simp add: filter_key_singleton messages_ok_def)
qed

lemma link_reference_hit:
  assumes "link_reference_in_transaction clk ctx (Some code) p c via client s = Inr s'" and "mpesa_ok s" and "messages_ok s"
    and "m \<in> set (mpesa_messages s)" and "mm_business_id m = business_id ctx" and "mm_code m = Some code"
    and "mm_status m = UNMATCHED"
  shows "mpesa_messages s' = update_where (\<lambda>r. mm_id r = mm_id m) (\<lambda>_. linked_to p c (user_id ctx) (now clk) m) (mpesa_messages s)"
proof -
  have code: "normalise (Some code) = Some code" using assms(3,4,6) by (auto simp: messages_ok_def)
  note hit = linkable_singleton [OF assms(2,4,6,7,3), unfolded assms(5)]
  have "mpesa_messages s' = update_where (linkable (business_id ctx) code) (linked_to p c (user_id ctx) (now clk)) (mpesa_messages s)"
    using assms(1) by (auto simp: link_reference_in_transaction_def code link_by_code_def result_simps update_returning_def
        Let_def hit split: option.splits)
  with update_hit_one [OF _ hit] assms(3) show ?thesis by (simp add: messages_ok_def)
qed

lemma record_repayment_Inr:
  assumes "record_repayment sha clk ctx cid data client key s = (Inr p, s')"
  shows "record_repayment_body clk ctx cid data client key
    (map_option (\<lambda>_. payload_hash sha ''repayment'' cid (repayment_dump data)) key) s = Inr (p, s')"
  using assms by (auto simp: record_repayment_def Let_def on_integrity_error_Inr transaction_cases)

lemma record_repayment_Inl:
  "record_repayment sha clk ctx cid data client key s = (Inl e, s') \<Longrightarrow> s' = s"
  by (auto simp: record_repayment_def Let_def on_integrity_error_def transaction_def split: sum.splits if_splits)


definition demo_message :: mpesa_message where
  "demo_message = \<lparr>mm_id = 120, mm_business_id = 900, mm_created_by = 901, mm_status = UNMATCHED, mm_raw_text = ''RK1TEST001'',
     mm_code = Some ''RK1TEST001'', mm_amount = Some 20000, mm_kind = Some TILL, mm_sender_name = None,
     mm_sender_phone_masked = None, mm_sender_last3 = None, mm_account_reference = None, mm_occurred_at = Some 30,
     mm_payment_id = None, mm_credit_transaction_id = None, mm_matched_at = None, mm_matched_by = None,
     mm_ignored_at = None, mm_ignored_by = None, mm_ignore_reason = None, mm_created_at = 31\<rparr>"

definition demo_inbox :: db where
  "demo_inbox = (empty_db id)\<lparr>customers := [demo_customer], credit_transactions := [demo_charge],
     mpesa_messages := [demo_message], draws := 200\<rparr>"


end
