(* ===== verification/Receipt_Matching.thy ===== *)
theory Receipt_Matching
  imports Catalogue Sms_Parser
begin

text \<open>
  Matching the lines of a supplier receipt to the catalogue (\<open>services/receipt_matching.py\<close>), with the part of
  \<open>difflib\<close> it uses.

  \<open>SequenceMatcher(None, a, b).ratio()\<close> is \<open>2 M / (|a| + |b|)\<close>, where \<open>M\<close> is found by taking the longest common block, the
  earliest in \<open>a\<close> and then in \<open>b\<close>, and recursing to its left and right. Names of products have at most 120
  characters, so the popularity heuristic (200 and more) never applies. The ratios are compared with 0.9 and 0.7 as
  rationals: a quotient of integers below 300 that is not equal to such a bound differs from it by more than the
  precision of a float.

  The lemmas show that a proposal only ever names products of the list it was given, and when it is certain.
\<close>

subsection \<open>Sequence matching\<close>

fun common_prefix :: "'a list \<Rightarrow> 'a list \<Rightarrow> nat" where
  "common_prefix (x # xs) (y # ys) = (if x = y then Suc (common_prefix xs ys) else 0)"
| "common_prefix _ _ = 0"

definition longer :: "nat \<times> nat \<times> nat \<Rightarrow> nat \<times> nat \<times> nat \<Rightarrow> nat \<times> nat \<times> nat" where
  "longer best block = (if snd (snd block) > snd (snd best) then block else best)"

definition find_longest_match :: "'a list \<Rightarrow> 'a list \<Rightarrow> nat \<times> nat \<times> nat" where
  "find_longest_match a b = foldl longer (0, 0, 0)
     [(i, j, common_prefix (drop i a) (drop j b)). i \<leftarrow> [0..<length a], j \<leftarrow> [0..<length b]]"

lemma common_prefix_le: "common_prefix xs ys \<le> length xs" "common_prefix xs ys \<le> length ys"
  by (induction xs ys rule: common_prefix.induct) auto

lemma foldl_longer_mem: "foldl longer best blocks \<in> insert best (set blocks)"
  by (induction blocks arbitrary: best) (auto simp: longer_def)

lemma find_longest_match_bound:
  assumes "find_longest_match a b = (i, j, k)"
  shows "i + k \<le> length a" "j + k \<le> length b"
proof -
  from assms foldl_longer_mem [of "(0, 0, 0)" "[(i, j, common_prefix (drop i a) (drop j b)). i \<leftarrow> [0..<length a], j \<leftarrow> [0..<length b]]"]
  have "(i, j, k) = (0, 0, 0) \<or> i < length a \<and> j < length b \<and> k = common_prefix (drop i a) (drop j b)"
    by (auto simp: find_longest_match_def)
  then show "i + k \<le> length a" "j + k \<le> length b"
    using common_prefix_le [of "drop i a" "drop j b"] by auto
qed

function matched_size :: "'a list \<Rightarrow> 'a list \<Rightarrow> nat" where
  "matched_size a b = (case find_longest_match a b of (i, j, k) \<Rightarrow>
     if k = 0 then 0 else k + matched_size (take i a) (take j b) + matched_size (drop (i + k) a) (drop (j + k) b))"
  by pat_completeness auto
termination
  by (relation "measure (\<lambda>(a, b). length a)") (auto dest!: find_longest_match_bound(1) [OF sym])

declare matched_size.simps [simp del]

definition ratio :: "'a list \<Rightarrow> 'a list \<Rightarrow> rat" where
  "ratio a b = (if length a + length b = 0 then 1 else of_nat (2 * matched_size a b) / of_nat (length a + length b))"

subsection \<open>Names\<close>

definition plain_char :: "char \<Rightarrow> bool" where
  "plain_char c \<longleftrightarrow> c \<in> set ''abcdefghijklmnopqrstuvwxyz0123456789''"

text \<open>\<open>_NON_ALNUM.sub(" ", text)\<close>: every run of other characters becomes one blank.\<close>

function blank_runs :: "string \<Rightarrow> string" where
  "blank_runs [] = []"
| "blank_runs (c # cs) = (if plain_char c then c # blank_runs cs
     else CHR '' '' # blank_runs (dropWhile (\<lambda>c. \<not> plain_char c) cs))"
  by pat_completeness auto
termination
  by (relation "measure length") (auto simp: length_dropWhile_le le_imp_less_Suc)

definition normalise_name :: "string \<Rightarrow> string" where
  "normalise_name t = flatten (blank_runs (py_lower t))"

subsection \<open>Matching a line\<close>

definition MATCH_THRESHOLD :: rat where "MATCH_THRESHOLD = 9 / 10"
definition CANDIDATE_THRESHOLD :: rat where "CANDIDATE_THRESHOLD = 7 / 10"
definition LINE_CANDIDATES :: nat where "LINE_CANDIDATES = 3"

record MatchResult =
  mt_status :: ReceiptMatchStatus
  mt_product_id :: "uuid option"
  mt_candidates :: "uuid list"

definition has_code :: "string \<Rightarrow> product \<Rightarrow> bool" where
  "has_code wanted p \<longleftrightarrow> truthy (p_sku p) \<and> map_option py_lower (p_sku p) = Some wanted
     \<or> truthy (p_barcode p) \<and> map_option py_lower (p_barcode p) = Some wanted"

definition scored :: "string \<Rightarrow> product list \<Rightarrow> (rat \<times> product) list" where
  "scored wanted ps = sort_key (\<lambda>x. - fst x) (map (\<lambda>p. (ratio wanted (normalise_name (p_name p)), p)) ps)"

definition near :: "string \<Rightarrow> product list \<Rightarrow> product list" where
  "near wanted ps = take LINE_CANDIDATES (map snd (filter (\<lambda>x. fst x \<ge> CANDIDATE_THRESHOLD) (scored wanted ps)))"

definition by_similarity :: "string \<Rightarrow> product list \<Rightarrow> MatchResult" where
  "by_similarity wanted ps =
     (let ranked = scored wanted ps;
          candidates = near wanted ps in
      case candidates of
        [] \<Rightarrow> \<lparr>mt_status = LINE_UNMATCHED, mt_product_id = None, mt_candidates = []\<rparr>
      | best # _ \<Rightarrow>
          let best_score = fst (ranked ! 0);
              runner_up = (if length ranked > 1 then fst (ranked ! 1) else 0) in
          if best_score \<ge> MATCH_THRESHOLD \<and> runner_up < MATCH_THRESHOLD
          then \<lparr>mt_status = LINE_MATCHED, mt_product_id = Some (p_id best), mt_candidates = map p_id candidates\<rparr>
          else \<lparr>mt_status = LINE_AMBIGUOUS, mt_product_id = None, mt_candidates = map p_id candidates\<rparr>)"

definition by_name :: "string \<Rightarrow> product list \<Rightarrow> MatchResult" where
  "by_name wanted ps =
     (case filter (\<lambda>p. normalise_name (p_name p) = wanted) ps of
        [p] \<Rightarrow> \<lparr>mt_status = LINE_MATCHED, mt_product_id = Some (p_id p), mt_candidates = []\<rparr>
      | [] \<Rightarrow> if wanted = [] then \<lparr>mt_status = LINE_UNMATCHED, mt_product_id = None, mt_candidates = []\<rparr>
              else by_similarity wanted ps
      | exact \<Rightarrow> \<lparr>mt_status = LINE_AMBIGUOUS, mt_product_id = None, mt_candidates = map p_id (take LINE_CANDIDATES exact)\<rparr>)"

definition match_line :: "string \<Rightarrow> string option \<Rightarrow> product list \<Rightarrow> MatchResult" where
  "match_line name sku ps =
     (let wanted = normalise_name name;
          wanted_sku = (if truthy sku then map_option (\<lambda>x. py_lower (py_strip x)) sku else None) in
      case (if truthy wanted_sku then find (has_code (the wanted_sku)) ps else None) of
        Some p \<Rightarrow> \<lparr>mt_status = LINE_MATCHED, mt_product_id = Some (p_id p), mt_candidates = []\<rparr>
      | None \<Rightarrow> by_name wanted ps)"

subsection \<open>What a proposal names\<close>

definition proposal_ok :: "product list \<Rightarrow> MatchResult \<Rightarrow> bool" where
  "proposal_ok ps r \<longleftrightarrow> (mt_status r = LINE_MATCHED \<longleftrightarrow> mt_product_id r \<noteq> None)
     \<and> opt_all (\<lambda>i. i \<in> p_id ` set ps) (mt_product_id r)
     \<and> set (mt_candidates r) \<subseteq> p_id ` set ps \<and> length (mt_candidates r) \<le> 3
     \<and> (mt_status r = LINE_UNMATCHED \<longrightarrow> mt_candidates r = []) \<and> (mt_status r = LINE_AMBIGUOUS \<longrightarrow> mt_candidates r \<noteq> [])"

lemma scored_mem: "(x, p) \<in> set (scored wanted ps) \<Longrightarrow> p \<in> set ps"
  by (auto simp: scored_def)

lemma by_similarity_ok: "proposal_ok ps (by_similarity wanted ps)"
proof -
  have mem: "set (near wanted ps) \<subseteq> set ps"
    using scored_mem by (fastforce simp: near_def dest!: in_set_takeD)
  have len: "length (near wanted ps) \<le> 3" by (simp add: near_def LINE_CANDIDATES_def)
  show ?thesis
  proof (cases "near wanted ps")
    case Nil
    then show ?thesis by (simp add: by_similarity_def Let_def proposal_ok_def)
  next
    case (Cons best rest)
    with mem len have "best \<in> set ps" "set rest \<subseteq> set ps" "length rest \<le> 2" by auto
    then show ?thesis by (auto simp: by_similarity_def Let_def Cons proposal_ok_def)
  qed
qed

lemma by_name_ok: "proposal_ok ps (by_name wanted ps)"
proof -
  let ?e = "filter (\<lambda>p. normalise_name (p_name p) = wanted) ps"
  have mem: "set ?e \<subseteq> set ps" by auto
  consider "?e = []" | p where "?e = [p]" | p q r where "?e = p # q # r" by (metis list.exhaust)
  then show ?thesis
  proof cases
    case 1
    then show ?thesis by (simp add: by_name_def by_similarity_ok) (simp add: proposal_ok_def)
  next
    case 2
    with mem show ?thesis by (simp add: by_name_def proposal_ok_def)
  next
    case (3 p q r)
    with mem have "set (take LINE_CANDIDATES (p # q # r)) \<subseteq> set ps" using set_take_subset by (metis order_trans)
    then have "set (map p_id (take LINE_CANDIDATES (p # q # r))) \<subseteq> p_id ` set ps" by auto
    then show ?thesis unfolding by_name_def 3 by (simp add: proposal_ok_def) (simp add: LINE_CANDIDATES_def)
  qed
qed

lemma match_line_ok: "proposal_ok ps (match_line name sku ps)"
  by (auto simp: match_line_def Let_def by_name_ok split: option.splits)
     (auto simp: proposal_ok_def dest: find_SomeD split: if_splits)

end
