(* ===== verification/Receipts.thy ===== *)
theory Receipts
  imports Receipt_Matching Analytics
begin

text \<open>
  Supplier receipts (\<open>services/receipts.py\<close>, \<open>repositories/receipts.py\<close>, \<open>schemas/receipts.py\<close>): uploading an
  image, reading it, reviewing the proposal, confirming it as restocks, cancelling.

  What is outside the repository is a parameter: \<open>open_image\<close> is the imaging library (\<open>None\<close> when it raises, else width,
  height, format and whether \<open>verify\<close> accepts the file), \<open>put\<close> and \<open>get\<close> are the outcomes of the blob storage, and
  \<open>extract\<close> is the reading provider, which returns a validated extraction or fails with a code.
  Bytes are characters.

  \<open>process\<close> runs three transactions with the slow work between them. Its stages \<open>process_begin\<close>, \<open>process_finish\<close> and
  \<open>process_fail\<close> are operations of their own, so that what another request does in between can be stated.
\<close>

subsection \<open>Requests, results and errors\<close>

record ExtractedLine =
  xl_product_name :: string
  xl_sku :: "string option"
  xl_quantity :: quantity
  xl_unit_cost :: money
  xl_line_total :: "money option"
  xl_confidence :: "int option"

record ReceiptExtraction =
  xr_supplier_name :: "string option"
  xr_receipt_number :: "string option"
  xr_receipt_date :: "int option"
  xr_currency :: "string option"
  xr_subtotal :: "money option"
  xr_total :: "money option"
  xr_lines :: "ExtractedLine list"

record ExtractionResult =
  xs_extraction :: ReceiptExtraction
  xs_provider :: string
  xs_model :: "string option"

record ConfirmLine =
  cf_line_id :: uuid
  cf_product_id :: uuid
  cf_quantity :: quantity
  cf_unit_cost :: money
  cf_update_cost_price :: bool

record ReceiptConfirmRequest =
  cq_lines :: "ConfirmLine list"
  cq_supplier_name :: "string option"
  cq_reason :: "string option"

definition MAX_CONFIRM_LINES :: nat where "MAX_CONFIRM_LINES = 60"

definition unique_lines :: "ReceiptConfirmRequest \<Rightarrow> bool" where
  "unique_lines d \<longleftrightarrow> distinct (map cf_line_id (cq_lines d))"

definition valid_confirm :: "ReceiptConfirmRequest \<Rightarrow> bool" where
  "valid_confirm d \<longleftrightarrow> 1 \<le> length (cq_lines d) \<and> length (cq_lines d) \<le> MAX_CONFIRM_LINES \<and> unique_lines d
     \<and> list_all (\<lambda>l. 0 < cf_quantity l \<and> 0 \<le> cf_unit_cost l) (cq_lines d)
     \<and> opt_all (\<lambda>t. length t \<le> 120) (cq_supplier_name d) \<and> opt_all (\<lambda>t. length t \<le> 255) (cq_reason d)"

record ReceiptSettings =
  receipt_max_bytes :: nat
  receipt_max_pixels :: nat
  receipt_min_side_px :: nat

record ValidatedImage =
  vi_mime_type :: string
  vi_extension :: string
  vi_width :: nat
  vi_height :: nat

definition InvalidReceiptImageError :: error where
  "InvalidReceiptImageError = UnprocessableError ''RECEIPT_IMAGE_INVALID''"
definition ReceiptTooLargeError :: error where "ReceiptTooLargeError = AppError 413 ''RECEIPT_TOO_LARGE''"
definition ReceiptAINotConfiguredError :: error where
  "ReceiptAINotConfiguredError = AppError 503 ''RECEIPT_AI_NOT_CONFIGURED''"
definition ReceiptStateError :: error where "ReceiptStateError = ConflictError ''RECEIPT_INVALID_STATE''"
definition ReceiptAlreadyConfirmedError :: error where
  "ReceiptAlreadyConfirmedError = ConflictError ''RECEIPT_ALREADY_CONFIRMED''"
definition ReceiptLineError :: error where "ReceiptLineError = UnprocessableError ''RECEIPT_LINE_INVALID''"
definition StorageUnavailableError :: error where "StorageUnavailableError = AppError 503 ''STORAGE_UNAVAILABLE''"
definition ReceiptExtractionError :: error where "ReceiptExtractionError = AppError 503 ''RECEIPT_EXTRACTION_FAILED''"

definition RECEIPT_ENTITY :: string where "RECEIPT_ENTITY = ''receipt''"

subsection \<open>Images\<close>

definition JPEG_MAGIC :: string where "JPEG_MAGIC = [CHR 0xFF, CHR 0xD8, CHR 0xFF]"
definition PNG_MAGIC :: string where
  "PNG_MAGIC = [CHR 0x89, CHR ''P'', CHR ''N'', CHR ''G'', CHR 0x0D, CHR 0x0A, CHR 0x1A, CHR 0x0A]"

definition sniff :: "string \<Rightarrow> (string \<times> string) option" where
  "sniff data =
     (if starts_with data JPEG_MAGIC then Some (''image/jpeg'', ''jpg'')
      else if starts_with data PNG_MAGIC then Some (''image/png'', ''png'')
      else if take 4 data = ''RIFF'' \<and> take 4 (drop 8 data) = ''WEBP'' then Some (''image/webp'', ''webp'')
      else None)"

definition validate_image ::
  "(string \<Rightarrow> (nat \<times> nat \<times> string option \<times> bool) option) \<Rightarrow> ReceiptSettings \<Rightarrow> string \<Rightarrow> ValidatedImage result" where
  "validate_image open_image cfg data =
     bindR (raise_if (length data > receipt_max_bytes cfg) ReceiptTooLargeError) (\<lambda>_.
     bindR (the_or InvalidReceiptImageError (sniff data)) (\<lambda>(mime, ext).
     bindR (the_or InvalidReceiptImageError (open_image data)) (\<lambda>(width, height, image_format, verifies).
     bindR (raise_if (width * height > receipt_max_pixels cfg) InvalidReceiptImageError) (\<lambda>_.
     bindR (raise_if (\<not> verifies) InvalidReceiptImageError) (\<lambda>_.
     bindR (raise_if (map_option py_upper image_format \<notin> {Some ''JPEG'', Some ''PNG'', Some ''WEBP''}) InvalidReceiptImageError) (\<lambda>_.
     bindR (raise_if (min width height < receipt_min_side_px cfg) InvalidReceiptImageError) (\<lambda>_.
     Inr \<lparr>vi_mime_type = mime, vi_extension = ext, vi_width = width, vi_height = height\<rparr>)))))))"

subsection \<open>Rows\<close>

definition repo_get_receipt :: "uuid \<Rightarrow> uuid \<Rightarrow> db \<Rightarrow> receipt option" where
  "repo_get_receipt bid rid s = find (\<lambda>r. r_business_id r = bid \<and> r_id r = rid) (receipts s)"

definition RECEIPT_LIST_LIMIT :: nat where "RECEIPT_LIST_LIMIT = 100"

definition repo_list_receipts :: "uuid \<Rightarrow> nat \<Rightarrow> db \<Rightarrow> receipt list" where
  "repo_list_receipts bid limit s = take (min limit RECEIPT_LIST_LIMIT)
     (sort_key (\<lambda>r. (- r_created_at r, r_id r)) (filter (\<lambda>r. r_business_id r = bid) (receipts s)))"

definition repo_list_lines :: "uuid \<Rightarrow> uuid \<Rightarrow> db \<Rightarrow> receipt_line list" where
  "repo_list_lines bid rid s =
     sort_key (\<lambda>l. (rl_position l, rl_id l)) (filter (\<lambda>l. rl_business_id l = bid \<and> rl_receipt_id l = rid) (receipt_lines s))"

definition count_lines :: "uuid \<Rightarrow> uuid list \<Rightarrow> db \<Rightarrow> (uuid \<times> nat) list" where
  "count_lines bid ids s = (if ids = [] then []
     else map (\<lambda>(i, rows). (i, length rows))
       (group_by rl_receipt_id (filter (\<lambda>l. rl_business_id l = bid \<and> rl_receipt_id l \<in> set ids) (receipt_lines s))))"

definition set_receipt :: "receipt \<Rightarrow> db \<Rightarrow> db" where
  "set_receipt r s = s\<lparr>receipts := update_where (\<lambda>x. r_id x = r_id r) (\<lambda>_. r) (receipts s)\<rparr>"

definition set_line :: "receipt_line \<Rightarrow> db \<Rightarrow> db" where
  "set_line l s = s\<lparr>receipt_lines := update_where (\<lambda>x. rl_id x = rl_id l) (\<lambda>_. l) (receipt_lines s)\<rparr>"

definition add_line :: "receipt_line \<Rightarrow> db \<Rightarrow> db result" where
  "add_line l s = bindR (flush_row (fits_quantity (rl_extracted_quantity l) \<and> fits_money (rl_extracted_unit_cost l)) (receipt_line_checks l))
     (\<lambda>_. Inr ((drawn s)\<lparr>receipt_lines := receipt_lines s @ [l\<lparr>rl_id := new_id s\<rparr>]\<rparr>))"

definition replace_lines :: "receipt \<Rightarrow> receipt_line list \<Rightarrow> db \<Rightarrow> db result" where
  "replace_lines r ls s = foldR add_line ls
     (s\<lparr>receipt_lines := filter (\<lambda>l. \<not> (rl_business_id l = r_business_id r \<and> rl_receipt_id l = r_id r)) (receipt_lines s)\<rparr>)"

definition receipt_of_ctx :: "BusinessContext \<Rightarrow> uuid \<Rightarrow> db \<Rightarrow> receipt result" where
  "receipt_of_ctx ctx rid s = the_or NotFoundError (repo_get_receipt (business_id ctx) rid s)"

definition get_receipt :: "BusinessContext \<Rightarrow> uuid \<Rightarrow> db \<Rightarrow> (receipt \<times> receipt_line list) result" where
  "get_receipt ctx rid s = bindR (receipt_of_ctx ctx rid s) (\<lambda>r. Inr (r, repo_list_lines (business_id ctx) (r_id r) s))"

definition list_receipts :: "BusinessContext \<Rightarrow> nat \<Rightarrow> db \<Rightarrow> receipt list \<times> (uuid \<times> nat) list" where
  "list_receipts ctx limit s = (let rs = repo_list_receipts (business_id ctx) limit s in
     (rs, count_lines (business_id ctx) (map r_id rs) s))"

definition get_image :: "(string \<Rightarrow> string option) \<Rightarrow> BusinessContext \<Rightarrow> uuid \<Rightarrow> db \<Rightarrow> (receipt \<times> string) result" where
  "get_image get ctx rid s = bindR (receipt_of_ctx ctx rid s) (\<lambda>r.
     bindR (the_or StorageUnavailableError (get (r_storage_key r))) (\<lambda>data. Inr (r, data)))"

subsection \<open>Upload\<close>

definition upload_body ::
  "(string \<Rightarrow> string \<Rightarrow> string \<Rightarrow> bool) \<Rightarrow> clock \<Rightarrow> BusinessContext \<Rightarrow> ValidatedImage \<Rightarrow> string \<Rightarrow> string option \<Rightarrow> ClientInfo option
    \<Rightarrow> db \<Rightarrow> (receipt \<times> db) result" where
  "upload_body put clk ctx picture data filename client s =
     (let rid = new_id s;
          key = ''receipts/'' @ uuid_text (business_id ctx) @ ''/'' @ uuid_text rid @ ''.'' @ vi_extension picture;
          receipt = \<lparr>r_id = rid, r_business_id = business_id ctx, r_created_by = user_id ctx, r_status = UPLOADED,
            r_original_filename = clipped 255 filename, r_mime_type = vi_mime_type picture, r_size_bytes = int (length data),
            r_storage_key = key, r_supplier_name = None, r_receipt_number = None, r_receipt_date = None, r_currency = None,
            r_extracted_subtotal = None, r_extracted_total = None, r_extraction_provider = None, r_extraction_model = None,
            r_extraction_error = None, r_warnings = None, r_extracted_at = None, r_confirmed_at = None, r_confirmed_by = None,
            r_created_at = tx_now clk\<rparr> in
      bindR (flush_row (r_size_bytes receipt < 2 ^ 31) (0 < r_size_bytes receipt)) (\<lambda>_.
      bindR (raise_if (\<not> put key data (vi_mime_type picture)) StorageUnavailableError) (\<lambda>_.
      Inr (receipt, audit_record ctx ''receipt.upload'' RECEIPT_ENTITY rid None
        (Some [(''mime_type'', JText (vi_mime_type picture)), (''size_bytes'', JInt (int (length data))),
               (''width'', JInt (int (vi_width picture))), (''height'', JInt (int (vi_height picture)))]) client
        ((drawn s)\<lparr>receipts := receipts s @ [receipt]\<rparr>)))))"

definition upload ::
  "(string \<Rightarrow> (nat \<times> nat \<times> string option \<times> bool) option) \<Rightarrow> (string \<Rightarrow> string \<Rightarrow> string \<Rightarrow> bool) \<Rightarrow> ReceiptSettings \<Rightarrow> clock
    \<Rightarrow> BusinessContext \<Rightarrow> string \<Rightarrow> string option \<Rightarrow> ClientInfo option \<Rightarrow> db \<Rightarrow> receipt result \<times> db" where
  "upload open_image put cfg clk ctx data filename client s =
     (case validate_image open_image cfg data of
        Inl e \<Rightarrow> (Inl e, s)
      | Inr picture \<Rightarrow> transaction (upload_body put clk ctx picture data filename client) s)"

subsection \<open>Warnings\<close>

definition ARITHMETIC_TOLERANCE_ABS :: money where "ARITHMETIC_TOLERANCE_ABS = 100"

text \<open>The larger of one shilling and one percent.\<close>

definition tolerance :: "money \<Rightarrow> money" where
  "tolerance printed = max ARITHMETIC_TOLERANCE_ABS (quantize_cent (cents printed * (1 / 100)))"

definition line_warnings :: "ExtractedLine \<Rightarrow> string list" where
  "line_warnings l =
     (case xl_line_total l of None \<Rightarrow> []
      | Some printed \<Rightarrow> if \<bar>quantize_cent (millis (xl_quantity l) * cents (xl_unit_cost l)) - printed\<bar> > tolerance printed
          then [''line_total_mismatch''] else [])
     @ (if xl_unit_cost l = 0 then [''zero_unit_cost''] else [])
     @ (case xl_confidence l of None \<Rightarrow> [] | Some c \<Rightarrow> if c < 600 then [''low_confidence''] else [])"

definition line_amount :: "ExtractedLine \<Rightarrow> rat" where
  "line_amount l = (case xl_line_total l of Some t \<Rightarrow> cents t | None \<Rightarrow> millis (xl_quantity l) * cents (xl_unit_cost l))"

definition total_warning :: "money \<Rightarrow> string \<Rightarrow> money option \<Rightarrow> string list" where
  "total_warning lines_sum label printed = (case printed of None \<Rightarrow> []
     | Some p \<Rightarrow> if \<bar>lines_sum - p\<bar> > tolerance p then [label] else [])"

definition receipt_warnings :: "ReceiptExtraction \<Rightarrow> string list" where
  "receipt_warnings x =
     (let lines_sum = quantize_cent (sum_list (map line_amount (xr_lines x))) in
      total_warning lines_sum ''subtotal_mismatch'' (xr_subtotal x)
      @ total_warning lines_sum ''total_mismatch'' (xr_total x)
      @ (if truthy (xr_currency x) \<and> map_option py_upper (xr_currency x) \<noteq> Some ''KES'' then [''currency_not_kes''] else []))"

definition or_none :: "'a list \<Rightarrow> 'a list option" where
  "or_none xs = (if xs = [] then None else Some xs)"

subsection \<open>Reading\<close>

definition process_begin :: "bool \<Rightarrow> BusinessContext \<Rightarrow> uuid \<Rightarrow> db \<Rightarrow> (receipt \<times> db) result" where
  "process_begin configured ctx rid s =
     bindR (receipt_of_ctx ctx rid s) (\<lambda>r.
     bindR (raise_if (r_status r \<notin> {UPLOADED, FAILED}) ReceiptStateError) (\<lambda>_.
     bindR (raise_if (\<not> configured) ReceiptAINotConfiguredError) (\<lambda>_.
     let r' = r\<lparr>r_status := PROCESSING, r_extraction_error := None\<rparr> in
     Inr (r', set_receipt r' s))))"

definition failed_with :: "string \<Rightarrow> string option \<Rightarrow> string option \<Rightarrow> receipt \<Rightarrow> receipt" where
  "failed_with code provider model r =
     (let r = r\<lparr>r_status := FAILED, r_extraction_error := Some (take 255 code)\<rparr> in
      if truthy provider then r\<lparr>r_extraction_provider := map_option (take 40) provider, r_extraction_model := clipped 60 model\<rparr> else r)"

definition process_fail ::
  "BusinessContext \<Rightarrow> uuid \<Rightarrow> string \<Rightarrow> string option \<Rightarrow> string option \<Rightarrow> ClientInfo option \<Rightarrow> db \<Rightarrow> (receipt \<times> db) result" where
  "process_fail ctx rid code provider model client s =
     bindR (receipt_of_ctx ctx rid s) (\<lambda>r.
     let r' = failed_with code provider model r in
     Inr (r', audit_record ctx ''receipt.extract'' RECEIPT_ENTITY (r_id r) None
       (Some [(''status'', JText ''FAILED''), (''error'', JText code)]) client (set_receipt r' s)))"

definition proposed_line :: "uuid \<Rightarrow> uuid \<Rightarrow> product list \<Rightarrow> nat \<times> ExtractedLine \<Rightarrow> receipt_line" where
  "proposed_line bid rid ps row = (case row of (position, l) \<Rightarrow>
     let m = match_line (xl_product_name l) (xl_sku l) ps in
     \<lparr>rl_id = 0, rl_business_id = bid, rl_receipt_id = rid, rl_position = position,
      rl_extracted_name = take 160 (xl_product_name l), rl_extracted_sku = clipped 64 (xl_sku l),
      rl_extracted_quantity = xl_quantity l, rl_extracted_unit_cost = xl_unit_cost l,
      rl_extracted_line_total = xl_line_total l, rl_confidence = xl_confidence l,
      rl_warnings = or_none (line_warnings l), rl_match_status = mt_status m, rl_matched_product_id = mt_product_id m,
      rl_candidate_product_ids = or_none (mt_candidates m), rl_review_status = REVIEW_PENDING,
      rl_final_product_id = None, rl_final_quantity = None, rl_final_unit_cost = None, rl_movement_id = None\<rparr>)"

definition proposed_lines :: "(string \<Rightarrow> int) \<Rightarrow> BusinessContext \<Rightarrow> uuid \<Rightarrow> ReceiptExtraction \<Rightarrow> db \<Rightarrow> receipt_line list" where
  "proposed_lines collate ctx rid x s =
     (let ps = repo_list_products collate (business_id ctx) None None False 500 s in
      map (proposed_line (business_id ctx) rid ps) (enumerate 0 (xr_lines x)))"

definition extracted :: "clock \<Rightarrow> ExtractionResult \<Rightarrow> receipt \<Rightarrow> receipt" where
  "extracted clk res r = (let x = xs_extraction res in
     r\<lparr>r_supplier_name := xr_supplier_name x, r_receipt_number := xr_receipt_number x, r_receipt_date := xr_receipt_date x,
       r_currency := (if truthy (xr_currency x) then map_option py_upper (xr_currency x) else None),
       r_extracted_subtotal := xr_subtotal x, r_extracted_total := xr_total x,
       r_extraction_provider := Some (take 40 (xs_provider res)), r_extraction_model := clipped 60 (xs_model res),
       r_warnings := or_none (receipt_warnings x), r_extracted_at := Some (now clk), r_status := READY_FOR_REVIEW\<rparr>)"

definition process_finish ::
  "clock \<Rightarrow> BusinessContext \<Rightarrow> uuid \<Rightarrow> ExtractionResult \<Rightarrow> receipt_line list \<Rightarrow> ClientInfo option \<Rightarrow> db \<Rightarrow> (receipt \<times> db) result" where
  "process_finish clk ctx rid res ls client s =
     bindR (receipt_of_ctx ctx rid s) (\<lambda>r.
     bindR (raise_if (r_status r \<noteq> PROCESSING) ReceiptStateError) (\<lambda>_.
     let r' = extracted clk res r in
     bindR (replace_lines r' ls (set_receipt r' s)) (\<lambda>s.
     Inr (r', audit_record ctx ''receipt.extract'' RECEIPT_ENTITY (r_id r) None
       (Some [(''status'', JText ''READY_FOR_REVIEW''), (''provider'', JText (xs_provider res)), (''model'', opt_json JText (xs_model res)),
              (''lines'', JInt (int (length ls))),
              (''matched'', JInt (int (length (filter (\<lambda>l. rl_match_status l = LINE_MATCHED) ls)))),
              (''warnings'', opt_json (JList \<circ> map JText) (r_warnings r'))]) client s))))"

text \<open>The whole request, when nothing else runs meanwhile.\<close>

definition process ::
  "(string \<Rightarrow> int) \<Rightarrow> (string \<Rightarrow> string option) \<Rightarrow> (string \<Rightarrow> string \<Rightarrow> string + ExtractionResult) option \<Rightarrow> clock \<Rightarrow> BusinessContext
    \<Rightarrow> uuid \<Rightarrow> ClientInfo option \<Rightarrow> db \<Rightarrow> (receipt \<times> receipt_line list) result \<times> db" where
  "process collate get provider clk ctx rid client s =
     (case transaction (process_begin (provider \<noteq> None) ctx rid) s of
        (Inl e, s) \<Rightarrow> (Inl e, s)
      | (Inr r, s) \<Rightarrow>
          let fail = (\<lambda>code prov model e. case transaction (process_fail ctx (r_id r) code prov model client) s of
                (Inl e', s) \<Rightarrow> (Inl e', s) | (Inr _, s) \<Rightarrow> (Inl e, s)) in
          (case get (r_storage_key r) of
             None \<Rightarrow> fail ''STORAGE_UNAVAILABLE'' None None StorageUnavailableError
           | Some picture \<Rightarrow>
               (case the provider picture (r_mime_type r) of
                  Inl code \<Rightarrow> fail code None None (AppError 503 code)
                | Inr res \<Rightarrow>
                    if xr_lines (xs_extraction res) = []
                    then fail ''NO_LINES'' (Some (xs_provider res)) (xs_model res) ReceiptExtractionError
                    else let ls = proposed_lines collate ctx (r_id r) (xs_extraction res) s in
                      (case transaction (process_finish clk ctx (r_id r) res ls client) s of
                         (Inl e, s) \<Rightarrow> (Inl e, s)
                       | (Inr r, s) \<Rightarrow> (Inr (r, repo_list_lines (business_id ctx) (r_id r) s), s)))))"

subsection \<open>Confirmation\<close>

definition or_else :: "string option \<Rightarrow> string option \<Rightarrow> string option" where
  "or_else x y = (if truthy x then x else y)"

definition confirm_restock :: "ReceiptConfirmRequest \<Rightarrow> receipt \<Rightarrow> ConfirmLine \<Rightarrow> RestockRequest" where
  "confirm_restock data r d =
     \<lparr>rq_product_id = cf_product_id d, rq_quantity = cf_quantity d, rq_unit_cost = cf_unit_cost d,
      rq_supplier_name = or_else (or_else (cq_supplier_name data) (r_supplier_name r)) None,
      rq_reason = or_else (cq_reason data)
        (Some (''Supplier receipt '' @ the (or_else (r_receipt_number r) (Some (take 8 (uuid_text (r_id r))))))),
      rq_update_cost_price = cf_update_cost_price d\<rparr>"

definition applied :: "ConfirmLine \<Rightarrow> movement \<Rightarrow> receipt_line \<Rightarrow> receipt_line" where
  "applied d m l = l\<lparr>rl_review_status := REVIEW_APPLIED, rl_final_product_id := Some (cf_product_id d),
     rl_final_quantity := Some (cf_quantity d), rl_final_unit_cost := Some (cf_unit_cost d), rl_movement_id := Some (m_id m)\<rparr>"

definition confirm_line ::
  "clock \<Rightarrow> BusinessContext \<Rightarrow> ReceiptConfirmRequest \<Rightarrow> receipt \<Rightarrow> ClientInfo option \<Rightarrow> receipt_line \<Rightarrow> db \<times> uuid list
    \<Rightarrow> (db \<times> uuid list) result" where
  "confirm_line clk ctx data r client l acc = (case acc of (s, moved) \<Rightarrow>
     (case find (\<lambda>d. cf_line_id d = rl_id l) (cq_lines data) of
        None \<Rightarrow> Inr (set_line (l\<lparr>rl_review_status := REVIEW_SKIPPED\<rparr>) s, moved)
      | Some d \<Rightarrow>
          bindR (restock_in_transaction clk ctx (confirm_restock data r d) client
                   [(''receipt_id'', JUuid (r_id r)), (''receipt_line_id'', JUuid (rl_id l))] s) (\<lambda>(m, s).
          Inr (set_line (applied d m l) s, moved @ [m_id m]))))"

definition confirmed_by_user :: "clock \<Rightarrow> BusinessContext \<Rightarrow> ReceiptConfirmRequest \<Rightarrow> receipt \<Rightarrow> receipt" where
  "confirmed_by_user clk ctx data r = (let r = r\<lparr>r_status := CONFIRMED, r_confirmed_at := Some (now clk), r_confirmed_by := Some (user_id ctx)\<rparr> in
     if truthy (cq_supplier_name data) then r\<lparr>r_supplier_name := cq_supplier_name data\<rparr> else r)"

definition confirm_body ::
  "clock \<Rightarrow> BusinessContext \<Rightarrow> uuid \<Rightarrow> ReceiptConfirmRequest \<Rightarrow> ClientInfo option \<Rightarrow> db \<Rightarrow> ((receipt \<times> nat) \<times> db) result" where
  "confirm_body clk ctx rid data client s =
     bindR (receipt_of_ctx ctx rid s) (\<lambda>r.
     bindR (raise_if (r_status r = CONFIRMED) ReceiptAlreadyConfirmedError) (\<lambda>_.
     bindR (raise_if (r_status r \<noteq> READY_FOR_REVIEW) ReceiptStateError) (\<lambda>_.
     let ls = repo_list_lines (business_id ctx) (r_id r) s in
     bindR (raise_if (\<not> cf_line_id ` set (cq_lines data) \<subseteq> rl_id ` set ls) ReceiptLineError) (\<lambda>_.
     bindR (foldR (confirm_line clk ctx data r client) ls (s, [])) (\<lambda>(s, moved).
     let r' = confirmed_by_user clk ctx data r in
     Inr ((r', length moved), audit_record ctx ''receipt.confirm'' RECEIPT_ENTITY (r_id r) None
       (Some [(''movements'', JInt (int (length moved))), (''skipped'', JInt (int (length ls) - int (length moved))),
              (''movement_ids'', JList (map JUuid moved))]) client (set_receipt r' s)))))))"

definition confirm_receipt ::
  "clock \<Rightarrow> BusinessContext \<Rightarrow> uuid \<Rightarrow> ReceiptConfirmRequest \<Rightarrow> ClientInfo option \<Rightarrow> db
    \<Rightarrow> (receipt \<times> receipt_line list \<times> nat) result \<times> db" where
  "confirm_receipt clk ctx rid data client s =
     (case check_restock_permission ctx of
        Inl e \<Rightarrow> (Inl e, s)
      | Inr _ \<Rightarrow>
          (case transaction (confirm_body clk ctx rid data client) s of
             (Inl e, s) \<Rightarrow> (Inl e, s)
           | (Inr (r, moved), s) \<Rightarrow> (Inr (r, repo_list_lines (business_id ctx) (r_id r) s, moved), s)))"

definition receipt_status_text :: "ReceiptStatus \<Rightarrow> string" where
  "receipt_status_text st = (case st of UPLOADED \<Rightarrow> ''UPLOADED'' | PROCESSING \<Rightarrow> ''PROCESSING''
     | READY_FOR_REVIEW \<Rightarrow> ''READY_FOR_REVIEW'' | CONFIRMED \<Rightarrow> ''CONFIRMED'' | FAILED \<Rightarrow> ''FAILED'' | CANCELLED \<Rightarrow> ''CANCELLED'')"

definition cancel_body :: "BusinessContext \<Rightarrow> uuid \<Rightarrow> ClientInfo option \<Rightarrow> db \<Rightarrow> (receipt \<times> db) result" where
  "cancel_body ctx rid client s =
     bindR (receipt_of_ctx ctx rid s) (\<lambda>r.
     bindR (raise_if (r_status r = CONFIRMED) ReceiptAlreadyConfirmedError) (\<lambda>_.
     if r_status r = CANCELLED then Inr (r, s)
     else let r' = r\<lparr>r_status := CANCELLED\<rparr> in
       Inr (r', audit_record ctx ''receipt.cancel'' RECEIPT_ENTITY (r_id r)
         (Some [(''status'', JText (receipt_status_text (r_status r)))]) (Some [(''status'', JText ''CANCELLED'')]) client
         (set_receipt r' s))))"

definition cancel_receipt :: "BusinessContext \<Rightarrow> uuid \<Rightarrow> ClientInfo option \<Rightarrow> db \<Rightarrow> receipt result \<times> db" where
  "cancel_receipt ctx rid client = transaction (cancel_body ctx rid client)"

definition products_for_lines :: "receipt_line list \<Rightarrow> uuid set" where
  "products_for_lines ls = (\<Union>l \<in> set ls. set_option (rl_matched_product_id l)
     \<union> (case rl_candidate_product_ids l of None \<Rightarrow> {} | Some cs \<Rightarrow> set cs))"

subsection \<open>Confirming: the movements and the stock\<close>

lemma set_line_simps [simp]:
  "products (set_line l s) = products s" "movements (set_line l s) = movements s" "receipts (set_line l s) = receipts s"
  "stock_of (set_line l s) k = stock_of s k" "stock_ok (set_line l s) \<longleftrightarrow> stock_ok s"
  "map rl_id (receipt_lines (set_line l s)) = map rl_id (receipt_lines s)"
proof -
  show "stock_ok (set_line l s) \<longleftrightarrow> stock_ok s"
    by (rule stock_ok_writes [of "{T_receipt_lines}"]) (simp_all add: writes_def set_line_def)
  show "map rl_id (receipt_lines (set_line l s)) = map rl_id (receipt_lines s)"
    by (simp add: set_line_def map_update_where)
qed (simp_all add: set_line_def stock_of_def Inventory.product_row_def)

lemma restock_effect:
  assumes "restock_in_transaction clk ctx q client extra s = Inr (m, s')"
  shows "stock_of s' k = stock_of s k + (if k = rq_product_id q then rq_quantity q else 0)"
    and "movements s' = movements s @ [m]" and "m_movement_type m = RESTOCK" and "m_quantity_delta m = rq_quantity q"
    and "m_product_id m = rq_product_id q" and "m_unit_cost m = Some (rq_unit_cost q)"
proof -
  from assms obtain p :: product and t after where am: "apply_movement clk ctx (rq_product_id q) RESTOCK (rq_quantity q) (Some (rq_unit_cost q))
       (rq_reason q) (rq_supplier_name q) None None s = Inr (m, t)"
    and s': "s' = audit_record ctx ''inventory.restock'' ENTITY_TYPE (rq_product_id q) None (Some after) client
       (if rq_update_cost_price q \<and> p_cost_price p \<noteq> Some (rq_unit_cost q)
        then set_cost_price (rq_product_id q) (Some (rq_unit_cost q)) t else t)"
    by (rule restock_in_transaction_success)
  have cost: "stock_of (set_cost_price i c t) k = stock_of t k" for i c
    by (simp add: stock_of_def split: option.splits)
  have audit: "stock_of (audit_record ctx a e i b f c u) k = stock_of u k" for a e i b f c u
    by (simp add: stock_of_def Inventory.product_row_def)
  have "stock_of s' k = stock_of t k" by (simp add: s' cost audit)
  with stock_of_move(1) [OF am, of k] show "stock_of s' k = stock_of s k + (if k = rq_product_id q then rq_quantity q else 0)" by simp
  show "movements s' = movements s @ [m]" "m_movement_type m = RESTOCK" "m_quantity_delta m = rq_quantity q"
    "m_product_id m = rq_product_id q" "m_unit_cost m = Some (rq_unit_cost q)"
    using am by (auto simp: s' apply_movement_success)
qed

text \<open>The decision on a line, and what a movement made for it must be.\<close>

definition decision :: "ReceiptConfirmRequest \<Rightarrow> receipt_line \<Rightarrow> ConfirmLine option" where
  "decision data l = find (\<lambda>d. cf_line_id d = rl_id l) (cq_lines data)"

definition restocks :: "ConfirmLine \<Rightarrow> movement \<Rightarrow> bool" where
  "restocks d m \<longleftrightarrow> m_movement_type m = RESTOCK \<and> m_product_id m = cf_product_id d \<and> m_quantity_delta m = cf_quantity d
     \<and> m_unit_cost m = Some (cf_unit_cost d)"

lemma confirm_lines_effect:
  assumes "foldR (confirm_line clk ctx data r client) ls (s, moved) = Inr (s', moved')"
  shows "\<exists>ms. movements s' = movements s @ ms \<and> list_all2 restocks (List.map_filter (decision data) ls) ms
    \<and> moved' = moved @ map m_id ms
    \<and> (\<forall>k. stock_of s' k = stock_of s k
         + total_where cf_quantity (\<lambda>d. cf_product_id d = k) (List.map_filter (decision data) ls))"
  using assms
proof (induction ls arbitrary: s moved)
  case Nil
  then show ?case by (simp add: map_filter_simps)
next
  case (Cons l ls)
  then obtain t mv where one: "confirm_line clk ctx data r client l (s, moved) = Inr (t, mv)"
    and rest: "foldR (confirm_line clk ctx data r client) ls (t, mv) = Inr (s', moved')"
    by (auto simp: result_simps)
  from Cons.IH [OF rest] obtain ms where ms: "movements s' = movements t @ ms" "list_all2 restocks (List.map_filter (decision data) ls) ms"
      "moved' = mv @ map m_id ms"
      "\<forall>k. stock_of s' k = stock_of t k + total_where cf_quantity (\<lambda>d. cf_product_id d = k) (List.map_filter (decision data) ls)"
    by blast
  show ?case
  proof (cases "decision data l")
    case None
    with one have "t = set_line (l\<lparr>rl_review_status := REVIEW_SKIPPED\<rparr>) s" "mv = moved"
      by (simp_all add: confirm_line_def decision_def)
    with ms None show ?thesis by (intro exI [of _ ms]) (simp add: map_filter_simps)
  next
    case (Some d)
    with one obtain m u where m: "restock_in_transaction clk ctx (confirm_restock data r d) client
        [(''receipt_id'', JUuid (r_id r)), (''receipt_line_id'', JUuid (rl_id l))] s = Inr (m, u)"
      and t: "t = set_line (applied d m l) u" "mv = moved @ [m_id m]"
      by (auto simp: confirm_line_def decision_def result_simps)
    note e = restock_effect [OF m]
    have "restocks d m" using e by (simp add: restocks_def confirm_restock_def)
    with ms e t Some show ?thesis
      by (intro exI [of _ "m # ms"]) (simp add: map_filter_simps confirm_restock_def)
  qed
qed

text \<open>Every decision belongs to exactly one line.\<close>

lemma decisions_mset:
  assumes "distinct (map rl_id ls)" and "unique_lines data" and "cf_line_id ` set (cq_lines data) \<subseteq> rl_id ` set ls"
  shows "mset (List.map_filter (decision data) ls) = mset (cq_lines data)"
proof -
  have "distinct (List.map_filter (decision data) ls)"
    using assms(1)
  proof (induction ls)
    case (Cons l ls)
    have "d \<notin> set (List.map_filter (decision data) ls)" if "decision data l = Some d" for d
    proof
      assume "d \<in> set (List.map_filter (decision data) ls)"
      then obtain l' where "l' \<in> set ls" "decision data l' = Some d" by (auto simp: map_filter_def)
      with that have "rl_id l' = rl_id l" by (auto simp: decision_def dest!: find_SomeD)
      with \<open>l' \<in> set ls\<close> Cons.prems show False by (metis distinct.simps(2) image_eqI list.set_map list.simps(9))
    qed
    with Cons show ?case by (auto simp: map_filter_simps split: option.splits)
  qed (simp add: map_filter_simps)
  moreover have "distinct (cq_lines data)" using assms(2) by (simp add: unique_lines_def distinct_map)
  moreover have "set (List.map_filter (decision data) ls) = set (cq_lines data)"
  proof
    show "set (List.map_filter (decision data) ls) \<subseteq> set (cq_lines data)"
      by (auto simp: map_filter_def decision_def dest: find_SomeD)
    show "set (cq_lines data) \<subseteq> set (List.map_filter (decision data) ls)"
    proof
      fix d
      assume d: "d \<in> set (cq_lines data)"
      then obtain l where l: "l \<in> set ls" "rl_id l = cf_line_id d" using assms(3) by fastforce
      have "decision data l = Some d"
        using d l(2) assms(2) unfolding decision_def unique_lines_def by (intro find_unique [where k = cf_line_id]) auto
      with l(1) show "d \<in> set (List.map_filter (decision data) ls)" by (force simp: map_filter_def)
    qed
  qed
  ultimately show ?thesis by (simp add: set_eq_iff_mset_eq_distinct)
qed

lemma total_where_mset: "mset xs = mset ys \<Longrightarrow> total_where v P xs = total_where v P ys"
  unfolding total_where_def by (metis mset_filter mset_map sum_mset_sum_list)

definition receipts_ok :: "db \<Rightarrow> bool" where
  "receipts_ok s \<longleftrightarrow> distinct (map r_id (receipts s)) \<and> distinct (map rl_id (receipt_lines s))"

lemma receipts_ok_writes: "writes T s s' \<Longrightarrow> T_receipts \<notin> T \<Longrightarrow> T_receipt_lines \<notin> T \<Longrightarrow> receipts_ok s' \<longleftrightarrow> receipts_ok s"
  by (simp add: receipts_ok_def writes_def)

lemma repo_get_receipt_SomeD:
  assumes "repo_get_receipt bid rid s = Some r"
  shows "r \<in> set (receipts s)" "r_id r = rid" "r_business_id r = bid"
  using find_SomeD [OF assms [unfolded repo_get_receipt_def]] by auto

lemma receipt_of_ctx_success [result_simps]:
  "receipt_of_ctx ctx rid s = Inr r \<longleftrightarrow> repo_get_receipt (business_id ctx) rid s = Some r"
  by (simp add: receipt_of_ctx_def)

lemma find_set_receipt:
  assumes "repo_get_receipt bid rid s = Some r" and "distinct (map r_id (receipts s))" and "r_id r' = rid" and "r_business_id r' = bid"
  shows "repo_get_receipt bid rid (set_receipt r' s) = Some r'"
  unfolding repo_get_receipt_def set_receipt_def
  using assms repo_get_receipt_SomeD [OF assms(1)]
  by (simp add: repo_get_receipt_def) (rule find_update_key, assumption, simp_all)

lemma confirm_body_success:
  assumes "confirm_body clk ctx rid data client s = Inr (out, s')"
  obtains r s1 moved f where "repo_get_receipt (business_id ctx) rid s = Some r" "r_status r = READY_FOR_REVIEW"
    "cf_line_id ` set (cq_lines data) \<subseteq> rl_id ` set (repo_list_lines (business_id ctx) rid s)"
    "foldR (confirm_line clk ctx data r client) (repo_list_lines (business_id ctx) rid s) (s, []) = Inr (s1, moved)"
    "out = (confirmed_by_user clk ctx data r, length moved)"
    "s' = audit_record ctx ''receipt.confirm'' RECEIPT_ENTITY rid None f client (set_receipt (confirmed_by_user clk ctx data r) s1)"
proof -
  from assms obtain r where r: "repo_get_receipt (business_id ctx) rid s = Some r"
    by (auto simp: confirm_body_def result_simps)
  then have id: "r_id r = rid" by (rule repo_get_receipt_SomeD)
  let ?ls = "repo_list_lines (business_id ctx) rid s"
  from assms r id obtain t where t: "r_status r = READY_FOR_REVIEW" "cf_line_id ` set (cq_lines data) \<subseteq> rl_id ` set ?ls"
      "foldR (confirm_line clk ctx data r client) ?ls (s, []) = Inr t"
    by (auto simp: confirm_body_def result_simps Let_def)
  obtain s1 moved where "t = (s1, moved)" by (cases t)
  with t assms r id show thesis by (intro that [OF r t(1,2)]) (auto simp: confirm_body_def result_simps Let_def receipt_of_ctx_def)
qed

lemma confirm_lines_writes:
  assumes "foldR (confirm_line clk ctx data r client) ls (s, moved) = Inr (s', moved')"
  shows "writes {T_products, T_movements, T_receipt_lines, T_audit_logs} s s'"
proof (rule writes_foldR_acc [OF assms])
  fix l t mv t' mv'
  assume one: "confirm_line clk ctx data r client l (t, mv) = Inr (t', mv')"
  have l: "writes {T_products, T_movements, T_receipt_lines, T_audit_logs} u (set_line x u)" for x u
    by (simp add: writes_def set_line_def)
  show "writes {T_products, T_movements, T_receipt_lines, T_audit_logs} t t'"
  proof (cases "decision data l")
    case None
    with one l show ?thesis by (auto simp: confirm_line_def decision_def)
  next
    case (Some d)
    with one obtain m u where m: "restock_in_transaction clk ctx (confirm_restock data r d) client
        [(''receipt_id'', JUuid (r_id r)), (''receipt_line_id'', JUuid (rl_id l))] t = Inr (m, u)"
      and t': "t' = set_line (applied d m l) u"
      by (auto simp: confirm_line_def decision_def result_simps)
    have "writes {T_products, T_movements, T_receipt_lines, T_audit_logs} t u"
      by (rule writes_mono [OF restock_in_transaction_writes [OF m]]) auto
    with l t' show ?thesis by (blast intro: writes_trans)
  qed
qed

lemma confirmed_by_user_simps [simp]:
  "r_id (confirmed_by_user clk ctx data r) = r_id r" "r_business_id (confirmed_by_user clk ctx data r) = r_business_id r"
  "r_status (confirmed_by_user clk ctx data r) = CONFIRMED"
  by (simp_all add: confirmed_by_user_def Let_def)

lemma repo_get_receipt_frame: "receipts s' = receipts s \<Longrightarrow> repo_get_receipt b i s' = repo_get_receipt b i s"
  by (simp add: repo_get_receipt_def)

lemma confirm_receipt_cases:
  assumes "confirm_receipt clk ctx rid data client s = (out, s')"
  obtains (failed) e where "out = Inl e" "s' = s"
    | (succeeded) r n where "check_restock_permission ctx = Inr ()" "confirm_body clk ctx rid data client s = Inr ((r, n), s')"
        "out = Inr (r, repo_list_lines (business_id ctx) (r_id r) s', n)"
  using assms
  by (cases "check_restock_permission ctx"; cases "confirm_body clk ctx rid data client s")
     (auto simp: confirm_receipt_def transaction_def split: prod.splits)

text \<open>
  C22: Confirming a receipt applies the owner's decisions, all of them or none. When it fails nothing changes. When it
  succeeds, exactly one RESTOCK movement is recorded for each confirmed line, the stock of every product rises by exactly
  the confirmed quantities for it, and the receipt is CONFIRMED. Confirming it again, with any lines, is refused with
  RECEIPT_ALREADY_CONFIRMED and changes nothing: a receipt is never applied twice.
\<close>
theorem confirm_receipt_outcome:
  assumes "receipts_ok s" and "unique_lines data" and "confirm_receipt clk ctx rid data client s = (out, s')"
  shows "case out of Inl e \<Rightarrow> s' = s
    | Inr (r, ls, n) \<Rightarrow> n = length (cq_lines data) \<and> r_status r = CONFIRMED \<and> repo_get_receipt (business_id ctx) rid s' = Some r
        \<and> (\<exists>ms ds. movements s' = movements s @ ms \<and> mset ds = mset (cq_lines data) \<and> list_all2 restocks ds ms)
        \<and> (\<forall>k. stock_of s' k = stock_of s k + total_where cf_quantity (\<lambda>d. cf_product_id d = k) (cq_lines data))
        \<and> (\<forall>clk' data' client'. confirm_receipt clk' ctx rid data' client' s' = (Inl ReceiptAlreadyConfirmedError, s'))"
  using assms(3)
proof (cases rule: confirm_receipt_cases)
  case (failed e)
  then show ?thesis by simp
next
  case (succeeded rc n)
  let ?ls = "repo_list_lines (business_id ctx) rid s"
  from succeeded(2) obtain r s1 moved f where r: "repo_get_receipt (business_id ctx) rid s = Some r" "r_status r = READY_FOR_REVIEW"
    and sub: "cf_line_id ` set (cq_lines data) \<subseteq> rl_id ` set ?ls"
    and fold: "foldR (confirm_line clk ctx data r client) ?ls (s, []) = Inr (s1, moved)"
    and out: "rc = confirmed_by_user clk ctx data r" "n = length moved"
    and s': "s' = audit_record ctx ''receipt.confirm'' RECEIPT_ENTITY rid None f client (set_receipt (confirmed_by_user clk ctx data r) s1)"
    by (auto elim!: confirm_body_success)
  have dist: "distinct (map rl_id ?ls)"
    using assms(1) by (simp add: repo_list_lines_def receipts_ok_def distinct_map inj_on_def)
  note ds = decisions_mset [OF dist assms(2) sub]
  from confirm_lines_effect [OF fold] obtain ms where ms: "movements s1 = movements s @ ms"
      "list_all2 restocks (List.map_filter (decision data) ?ls) ms" "moved = map m_id ms"
      "\<forall>k. stock_of s1 k = stock_of s k + total_where cf_quantity (\<lambda>d. cf_product_id d = k) (List.map_filter (decision data) ?ls)"
    by auto
  have len: "length ms = length (cq_lines data)"
    using list_all2_lengthD [OF ms(2)] arg_cong [OF ds, of size] by simp
  have rows: "receipts s1 = receipts s" using confirm_lines_writes [OF fold] by (simp add: writes_def)
  have get: "repo_get_receipt (business_id ctx) rid s' = Some rc"
  proof -
    have "repo_get_receipt (business_id ctx) rid s1 = Some r" using r(1) repo_get_receipt_frame [OF rows] by simp
    then have "repo_get_receipt (business_id ctx) rid (set_receipt rc s1) = Some rc"
      using repo_get_receipt_SomeD [OF r(1)] assms(1) by (intro find_set_receipt) (simp_all add: receipts_ok_def rows out(1))
    then show ?thesis by (simp add: s' out(1) repo_get_receipt_def)
  qed
  have stock: "stock_of s' k = stock_of s1 k" "movements s' = movements s1" for k
    by (simp_all add: s' set_receipt_def stock_of_def Inventory.product_row_def)
  have again: "confirm_receipt clk' ctx rid data' client' s' = (Inl ReceiptAlreadyConfirmedError, s')" for clk' data' client'
    using succeeded(1) get out(1) by (simp add: confirm_receipt_def confirm_body_def receipt_of_ctx_def transaction_def)
  have moved: "\<exists>ms ds. movements s' = movements s @ ms \<and> mset ds = mset (cq_lines data) \<and> list_all2 restocks ds ms"
    by (intro exI conjI) (use ms(1) stock(2) in simp, rule ds, rule ms(2))
  have total: "stock_of s' k = stock_of s k + total_where cf_quantity (\<lambda>d. cf_product_id d = k) (cq_lines data)" for k
    unfolding stock(1) total_where_mset [OF ds, symmetric] using ms(4) by blast
  have "n = length (cq_lines data)" using len ms(3) out(2) by simp
  then show ?thesis using succeeded(3) get moved total again by (simp add: out(1))
qed

definition demo_receipt :: "ReceiptStatus \<Rightarrow> receipt" where
  "demo_receipt st = \<lparr>r_id = 130, r_business_id = 900, r_created_by = 901, r_status = st, r_original_filename = None,
     r_mime_type = ''image/png'', r_size_bytes = 5000, r_storage_key = ''k'', r_supplier_name = Some ''Wholesale'',
     r_receipt_number = Some ''77'', r_receipt_date = None, r_currency = None, r_extracted_subtotal = None,
     r_extracted_total = None, r_extraction_provider = None, r_extraction_model = None, r_extraction_error = None,
     r_warnings = None, r_extracted_at = None, r_confirmed_at = None, r_confirmed_by = None, r_created_at = 5\<rparr>"

definition demo_line :: "uuid \<Rightarrow> nat \<Rightarrow> string \<Rightarrow> receipt_line" where
  "demo_line i n name = \<lparr>rl_id = i, rl_business_id = 900, rl_receipt_id = 130, rl_position = n, rl_extracted_name = name,
     rl_extracted_sku = None, rl_extracted_quantity = 2000, rl_extracted_unit_cost = 9000, rl_extracted_line_total = None,
     rl_confidence = None, rl_warnings = None, rl_match_status = LINE_UNMATCHED, rl_matched_product_id = None,
     rl_candidate_product_ids = None, rl_review_status = REVIEW_PENDING, rl_final_product_id = None, rl_final_quantity = None,
     rl_final_unit_cost = None, rl_movement_id = None\<rparr>"

definition demo_delivery :: "ReceiptStatus \<Rightarrow> db" where
  "demo_delivery st = (empty_db id)\<lparr>products := [demo_product 101 ''Sugar 1kg'' 15000 0], receipts := [demo_receipt st],
     receipt_lines := [demo_line 131 0 ''Sugar'', demo_line 132 1 ''Bag''], draws := 200\<rparr>"

definition demo_confirm :: ReceiptConfirmRequest where
  "demo_confirm = \<lparr>cq_lines = [\<lparr>cf_line_id = 131, cf_product_id = 101, cf_quantity = 2000, cf_unit_cost = 9000,
     cf_update_cost_price = False\<rparr>], cq_supplier_name = None, cq_reason = None\<rparr>"

lemma fresh_demo_delivery: "fresh_ok (demo_delivery st)"
  by (auto simp: fresh_ok_def known_ids_def message_ids_def demo_delivery_def empty_db_def demo_product_def demo_receipt_def
      demo_line_def)

theorem confirm_receipt_outcome_witness:
  "\<exists>r ls s'. confirm_receipt demo_clock demo_owner 130 demo_confirm None (demo_delivery READY_FOR_REVIEW) = (Inr (r, ls, 1), s')
     \<and> stock_of s' 101 = 2000 \<and> length (movements s') = 1
     \<and> confirm_receipt demo_clock demo_owner 130 demo_confirm None s' = (Inl ReceiptAlreadyConfirmedError, s')"
proof -
  let ?s = "demo_delivery READY_FOR_REVIEW"
  have ok: "receipts_ok ?s" "unique_lines demo_confirm" by code_simp+
  have "\<not> isl (fst (confirm_receipt demo_clock demo_owner 130 demo_confirm None ?s))" by code_simp
  then obtain r ls n s' where run: "confirm_receipt demo_clock demo_owner 130 demo_confirm None ?s = (Inr (r, ls, n), s')"
    by (metis isl_def old.sum.exhaust prod.collapse)
  note out = confirm_receipt_outcome [OF ok run]
  have old: "movements ?s = []" "stock_of ?s 101 = 0" by code_simp+
  have "n = 1" "stock_of s' 101 = 2000" using out old by (simp_all add: demo_confirm_def)
  moreover have "length (movements s') = 1"
    using out old(1) by (auto simp: demo_confirm_def dest: list_all2_lengthD)
  moreover have "confirm_receipt demo_clock demo_owner 130 demo_confirm None s' = (Inl ReceiptAlreadyConfirmedError, s')"
    using out by simp
  ultimately show ?thesis using run by blast
qed

subsection \<open>The life of a receipt\<close>

text \<open>
  The abstract machine: the status, and whether a reading of the image is in flight. A reading that was cancelled
  meanwhile can still give up, and then the receipt is FAILED and may be read again; a reading can be lost (its last
  transaction fails, or the process dies), and then the receipt stays in PROCESSING until it is cancelled.
\<close>

inductive life :: "ReceiptStatus \<times> bool \<Rightarrow> ReceiptStatus \<times> bool \<Rightarrow> bool" where
  start: "st \<in> {UPLOADED, FAILED} \<Longrightarrow> life (st, False) (PROCESSING, True)"
| read: "life (PROCESSING, True) (READY_FOR_REVIEW, False)"
| give_up: "st \<in> {PROCESSING, CANCELLED} \<Longrightarrow> life (st, True) (FAILED, False)"
| lost: "st \<in> {PROCESSING, CANCELLED} \<Longrightarrow> life (st, True) (st, False)"
| approve: "life (READY_FOR_REVIEW, False) (CONFIRMED, False)"
| cancel: "st \<noteq> CONFIRMED \<Longrightarrow> life (st, b) (CANCELLED, b)"

inductive_cases lifeE: "life (st, b) (st', b')"

text \<open>The operations on receipts, interleaved in any way; \<open>J\<close> are the receipts with a reading in flight.\<close>

inductive receipt_run :: "db \<times> uuid set \<Rightarrow> db \<times> uuid set \<Rightarrow> bool" where
  upload: "receipt_run (s, J) (snd (upload open_image put cfg clk ctx data filename client s), J)"
| start: "transaction (process_begin configured ctx rid) s = (Inr r, s') \<Longrightarrow> receipt_run (s, J) (s', insert rid J)"
| finish: "rid \<in> J \<Longrightarrow> receipt_run (s, J)
    (snd (transaction (process_finish clk ctx rid res (proposed_lines collate ctx rid (xs_extraction res) t) client) s), J - {rid})"
| fail: "rid \<in> J \<Longrightarrow> receipt_run (s, J) (snd (transaction (process_fail ctx rid code prov model client) s), J - {rid})"
| confirm: "receipt_run (s, J) (snd (confirm_receipt clk ctx rid cq client s), J)"
| cancel: "receipt_run (s, J) (snd (cancel_receipt ctx rid client s), J)"

definition status_of :: "db \<Rightarrow> uuid \<Rightarrow> ReceiptStatus option" where
  "status_of s = map_of (map (\<lambda>r. (r_id r, r_status r)) (receipts s))"

definition reading_ok :: "db \<times> uuid set \<Rightarrow> bool" where
  "reading_ok c \<longleftrightarrow> distinct (map r_id (receipts (fst c))) \<and> fresh_ok (fst c)
     \<and> (\<forall>i \<in> snd c. status_of (fst c) i \<in> {Some PROCESSING, Some CANCELLED})"

lemma status_of_get:
  assumes "repo_get_receipt bid rid s = Some r" and "distinct (map r_id (receipts s))"
  shows "status_of s rid = Some (r_status r)"
  using repo_get_receipt_SomeD [OF assms(1)] assms(2) by (auto simp: status_of_def o_def)

lemma status_of_set:
  assumes "repo_get_receipt bid rid s = Some r" and "distinct (map r_id (receipts s))" and "r_id r' = rid"
  shows "status_of (set_receipt r' s) = (status_of s)(rid \<mapsto> r_status r')"
    and "map r_id (receipts (set_receipt r' s)) = map r_id (receipts s)"
proof -
  have upd: "map_of (map (\<lambda>r. (r_id r, r_status r)) (update_where (\<lambda>x. r_id x = rid) (\<lambda>_. r') rs))
      = (map_of (map (\<lambda>r. (r_id r, r_status r)) rs))(rid \<mapsto> r_status r')" if "rid \<in> r_id ` set rs" "distinct (map r_id rs)" for rs
    using that
  proof (induction rs)
    case (Cons x rs)
    show ?case
    proof (cases "r_id x = rid")
      case True
      then have "update_where (\<lambda>x. r_id x = rid) (\<lambda>_. r') rs = rs"
        using Cons.prems(2) by (intro update_where_none) (simp, metis imageI)
      with True assms(3) show ?thesis by auto
    next
      case False
      with Cons show ?thesis by auto
    qed
  qed simp
  show "status_of (set_receipt r' s) = (status_of s)(rid \<mapsto> r_status r')"
    using upd repo_get_receipt_SomeD [OF assms(1)] assms(2,3) by (force simp: status_of_def set_receipt_def)
  show "map r_id (receipts (set_receipt r' s)) = map r_id (receipts s)"
    using assms(3) by (simp add: set_receipt_def) (rule map_update_where, simp)
qed

lemma known_ids_set_receipt:
  assumes "repo_get_receipt bid rid s = Some r" and "r_id r' = rid"
  shows "known_ids (set_receipt r' s) = known_ids s"
proof -
  have "r_id ` set (receipts (set_receipt r' s)) = r_id ` set (receipts s)"
    using assms(2) by (simp add: set_receipt_def) (rule image_update_where, simp)
  then show ?thesis by (simp add: known_ids_def set_receipt_def)
qed

text \<open>What each operation does to the statuses.\<close>

definition moves_status :: "db \<Rightarrow> db \<Rightarrow> uuid \<Rightarrow> ReceiptStatus \<Rightarrow> ReceiptStatus \<Rightarrow> bool" where
  "moves_status s s' rid st st' \<longleftrightarrow> status_of s rid = Some st \<and> status_of s' = (status_of s)(rid \<mapsto> st')
     \<and> map r_id (receipts s') = map r_id (receipts s)"

lemma set_receipt_moves:
  assumes "repo_get_receipt bid rid s = Some r" and "distinct (map r_id (receipts s))" and "r_id r' = rid"
    and "receipts s' = receipts (set_receipt r' s)"
  shows "moves_status s s' rid (r_status r) (r_status r')"
proof -
  have "status_of s' = status_of (set_receipt r' s)" using assms(4) by (simp add: status_of_def)
  then show ?thesis
    using status_of_get [OF assms(1,2)] status_of_set [OF assms(1-3)] assms(4) by (simp add: moves_status_def)
qed

lemma replace_lines_receipts:
  assumes "replace_lines r ls s = Inr s'"
  shows "receipts s' = receipts s"
proof -
  have "receipts s' = receipts (s\<lparr>receipt_lines := filter (\<lambda>l. \<not> (rl_business_id l = r_business_id r \<and> rl_receipt_id l = r_id r)) (receipt_lines s)\<rparr>)"
    by (rule foldR_frame [OF assms [unfolded replace_lines_def]]) (auto simp: add_line_def result_simps)
  then show ?thesis by simp
qed

lemma process_begin_moves:
  assumes "process_begin configured ctx rid s = Inr (r, s')" and "distinct (map r_id (receipts s))"
  shows "\<exists>st \<in> {UPLOADED, FAILED}. moves_status s s' rid st PROCESSING"
proof -
  from assms(1) obtain x where x: "repo_get_receipt (business_id ctx) rid s = Some x" "r_status x \<in> {UPLOADED, FAILED}"
    and s': "s' = set_receipt (x\<lparr>r_status := PROCESSING, r_extraction_error := None\<rparr>) s"
    by (auto simp: process_begin_def result_simps Let_def)
  have "moves_status s s' rid (r_status x) (r_status (x\<lparr>r_status := PROCESSING, r_extraction_error := None\<rparr>))"
    by (rule set_receipt_moves [OF x(1) assms(2)]) (use repo_get_receipt_SomeD [OF x(1)] s' in simp_all)
  with x(2) show ?thesis by auto
qed

lemma failed_with_simps [simp]:
  "r_id (failed_with code prov model r) = r_id r" "r_business_id (failed_with code prov model r) = r_business_id r"
  "r_status (failed_with code prov model r) = FAILED"
  by (simp_all add: failed_with_def Let_def)

lemma process_fail_moves:
  assumes "process_fail ctx rid code prov model client s = Inr (r, s')" and "distinct (map r_id (receipts s))"
  shows "\<exists>st. moves_status s s' rid st FAILED"
proof -
  from assms(1) obtain x where x: "repo_get_receipt (business_id ctx) rid s = Some x"
    and s': "receipts s' = receipts (set_receipt (failed_with code prov model x) s)"
    by (auto simp: process_fail_def result_simps Let_def)
  have "moves_status s s' rid (r_status x) (r_status (failed_with code prov model x))"
    by (rule set_receipt_moves [OF x assms(2) _ s']) (use repo_get_receipt_SomeD [OF x] in simp)
  then show ?thesis by auto
qed

lemma process_finish_moves:
  assumes "process_finish clk ctx rid res ls client s = Inr (r, s')" and "distinct (map r_id (receipts s))"
  shows "moves_status s s' rid PROCESSING READY_FOR_REVIEW"
proof -
  from assms(1) obtain x t where x: "repo_get_receipt (business_id ctx) rid s = Some x" "r_status x = PROCESSING"
    and t: "replace_lines (extracted clk res x) ls (set_receipt (extracted clk res x) s) = Inr t" "receipts s' = receipts t"
    by (auto simp: process_finish_def result_simps Let_def)
  have "moves_status s s' rid (r_status x) (r_status (extracted clk res x))"
    by (rule set_receipt_moves [OF x(1) assms(2)])
       (use repo_get_receipt_SomeD [OF x(1)] t replace_lines_receipts [OF t(1)] in \<open>simp_all add: extracted_def Let_def\<close>)
  with x(2) show ?thesis by (simp add: extracted_def Let_def)
qed

lemma confirm_body_moves:
  assumes "confirm_body clk ctx rid data client s = Inr (out, s')" and "distinct (map r_id (receipts s))"
  shows "moves_status s s' rid READY_FOR_REVIEW CONFIRMED"
  using assms(1)
proof (rule confirm_body_success)
  fix r s1 moved f
  assume r: "repo_get_receipt (business_id ctx) rid s = Some r" "r_status r = READY_FOR_REVIEW"
    and fold: "foldR (confirm_line clk ctx data r client) (repo_list_lines (business_id ctx) rid s) (s, []) = Inr (s1, moved)"
    and s': "s' = audit_record ctx ''receipt.confirm'' RECEIPT_ENTITY rid None f client (set_receipt (confirmed_by_user clk ctx data r) s1)"
  have "receipts s1 = receipts s" using confirm_lines_writes [OF fold] by (simp add: writes_def)
  then have "receipts s' = receipts (set_receipt (confirmed_by_user clk ctx data r) s)" by (simp add: s' set_receipt_def)
  from set_receipt_moves [OF r(1) assms(2) _ this] repo_get_receipt_SomeD [OF r(1)] r(2) show ?thesis by simp
qed

lemma cancel_body_moves:
  assumes "cancel_body ctx rid client s = Inr (r, s')" and "distinct (map r_id (receipts s))"
  shows "s' = s \<or> (\<exists>st. st \<noteq> CONFIRMED \<and> moves_status s s' rid st CANCELLED)"
proof -
  from assms(1) obtain x where x: "repo_get_receipt (business_id ctx) rid s = Some x" "r_status x \<noteq> CONFIRMED"
    and s': "s' = s \<or> receipts s' = receipts (set_receipt (x\<lparr>r_status := CANCELLED\<rparr>) s)"
    by (auto simp: cancel_body_def result_simps Let_def split: if_splits)
  show ?thesis
  proof (cases "s' = s")
    case False
    with s' have "moves_status s s' rid (r_status x) (r_status (x\<lparr>r_status := CANCELLED\<rparr>))"
      by (intro set_receipt_moves [OF x(1) assms(2)]) (use repo_get_receipt_SomeD [OF x(1)] in simp_all)
    with x(2) show ?thesis by auto
  qed simp
qed

subsection \<open>What the operations write\<close>

abbreviation reading_tables :: "table set" where
  "reading_tables \<equiv> {T_receipts, T_receipt_lines, T_audit_logs}"

lemma set_receipt_frame:
  assumes "repo_get_receipt bid rid s = Some r" and "r_id r' = rid"
  shows "grows s (set_receipt r' s) \<and> writes reading_tables s (set_receipt r' s)"
  using known_ids_set_receipt [OF assms] by (simp add: grows_def writes_def set_receipt_def)

lemma add_line_frame:
  assumes "add_line l s = Inr s'" and "rl_receipt_id l \<in> known_ids s"
  shows "grows s s' \<and> writes reading_tables s s'"
proof -
  have s': "s' = (drawn s)\<lparr>receipt_lines := receipt_lines s @ [l\<lparr>rl_id := new_id s\<rparr>]\<rparr>"
    using assms(1) by (auto simp: add_line_def result_simps)
  have "known_ids s' \<subseteq> known_ids s \<union> {rl_receipt_id l, new_id s}" by (auto simp: s' known_ids_def)
  with assms(2) show ?thesis by (auto simp: grows_def writes_def s' new_id_def)
qed

lemma replace_lines_frame:
  assumes "replace_lines r ls s = Inr s'" and "\<forall>l \<in> set ls. rl_receipt_id l = r_id r" and "r_id r \<in> r_id ` set (receipts s)"
  shows "grows s s' \<and> writes reading_tables s s'"
proof -
  let ?s0 = "s\<lparr>receipt_lines := filter (\<lambda>l. \<not> (rl_business_id l = r_business_id r \<and> rl_receipt_id l = r_id r)) (receipt_lines s)\<rparr>"
  have "known_ids ?s0 \<subseteq> known_ids s" by (auto simp: known_ids_def)
  then have s0: "grows s ?s0 \<and> writes reading_tables s ?s0" by (auto simp: grows_def writes_def)
  have "receipts s' = receipts s \<and> grows s s' \<and> writes reading_tables s s'"
  proof (rule foldR_invariant [OF assms(1) [unfolded replace_lines_def], where P = "\<lambda>t. receipts t = receipts s \<and> grows s t \<and> writes reading_tables s t"])
    fix l t t'
    assume l: "l \<in> set ls" "receipts t = receipts s \<and> grows s t \<and> writes reading_tables s t" "add_line l t = Inr t'"
    then have "rl_receipt_id l \<in> known_ids t" using assms(2,3) by (auto simp: known_ids_def)
    from add_line_frame [OF l(3) this] l show "receipts t' = receipts s \<and> grows s t' \<and> writes reading_tables s t'"
      by (auto simp: add_line_def result_simps intro: grows_trans writes_trans)
  qed (use s0 in simp)
  then show ?thesis by simp
qed

lemma upload_frame: "grows s (snd (upload open_image put cfg clk ctx data filename client s))
    \<and> writes reading_tables s (snd (upload open_image put cfg clk ctx data filename client s))"
proof (cases "validate_image open_image cfg data")
  case (Inr v)
  have "grows s s' \<and> writes reading_tables s s'" if "upload_body put clk ctx v data filename client s = Inr (r, s')" for r s'
  proof -
    from that have "r_id r = new_id s"
      and "\<exists>f. s' = audit_record ctx ''receipt.upload'' RECEIPT_ENTITY (new_id s) None f client ((drawn s)\<lparr>receipts := receipts s @ [r]\<rparr>)"
      by (auto simp: upload_body_def result_simps Let_def)
    then obtain f where "r_id r = new_id s"
      and s': "s' = audit_record ctx ''receipt.upload'' RECEIPT_ENTITY (new_id s) None f client ((drawn s)\<lparr>receipts := receipts s @ [r]\<rparr>)"
      by blast
    then have "known_ids s' \<subseteq> known_ids s \<union> {new_id s}" by (auto simp: known_ids_def)
    then show ?thesis by (auto simp: s' grows_def writes_def new_id_def)
  qed
  then have "grows s (snd (transaction (upload_body put clk ctx v data filename client) s))
      \<and> writes reading_tables s (snd (transaction (upload_body put clk ctx v data filename client) s))"
    by (intro conjI grows_transaction writes_transaction) auto
  with Inr show ?thesis by (simp add: upload_def)
qed (simp add: upload_def)

lemma process_begin_frame:
  "process_begin configured ctx rid s = Inr (r, s') \<Longrightarrow> grows s s' \<and> writes reading_tables s s'"
  by (auto simp: process_begin_def result_simps Let_def intro!: set_receipt_frame dest: repo_get_receipt_SomeD)

lemma grows_writes_audit: "grows s t \<and> writes reading_tables s t \<Longrightarrow>
    grows s (audit_record ctx a e i b f c t) \<and> writes reading_tables s (audit_record ctx a e i b f c t)"
  by (auto intro: writes_audit)

lemma process_fail_frame:
  "process_fail ctx rid code prov model client s = Inr (r, s') \<Longrightarrow> grows s s' \<and> writes reading_tables s s'"
  by (auto simp: process_fail_def result_simps Let_def intro!: grows_writes_audit set_receipt_frame dest: repo_get_receipt_SomeD)

lemma cancel_body_frame:
  "cancel_body ctx rid client s = Inr (r, s') \<Longrightarrow> grows s s' \<and> writes reading_tables s s'"
  by (auto simp: cancel_body_def result_simps Let_def split: if_splits intro!: grows_writes_audit set_receipt_frame dest: repo_get_receipt_SomeD)

lemma proposed_lines_receipt: "l \<in> set (proposed_lines collate ctx rid x t) \<Longrightarrow> rl_receipt_id l = rid"
  by (auto simp: proposed_lines_def proposed_line_def Let_def)

lemma process_finish_frame:
  assumes "process_finish clk ctx rid res (proposed_lines collate ctx rid x t) client s = Inr (r, s')"
  shows "grows s s' \<and> writes reading_tables s s'"
proof -
  from assms obtain y u f where y: "repo_get_receipt (business_id ctx) rid s = Some y"
    and u: "replace_lines (extracted clk res y) (proposed_lines collate ctx rid x t) (set_receipt (extracted clk res y) s) = Inr u"
    and s': "s' = audit_record ctx ''receipt.extract'' RECEIPT_ENTITY (r_id y) None f client u"
    by (auto simp: process_finish_def result_simps Let_def)
  have id: "r_id (extracted clk res y) = rid" using repo_get_receipt_SomeD(2) [OF y] by (simp add: extracted_def Let_def)
  have mem: "rid \<in> r_id ` set (receipts (set_receipt (extracted clk res y) s))"
  proof -
    have "r_id ` set (receipts (set_receipt (extracted clk res y) s)) = r_id ` set (receipts s)"
      using id by (simp add: set_receipt_def) (rule image_update_where, simp)
    then show ?thesis using repo_get_receipt_SomeD [OF y] by auto
  qed
  have "grows (set_receipt (extracted clk res y) s) u \<and> writes reading_tables (set_receipt (extracted clk res y) s) u"
    by (rule replace_lines_frame [OF u]) (use id mem proposed_lines_receipt in auto)
  with set_receipt_frame [OF y id] have "grows s u \<and> writes reading_tables s u" by (blast intro: grows_trans writes_trans)
  then show ?thesis unfolding s' by (rule grows_writes_audit)
qed

lemma set_line_grows:
  assumes "rl_id l \<in> known_ids s" and "rl_receipt_id l \<in> known_ids s"
  shows "grows s (set_line l s)"
proof -
  have "known_ids (set_line l s) \<subseteq> known_ids s \<union> {rl_id l, rl_receipt_id l}"
    unfolding known_ids_def set_line_def by (auto simp: set_update_where split: if_splits)
  with assms show ?thesis by (auto simp: grows_def set_line_def)
qed

lemma confirm_lines_grows:
  assumes "foldR (confirm_line clk ctx data r client) ls (s, moved) = Inr (s', moved')"
    and "\<forall>l \<in> set ls. rl_receipt_id l \<in> r_id ` set (receipts s) \<and> rl_id l \<in> rl_id ` set (receipt_lines s)"
  shows "grows s s'"
proof -
  let ?P = "\<lambda>t. grows s (fst t) \<and> receipts (fst t) = receipts s \<and> rl_id ` set (receipt_lines (fst t)) = rl_id ` set (receipt_lines s)"
  have "?P (s', moved')"
  proof (rule foldR_invariant [OF assms(1), where P = ?P])
    fix l t t'
    assume l: "l \<in> set ls" and t: "?P t" and one: "confirm_line clk ctx data r client l t = Inr t'"
    have known: "rl_id l \<in> known_ids u \<and> rl_receipt_id l \<in> known_ids u"
      if "receipts u = receipts s" "rl_id ` set (receipt_lines u) = rl_id ` set (receipt_lines s)" for u
      using assms(2) l that unfolding known_ids_def by simp
    have set: "?P (set_line x u, b)" if "?P (u, c)" "rl_id x = rl_id l" "rl_receipt_id x = rl_receipt_id l" for x u b c
    proof -
      have "grows u (set_line x u)" using that known [of u] by (intro set_line_grows) auto
      moreover have "rl_id ` set (receipt_lines (set_line x u)) = rl_id ` set (receipt_lines u)"
        by (metis list.set_map set_line_simps(6))
      ultimately show ?thesis using that(1) by (auto intro: grows_trans)
    qed
    show "?P t'"
    proof (cases "decision data l")
      case None
      with one have "t' = (set_line (l\<lparr>rl_review_status := REVIEW_SKIPPED\<rparr>) (fst t), snd t)"
        by (cases t) (simp add: confirm_line_def decision_def)
      with set [of "fst t" "snd t"] t show ?thesis by simp
    next
      case (Some d)
      with one obtain m u where m: "restock_in_transaction clk ctx (confirm_restock data r d) client
          [(''receipt_id'', JUuid (r_id r)), (''receipt_line_id'', JUuid (rl_id l))] (fst t) = Inr (m, u)"
        and t': "t' = (set_line (applied d m l) u, snd t @ [m_id m])"
        by (cases t) (auto simp: confirm_line_def decision_def result_simps)
      have "?P (u, snd t)"
        using t restock_in_transaction_writes [OF m] restock_in_transaction_grows [OF m] by (auto simp: writes_def intro: grows_trans)
      from set [OF this] show ?thesis by (simp add: t' applied_def)
    qed
  qed simp
  then show ?thesis by simp
qed

abbreviation confirm_tables :: "table set" where
  "confirm_tables \<equiv> {T_products, T_movements, T_receipts, T_receipt_lines, T_audit_logs}"

lemma confirm_body_frame:
  assumes "confirm_body clk ctx rid data client s = Inr (out, s')"
  shows "grows s s'" and "writes confirm_tables s s'" and "stock_ok s \<Longrightarrow> stock_ok s'" and "same_catalog s s'"
proof -
  from assms obtain r s1 moved f where r: "repo_get_receipt (business_id ctx) rid s = Some r"
    and fold: "foldR (confirm_line clk ctx data r client) (repo_list_lines (business_id ctx) rid s) (s, []) = Inr (s1, moved)"
    and s': "s' = audit_record ctx ''receipt.confirm'' RECEIPT_ENTITY rid None f client (set_receipt (confirmed_by_user clk ctx data r) s1)"
    by (rule confirm_body_success)
  note id = repo_get_receipt_SomeD [OF r]
  note w = confirm_lines_writes [OF fold]
  have "repo_get_receipt (business_id ctx) rid s1 = Some r" using r w by (simp add: repo_get_receipt_def writes_def)
  from set_receipt_frame [OF this, of "confirmed_by_user clk ctx data r"] id
  have two: "grows s1 (set_receipt (confirmed_by_user clk ctx data r) s1)" "writes reading_tables s1 (set_receipt (confirmed_by_user clk ctx data r) s1)"
    by simp_all
  have "grows s s1" by (rule confirm_lines_grows [OF fold]) (use id in \<open>auto simp: repo_list_lines_def\<close>)
  with two(1) show "grows s s'" unfolding s' by (blast intro: grows_trans)
  show "writes confirm_tables s s'" using w two(2) by (simp add: s' writes_def)
  let ?Q = "\<lambda>t. (stock_ok s \<longrightarrow> stock_ok (fst t)) \<and> same_catalog s (fst t)"
  have lines: "?Q (s1, moved)"
  proof (rule foldR_invariant [OF fold, where P = ?Q])
    fix l t t'
    assume t: "?Q t" and one: "confirm_line clk ctx data r client l t = Inr t'"
    have set: "same_catalog s (set_line x u) \<longleftrightarrow> same_catalog s u" for x u by (simp add: same_catalog_def set_line_def)
    show "?Q t'"
    proof (cases "decision data l")
      case None
      with one t show ?thesis by (cases t) (auto simp: confirm_line_def decision_def set)
    next
      case (Some d)
      with one obtain m u where m: "restock_in_transaction clk ctx (confirm_restock data r d) client
          [(''receipt_id'', JUuid (r_id r)), (''receipt_line_id'', JUuid (rl_id l))] (fst t) = Inr (m, u)"
        and t': "t' = (set_line (applied d m l) u, snd t @ [m_id m])"
        by (cases t) (auto simp: confirm_line_def decision_def result_simps)
      show ?thesis using t restock_in_transaction_stock_ok [OF _ m] restock_in_transaction_same_catalog [OF m]
        by (auto simp: t' set intro: same_catalog_trans)
    qed
  qed simp
  have "stock_ok s' \<longleftrightarrow> stock_ok s1" by (rule stock_ok_writes [of reading_tables]) (use two(2) in \<open>simp_all add: s' writes_def\<close>)
  with lines show "stock_ok s \<Longrightarrow> stock_ok s'" by simp
  have "same_catalog s1 s'" by (simp add: s' same_catalog_def set_receipt_def)
  with lines show "same_catalog s s'" by (auto intro: same_catalog_trans)
qed

subsection \<open>The operations refine the machine\<close>

definition simulates :: "db \<times> uuid set \<Rightarrow> db \<times> uuid set \<Rightarrow> bool" where
  "simulates c c' \<longleftrightarrow> reading_ok c' \<and> (\<forall>i st. status_of (fst c) i = Some st \<longrightarrow>
     (\<exists>st'. status_of (fst c') i = Some st' \<and> life\<^sup>=\<^sup>= (st, i \<in> snd c) (st', i \<in> snd c')))"

lemma moved_simulates:
  assumes "reading_ok (s, J)" and "moves_status s s' rid st st'" and "fresh_ok s'" and "J' - {rid} = J - {rid}"
    and "life (st, rid \<in> J) (st', rid \<in> J')" and "rid \<in> J' \<Longrightarrow> st' \<in> {PROCESSING, CANCELLED}"
  shows "simulates (s, J) (s', J')"
proof -
  have J: "i \<in> J' \<longleftrightarrow> i \<in> J" if "i \<noteq> rid" for i using assms(4) that by blast
  have m: "status_of s rid = Some st" "status_of s' = (status_of s)(rid \<mapsto> st')" "map r_id (receipts s') = map r_id (receipts s)"
    using assms(2) by (simp_all add: moves_status_def)
  have "status_of s' i \<in> {Some PROCESSING, Some CANCELLED}" if "i \<in> J'" for i
    using that assms(1,6) J [of i] by (cases "i = rid") (auto simp: m(2) reading_ok_def)
  then have "reading_ok (s', J')" using assms(1,3) m(3) by (simp add: reading_ok_def)
  moreover have "\<exists>y. status_of s' i = Some y \<and> life\<^sup>=\<^sup>= (x, i \<in> J) (y, i \<in> J')" if "status_of s i = Some x" for i x
    using that assms(5) m(1) J [of i] by (cases "i = rid") (auto simp: m(2))
  ultimately show ?thesis by (simp add: simulates_def)
qed

lemma same_simulates:
  assumes "reading_ok (s, J)" and "receipts s' = receipts s" and "fresh_ok s'" and "J' \<subseteq> J"
  shows "simulates (s, J) (s', J')"
proof -
  have st: "status_of s' = status_of s" using assms(2) by (simp add: status_of_def)
  have "life\<^sup>=\<^sup>= (x, i \<in> J) (x, i \<in> J')" if "status_of s i = Some x" for i x
  proof (cases "i \<in> J \<and> i \<notin> J'")
    case True
    with assms(1) that have "x \<in> {PROCESSING, CANCELLED}" by (auto simp: reading_ok_def)
    with True show ?thesis by (auto intro: life.lost)
  next
    case False
    with assms(4) have "(i \<in> J) = (i \<in> J')" by blast
    then show ?thesis by simp
  qed
  with assms st show ?thesis by (auto simp: simulates_def reading_ok_def)
qed

lemma upload_simulates:
  assumes "reading_ok (s, J)"
  shows "simulates (s, J) (snd (upload open_image put cfg clk ctx data filename client s), J)"
proof -
  let ?s' = "snd (upload open_image put cfg clk ctx data filename client s)"
  have "fresh_ok s" using assms by (simp add: reading_ok_def)
  moreover have "grows s ?s'" by (rule conjunct1 [OF upload_frame])
  ultimately have fresh: "fresh_ok s" "fresh_ok ?s'" by (simp_all add: grows_fresh_ok)
  have new: "new_id s \<notin> r_id ` set (receipts s)" using new_id_fresh [OF fresh(1)] by (simp add: known_ids_def)
  have "receipts ?s' = receipts s \<or> (\<exists>x. receipts ?s' = receipts s @ [x] \<and> r_id x = new_id s)"
  proof (cases "validate_image open_image cfg data")
    case (Inr v)
    have "receipts (snd (transaction (upload_body put clk ctx v data filename client) s)) = receipts s
       \<or> (\<exists>x. receipts (snd (transaction (upload_body put clk ctx v data filename client) s)) = receipts s @ [x] \<and> r_id x = new_id s)"
      by (rule transaction_preserves [where P = "\<lambda>t. receipts t = receipts s \<or> (\<exists>x. receipts t = receipts s @ [x] \<and> r_id x = new_id s)"])
         (auto simp: upload_body_def Let_def result_simps)
    with Inr show ?thesis by (simp add: upload_def)
  qed (simp add: upload_def)
  then show ?thesis
  proof
    assume "receipts ?s' = receipts s"
    from same_simulates [OF assms this fresh(2)] show ?thesis by simp
  next
    assume "\<exists>x. receipts ?s' = receipts s @ [x] \<and> r_id x = new_id s"
    then obtain x where x: "receipts ?s' = receipts s @ [x]" "r_id x = new_id s" by blast
    have old: "status_of ?s' i = Some st" if "status_of s i = Some st" for i st
      using that by (simp add: status_of_def x map_of_append map_add_def)
    have "status_of ?s' i \<in> {Some PROCESSING, Some CANCELLED}" if "i \<in> J" for i
      using assms that old by (auto simp: reading_ok_def)
    then have "reading_ok (?s', J)" using assms fresh(2) new x by (simp add: reading_ok_def)
    then show ?thesis using old by (auto simp: simulates_def)
  qed
qed

lemma receipt_run_simulates:
  assumes "receipt_run c c'" and "reading_ok c"
  shows "simulates c c'"
  using assms
proof (induction rule: receipt_run.induct)
  case (upload s J open_image put cfg clk ctx data filename client)
  then show ?case by (rule upload_simulates)
next
  case (start configured ctx rid s r s' J)
  then have body: "process_begin configured ctx rid s = Inr (r, s')" and dist: "distinct (map r_id (receipts s))" and fresh: "fresh_ok s"
    by (auto simp: transaction_cases reading_ok_def)
  from process_begin_moves [OF body dist] obtain st where st: "st \<in> {UPLOADED, FAILED}" "moves_status s s' rid st PROCESSING" by blast
  then have "rid \<notin> J" using start(2) by (auto simp: reading_ok_def moves_status_def)
  then show ?case
    using st grows_fresh_ok [OF _ fresh] process_begin_frame [OF body] by (intro moved_simulates [OF start(2) st(2)]) (auto intro: life.start)
next
  case (finish rid J s clk ctx res collate t client)
  let ?body = "process_finish clk ctx rid res (proposed_lines collate ctx rid (xs_extraction res) t) client"
  have dist: "distinct (map r_id (receipts s))" and fresh: "fresh_ok s" using finish(2) by (simp_all add: reading_ok_def)
  show ?case
  proof (cases "?body s")
    case (Inl e)
    with finish fresh show ?thesis by (intro same_simulates) (auto simp: transaction_def)
  next
    case (Inr out)
    then obtain r s' where body: "?body s = Inr (r, s')" by (cases out) auto
    have "simulates (s, J) (s', J - {rid})"
      using finish(1) process_finish_moves [OF body dist] grows_fresh_ok [OF _ fresh] process_finish_frame [OF body]
      by (intro moved_simulates [OF finish(2)]) (auto intro: life.read)
    with body show ?thesis by (simp add: transaction_def)
  qed
next
  case (fail rid J s ctx code prov model client)
  let ?body = "process_fail ctx rid code prov model client"
  have dist: "distinct (map r_id (receipts s))" and fresh: "fresh_ok s" using fail(2) by (simp_all add: reading_ok_def)
  show ?case
  proof (cases "?body s")
    case (Inl e)
    with fail fresh show ?thesis by (intro same_simulates) (auto simp: transaction_def)
  next
    case (Inr out)
    then obtain r s' where body: "?body s = Inr (r, s')" by (cases out) auto
    from process_fail_moves [OF body dist] obtain st where st: "moves_status s s' rid st FAILED" by blast
    then have "st \<in> {PROCESSING, CANCELLED}" using fail by (auto simp: reading_ok_def moves_status_def)
    then have "simulates (s, J) (s', J - {rid})"
      using fail(1) st grows_fresh_ok [OF _ fresh] process_fail_frame [OF body]
      by (intro moved_simulates [OF fail(2) st]) (auto intro: life.give_up)
    with body show ?thesis by (simp add: transaction_def)
  qed
next
  case (confirm s J clk ctx rid cq client)
  have dist: "distinct (map r_id (receipts s))" and fresh: "fresh_ok s" using confirm by (simp_all add: reading_ok_def)
  obtain out s' where run: "confirm_receipt clk ctx rid cq client s = (out, s')" by (cases "confirm_receipt clk ctx rid cq client s")
  from run have "simulates (s, J) (s', J)"
  proof (cases rule: confirm_receipt_cases)
    case (failed e)
    with confirm fresh show ?thesis by (intro same_simulates) auto
  next
    case (succeeded r n)
    have st: "moves_status s s' rid READY_FOR_REVIEW CONFIRMED" by (rule confirm_body_moves [OF succeeded(2) dist])
    then have "rid \<notin> J" using confirm by (auto simp: reading_ok_def moves_status_def)
    then show ?thesis using grows_fresh_ok [OF confirm_body_frame(1) [OF succeeded(2)] fresh]
      by (intro moved_simulates [OF confirm st]) (auto intro: life.approve)
  qed
  then show ?case by (simp add: run)
next
  case (cancel s J ctx rid client)
  have dist: "distinct (map r_id (receipts s))" and fresh: "fresh_ok s" using cancel by (simp_all add: reading_ok_def)
  show ?case unfolding cancel_receipt_def
  proof (rule transaction_preserves [where P = "\<lambda>t. simulates (s, J) (t, J)"])
    show "simulates (s, J) (s, J)" using cancel fresh by (intro same_simulates) auto
    fix r s'
    assume body: "cancel_body ctx rid client s = Inr (r, s')"
    from cancel_body_moves [OF body dist] show "simulates (s, J) (s', J)"
    proof
      assume "s' = s"
      with cancel fresh show ?thesis by (intro same_simulates) auto
    next
      assume "\<exists>st. st \<noteq> CONFIRMED \<and> moves_status s s' rid st CANCELLED"
      then obtain st where st: "st \<noteq> CONFIRMED" "moves_status s s' rid st CANCELLED" by blast
      then show ?thesis using grows_fresh_ok [OF _ fresh] cancel_body_frame [OF body]
        by (intro moved_simulates [OF cancel st(2)]) (auto intro: life.cancel)
    qed
  qed
qed



subsection \<open>A cancelled receipt can come back\<close>

lemma set_receipt_get:
  assumes "repo_get_receipt b rid s = Some r" and "distinct (map r_id (receipts s))" and "r_id r' = rid" and "r_business_id r' = b"
  shows "repo_get_receipt b rid (set_receipt r' s) = Some r'" and "distinct (map r_id (receipts (set_receipt r' s)))"
  using find_set_receipt [OF assms(1)] status_of_set(2) [OF assms(1-3)] assms by simp_all

text \<open>
  C24: Cancelling a receipt while its image is being read does not keep it cancelled. For every receipt that can be read, if the
  owner cancels it after the reading began and the reading then fails, the failing branch overwrites CANCELLED with FAILED (the
  succeeding branch checks that the receipt is still PROCESSING, the failing one does not), and the cancelled receipt can be
  read again.
\<close>
theorem cancelled_receipt_comes_back:
  assumes "repo_get_receipt (business_id ctx) rid s = Some r" and "r_status r \<in> {UPLOADED, FAILED}"
    and "distinct (map r_id (receipts s))"
  shows "\<exists>r1 s1 r2 s2 r3 s3 r4 s4. transaction (process_begin True ctx rid) s = (Inr r1, s1)
     \<and> cancel_receipt ctx rid client s1 = (Inr r2, s2) \<and> status_of s2 rid = Some CANCELLED
     \<and> transaction (process_fail ctx rid code prov model client) s2 = (Inr r3, s3) \<and> status_of s3 rid = Some FAILED
     \<and> transaction (process_begin True ctx rid) s3 = (Inr r4, s4) \<and> status_of s4 rid = Some PROCESSING"
proof -
  let ?b = "business_id ctx"
  note r = repo_get_receipt_SomeD [OF assms(1)]
  define r1 where "r1 = r\<lparr>r_status := PROCESSING, r_extraction_error := None\<rparr>"
  define s1 where "s1 = set_receipt r1 s"
  have one: "transaction (process_begin True ctx rid) s = (Inr r1, s1)"
    using assms(1,2) by (auto simp: transaction_def process_begin_def receipt_of_ctx_def r1_def s1_def Let_def)
  have g1: "repo_get_receipt ?b rid s1 = Some r1" "distinct (map r_id (receipts s1))"
    using set_receipt_get [OF assms(1,3), of r1] r by (simp_all add: r1_def s1_def)
  define r2 where "r2 = r1\<lparr>r_status := CANCELLED\<rparr>"
  obtain s2 where two: "cancel_receipt ctx rid client s1 = (Inr r2, s2)" and s2: "receipts s2 = receipts (set_receipt r2 s1)"
    using g1(1) by (auto simp: cancel_receipt_def transaction_def cancel_body_def receipt_of_ctx_def r1_def r2_def Let_def)
  have g2: "repo_get_receipt ?b rid s2 = Some r2" "distinct (map r_id (receipts s2))"
    using set_receipt_get [OF g1, of r2] r s2 by (simp_all add: r1_def r2_def repo_get_receipt_def)
  define r3 where "r3 = failed_with code prov model r2"
  obtain s3 where three: "transaction (process_fail ctx rid code prov model client) s2 = (Inr r3, s3)"
    and s3: "receipts s3 = receipts (set_receipt r3 s2)"
    using g2(1) by (auto simp: transaction_def process_fail_def receipt_of_ctx_def r3_def Let_def)
  have g3: "repo_get_receipt ?b rid s3 = Some r3" "distinct (map r_id (receipts s3))"
    using set_receipt_get [OF g2, of r3] r s3 by (simp_all add: r1_def r2_def r3_def repo_get_receipt_def)
  define r4 where "r4 = r3\<lparr>r_status := PROCESSING, r_extraction_error := None\<rparr>"
  define s4 where "s4 = set_receipt r4 s3"
  have four: "transaction (process_begin True ctx rid) s3 = (Inr r4, s4)"
    using g3(1) by (simp add: transaction_def process_begin_def receipt_of_ctx_def r3_def r4_def s4_def Let_def)
  have g4: "repo_get_receipt ?b rid s4 = Some r4" "distinct (map r_id (receipts s4))"
    using set_receipt_get [OF g3, of r4] r by (simp_all add: r1_def r2_def r3_def r4_def s4_def)
  have "status_of s2 rid = Some CANCELLED" "status_of s3 rid = Some FAILED" "status_of s4 rid = Some PROCESSING"
    using status_of_get [OF g2] status_of_get [OF g3] status_of_get [OF g4] by (simp_all add: r2_def r3_def r4_def)
  with one two three four show ?thesis by blast
qed

theorem cancelled_receipt_comes_back_witness:
  "\<exists>r1 s1 r2 s2 r3 s3. transaction (process_begin True demo_owner 130) (demo_delivery UPLOADED) = (Inr r1, s1)
     \<and> cancel_receipt demo_owner 130 None s1 = (Inr r2, s2) \<and> status_of s2 130 = Some CANCELLED
     \<and> transaction (process_fail demo_owner 130 ''AI_UNAVAILABLE'' None None None) s2 = (Inr r3, s3)
     \<and> status_of s3 130 = Some FAILED"
proof -
  let ?s = "demo_delivery UPLOADED"
  have "repo_get_receipt (business_id demo_owner) 130 ?s = Some (demo_receipt UPLOADED)"
    and "r_status (demo_receipt UPLOADED) \<in> {UPLOADED, FAILED}" and "distinct (map r_id (receipts ?s))" by code_simp+
  from cancelled_receipt_comes_back [OF this] show ?thesis by blast
qed

end
