(* ===== verification/Reachable.thy ===== *)
theory Reachable
  imports Customers Expenses Mpesa Receipts
begin

text \<open>
  The shop as a whole: every operation that changes the tables as a step, and the states the steps reach from an
  empty database. Each component keeps its own invariant; here they are joined with the two that span components:
  references between tables always resolve (\<open>refs_ok\<close>, the foreign keys that the models of the tables leave out),
  and a matched message always names a confirmed M-Pesa tender of a completed sale or an M-Pesa repayment of the same
  business (\<open>links_ok\<close>).

  A step of the shop is seen by the desk of \<open>Mpesa\<close> as a sequence of its own steps: the state machine of the messages is
  an abstraction of the whole program.
\<close>

subsection \<open>References and links\<close>

definition refs_ok :: "db \<Rightarrow> bool" where
  "refs_ok s \<longleftrightarrow> (\<forall>i \<in> set (sale_items s). si_product_id i \<in> p_id ` set (products s) \<and> si_sale_id i \<in> s_id ` set (sales s))
     \<and> (\<forall>t \<in> set (payments s). pay_sale_id t \<in> s_id ` set (sales s))
     \<and> (\<forall>x \<in> set (sales s). opt_all (\<lambda>k. (k, s_business_id x) \<in> (\<lambda>c. (c_id c, c_business_id c)) ` set (customers s)) (s_customer_id x))"

definition payment_matches :: "db \<Rightarrow> uuid \<Rightarrow> uuid \<Rightarrow> bool" where
  "payment_matches s bid i \<longleftrightarrow> (\<exists>t \<in> set (payments s). \<exists>x \<in> set (sales s). pay_id t = i \<and> pay_business_id t = bid
     \<and> pay_method t = MPESA \<and> pay_status t = PAY_CONFIRMED \<and> s_id x = pay_sale_id t \<and> s_status x = COMPLETED)"

definition repayment_matches :: "db \<Rightarrow> uuid \<Rightarrow> uuid \<Rightarrow> bool" where
  "repayment_matches s bid i \<longleftrightarrow> (\<exists>t \<in> set (credit_transactions s). ct_id t = i \<and> ct_business_id t = bid
     \<and> ct_entry_type t = REPAYMENT \<and> ct_payment_method t = Some BY_MPESA)"

definition link_ok :: "db \<Rightarrow> mpesa_message \<Rightarrow> bool" where
  "link_ok s m \<longleftrightarrow> opt_all (payment_matches s (mm_business_id m)) (mm_payment_id m)
     \<and> opt_all (repayment_matches s (mm_business_id m)) (mm_credit_transaction_id m)"

definition links_ok :: "db \<Rightarrow> bool" where
  "links_ok s \<longleftrightarrow> (\<forall>m \<in> set (mpesa_messages s). link_ok s m)"

definition books_ok :: "db \<Rightarrow> bool" where
  "books_ok s \<longleftrightarrow> fresh_ok s \<and> stock_ok s \<and> credit_ok s \<and> sales_ok s \<and> children_ok s \<and> mpesa_ok s \<and> messages_ok s
     \<and> catalog_ok s \<and> phones_ok s \<and> expenses_ok s \<and> refs_ok s \<and> links_ok s"

text \<open>What a step may do to the parts: \<open>keeps\<close> is the contract of every operation.\<close>

definition keeps :: "db \<Rightarrow> db \<Rightarrow> bool" where
  "keeps s s' \<longleftrightarrow> (books_ok s \<longrightarrow> books_ok s' \<and> evolves s s')"

lemma keeps_refl [simp]: "keeps s s"
  by (simp add: keeps_def)

subsection \<open>Frames\<close>

lemma children_ok_writes:
  "writes T s s' \<Longrightarrow> T_sales \<notin> T \<Longrightarrow> T_sale_items \<notin> T \<Longrightarrow> T_payments \<notin> T \<Longrightarrow> children_ok s' \<longleftrightarrow> children_ok s"
  by (simp add: children_ok_def items_of_def payments_of_def writes_def)

lemma phones_ok_writes: "writes T s s' \<Longrightarrow> T_customers \<notin> T \<Longrightarrow> phones_ok s' \<longleftrightarrow> phones_ok s"
  by (simp add: phones_ok_def writes_def)

lemma refs_ok_writes:
  "writes T s s' \<Longrightarrow> T_sales \<notin> T \<Longrightarrow> T_sale_items \<notin> T \<Longrightarrow> T_payments \<notin> T \<Longrightarrow> T_customers \<notin> T \<Longrightarrow> T_products \<notin> T
    \<Longrightarrow> refs_ok s' \<longleftrightarrow> refs_ok s"
  by (simp add: refs_ok_def writes_def)

lemma links_ok_writes:
  "writes T s s' \<Longrightarrow> T_sales \<notin> T \<Longrightarrow> T_payments \<notin> T \<Longrightarrow> T_mpesa_messages \<notin> T \<Longrightarrow> T_credit_transactions \<notin> T
    \<Longrightarrow> links_ok s' \<longleftrightarrow> links_ok s"
  by (simp add: links_ok_def link_ok_def payment_matches_def [abs_def] repayment_matches_def [abs_def] writes_def)

lemmas frames = stock_ok_writes credit_ok_writes sales_ok_writes children_ok_writes mpesa_ok_writes messages_ok_writes
  catalog_ok_writes phones_ok_writes expenses_ok_writes refs_ok_writes links_ok_writes evolves_writes

text \<open>A link stays good as long as its target stays.\<close>

lemma link_ok_mono:
  assumes "set (payments s) \<subseteq> set (payments s')" and "set (credit_transactions s) \<subseteq> set (credit_transactions s')"
    and "set (sales s) \<subseteq> set (sales s')"
  shows "link_ok s m \<Longrightarrow> link_ok s' m"
proof -
  have "payment_matches s b i \<Longrightarrow> payment_matches s' b i" "repayment_matches s b i \<Longrightarrow> repayment_matches s' b i" for b i
    using assms unfolding payment_matches_def repayment_matches_def by blast+
  then show "link_ok s m \<Longrightarrow> link_ok s' m"
    by (cases "mm_payment_id m"; cases "mm_credit_transaction_id m") (simp_all add: link_ok_def)
qed

subsection \<open>Steps that write the products, the categories, the expenses or the messages only\<close>

lemma stock_step:
  assumes w: "writes confirm_tables s s'" and g: "grows s s'" and "stock_ok s \<Longrightarrow> stock_ok s'"
    and "catalog_ok s \<Longrightarrow> catalog_ok s'" and "p_id ` set (products s) \<subseteq> p_id ` set (products s')"
  shows "keeps s s'"
proof -
  have "refs_ok s'" if "refs_ok s"
    using that w assms(5) by (auto simp: refs_ok_def writes_def)
  then show ?thesis using assms(3,4) frames [OF w] grows_fresh_ok [OF g] by (simp add: keeps_def books_ok_def)
qed

lemma category_step:
  assumes w: "writes {T_categories} s s'" and g: "grows s s'" and "catalog_ok s \<Longrightarrow> catalog_ok s'"
  shows "keeps s s'"
  using assms(3) frames [OF w] grows_fresh_ok [OF g] by (simp add: keeps_def books_ok_def)

lemma expense_step:
  assumes w: "writes expense_tables s s'" and g: "grows s s'" and "fresh_ok s \<Longrightarrow> expenses_ok s \<Longrightarrow> expenses_ok s'"
  shows "keeps s s'"
  using assms(3) frames [OF w] grows_fresh_ok [OF g] by (simp add: keeps_def books_ok_def)

lemma message_step:
  assumes "books_ok s \<Longrightarrow> desk_keeps s s'" and "books_ok s \<Longrightarrow> links_ok s'"
  shows "keeps s s'"
proof -
  have "books_ok s' \<and> evolves s s'" if ok: "books_ok s"
  proof -
    have d: "mpesa_ok s \<longrightarrow> mpesa_ok s'" "evolves s s'" "messages_ok s'" "grows s s'" and w: "writes desk_tables s s'"
      using assms(1) [OF ok] by (auto simp: desk_keeps_def)
    show ?thesis using ok assms(2) [OF ok] d frames [OF w] grows_fresh_ok [OF d(4)] by (simp add: books_ok_def)
  qed
  then show ?thesis by (simp add: keeps_def)
qed

subsection \<open>Stock, catalogue and expenses\<close>

lemma same_catalog_ids: "same_catalog s s' \<Longrightarrow> p_id ` set (products s') = p_id ` set (products s)"
proof -
  assume "same_catalog s s'"
  moreover have "p_id ` set ps = fst ` set (map catalog_view ps)" for ps by (simp add: image_image catalog_view_def)
  ultimately show ?thesis by (simp only: same_catalog_def)
qed

lemma inventory_step:
  assumes "writes stock_tables s s'" and "grows s s'" and "stock_ok s \<Longrightarrow> stock_ok s'" and "same_catalog s s'"
  shows "keeps s s'"
  using same_catalog_ids [OF assms(4)] same_catalog_ok [OF assms(4)]
  by (intro stock_step [OF writes_mono [OF assms(1)] assms(2,3)]) auto

lemma inventory_keeps:
  "keeps s (snd (restock clk ctx rq client s))" "keeps s (snd (adjust clk ctx aq client s))"
  "keeps s (snd (set_initial_stock clk ctx iq client s))" "keeps s (snd (recompute_stock ctx apply client s))"
  by (rule inventory_step, rule restock_writes, rule restock_grows, erule restock_stock_ok, rule restock_same_catalog,
      rule inventory_step, rule adjust_writes, rule adjust_grows, erule adjust_stock_ok, rule adjust_same_catalog,
      rule inventory_step, rule set_initial_stock_writes, rule set_initial_stock_grows,
      erule set_initial_stock_stock_ok, rule set_initial_stock_same_catalog,
      rule inventory_step, rule recompute_stock_writes, rule recompute_stock_grows,
      erule recompute_stock_stock_ok, rule recompute_stock_same_catalog)

lemma create_product_ids:
  assumes "create_product_in_transaction clk ctx data s = Inr (r, s')"
  shows "p_id ` set (products s) \<subseteq> p_id ` set (products s')"
  using assms
  by (rule create_product_success)
     (auto simp: with_product_def dest!: apply_movement_same_catalog [THEN same_catalog_ids])

lemma create_bulk_ids:
  assumes "foldR (create_next clk ctx) items (s, []) = Inr (s', ps)"
  shows "p_id ` set (products s) \<subseteq> p_id ` set (products s')"
proof -
  have "p_id ` set (products s) \<subseteq> p_id ` set (products (fst (s', ps)))"
    by (rule foldR_invariant [OF assms, where P = "\<lambda>t. p_id ` set (products s) \<subseteq> p_id ` set (products (fst t))"])
       (auto simp: create_next_success dest!: create_product_ids, blast)
  then show ?thesis by simp
qed

lemma update_product_ids:
  assumes "update_product_body ctx pid data client s = Inr (r, s')"
  shows "p_id ` set (products s) \<subseteq> p_id ` set (products s')"
  using assms
proof (rule update_product_body_success)
  fix p
  assume p: "get_product (business_id ctx) pid s = Some p"
    and s': "s' = audited_update ctx pid p (patched data p) client (with_patched pid (patched data p) s)"
  have "p_id ` set (products (with_patched pid (patched data p) s)) = p_id ` set (products s)"
    unfolding with_patched_def using get_product_SomeD [OF p] by (simp, intro image_update_where) simp
  then show ?thesis by (simp add: s')
qed

lemma create_product_step: "keeps s (snd (create_product clk ctx data s))"
proof (cases "fresh_ok s")
  case True
  note ops = create_product_ops [OF True, of clk ctx data]
  have eq: "snd (create_product clk ctx data s) = snd (transaction (create_product_in_transaction clk ctx data) s)"
    by (simp add: create_product_def)
  have "p_id ` set (products s) \<subseteq> p_id ` set (products (snd (create_product clk ctx data s)))"
    unfolding eq by (rule transaction_preserves [where P = "\<lambda>t. p_id ` set (products s) \<subseteq> p_id ` set (products t)"])
      (simp, erule create_product_ids)
  then show ?thesis using ops by (intro stock_step writes_mono [OF ops(4)]) auto
qed (simp add: keeps_def books_ok_def)

lemma create_products_bulk_step: "keeps s (snd (create_products_bulk clk ctx items s))"
proof (cases "fresh_ok s")
  case True
  note ops = create_products_bulk_ops [OF True, of clk ctx items]
  have eq: "snd (create_products_bulk clk ctx items s) = snd (transaction (create_products_bulk_body clk ctx items) s)"
    by (simp add: create_products_bulk_def)
  have "p_id ` set (products s) \<subseteq> p_id ` set (products (snd (create_products_bulk clk ctx items s)))"
    unfolding eq by (rule transaction_preserves [where P = "\<lambda>t. p_id ` set (products s) \<subseteq> p_id ` set (products t)"])
      (simp, unfold create_products_bulk_body_success, erule create_bulk_ids)
  then show ?thesis using ops by (intro stock_step writes_mono [OF ops(4)]) auto
qed (simp add: keeps_def books_ok_def)

lemma update_product_step: "keeps s (snd (update_product ctx pid data client s))"
proof -
  note ops = update_product_ops [where ctx = ctx and pid = pid and data = data and client = client and s = s]
  have "p_id ` set (products s) \<subseteq> p_id ` set (products (snd (update_product ctx pid data client s)))"
    unfolding snd_update_product
    by (rule transaction_preserves [where P = "\<lambda>t. p_id ` set (products s) \<subseteq> p_id ` set (products t)"])
      (simp, erule update_product_ids)
  then show ?thesis using ops by (intro stock_step writes_mono [OF ops(4)]) auto
qed

lemma catalogue_keeps:
  "keeps s (snd (create_category ctx cd s))" "keeps s (snd (update_category ctx cid cd s))" "keeps s (snd (delete_category ctx cid s))"
proof -
  show "keeps s (snd (create_category ctx cd s))"
  proof (cases "fresh_ok s")
    case True
    show ?thesis by (rule category_step [OF create_category_writes create_category_grows])
        (use True create_category_catalog_ok in blast)
  qed (simp add: keeps_def books_ok_def)
qed (rule category_step, rule update_category_writes, rule update_category_grows, erule update_category_catalog_ok,
     rule category_step, rule delete_category_writes, rule delete_category_grows, erule delete_category_catalog_ok)

lemma expenses_keep:
  "keeps s (snd (create_expense clk ctx ed s))" "keeps s (snd (update_expense clk ctx eid eu client s))"
  "keeps s (snd (delete_expense clk ctx eid client s))"
  by (rule expense_step, rule create_expense_ok(2), rule create_expense_ok(3), erule (1) create_expense_ok(1),
      rule expense_step, rule update_expense_ok(2), rule update_expense_ok(3), erule update_expense_ok(1),
      rule expense_step, rule delete_expense_ok(2), rule delete_expense_ok(3), erule delete_expense_ok(1))

subsection \<open>Messages\<close>

lemma link_ok_frame: "writes desk_tables s s' \<Longrightarrow> link_ok s' = link_ok s"
  by (rule ext) (simp add: link_ok_def payment_matches_def [abs_def] repayment_matches_def [abs_def] writes_def)

lemma unlinked_payment_matches:
  "t \<in> fst ` set (unlinked_payments bid s) \<Longrightarrow> payment_matches s bid (pay_id t)"
  unfolding unlinked_payments_def payment_matches_def by force

lemma mpesa_repayment_matches: "t \<in> set (mpesa_repayments bid s) \<Longrightarrow> repayment_matches s bid (ct_id t)"
  unfolding mpesa_repayments_def repayment_matches_def by force

lemma set_message_links:
  assumes "set_message m s = Inr t" and "links_ok s" and "link_ok s m"
  shows "links_ok t"
proof -
  have t: "mpesa_messages t = update_where (\<lambda>r. mm_id r = mm_id m) (\<lambda>_. m) (mpesa_messages s)"
    and w: "writes desk_tables s t"
    using assms(1) by (auto simp: set_message_def result_simps writes_def)
  show ?thesis unfolding links_ok_def link_ok_frame [OF w] t
    using assms(2,3) by (auto simp: set_update_where links_ok_def)
qed

lemma links_ok_audit [simp]: "links_ok (audit_record ctx a e i b f c s) \<longleftrightarrow> links_ok s"
  by (rule links_ok_writes [of "{T_audit_logs}"]) (simp_all add: writes_def)

lemma match_body_links:
  assumes "match_body clk ctx mid data client s = Inr (m', s')" and "links_ok s"
  shows "links_ok s'"
  using assms(1)
proof (rule match_body_success)
  fix m t f
  assume m: "repo_get_message (business_id ctx) mid s = Some m" and set: "set_message m' s = Inr t"
    and s': "s' = audit_record ctx ''mpesa.match'' MPESA_ENTITY (mm_id m') None f client t"
    and how: "(\<exists>p \<in> fst ` set (unlinked_payments (business_id ctx) s). mr_payment_id data = Some (pay_id p)
        \<and> m' = mark_matched clk ctx (Some (pay_id p)) None m)
     \<or> (\<exists>r \<in> set (mpesa_repayments (business_id ctx) s). mr_credit_transaction_id data = Some (ct_id r)
        \<and> m' = mark_matched clk ctx None (Some (ct_id r)) m)"
  have "link_ok s m'"
    using how
  proof (elim disjE bexE conjE)
    fix p
    assume "p \<in> fst ` set (unlinked_payments (business_id ctx) s)" "m' = mark_matched clk ctx (Some (pay_id p)) None m"
    then show ?thesis
      using unlinked_payment_matches repo_get_message_SomeD(3) [OF m] by (simp add: link_ok_def)
  next
    fix r
    assume "r \<in> set (mpesa_repayments (business_id ctx) s)" "m' = mark_matched clk ctx None (Some (ct_id r)) m"
    then show ?thesis
      using mpesa_repayment_matches repo_get_message_SomeD(3) [OF m] by (simp add: link_ok_def)
  qed
  with set_message_links [OF set assms(2)] show ?thesis by (simp add: s')
qed

lemma ignore_body_links:
  assumes "ignore_body clk ctx mid data client s = Inr (m', s')" and "links_ok s"
  shows "links_ok s'"
  using assms(1)
proof (cases rule: ignore_body_success)
  case again
  with assms show ?thesis by simp
next
  case (dismissed m t b f)
  have "mpesa_checks m'" using dismissed(4) by (auto simp: set_message_def result_simps)
  then have "link_ok s m'" using dismissed(3) by (auto simp: mpesa_checks_def link_ok_def)
  with set_message_links [OF dismissed(4) assms(2)] show ?thesis by (simp add: dismissed(5))
qed

lemma new_message_links:
  assumes "mpesa_messages s' = mpesa_messages s @ [m]" and "writes desk_tables s s'" and "links_ok s" and "link_ok s m"
  shows "links_ok s'"
  using assms by (auto simp: links_ok_def link_ok_frame)

lemma link_existing_record_links:
  assumes "link_ok s m" and "mm_business_id m = business_id ctx"
  shows "link_ok s (link_existing_record clk ctx m s)"
  by (cases rule: link_existing_record_cases [of ctx s m clk])
     (use assms unlinked_payment_matches mpesa_repayment_matches in \<open>auto simp: link_ok_def\<close>)

lemma paste_links:
  assumes "books_ok s"
  shows "links_ok (snd (paste collate nairobi clk ctx t client s))"
proof -
  obtain r s' where out: "paste collate nairobi clk ctx t client s = (r, s')" by force
  have ok: "links_ok s" "fresh_ok s" using assms by (simp_all add: books_ok_def)
  from out have "links_ok s'"
  proof (cases rule: paste_cases)
    case (unparsed m)
    let ?m = "unparsed_message clk ctx t (new_id s)"
    have ms: "mpesa_messages s' = mpesa_messages s @ [?m]" "writes desk_tables s s'"
      using unparsed(2) by (auto simp: paste_unparsed_body_def audit_message_def add_message_success result_simps writes_def)
    have "link_ok s ?m" by (simp add: link_ok_def unparsed_message_def)
    then show ?thesis by (rule new_message_links [OF ms ok(1)])
  next
    case (parsed p m)
    let ?m = "parsed_message clk ctx t p (new_id s)"
    let ?s0 = "(drawn s)\<lparr>mpesa_messages := mpesa_messages s @ [?m]\<rparr>"
    have ms: "mpesa_messages s' = mpesa_messages s @ [m]" "writes desk_tables s s'" and m: "m = link_existing_record clk ctx ?m ?s0"
      using parsed(4) ok(2) by (blast elim: paste_parsed_success)+
    have w: "writes desk_tables s ?s0" by (simp add: writes_def)
    have "link_ok ?s0 m" unfolding m
      by (rule link_existing_record_links) (simp_all add: link_ok_def parsed_message_def unparsed_message_def)
    then have "link_ok s m" by (simp only: link_ok_frame [OF w])
    then show ?thesis by (rule new_message_links [OF ms ok(1)])
  qed (use ok in simp_all)
  then show ?thesis by (simp add: out)
qed

lemma messages_keep:
  "keeps s (snd (paste collate nairobi clk ctx t client s))"
  "keeps s (snd (match_message collate clk ctx mid md client s))"
  "keeps s (snd (ignore_message collate clk ctx mid ig client s))"
proof -
  show "keeps s (snd (paste collate nairobi clk ctx t client s))"
    by (rule message_step) (use paste_keeps paste_links in \<open>auto simp: books_ok_def\<close>)
  show "keeps s (snd (match_message collate clk ctx mid md client s))"
  proof (rule message_step)
    show "links_ok (snd (match_message collate clk ctx mid md client s))" if "books_ok s"
      unfolding match_message_def snd_viewed
      by (rule transaction_preserves [where P = links_ok]) (use that in \<open>auto simp: books_ok_def elim: match_body_links\<close>)
  qed (use match_message_keeps in \<open>auto simp: books_ok_def\<close>)
  show "keeps s (snd (ignore_message collate clk ctx mid ig client s))"
  proof (rule message_step)
    show "links_ok (snd (ignore_message collate clk ctx mid ig client s))" if "books_ok s"
    proof (cases "role ctx = OWNER")
      case True
      have "links_ok (snd (transaction (ignore_body clk ctx mid ig client) s))"
        by (rule transaction_preserves [where P = links_ok]) (use that in \<open>auto simp: books_ok_def elim: ignore_body_links\<close>)
      with True show ?thesis by (simp add: ignore_message_def)
    qed (use that in \<open>simp add: ignore_message_def books_ok_def\<close>)
  qed (use ignore_message_keeps in \<open>auto simp: books_ok_def\<close>)
qed

subsection \<open>Credit and customers\<close>

text \<open>The ledger grows, and nothing of a customer but the balance changes.\<close>

definition person :: "customer \<Rightarrow> customer" where
  "person c = c\<lparr>c_balance := 0\<rparr>"

definition same_people :: "db \<Rightarrow> db \<Rightarrow> bool" where
  "same_people s s' \<longleftrightarrow> map person (customers s') = map person (customers s)
     \<and> set (credit_transactions s) \<subseteq> set (credit_transactions s')"

lemma same_people_refl [simp]: "same_people s s"
  by (simp add: same_people_def)

lemma same_people_audit [simp]: "same_people s (audit_record ctx a e i b f c t) \<longleftrightarrow> same_people s t"
  by (simp add: same_people_def)

lemma same_people_trans: "same_people s t \<Longrightarrow> same_people t u \<Longrightarrow> same_people s u"
  by (auto simp: same_people_def)

lemma same_people_writes:
  "writes T s s' \<Longrightarrow> T_customers \<notin> T \<Longrightarrow> T_credit_transactions \<notin> T \<Longrightarrow> same_people s s'"
  by (simp add: same_people_def writes_def)

lemma same_people_phones: "same_people s s' \<Longrightarrow> phones_ok s' \<longleftrightarrow> phones_ok s"
proof (rule phones_ok_cong)
  assume "same_people s s'"
  then have "map phone_key (map person (customers s')) = map phone_key (map person (customers s))"
    by (simp add: same_people_def)
  moreover have "phone_key (person c) = phone_key c" for c by (simp add: phone_key_def person_def)
  ultimately show "map phone_key (customers s') = map phone_key (customers s)" by (simp add: o_def)
qed

lemma same_people_ids:
  assumes "same_people s s'"
  shows "(\<lambda>c. (c_id c, c_business_id c)) ` set (customers s') = (\<lambda>c. (c_id c, c_business_id c)) ` set (customers s)"
proof -
  have img: "(\<lambda>c. (c_id c, c_business_id c)) ` set cs = (\<lambda>c. (c_id c, c_business_id c)) ` set (map person cs)" for cs
    by (simp add: image_image person_def)
  from assms have "map person (customers s') = map person (customers s)" by (simp add: same_people_def)
  then show ?thesis unfolding img [of "customers s'"] img [of "customers s"] by (rule arg_cong)
qed

lemma post_entry_people:
  assumes "post_entry clk ctx cid ty amount neg code pm ref reason sale pay occ key hash s = Inr (t, s')"
  shows "same_people s s'"
  using assms by (rule post_entry_success) (auto simp: same_people_def set_balance_def map_update_where person_def)

lemma credit_step:
  assumes w: "writes credit_tables s s'" and g: "grows s s'" and "credit_ok s \<Longrightarrow> credit_ok s'" and p: "same_people s s'"
    and "books_ok s \<Longrightarrow> mpesa_ok s' \<and> messages_ok s' \<and> evolves s s' \<and> links_ok s'"
  shows "keeps s s'"
proof -
  have "refs_ok s'" if "refs_ok s"
    using that w same_people_ids [OF p] by (simp add: refs_ok_def writes_def)
  then show ?thesis
    using assms(3,5) frames [OF w] grows_fresh_ok [OF g] same_people_phones [OF p] by (simp add: keeps_def books_ok_def)
qed

text \<open>A step that leaves the messages alone.\<close>

lemma messages_same:
  assumes "mpesa_messages s' = mpesa_messages s" and "writes credit_tables s s'" and "same_people s s'" and "books_ok s"
  shows "mpesa_ok s' \<and> messages_ok s' \<and> evolves s s' \<and> links_ok s'"
proof -
  have "link_ok s m \<Longrightarrow> link_ok s' m" for m
    using assms(2,3) by (intro link_ok_mono [of s s']) (auto simp: writes_def same_people_def)
  with assms have "links_ok s'" by (simp add: books_ok_def links_ok_def)
  with assms(1,4) evolves_same [OF assms(1)] show ?thesis by (simp add: books_ok_def mpesa_ok_def messages_ok_def)
qed

lemma link_reference_messages:
  assumes "link_reference_in_transaction clk ctx ref p c via client s = Inr s'" and "m \<in> set (mpesa_messages s')"
  shows "m \<in> set (mpesa_messages s) \<or> mm_business_id m = business_id ctx \<and> mm_payment_id m = p \<and> mm_credit_transaction_id m = c"
proof (cases "normalise ref")
  case None
  with assms show ?thesis by (simp add: link_reference_in_transaction_def)
next
  case (Some code)
  then obtain r t where t: "link_by_code (business_id ctx) code p c (user_id ctx) (now clk) s = Inr (r, t)"
    and s': "mpesa_messages s' = mpesa_messages t"
    using assms(1) by (auto simp: link_reference_in_transaction_def result_simps split: option.splits)
  from t [unfolded link_by_code_def] show ?thesis
  proof (cases rule: update_returning_cases)
    case none
    with assms(2) s' show ?thesis by simp
  next
    case (one x)
    from assms(2) show ?thesis
      by (auto simp: s' one(4) set_update_where linkable_def linked_to_def split: if_splits)
  qed
qed

lemma link_reference_links:
  assumes "link_reference_in_transaction clk ctx ref p c via client s = Inr s'" and "links_ok s"
    and "opt_all (payment_matches s (business_id ctx)) p" and "opt_all (repayment_matches s (business_id ctx)) c"
  shows "links_ok s'"
proof -
  have "link_ok s m" if "m \<in> set (mpesa_messages s')" for m
    using link_reference_messages [OF assms(1) that] assms(2-4) unfolding links_ok_def link_ok_def by metis
  then show ?thesis by (simp add: links_ok_def link_ok_frame [OF link_reference_frame [OF assms(1)]])
qed

lemma record_repayment_links:
  assumes "links_ok s"
  shows "links_ok (snd (record_repayment sha clk ctx cid data client key s))"
    and "same_people s (snd (record_repayment sha clk ctx cid data client key s))"
proof -
  have "links_ok s' \<and> same_people s s'" if body: "record_repayment_body clk ctx cid data client key
      (map_option (\<lambda>_. payload_hash sha ''repayment'' cid (repayment_dump data)) key) s = Inr (posted, s')" for posted s'
    using body
  proof (cases rule: record_repayment_success)
    case (replayed c t)
    with assms show ?thesis by simp
  next
    case (fresh c t s1 s2 f)
    note people = post_entry_people [OF fresh(3)]
    have t: "ct_id t \<in> ct_id ` set (credit_transactions s1)" "t \<in> set (credit_transactions s1)"
      "ct_entry_type t = REPAYMENT" "ct_business_id t = business_id ctx" "ct_payment_method t = Some (rp_payment_method data)"
      using fresh(3) by (auto elim!: post_entry_success)
    have s1: "links_ok s1"
      unfolding links_ok_def post_entry_frame(9) [OF fresh(3)]
      using assms people link_ok_mono [of s s1] post_entry_frame(6,8) [OF fresh(3)]
      by (auto simp: links_ok_def same_people_def)
    have w: "same_books s1 s2" using fresh(4) link_reference_frame by (auto split: if_splits)
    have "links_ok s2"
    proof (cases "rp_payment_method data = BY_MPESA \<and> truthy (rp_reference data)")
      case True
      with t have "repayment_matches s1 (business_id ctx) (ct_id t)" unfolding repayment_matches_def by auto
      with fresh(4) True s1 show ?thesis by (auto intro: link_reference_links)
    next
      case False
      with fresh(4) s1 show ?thesis by auto
    qed
    moreover have "same_people s1 s2" by (rule same_people_writes [OF w]) simp_all
    ultimately show ?thesis using people unfolding fresh(6) by (auto simp: same_people_def)
  qed
  note body = this
  show "links_ok (snd (record_repayment sha clk ctx cid data client key s))"
    unfolding record_repayment_def Let_def on_integrity_error_snd
    by (rule transaction_preserves [where P = links_ok]) (use assms body in blast)+
  show "same_people s (snd (record_repayment sha clk ctx cid data client key s))"
    unfolding record_repayment_def Let_def on_integrity_error_snd
    by (rule transaction_preserves [where P = "same_people s"]) (use body in auto)
qed

lemma record_repayment_keeps: "keeps s (snd (record_repayment sha clk ctx cid data client key s))"
proof (cases "books_ok s")
  case True
  then have ok: "links_ok s" "messages_ok s" "mpesa_ok s" "fresh_ok s" by (simp_all add: books_ok_def)
  show ?thesis
    by (rule credit_step [OF record_repayment_writes record_repayment_grows record_repayment_credit_ok])
       (use ok record_repayment_links record_repayment_evolves record_repayment_mpesa_ok in auto)
qed (simp add: keeps_def)

lemma record_repayment_for_message_keeps:
  "keeps s (snd (record_repayment_for_message collate sha uuid5 clk ctx mid data client s))"
  using record_repayment_for_message_state [of collate sha uuid5 clk ctx mid data client s] record_repayment_keeps by auto

lemma record_adjustment_people:
  "same_people s (snd (record_adjustment sha clk ctx cid data client key s))
   \<and> mpesa_messages (snd (record_adjustment sha clk ctx cid data client key s)) = mpesa_messages s"
  unfolding record_adjustment_def Let_def on_integrity_error_snd
proof (rule transaction_preserves [where P = "\<lambda>t. same_people s t \<and> mpesa_messages t = mpesa_messages s"])
  fix posted s'
  assume "record_adjustment_body clk ctx cid data client key
    (map_option (\<lambda>_. payload_hash sha ''adjustment'' cid (credit_adjustment_dump data)) key) s = Inr (posted, s')"
  then show "same_people s s' \<and> mpesa_messages s' = mpesa_messages s"
  proof (cases rule: record_adjustment_success)
    case (fresh c t s1 b f)
    from post_entry_people [OF fresh(3)] post_entry_frame(9) [OF fresh(3)] show ?thesis
      by (auto simp: fresh(5) same_people_def)
  qed simp
qed simp

lemma record_adjustment_keeps: "keeps s (snd (record_adjustment sha clk ctx cid data client key s))"
  by (rule credit_step [OF record_adjustment_writes record_adjustment_grows record_adjustment_credit_ok])
     (use record_adjustment_people messages_same [OF _ record_adjustment_writes] in blast)+

lemma recompute_balances_keeps: "keeps s (snd (recompute_balances ctx apply client s))"
proof (cases "books_ok s")
  case True
  then have "snd (recompute_balances ctx apply client s) = s"
    by (simp add: books_ok_def recompute_balances_def transaction_def recompute_balances_body_def Let_def
        recompute_customers_consistent)
  then show ?thesis by simp
qed (simp add: keeps_def)

lemma create_customer_keeps: "keeps s (snd (create_customer clk ctx data s))"
proof -
  let ?s' = "snd (create_customer clk ctx data s)"
  note ok = create_customer_ok [where clk = clk and ctx = ctx and data = data and s = s]
  have "set (customers s) \<subseteq> set (customers ?s')"
    unfolding create_customer_def on_integrity_error_snd
    by (rule transaction_preserves [where P = "\<lambda>t. set (customers s) \<subseteq> set (customers t)"])
       (auto simp: create_customer_body_def Let_def result_simps)
  then have "refs_ok s \<Longrightarrow> refs_ok ?s'" using ok(4) unfolding refs_ok_def writes_def
    by (simp add: opt_all_def split: option.splits) blast
  then show ?thesis
    using ok(1-2) grows_fresh_ok [OF ok(3)] frames [OF ok(4)] by (simp add: keeps_def books_ok_def)
qed

subsection \<open>Sales\<close>

abbreviation sale_tables :: "table set" where
  "sale_tables \<equiv> {T_sales, T_sale_items, T_payments, T_products, T_movements, T_customers, T_credit_transactions,
     T_mpesa_messages, T_audit_logs}"

lemma movements_same_catalog:
  assumes "foldR f xs s = Inr s'"
    and "\<And>x t t'. f x t = Inr t' \<Longrightarrow> t' = t \<or> (\<exists>clk ctx pid ty d cost reason sup sale occ m.
      apply_movement clk ctx pid ty d cost reason sup sale occ t = Inr (m, t'))"
  shows "same_catalog s s'"
  by (rule same_catalog_foldR [OF assms(1)]) (use assms(2) apply_movement_same_catalog in blast)

lemma take_stock_cases:
  "take_stock clk ctx sid sold_at prods item s = Inr s' \<Longrightarrow> s' = s \<or> (\<exists>clk ctx pid ty d cost reason sup sale occ m.
      apply_movement clk ctx pid ty d cost reason sup sale occ s = Inr (m, s'))"
  by (auto simp: take_stock_def result_simps split: if_splits)

lemma reverse_movement_cases:
  "reverse_movement clk ctx sid prods m s = Inr s' \<Longrightarrow> s' = s \<or> (\<exists>clk ctx pid ty d cost reason sup sale occ m.
      apply_movement clk ctx pid ty d cost reason sup sale occ s = Inr (m, s'))"
  by (auto simp: reverse_movement_def result_simps split: if_splits)

lemma charge_customer_people:
  assumes "charge_customer clk ctx customer amount chk sid pays sold_at client s = Inr s'"
  shows "same_people s s'"
proof (cases "0 < amount")
  case True
  from assms True show ?thesis
    by (rule charge_customer_success) (auto dest: post_entry_people)
qed (use charge_customer_none [OF assms] in simp)

text \<open>The rows a sale adds, and where they point.\<close>

lemma create_sale_tx_children:
  assumes "create_sale_tx clk ctx data client key digest s = Inr (sale, s')"
  obtains items pays s3 s4 where "sales s' = sales s @ [sale]" "sale_items s' = sale_items s @ items" "payments s' = payments s @ pays"
    "s_id sale = new_id s" "s_business_id sale = business_id ctx" "s_status sale = COMPLETED"
    "\<forall>i \<in> set items. si_business_id i = business_id ctx \<and> si_sale_id i = new_id s \<and> si_product_id i \<in> p_id ` set (products s)"
    "\<forall>t \<in> set pays. pay_business_id t = business_id ctx \<and> pay_sale_id t = new_id s \<and> pay_status t = PAY_CONFIRMED"
    "opt_all (\<lambda>k. (k, business_id ctx) \<in> (\<lambda>c. (c_id c, c_business_id c)) ` set (customers s)) (s_customer_id sale)"
    "writes {T_sales, T_sale_items, T_payments} s s3" "sales s3 = sales s'" "payments s3 = payments s'"
    "foldR (link_payment clk ctx client) pays s3 = Inr s4"
    "writes {T_products, T_movements, T_customers, T_credit_transactions, T_audit_logs} s4 s'" "same_catalog s s'" "same_people s s'"
  using assms
proof (rule create_sale_tx_success)
  fix sold_at prods customer priced chk alloc s1 s2 items s3 pays s4 s5
  assume lock: "lock_products ctx (map sl_product_id (sr_lines data)) s = Inr prods"
    and cust: "(case sr_customer_id data of None \<Rightarrow> Inr None
      | Some cid \<Rightarrow> bindR (lock_customer ctx cid s) (\<lambda>c. Inr (Some c))) = Inr customer"
    and sale: "sale = \<lparr>s_id = new_id s, s_business_id = business_id ctx, s_customer_id = map_option c_id customer,
       s_idempotency_key = key, s_idempotency_hash = digest, s_status = COMPLETED,
       s_subtotal = sum_list (map snd priced), s_discount_amount = sr_discount_amount data,
       s_total_amount = sum_list (map snd priced) - sr_discount_amount data,
       s_note = sr_note data, s_sold_at = sold_at, s_voided_at = None, s_voided_by = None,
       s_void_reason = None, s_created_by = user_id ctx, s_created_at = tx_now clk\<rparr>"
    and s1: "add_sale sale s = Inr s1"
    and s2: "foldR (add_item ctx (new_id s) prods) (zip (sr_lines data) (zip priced alloc)) (s1, []) = Inr (s2, items)"
    and s3: "foldR (add_payment clk ctx (new_id s)) (sr_payments data) (s2, []) = Inr (s3, pays)"
    and s4: "foldR (link_payment clk ctx client) pays s3 = Inr s4"
    and take: "foldR (take_stock clk ctx (new_id s) sold_at prods) items s4 = Inr s5"
    and charge: "charge_customer clk ctx customer (sum_list (map pl_amount (filter (\<lambda>p. pl_method p = CREDIT)
       (sr_payments data)))) chk (new_id s) pays sold_at client s5 = Inr s'"
  note s1' = add_sale_success(1) [OF s1]
  note w = add_items_writes [OF s2] add_payments_writes [OF s3] link_payments_writes [OF s4] take_stock_writes [OF take]
    charge_customer_writes [OF charge]
  have items: "sale_items s2 = sale_items s @ items" "list_all2 (item_of ctx (new_id s) prods)
      (zip (sr_lines data) (zip priced alloc)) items"
    using add_items_success [OF s2] s1' by auto
  have prod: "p \<in> set (products s)" if "locked prods pid = Inr p" for pid p
    using lock_products_success [OF lock that] get_product_SomeD by blast
  have I: "\<forall>i \<in> set items. si_business_id i = business_id ctx \<and> si_sale_id i = new_id s \<and> si_product_id i \<in> p_id ` set (products s)"
    using items(2) by (induction rule: list_all2_induct) (auto simp: item_of_def dest!: prod)
  have pays: "payments s3 = payments s2 @ pays" "list_all2 (payment_of ctx (new_id s)) (sr_payments data) pays"
    using add_payments_success [OF s3] by auto
  have P: "\<forall>t \<in> set pays. pay_business_id t = business_id ctx \<and> pay_sale_id t = new_id s \<and> pay_status t = PAY_CONFIRMED"
    using pays(2) by (induction rule: list_all2_induct) (auto simp: payment_of_def)
  have c: "opt_all (\<lambda>k. (k, business_id ctx) \<in> (\<lambda>c. (c_id c, c_business_id c)) ` set (customers s)) (s_customer_id sale)"
    using cust by (auto simp: sale lock_customer_def result_simps image_iff split: option.splits dest!: repo_get_customer_SomeD) force
  have w3: "writes {T_sales, T_sale_items, T_payments} s s3" using s1' w(1,2) by (simp add: writes_def)
  have w5: "writes {T_products, T_movements, T_customers, T_credit_transactions, T_audit_logs} s4 s'"
    using w(4,5) by (simp add: writes_def)
  have cat: "same_catalog s s4" "same_catalog s5 s'"
    by (rule same_catalog_writes [of "sale_tables - {T_products}"], use s1' w in \<open>simp add: writes_def\<close>, simp, simp)+
  have "same_catalog s4 s5" by (rule movements_same_catalog [OF take take_stock_cases])
  with cat have sc: "same_catalog s s'" by (blast intro: same_catalog_trans)
  have "same_people s s5"
    by (rule same_people_writes [of "sale_tables - {T_customers, T_credit_transactions}"])
      (use s1' w in \<open>simp add: writes_def\<close>, simp, simp)
  with charge_customer_people [OF charge] have sp: "same_people s s'" by (rule same_people_trans [rotated])
  have tabs: "sales s' = sales s @ [sale]" "sale_items s' = sale_items s @ items" "payments s' = payments s @ pays"
      "sales s3 = sales s'" "payments s3 = payments s'"
    using s1' w items(1) pays(1) by (simp_all add: writes_def)
  show thesis by (rule that [OF tabs(1-3) _ _ _ I P c w3 tabs(4,5) s4 w5 sc sp]) (simp_all add: sale)
qed

lemma link_payments_evolve:
  assumes "foldR (link_payment clk ctx client) pays s = Inr s'" and "messages_ok s"
  shows "evolves s s' \<and> messages_ok s'"
  by (rule foldR_invariant [OF assms(1), where P = "\<lambda>t. evolves s t \<and> messages_ok t"])
     (use assms(2) link_reference_evolves in \<open>auto simp: link_payment_def split: if_splits intro: evolves_trans\<close>)

lemma link_payments_links:
  assumes "foldR (link_payment clk ctx client) pays s = Inr s'" and "links_ok s" and "x \<in> set (sales s)" and "s_status x = COMPLETED"
    and "\<And>t. t \<in> set pays \<Longrightarrow> t \<in> set (payments s) \<and> pay_business_id t = business_id ctx \<and> pay_sale_id t = s_id x \<and> pay_status t = PAY_CONFIRMED"
  shows "links_ok s'"
proof -
  have "same_books s s' \<and> links_ok s'"
  proof (rule foldR_invariant [OF assms(1), where P = "\<lambda>t. same_books s t \<and> links_ok t"])
    fix p t t'
    assume p: "p \<in> set pays" and t: "same_books s t \<and> links_ok t" and l: "link_payment clk ctx client p t = Inr t'"
    show "same_books s t' \<and> links_ok t'"
    proof (cases "pay_method p = MPESA \<and> truthy (pay_reference p)")
      case True
      with l have link: "link_reference_in_transaction clk ctx (pay_reference p) (Some (pay_id p)) None ''sale.create'' client t = Inr t'"
        by (simp add: link_payment_def)
      have "payment_matches s (business_id ctx) (pay_id p)"
        unfolding payment_matches_def using assms(3,4) assms(5) [OF p] True by metis
      then have "payment_matches t (business_id ctx) (pay_id p)" using t by (simp add: payment_matches_def writes_def)
      then have "links_ok t'" using t by (intro link_reference_links [OF link]) simp_all
      with t link_reference_frame [OF link] show ?thesis by (blast intro: writes_trans)
    next
      case False
      with l t show ?thesis by (auto simp: link_payment_def)
    qed
  qed (simp add: assms(2))
  then show ?thesis by simp
qed

lemma create_sale_tx_keeps:
  assumes "create_sale_tx clk ctx data client key digest s = Inr (sale, s')"
  shows "keeps s s'"
proof -
  have "books_ok s' \<and> evolves s s'" if ok: "books_ok s"
    using assms
  proof (rule create_sale_tx_children)
    fix items pays s3 s4
    assume tabs: "sales s' = sales s @ [sale]" "sale_items s' = sale_items s @ items" "payments s' = payments s @ pays"
      and sale: "s_id sale = new_id s" "s_business_id sale = business_id ctx" "s_status sale = COMPLETED"
      and I: "\<forall>i \<in> set items. si_business_id i = business_id ctx \<and> si_sale_id i = new_id s \<and> si_product_id i \<in> p_id ` set (products s)"
      and P: "\<forall>t \<in> set pays. pay_business_id t = business_id ctx \<and> pay_sale_id t = new_id s \<and> pay_status t = PAY_CONFIRMED"
      and c: "opt_all (\<lambda>k. (k, business_id ctx) \<in> (\<lambda>c. (c_id c, c_business_id c)) ` set (customers s)) (s_customer_id sale)"
      and s3: "writes {T_sales, T_sale_items, T_payments} s s3" "sales s3 = sales s'" "payments s3 = payments s'"
      and s4: "foldR (link_payment clk ctx client) pays s3 = Inr s4"
      and w: "writes {T_products, T_movements, T_customers, T_credit_transactions, T_audit_logs} s4 s'"
      and same: "same_catalog s s'" "same_people s s'"
    have fresh: "fresh_ok s" using ok by (simp add: books_ok_def)
    have new: "new_id s \<notin> s_id ` set (sales s)" using new_id_fresh [OF fresh] by (simp add: known_ids_def)
    have none: "items_of i s' = items_of i s" "payments_of i s' = payments_of i s" if "i \<noteq> new_id s" for i
      using that I P by (auto simp: items_of_def payments_of_def tabs filter_empty_conv)
    have kids: "children_ok s'"
      unfolding children_ok_def tabs(1)
    proof (intro ballI)
      fix x
      assume "x \<in> set (sales s @ [sale])"
      then consider "x = sale" | "x \<in> set (sales s)" "s_id x \<noteq> new_id s" using new by force
      then show "(\<forall>i \<in> set (items_of (s_id x) s'). si_business_id i = s_business_id x)
         \<and> (\<forall>t \<in> set (payments_of (s_id x) s'). pay_business_id t = s_business_id x \<and> pay_status t = PAY_CONFIRMED)"
      proof cases
        case 1
        have "new_id s \<notin> si_sale_id ` set (sale_items s)" "new_id s \<notin> pay_sale_id ` set (payments s)"
          using new_id_fresh [OF fresh] by (simp_all add: known_ids_def)
        then show ?thesis using 1 I P sale by (auto simp: items_of_def payments_of_def tabs image_iff)
      next
        case 2
        with ok none show ?thesis by (simp add: books_ok_def children_ok_def)
      qed
    qed
    have refs: "refs_ok s'"
      using ok I P c sale same_catalog_ids [OF same(1)] same_people_ids [OF same(2)]
      by (auto simp: refs_ok_def tabs books_ok_def)
    have m3: "evolves s s3" "messages_ok s3" using ok frames [OF s3(1)] by (simp_all add: books_ok_def)
    have l3: "links_ok s3"
    proof -
      have "link_ok s m \<Longrightarrow> link_ok s3 m" for m
        using s3 by (intro link_ok_mono [of s s3]) (auto simp: tabs writes_def)
      then show ?thesis using ok s3(1) by (auto simp: books_ok_def links_ok_def writes_def)
    qed
    have l4: "links_ok s4"
      by (rule link_payments_links [OF s4 l3, where x = sale]) (use P sale tabs s3 in auto)
    note m4 = link_payments_evolve [OF s4 m3(2)]
    have "link_ok s4 m \<Longrightarrow> link_ok s' m" for m
      using w same(2) s3 link_payments_writes [OF s4]
      by (intro link_ok_mono [of s4 s']) (auto simp: writes_def same_people_def tabs)
    then have links: "links_ok s'" using l4 w by (auto simp: links_ok_def writes_def)
    have ev: "evolves s s'" "messages_ok s'"
      using m3 m4 evolves_writes [OF w] messages_ok_writes [OF w] by (auto intro: evolves_trans)
    have "expenses s' = expenses s" using w s3(1) link_payments_writes [OF s4] by (simp add: writes_def)
    then have exp: "expenses_ok s'" using ok by (simp add: books_ok_def expenses_ok_def)
    show ?thesis
      using ok kids refs links ev exp same_catalog_ok [OF same(1)] same_people_phones [OF same(2)]
        grows_fresh_ok [OF create_sale_tx_grows [OF assms]] create_sale_tx_stock_ok [OF assms] create_sale_tx_credit_ok [OF assms]
        create_sale_tx_mpesa_ok [OF assms] create_sale_tx_sales_ok [OF assms]
      by (simp add: books_ok_def)
  qed
  then show ?thesis by (simp add: keeps_def)
qed

lemma create_sale_keeps: "keeps s (snd (create_sale sha clk ctx data client key s))"
proof -
  obtain r s' where out: "create_sale sha clk ctx data client key s = (r, s')" by (rule prod.exhaust)
  then have "keeps s s'" by (cases rule: create_sale_cases) (auto intro: create_sale_tx_keeps)
  then show ?thesis by (simp add: out)
qed

text \<open>A void: every tender is unlinked, so no message is left linked to the voided sale.\<close>

lemma unlink_payment_messages:
  assumes "unlink_payment_in_transaction ctx p client s = Inr s'" and "m \<in> set (mpesa_messages s')" and "mpesa_ok s"
  shows "(m \<in> set (mpesa_messages s) \<and> \<not> (mm_business_id m = business_id ctx \<and> mm_payment_id m = Some p))
    \<or> (mm_payment_id m = None \<and> mm_credit_transaction_id m = None)"
proof -
  from assms(1) obtain r t where t: "unlink_payment (business_id ctx) p s = Inr (r, t)" and s': "mpesa_messages s' = mpesa_messages t"
    by (auto simp: unlink_payment_in_transaction_def result_simps split: option.splits)
  have matched: "mm_status x = MATCHED \<and> mm_credit_transaction_id x = None"
    if "x \<in> set (mpesa_messages s)" "mm_payment_id x = Some p" for x
  proof -
    have "mpesa_checks x" using assms(3) that(1) by (simp add: mpesa_ok_def list_all_iff)
    with that(2) show ?thesis by (auto simp: mpesa_checks_def)
  qed
  from t [unfolded unlink_payment_def] show ?thesis
  proof (cases rule: update_returning_cases)
    case none
    with assms(2) matched show ?thesis by (auto simp: s' filter_empty_conv)
  next
    case (one x)
    from assms(2) obtain y where y: "y \<in> set (mpesa_messages s)" "m = (if mm_business_id y = business_id ctx \<and> mm_payment_id y = Some p
        \<and> mm_status y = MATCHED then y\<lparr>mm_status := UNMATCHED, mm_payment_id := None, mm_matched_by := None, mm_matched_at := None\<rparr> else y)"
      by (auto simp: s' one(4) set_update_where)
    with matched [OF y(1)] show ?thesis by (auto split: if_splits)
  qed
qed

lemma unlink_tenders_messages:
  assumes "foldR (unlink_tender ctx client) pays s = Inr s'" and "mpesa_ok s" and "m \<in> set (mpesa_messages s')"
  shows "(m \<in> set (mpesa_messages s) \<and> (\<forall>t \<in> set pays. pay_method t = MPESA \<longrightarrow> mm_business_id m = business_id ctx
        \<longrightarrow> mm_payment_id m \<noteq> Some (pay_id t)))
    \<or> (mm_payment_id m = None \<and> mm_credit_transaction_id m = None)"
  using assms(1,2)
proof (induction pays arbitrary: s)
  case Nil
  with assms(3) show ?case by simp
next
  case (Cons p pays)
  from Cons.prems(1) obtain u where u: "unlink_tender ctx client p s = Inr u"
    and rest: "foldR (unlink_tender ctx client) pays u = Inr s'"
    by (auto simp: result_simps)
  have "mpesa_ok u" using u Cons.prems(2) by (auto simp: unlink_tender_def split: if_splits intro: unlink_payment_ok)
  note IH = Cons.IH [OF rest this]
  show ?case
  proof (cases "pay_method p = MPESA")
    case True
    with u have "unlink_payment_in_transaction ctx (pay_id p) client s = Inr u" by (simp add: unlink_tender_def)
    from unlink_payment_messages [OF this _ Cons.prems(2), of m] IH show ?thesis by auto
  next
    case False
    with u have "u = s" by (simp add: unlink_tender_def)
    with IH False show ?thesis by auto
  qed
qed

lemma void_sale_body_links:
  assumes "void_sale_body clk ctx sid data client s = Inr (v, s')" and ok: "books_ok s"
  shows "links_ok s' \<and> messages_ok s' \<and> evolves s s' \<and> same_catalog s s' \<and> same_people s s' \<and> writes (sale_tables - {T_sale_items, T_payments}) s s'"
  using assms(1)
proof (rule void_sale_body_success)
  fix sale prods s1 s2 s3 b f
  assume get: "repo_get_sale (business_id ctx) sid None None s = Some sale" "s_status sale = COMPLETED"
    and s1: "foldR (reverse_movement clk ctx (s_id sale) prods)
       (list_movements_for_sale (business_id ctx) (s_id sale) s) s = Inr s1"
    and s2: "reverse_charge clk ctx sale (sum_list (map pay_amount (filter (\<lambda>p. pay_method p = CREDIT)
       (payments_of (s_id sale) s)))) (sv_reason data) s1 = Inr s2"
    and s3: "foldR (unlink_tender ctx client) (payments_of (s_id sale) s) s2 = Inr s3"
    and s': "s' = audit_record ctx ''sale.void'' ''sale'' (s_id sale) b f client
       (s3\<lparr>sales := update_where (\<lambda>x. s_id x = s_id sale) (voided clk ctx (sv_reason data)) (sales s3)\<rparr>)"
  note w1 = reverse_movements_writes [OF s1] and w3 = unlink_tenders_writes [OF s3]
  have w2: "writes {T_customers, T_credit_transactions} s1 s2" and p2: "same_people s1 s2"
    using s2 by (auto elim!: reverse_charge_cases dest: post_entry_writes post_entry_people)
  have w4: "writes {T_sales, T_audit_logs} s3 s'" by (simp add: s' writes_def)
  have sale: "s_id sale = sid" "sale \<in> set (sales s)" "s_business_id sale = business_id ctx"
    using repo_get_sale_SomeD [OF get(1)] by auto
  have m2: "mpesa_messages s2 = mpesa_messages s" "mpesa_ok s2" "messages_ok s2"
    using ok w1 w2 mpesa_ok_writes [OF w1] mpesa_ok_writes [OF w2] messages_ok_writes [OF w1] messages_ok_writes [OF w2]
    by (simp_all add: books_ok_def writes_def)
  have "link_ok s' m" if m: "m \<in> set (mpesa_messages s')" for m
  proof (cases "mm_payment_id m = None \<and> mm_credit_transaction_id m = None")
    case False
    with m unlink_tenders_messages [OF s3 m2(2), of m] w4 m2(1)
    have old: "m \<in> set (mpesa_messages s)" and gone: "\<And>t. t \<in> set (payments_of sid s) \<Longrightarrow> pay_method t = MPESA
        \<Longrightarrow> mm_business_id m = business_id ctx \<Longrightarrow> mm_payment_id m \<noteq> Some (pay_id t)"
      by (auto simp: writes_def sale(1))
    have "link_ok s m" using ok old by (simp add: books_ok_def links_ok_def)
    moreover have "repayment_matches s b i \<Longrightarrow> repayment_matches s' b i" for b i
      using same_people_trans [OF same_people_writes [OF w1] p2] w3 w4
      by (auto simp: repayment_matches_def same_people_def writes_def)
    moreover have "payment_matches s' (mm_business_id m) i"
      if "payment_matches s (mm_business_id m) i" "mm_payment_id m = Some i" for i
    proof -
      from that(1) obtain t x where t: "t \<in> set (payments s)" "x \<in> set (sales s)" "pay_id t = i" "pay_business_id t = mm_business_id m"
        "pay_method t = MPESA" "pay_status t = PAY_CONFIRMED" "s_id x = pay_sale_id t" "s_status x = COMPLETED"
        by (auto simp: payment_matches_def)
      have "s_id x \<noteq> sid"
      proof
        assume x: "s_id x = sid"
        then have "x = sale" using ok sale t(2) by (auto simp: books_ok_def sales_ok_def dest: distinct_mapD)
        moreover have tp: "t \<in> set (payments_of (s_id x) s)" using t x by (simp add: payments_of_def)
        ultimately have "mm_business_id m = business_id ctx" using ok t sale by (auto simp: books_ok_def children_ok_def)
        with gone tp x t that(2) show False by auto
      qed
      then have "x \<in> set (sales s')" using t(2) w1 w2 w3 by (auto simp: s' sale set_update_where writes_def image_iff)
      moreover have "t \<in> set (payments s')" using t(1) w1 w2 w3 w4 by (simp add: writes_def)
      ultimately show ?thesis using t unfolding payment_matches_def by metis
    qed
    ultimately show ?thesis by (auto simp: link_ok_def opt_all_def split: option.splits)
  qed (simp add: link_ok_def)
  then have links: "links_ok s'" by (simp add: links_ok_def)
  have "evolves s2 s3 \<and> messages_ok s3"
    by (rule foldR_invariant [OF s3, where P = "\<lambda>t. evolves s2 t \<and> messages_ok t"])
       (use m2 unlink_payment_evolves in \<open>auto simp: unlink_tender_def split: if_splits intro: evolves_trans\<close>)
  then have ev: "evolves s s' \<and> messages_ok s'"
    using evolves_writes [OF w1] evolves_writes [OF w2] evolves_writes [OF w4] messages_ok_writes [OF w4]
    by (auto intro: evolves_trans)
  have "same_catalog s s1" by (rule movements_same_catalog [OF s1 reverse_movement_cases])
  moreover have "same_catalog s1 s'"
    by (rule same_catalog_writes [of "sale_tables - {T_products}"]) (use w2 w3 w4 in \<open>simp_all add: writes_def\<close>)
  ultimately have sc: "same_catalog s s'" by (rule same_catalog_trans)
  have sp: "same_people s s'"
    using same_people_writes [OF w1] p2 same_people_writes [OF w3] same_people_writes [OF w4] by (auto intro: same_people_trans)
  have "writes (sale_tables - {T_sale_items, T_payments}) s s'" using w1 w2 w3 w4 by (simp add: writes_def)
  with links ev sc sp show ?thesis by blast
qed

lemma void_sale_keeps: "keeps s (snd (void_sale clk ctx sid data client s))"
  unfolding void_sale_def
proof (rule transaction_preserves [where P = "keeps s"])
  fix v s'
  assume body: "void_sale_body clk ctx sid data client s = Inr (v, s')"
  have "books_ok s' \<and> evolves s s'" if ok: "books_ok s"
  proof -
    note k = void_sale_body_ok [OF body] and l = void_sale_body_links [OF body ok]
    have kid: "sale_items s' = sale_items s" "payments s' = payments s" "expenses s' = expenses s" using l by (simp_all add: writes_def)
    obtain sale where sales: "sales s' = update_where (\<lambda>x. s_id x = sid) (voided clk ctx (sv_reason data)) (sales s)"
      using body by (rule void_sale_effect)
    have same: "s_id (voided clk ctx r x) = s_id x" "s_business_id (voided clk ctx r x) = s_business_id x"
      "s_customer_id (voided clk ctx r x) = s_customer_id x" for r x by (simp_all add: voided_def)
    have kids: "children_ok s'" using ok kid
      by (auto simp: books_ok_def children_ok_def items_of_def payments_of_def sales set_update_where same)
    have "s_id ` set (sales s') = s_id ` set (sales s)" unfolding sales by (simp add: image_update_where same)
    then have refs: "refs_ok s'" using ok kid same_catalog_ids [of s s'] same_people_ids [of s s'] l
      by (auto simp: books_ok_def refs_ok_def sales set_update_where same)
    show ?thesis using ok k l kids refs kid grows_fresh_ok [OF k(5)] same_catalog_ok [of s s'] same_people_phones [of s s']
      by (simp add: books_ok_def expenses_ok_def)
  qed
  then show "keeps s s'" by (simp add: keeps_def)
qed simp

subsection \<open>Supplier receipts\<close>

lemma reading_step:
  assumes "grows s s' \<and> writes reading_tables s s'"
  shows "keeps s s'"
proof -
  have w: "writes reading_tables s s'" and g: "grows s s'" using assms by auto
  show ?thesis using frames [OF w] grows_fresh_ok [OF g] by (simp add: keeps_def books_ok_def)
qed

lemma reading_transaction:
  assumes "\<And>r s'. body s = Inr (r, s') \<Longrightarrow> grows s s' \<and> writes reading_tables s s'"
  shows "keeps s (snd (transaction body s))"
  by (rule transaction_preserves [where P = "keeps s"]) (rule keeps_refl, rule reading_step, rule assms)

lemma confirm_receipt_keeps: "keeps s (snd (confirm_receipt clk ctx rid cq client s))"
proof -
  obtain out s' where run: "confirm_receipt clk ctx rid cq client s = (out, s')" by (cases "confirm_receipt clk ctx rid cq client s")
  from run have "keeps s s'"
  proof (cases rule: confirm_receipt_cases)
    case (succeeded r n)
    note f = confirm_body_frame [OF succeeded(2)]
    show ?thesis by (rule stock_step [OF f(2,1,3)]) (use f(4) same_catalog_ids [OF f(4)] same_catalog_ok [OF f(4)] in simp_all)
  qed simp
  then show ?thesis by (simp add: run)
qed

lemma receipts_keep:
  "keeps s (snd (upload open_image put cfg clk ctx picture filename client s))"
  "keeps s (snd (transaction (process_begin configured ctx rid) s))"
  "keeps s (snd (transaction (process_finish clk ctx rid res (proposed_lines collate ctx rid x t) client) s))"
  "keeps s (snd (transaction (process_fail ctx rid code prov model client) s))"
  "keeps s (snd (cancel_receipt ctx rid client s))"
  unfolding cancel_receipt_def
  by (rule reading_step [OF upload_frame], (rule reading_transaction, erule process_begin_frame process_finish_frame
      process_fail_frame cancel_body_frame)+)

subsection \<open>Steps and reachable states\<close>

text \<open>One rule for every operation that changes the tables, with any arguments: a request of any member of any
  business, in any order, whether it succeeds or fails.\<close>

inductive step :: "db \<Rightarrow> db \<Rightarrow> bool" where
  restock: "step s (snd (restock clk ctx rq client s))"
| adjust: "step s (snd (adjust clk ctx aq client s))"
| set_initial_stock: "step s (snd (set_initial_stock clk ctx iq client s))"
| recompute_stock: "step s (snd (recompute_stock ctx apply client s))"
| create_category: "step s (snd (create_category ctx cd s))"
| update_category: "step s (snd (update_category ctx cid cd s))"
| delete_category: "step s (snd (delete_category ctx cid s))"
| create_product: "step s (snd (create_product clk ctx pd s))"
| create_products_bulk: "step s (snd (create_products_bulk clk ctx pds s))"
| update_product: "step s (snd (update_product ctx pid pu client s))"
| create_customer: "step s (snd (create_customer clk ctx cc s))"
| record_repayment: "step s (snd (record_repayment sha clk ctx cid rp client key s))"
| record_adjustment: "step s (snd (record_adjustment sha clk ctx cid ca client key s))"
| recompute_balances: "step s (snd (recompute_balances ctx apply client s))"
| create_sale: "step s (snd (create_sale sha clk ctx sr client k s))"
| void_sale: "step s (snd (void_sale clk ctx sid sv client s))"
| create_expense: "step s (snd (create_expense clk ctx ed s))"
| update_expense: "step s (snd (update_expense clk ctx eid eu client s))"
| delete_expense: "step s (snd (delete_expense clk ctx eid client s))"
| paste: "step s (snd (paste collate nairobi clk ctx t client s))"
| match_message: "step s (snd (match_message collate clk ctx mid mr client s))"
| record_repayment_for_message: "step s (snd (record_repayment_for_message collate sha uuid5 clk ctx mid mq client s))"
| ignore_message: "step s (snd (ignore_message collate clk ctx mid mi client s))"
| upload_receipt: "step s (snd (upload open_image put cfg clk ctx picture filename client s))"
| process_begin: "step s (snd (transaction (process_begin configured ctx rid) s))"
| process_finish: "step s (snd (transaction (process_finish clk ctx rid res (proposed_lines collate ctx rid x t) client) s))"
| process_fail: "step s (snd (transaction (process_fail ctx rid code prov model client) s))"
| confirm_receipt: "step s (snd (confirm_receipt clk ctx rid cq client s))"
| cancel_receipt: "step s (snd (cancel_receipt ctx rid client s))"

inductive reachable :: "db \<Rightarrow> bool" where
  empty: "inj u \<Longrightarrow> reachable (empty_db u)"
| more: "reachable s \<Longrightarrow> step s s' \<Longrightarrow> reachable s'"

lemmas keeps_all = inventory_keeps catalogue_keeps create_product_step create_products_bulk_step update_product_step
  create_customer_keeps record_repayment_keeps record_adjustment_keeps recompute_balances_keeps create_sale_keeps
  void_sale_keeps expenses_keep messages_keep record_repayment_for_message_keeps confirm_receipt_keeps
  receipts_keep

lemma step_keeps: "step s s' \<Longrightarrow> keeps s s'"
  by (induction rule: step.induct) (rule keeps_all)+

lemma empty_books_ok: "inj u \<Longrightarrow> books_ok (empty_db u)"
  by (simp add: books_ok_def empty_db_def fresh_ok_def known_ids_def message_ids_def stock_ok_def credit_ok_def sales_ok_def
      children_ok_def mpesa_ok_def messages_ok_def catalog_ok_def phones_ok_def expenses_ok_def refs_ok_def links_ok_def)

lemma reachable_books_ok: "reachable s \<Longrightarrow> books_ok s"
  by (induction rule: reachable.induct) (use empty_books_ok step_keeps in \<open>auto simp: keeps_def\<close>)

lemma steps_evolve: "step\<^sup>*\<^sup>* s s' \<Longrightarrow> reachable s \<Longrightarrow> reachable s' \<and> evolves s s'"
proof (induction rule: rtranclp_induct)
  case (step t u)
  then have t: "reachable t" "evolves s t" by auto
  with step(2) have "reachable u" "evolves t u"
    using step_keeps [OF step(2)] reachable_books_ok [OF t(1)] by (auto simp: keeps_def intro: reachable.more)
  with t show ?case by (blast intro: evolves_trans)
qed simp

subsection \<open>Claims\<close>

text \<open>A state with two products, one of them stocked.\<close>

definition demo_run :: db where
  "demo_run = snd (create_products_bulk demo_clock demo_owner
     [demo_new_product ''Unga'' (Some 5000), demo_new_product ''Sugar'' None] (empty_db id))"

lemma demo_run_reachable: "reachable demo_run"
  unfolding demo_run_def by (rule reachable.more [OF reachable.empty step.create_products_bulk]) simp

text \<open>
  C19: In every state the shop can reach, by any requests in any order, the books balance: the stock of a product
  is never negative and is the sum of its movements, the balance of a customer is the sum of the ledger entries, the
  payments of a sale add up to its total, the lines to its subtotal and the allocated discounts to its discount, and
  no two messages of a business share a code, a payment or a repayment.
\<close>
theorem reachable_books_balance:
  assumes "reachable s"
  shows "(\<forall>p \<in> set (products s). 0 \<le> p_stock_quantity p
        \<and> p_stock_quantity p = total_where m_quantity_delta (\<lambda>m. m_product_id m = p_id p) (movements s))
    \<and> (\<forall>c \<in> set (customers s). c_balance c = total_where ct_amount (\<lambda>t. ct_customer_id t = c_id c) (credit_transactions s))
    \<and> (\<forall>x \<in> set (sales s). sum_list (map pay_amount (payments_of (s_id x) s)) = s_total_amount x
        \<and> sum_list (map si_line_total (items_of (s_id x) s)) = s_subtotal x
        \<and> sum_list (map si_discount_allocated (items_of (s_id x) s)) = s_discount_amount x
        \<and> s_total_amount x = s_subtotal x - s_discount_amount x)
    \<and> key_unique code_key (mpesa_messages s) \<and> key_unique payment_link (mpesa_messages s) \<and> key_unique repayment_link (mpesa_messages s)"
proof -
  have ok: "books_ok s" by (rule reachable_books_ok [OF assms])
  have "\<forall>p \<in> set (products s). 0 \<le> p_stock_quantity p
        \<and> p_stock_quantity p = total_where m_quantity_delta (\<lambda>m. m_product_id m = p_id p) (movements s)"
    using ok unfolding books_ok_def stock_ok_def stock_account_def by blast
  moreover have "\<forall>c \<in> set (customers s). c_balance c = total_where ct_amount (\<lambda>t. ct_customer_id t = c_id c) (credit_transactions s)"
    using ok unfolding books_ok_def credit_ok_def credit_account_def by blast
  moreover have "\<forall>x \<in> set (sales s). sum_list (map pay_amount (payments_of (s_id x) s)) = s_total_amount x
        \<and> sum_list (map si_line_total (items_of (s_id x) s)) = s_subtotal x
        \<and> sum_list (map si_discount_allocated (items_of (s_id x) s)) = s_discount_amount x
        \<and> s_total_amount x = s_subtotal x - s_discount_amount x"
    using ok by (auto simp: books_ok_def sales_ok_def sale_ok_def sale_checks_def)
  moreover have "key_unique code_key (mpesa_messages s) \<and> key_unique payment_link (mpesa_messages s) \<and> key_unique repayment_link (mpesa_messages s)"
    using ok by (simp add: books_ok_def mpesa_ok_def)
  ultimately show ?thesis by blast
qed

theorem reachable_books_balance_witness:
  "map p_stock_quantity (products demo_run) = [5000, 0]
   \<and> list_all (\<lambda>p. p_stock_quantity p = total_where m_quantity_delta (\<lambda>m. m_product_id m = p_id p) (movements demo_run)) (products demo_run)"
proof -
  have "map p_stock_quantity (products demo_run) = [5000, 0]" by code_simp
  with reachable_books_balance [OF demo_run_reachable] show ?thesis unfolding list_all_iff by blast
qed



text \<open>
  C21: The messages refine the desk. Whatever requests run, the states of the messages move along the steps
  of the abstract machine (received, linked, unlinked, dismissed): no message disappears or changes its text, code or
  amount, and a message that was ignored stays ignored.
\<close>
theorem shop_refines_desk:
  assumes "reachable s" and "step\<^sup>*\<^sup>* s s'"
  shows "desk_step\<^sup>*\<^sup>* (desk_of (mpesa_messages s)) (desk_of (mpesa_messages s'))
    \<and> prefix (map letter (mpesa_messages s)) (map letter (mpesa_messages s'))
    \<and> (\<forall>i. desk_of (mpesa_messages s) i = Some IGNORED \<longrightarrow> desk_of (mpesa_messages s') i = Some IGNORED)"
proof -
  have "evolves s s'" using steps_evolve [OF assms(2,1)] by blast
  moreover have "B i = Some IGNORED" if "desk_step\<^sup>*\<^sup>* A B" "A i = Some IGNORED" for A B i
    using that by (induction rule: rtranclp_induct) (auto intro: desk_step_ignored)
  ultimately show ?thesis by (auto simp: evolves_def)
qed

theorem shop_refines_desk_witness:
  "desk_step\<^sup>*\<^sup>* (desk_of (mpesa_messages demo_run))
     (desk_of (mpesa_messages (snd (paste (\<lambda>_. 0) demo_nairobi demo_clock demo_owner demo_sms None demo_run))))"
  using shop_refines_desk [OF demo_run_reachable r_into_rtranclp [of step, OF step.paste]] by blast

end
