(* ===== verification/Copilot_Actions.thy ===== *)
theory Copilot_Actions
  imports Copilot Reachable
begin

text \<open>
  Applying a proposal the owner confirmed (\<open>app/services/ai_actions.py\<close>), and what the assistant can and cannot do. A
  confirmation runs in three steps of its own (check, record, mark), which requests may interleave: the first only reads,
  the second is a transaction of the service that owns the record, the third marks the message.

  The digest \<open>sha\<close> is the parameter of \<open>Credit\<close> and \<open>Sales\<close>; \<open>uuid5 i\<close> is the name-based id of the message \<open>i\<close>.
\<close>

subsection \<open>Confirming and rejecting\<close>

definition PROPOSAL_TTL :: time where "PROPOSAL_TTL = DAY_MICROS"

definition PROPOSAL_ENTITY :: string where "PROPOSAL_ENTITY = ''ai_proposal''"

definition ProposalError :: error where "ProposalError = UnprocessableError ''PROPOSAL_INVALID''"
definition ProposalStateError :: error where "ProposalStateError = ConflictError ''PROPOSAL_NOT_PENDING''"
definition ProposalExpiredError :: error where "ProposalExpiredError = ConflictError ''PROPOSAL_EXPIRED''"

definition pending_message :: "clock \<Rightarrow> BusinessContext \<Rightarrow> uuid \<Rightarrow> uuid \<Rightarrow> platform \<Rightarrow> (ai_message \<times> StoredProposal) result" where
  "pending_message clk ctx cid mid s =
     bindR (the_or NotFoundError (ai_get_conversation (business_id ctx) (user_id ctx) cid s)) (\<lambda>c.
     bindR (the_or NotFoundError (ai_get_message (business_id ctx) (cv_id c) mid s)) (\<lambda>m.
     bindR (raise_if (am_role m \<noteq> ASSISTANT) NotFoundError) (\<lambda>_.
     bindR (the_or NotFoundError (am_proposal m)) (\<lambda>stored.
     bindR (raise_if (am_proposal_status m \<noteq> Some PENDING) ProposalStateError) (\<lambda>_.
     bindR (raise_if (PROPOSAL_TTL < now clk - am_created_at m) ProposalExpiredError) (\<lambda>_.
     Inr (m, stored)))))))"

definition or_none :: "string option \<Rightarrow> string option" where
  "or_none x = (if truthy x then x else None)"

definition product_request :: "ProposeProduct \<Rightarrow> ProductCreateRequest" where
  "product_request p = \<lparr>pc_name = pn_name p, pc_category_id = None, pc_sku = None, pc_barcode = None, pc_unit = pn_unit p,
     pc_selling_price = pn_selling_price p, pc_cost_price = pn_cost_price p, pc_track_inventory = pn_track_inventory p,
     pc_low_stock_threshold = None, pc_opening_stock = pn_opening_stock p, pc_opening_unit_cost = None\<rparr>"

definition sale_request :: "ProposeSale \<Rightarrow> SaleCreateRequest" where
  "sale_request p = \<lparr>sr_lines = ps_lines p, sr_payments = map (\<lambda>l. l\<lparr>pl_reference := or_none (pl_reference l)\<rparr>) (ps_payments p),
     sr_customer_id = ps_customer_id p, sr_discount_amount = 0, sr_note = or_none (ps_note p), sr_sold_at = None,
     sr_credit_limit_override = False\<rparr>"

definition repayment_of :: "ProposeRepayment \<Rightarrow> RepaymentRequest" where
  "repayment_of p = \<lparr>rp_amount = py_amount p, rp_payment_method = py_method p, rp_reference = or_none (py_reference p),
     rp_allow_overpayment = False\<rparr>"

definition restock_request :: "ProposeRestock \<Rightarrow> RestockRequest" where
  "restock_request p = \<lparr>rq_product_id = pk_product_id p, rq_quantity = pk_quantity p,
     rq_unit_cost = (case pk_unit_cost p of None \<Rightarrow> 0 | Some c \<Rightarrow> c), rq_supplier_name = or_none (pk_supplier_name p),
     rq_reason = None, rq_update_cost_price = False\<rparr>"

text \<open>Building the request: what its schema refuses is a \<open>ProposalError\<close>.\<close>

definition request :: "('q \<Rightarrow> bool) \<Rightarrow> 'q \<Rightarrow> 'q result" where
  "request valid q = (if valid q then Inr q else Inl ProposalError)"

definition with_request :: "'q result \<Rightarrow> ('q \<Rightarrow> db \<Rightarrow> 'a result \<times> db) \<Rightarrow> db \<Rightarrow> 'a result \<times> db" where
  "with_request q f d = (case q of Inl e \<Rightarrow> (Inl e, d) | Inr q \<Rightarrow> f q d)"

text \<open>The record is written by the service that owns it, in its own transaction; the result is the id of the new row.\<close>

definition apply_proposal ::
  "(json \<Rightarrow> string) \<Rightarrow> clock \<Rightarrow> BusinessContext \<Rightarrow> uuid \<Rightarrow> proposal \<Rightarrow> ClientInfo \<Rightarrow> db \<Rightarrow> uuid result \<times> db" where
  "apply_proposal sha clk ctx key parsed client d = (case parsed of
     Product_Proposal p \<Rightarrow>
       if pn_opening_stock p \<noteq> None \<and> pn_cost_price p = None then (Inl ProposalError, d)
       else apfst (map_sum id p_id) (with_request (request valid_product_create (product_request p)) (create_product clk ctx) d)
   | Sale_Proposal p \<Rightarrow>
       apfst (map_sum id (s_id \<circ> cs_sale)) (with_request (request valid_sale_request (sale_request p))
         (\<lambda>q. create_sale sha clk ctx q (Some client) key) d)
   | Repayment_Proposal p \<Rightarrow>
       apfst (map_sum id (ct_id \<circ> entry)) (with_request (request valid_repayment (repayment_of p))
         (\<lambda>q. record_repayment sha clk ctx (py_customer_id p) q (Some client) (Some key)) d)
   | Restock_Proposal p \<Rightarrow>
       apfst (map_sum id m_id) (with_request (request valid_restock (restock_request p)) (\<lambda>q. restock clk ctx q (Some client)) d)
   | Malformed _ \<Rightarrow> (Inl ProposalError, d))"

definition confirm_check ::
  "clock \<Rightarrow> BusinessContext \<Rightarrow> uuid \<Rightarrow> uuid \<Rightarrow> proposal \<Rightarrow> platform \<Rightarrow> (StoredProposal \<times> proposal) result" where
  "confirm_check clk ctx cid mid payload s =
     bindR (pending_message clk ctx cid mid s) (\<lambda>(m, stored).
     bindR (the_or ProposalError (validate_proposal (sp_kind stored) payload)) (\<lambda>parsed.
     Inr (stored, parsed)))"

definition kind_text :: "ProposalKind \<Rightarrow> string" where
  "kind_text k = (case k of K_PRODUCT \<Rightarrow> ''product'' | K_SALE \<Rightarrow> ''sale'' | K_REPAYMENT \<Rightarrow> ''repayment'' | K_RESTOCK \<Rightarrow> ''restock'')"

definition mark_body ::
  "clock \<Rightarrow> BusinessContext \<Rightarrow> uuid \<Rightarrow> uuid \<Rightarrow> ProposalKind \<Rightarrow> uuid \<Rightarrow> bool \<Rightarrow> ClientInfo \<Rightarrow> platform \<Rightarrow> (ai_message \<times> platform) result" where
  "mark_body clk ctx cid mid kind entity changed client s =
     bindR (pending_message clk ctx cid mid s) (\<lambda>(m, _).
     let m = m\<lparr>am_proposal_status := Some APPLIED, am_proposal_entity_id := Some entity, am_proposal_applied_at := Some (now clk)\<rparr>;
         s = set_ai_message m s in
     Inr (m, with_books (audit_record ctx ''ai.proposal_apply'' PROPOSAL_ENTITY (am_id m) None
       (Some [(''kind'', JText (kind_text kind)), (''entity_id'', JUuid entity), (''edited'', JBool changed)]) (Some client) (books s)) s))"

definition mark_applied ::
  "clock \<Rightarrow> BusinessContext \<Rightarrow> uuid \<Rightarrow> uuid \<Rightarrow> ProposalKind \<Rightarrow> uuid \<Rightarrow> bool \<Rightarrow> ClientInfo \<Rightarrow> platform \<Rightarrow> ai_message result \<times> platform" where
  "mark_applied clk ctx cid mid kind entity changed client = transaction (mark_body clk ctx cid mid kind entity changed client)"

definition confirm ::
  "(json \<Rightarrow> string) \<Rightarrow> (uuid \<Rightarrow> uuid) \<Rightarrow> clock \<Rightarrow> clock \<Rightarrow> BusinessContext \<Rightarrow> uuid \<Rightarrow> uuid \<Rightarrow> proposal \<Rightarrow> ClientInfo \<Rightarrow> platform
    \<Rightarrow> ai_message result \<times> platform" where
  "confirm sha uuid5 clk clk' ctx cid mid payload client s =
     (case confirm_check clk ctx cid mid payload s of
        Inl e \<Rightarrow> (Inl e, s)
      | Inr (stored, parsed) \<Rightarrow>
          (case on_books (apply_proposal sha clk ctx (uuid5 mid) parsed client) s of
             (Inl e, s) \<Rightarrow> (Inl e, s)
           | (Inr entity, s) \<Rightarrow>
               mark_applied clk' ctx cid mid (sp_kind stored) entity (parsed \<noteq> sp_payload stored) client s))"

definition reject_body :: "clock \<Rightarrow> BusinessContext \<Rightarrow> uuid \<Rightarrow> uuid \<Rightarrow> ClientInfo \<Rightarrow> platform \<Rightarrow> (ai_message \<times> platform) result" where
  "reject_body clk ctx cid mid client s =
     bindR (pending_message clk ctx cid mid s) (\<lambda>(m, stored).
     let m = m\<lparr>am_proposal_status := Some REJECTED\<rparr>;
         s = set_ai_message m s in
     Inr (m, with_books (audit_record ctx ''ai.proposal_reject'' PROPOSAL_ENTITY (am_id m) None
       (Some [(''kind'', JText (kind_text (sp_kind stored)))]) (Some client) (books s)) s))"

definition reject :: "clock \<Rightarrow> BusinessContext \<Rightarrow> uuid \<Rightarrow> uuid \<Rightarrow> ClientInfo \<Rightarrow> platform \<Rightarrow> ai_message result \<times> platform" where
  "reject clk ctx cid mid client = transaction (reject_body clk ctx cid mid client)"


subsection \<open>Frames\<close>

lemma with_books_simps [simp]:
  "home (with_books d s) = (home s)\<lparr>shop := d\<rparr>"
  "ai_conversations (with_books d s) = ai_conversations s"
  "ai_messages (with_books d s) = ai_messages s"
  "blobs (with_books d s) = blobs s"
  "with_books (shop (home s)) s = s"
  by (simp_all add: with_books_def)

lemma set_message_simps [simp]:
  "home (set_ai_message m s) = home s"
  "ai_conversations (set_ai_message m s) = ai_conversations s"
  "blobs (set_ai_message m s) = blobs s"
  by (simp_all add: set_ai_message_def)

lemma set_conversation_simps [simp]:
  "home (set_conversation c s) = home s"
  "ai_messages (set_conversation c s) = ai_messages s"
  "blobs (set_conversation c s) = blobs s"
  by (simp_all add: set_conversation_def)

lemma other_conversations:
  "cv_id c = k \<Longrightarrow> filter (\<lambda>x. cv_id x \<noteq> k) (ai_conversations (set_conversation c s)) = filter (\<lambda>x. cv_id x \<noteq> k) (ai_conversations s)"
  unfolding set_conversation_def by (auto simp: filter_update_where intro!: update_where_none)

lemma on_books_simps:
  "fst (on_books f s) = fst (f (books s))"
  "snd (on_books f s) = with_books (snd (f (books s))) s"
  by (simp_all add: on_books_def split: prod.splits)

lemma pending_frame:
  "ai_conversations s' = ai_conversations s \<Longrightarrow> ai_messages s' = ai_messages s
    \<Longrightarrow> pending_message clk ctx cid mid s' = pending_message clk ctx cid mid s"
  by (simp add: pending_message_def ai_get_conversation_def ai_get_message_def)

lemma pending_message_success:
  assumes "pending_message clk ctx cid mid s = Inr (m, stored)"
  obtains "ai_get_conversation (business_id ctx) (user_id ctx) cid s \<noteq> None"
    "ai_get_message (business_id ctx) cid mid s = Some m" "am_role m = ASSISTANT" "am_proposal m = Some stored"
    "am_proposal_status m = Some PENDING" "now clk - am_created_at m \<le> PROPOSAL_TTL" "am_id m = mid"
proof -
  from assms obtain c where c: "ai_get_conversation (business_id ctx) (user_id ctx) cid s = Some c"
      and m: "ai_get_message (business_id ctx) (cv_id c) mid s = Some m"
      and rest: "am_role m = ASSISTANT" "am_proposal m = Some stored" "am_proposal_status m = Some PENDING"
        "now clk - am_created_at m \<le> PROPOSAL_TTL"
    by (auto simp: pending_message_def result_simps)
  from c have "cv_id c = cid" by (auto simp: ai_get_conversation_def dest!: find_SomeD)
  moreover from m have "am_id m = mid" by (auto simp: ai_get_message_def dest!: find_SomeD)
  ultimately show thesis using c m rest that by simp
qed

text \<open>A message that is no longer pending is refused, whoever asks.\<close>

lemma pending_settled:
  assumes "\<forall>x \<in> set (ai_messages s). am_id x = mid \<longrightarrow> am_proposal_status x \<noteq> Some PENDING"
  shows "pending_message clk ctx cid mid s \<in> {Inl NotFoundError, Inl ProposalStateError}"
  using assms by (auto simp: pending_message_def ai_get_message_def the_or_def bindR_def raise_if_def split: option.splits dest!: find_SomeD)

lemma settled_messages:
  assumes "am_id m = mid" and "am_proposal_status m = Some st" and "st \<noteq> PENDING"
  shows "\<forall>x \<in> set (ai_messages (set_ai_message m s)). am_id x = mid \<longrightarrow> am_proposal_status x \<noteq> Some PENDING"
  using assms by (auto simp: set_ai_message_def update_where_def)

lemma keeps_audit: "keeps d (audit_record ctx a e i b f c d)"
  by (rule reading_step) auto

lemma keeps_trans: "keeps s t \<Longrightarrow> keeps t u \<Longrightarrow> keeps s u"
  unfolding keeps_def by (blast intro: evolves_trans)

lemma with_request_cases:
  "with_request (request valid q) f d = (if valid q then f q d else (Inl ProposalError, d))"
  by (simp add: with_request_def request_def)

text \<open>A proposal is applied by one step of the shop, or not at all.\<close>

lemma apply_proposal_step:
  "snd (apply_proposal sha clk ctx key p client d) = d \<or> step d (snd (apply_proposal sha clk ctx key p client d))"
  by (cases p) (auto simp: apply_proposal_def with_request_cases intro: step.intros)

lemma apply_proposal_keeps: "keeps d (snd (apply_proposal sha clk ctx key p client d))"
  using apply_proposal_step [of sha clk ctx key p client d] step_keeps by force

lemma mark_cases:
  assumes "mark_applied clk ctx cid mid kind entity changed client s = (r, s')"
  obtains (refused) e where "r = Inl e" "s' = s" "pending_message clk ctx cid mid s = Inl e"
  | (marked) m stored after where "pending_message clk ctx cid mid s = Inr (m, stored)"
      "r = Inr (m\<lparr>am_proposal_status := Some APPLIED, am_proposal_entity_id := Some entity, am_proposal_applied_at := Some (now clk)\<rparr>)"
      "s' = with_books (audit_record ctx ''ai.proposal_apply'' PROPOSAL_ENTITY mid None after (Some client) (books s))
         (set_ai_message (m\<lparr>am_proposal_status := Some APPLIED, am_proposal_entity_id := Some entity, am_proposal_applied_at := Some (now clk)\<rparr>) s)"
proof (cases "pending_message clk ctx cid mid s")
  case (Inl e)
  then show thesis using assms by (intro refused) (auto simp: mark_applied_def mark_body_def transaction_def)
next
  case (Inr x)
  then obtain m stored where x: "pending_message clk ctx cid mid s = Inr (m, stored)" by (cases x) auto
  then have "am_id m = mid" by (rule pending_message_success)
  with x assms show thesis by (intro marked [OF x]) (auto simp: mark_applied_def mark_body_def transaction_def Let_def)
qed


subsection \<open>What answering a question writes\<close>

definition good_proposal :: "StoredProposal \<Rightarrow> bool" where
  "good_proposal p \<longleftrightarrow> validate_proposal (sp_kind p) (sp_payload p) = Some (sp_payload p)"

lemma captured_good: "pg_proposal (capture_proposal c k p) = Some x \<Longrightarrow> good_proposal x"
  by (auto simp: capture_proposal_def good_proposal_def validate_proposal_def split: option.splits if_splits)

lemma model_round_proposal:
  assumes "model_round respond pt tool turns p = Inr out" and "pg_proposal p = None"
  shows "case out of Answer _ q \<Rightarrow> \<forall>x. pg_proposal q = Some x \<longrightarrow> good_proposal x | More _ q \<Rightarrow> pg_proposal q = None"
proof -
  have keep: "pg_proposal (p\<lparr>pg_usage := a, pg_model_used := b\<rparr>) = None" for a b using assms(2) by simp
  show ?thesis using assms(1) keep
    by (auto simp: model_round_def result_simps Let_def captured_good split: if_splits option.splits)
qed

lemma converse_proposal:
  "converse respond pt tool left turns p = Inr (response, q) \<Longrightarrow> pg_proposal p = None \<Longrightarrow> pg_proposal q = Some x \<Longrightarrow> good_proposal x"
proof (induction left arbitrary: turns p)
  case 0
  then obtain out where "model_round respond pt tool turns p = Inr out"
      "(case out of Answer response p \<Rightarrow> Inr (response, p) | More _ _ \<Rightarrow> Inl (AIUnavailableError ''AI_INCOMPLETE'')) = Inr (response, q)"
    by (auto simp: result_simps)
  with model_round_proposal [OF this(1) 0(2)] 0(3) show ?case by (auto split: round.splits)
next
  case (Suc left)
  then obtain out where "model_round respond pt tool turns p = Inr out"
      "(case out of Answer response p \<Rightarrow> Inr (response, p) | More turns p \<Rightarrow> converse respond pt tool left turns p) = Inr (response, q)"
    by (auto simp: result_simps)
  with model_round_proposal [OF this(1) Suc(3)] Suc show ?case by (auto split: round.splits)
qed

lemma ask_model_proposal:
  "ask_model cfg respond tool clk ctx history s = Inr (response, q) \<Longrightarrow> pg_proposal q = Some x \<Longrightarrow> good_proposal x"
  by (auto simp: ask_model_def result_simps intro: converse_proposal)

text \<open>The next state when a message is added to the conversation \<open>cid\<close>.\<close>

definition talked :: "uuid \<Rightarrow> ai_message list \<Rightarrow> platform \<Rightarrow> platform \<Rightarrow> bool" where
  "talked cid new s s' \<longleftrightarrow> (\<exists>n. home s' = (home s)\<lparr>shop := (books s)\<lparr>draws := n\<rparr>\<rparr>) \<and> blobs s' = blobs s
     \<and> filter (\<lambda>c. cv_id c \<noteq> cid) (ai_conversations s') = filter (\<lambda>c. cv_id c \<noteq> cid) (ai_conversations s)
     \<and> ai_messages s' = ai_messages s @ new"

lemma talked_refl: "talked cid [] s s"
  unfolding talked_def by (auto intro!: exI [of _ "draws (books s)"])

lemma talked_trans:
  assumes "talked cid xs s t" and "talked cid ys t u"
  shows "talked cid (xs @ ys) s u"
  using assms unfolding talked_def by auto

lemma add_message_talked: "talked cid [fst (ai_add_message m s)] s (snd (ai_add_message m s))"
  unfolding talked_def by (auto simp: ai_add_message_def Let_def drawn_def)

lemma set_conversation_talked: "cv_id c = cid \<Longrightarrow> talked cid [] s (set_conversation c s)"
  unfolding talked_def by (auto simp: other_conversations intro!: exI [of _ "draws (books s)"])

lemma store_question_cases:
  assumes "store_question cfg clk ctx c history x s = (r, s')"
  obtains (refused) e where "r = Inl e" "s' = s" "enforce_quota (quota cfg ctx (now clk) s) = Inl e"
  | (reused) m where "r = Inr (m, c, history)" "s' = s"
  | (stored) m c' h where "r = Inr (m, c', h)" "cv_id c' = cv_id c" "enforce_quota (quota cfg ctx (now clk) s) = Inr ()"
      "m = (plain_message ctx (cv_id c) USER x (now clk))\<lparr>am_id := new_id (books s)\<rparr>" "talked (cv_id c) [m] s s'"
proof -
  define m s1 where "m = fst (ai_add_message (plain_message ctx (cv_id c) USER x (now clk)) s)"
    and "s1 = snd (ai_add_message (plain_message ctx (cv_id c) USER x (now clk)) s)"
  define c' where "c' = (if cv_title c = None then c\<lparr>cv_title := Some (take 120 x), cv_updated_at := tx_now clk\<rparr> else c)"
  define s2 where "s2 = (if cv_title c = None then set_conversation c' s1 else s1)"
  have id: "cv_id c' = cv_id c" by (simp add: c'_def)
  have m: "m = (plain_message ctx (cv_id c) USER x (now clk))\<lparr>am_id := new_id (books s)\<rparr>" by (simp add: m_def ai_add_message_def Let_def)
  have one: "talked (cv_id c) [m] s s1" unfolding m_def s1_def by (rule add_message_talked)
  have "talked (cv_id c) [] s1 s2" unfolding s2_def using set_conversation_talked [OF id] talked_refl by simp
  from talked_trans [OF one this] have talk: "talked (cv_id c) [m] s s2" by simp
  consider "history \<noteq> [] \<and> am_role (last history) = USER \<and> am_content (last history) = x"
    | e where "\<not> (history \<noteq> [] \<and> am_role (last history) = USER \<and> am_content (last history) = x)"
        "enforce_quota (quota cfg ctx (now clk) s) = Inl e"
    | "\<not> (history \<noteq> [] \<and> am_role (last history) = USER \<and> am_content (last history) = x)"
        "enforce_quota (quota cfg ctx (now clk) s) = Inr ()"
    by (cases "enforce_quota (quota cfg ctx (now clk) s)") auto
  then show thesis
  proof cases
    case 1
    with assms show thesis by (intro reused) (auto simp: store_question_def)
  next
    case 2
    from 2(2) show thesis using assms 2(1) by (intro refused) (auto simp: store_question_def)
  next
    case 3
    have "store_question cfg clk ctx c history x s = (Inr (m, c', history @ [m]), s2)"
      using 3 unfolding store_question_def if_not_P [OF 3(1)] by (simp add: transaction_def m_def s2_def s1_def c'_def Let_def split_beta)
    with assms show thesis by (intro stored [OF _ id 3(2) m]) (use talk in auto)
  qed
qed

lemma store_answer_talked:
  "\<exists>x m. store_answer cfg clk clk' ctx c question answer s = (Inr x, snd (store_answer cfg clk clk' ctx c question answer s))
     \<and> m = (answer_message clk' ctx (cv_id c) (fst answer) (snd answer))\<lparr>am_id := new_id (books s)\<rparr>
     \<and> talked (cv_id c) [m] s (snd (store_answer cfg clk clk' ctx c question answer s))"
proof -
  let ?a = "ai_add_message (answer_message clk' ctx (cv_id c) (fst answer) (snd answer)) s"
  have "talked (cv_id c) ([fst ?a] @ []) s (set_conversation (c\<lparr>cv_updated_at := now clk'\<rparr>) (snd ?a))"
    by (rule talked_trans [OF add_message_talked set_conversation_talked]) simp
  then show ?thesis by (simp add: store_answer_def transaction_def Let_def split_beta ai_add_message_def)
qed

lemma ask_cases:
  assumes "ask cfg respond tool clk clk' ctx cid content s = (r, s')"
  obtains (unknown) "r = Inl NotFoundError" "s' = s" "ai_get_conversation (business_id ctx) (user_id ctx) cid s = None"
  | (refused) e where "r = Inl e" "s' = s" "enforce_quota (quota cfg ctx (now clk) s) = Inl e"
  | (failed) e new where "r = Inl e" "talked cid new s s'" "\<forall>m \<in> set new. am_role m = USER \<and> am_proposal m = None"
      "new = [] \<or> length new = 1 \<and> enforce_quota (quota cfg ctx (now clk) s) = Inr ()"
      "\<forall>m \<in> set new. am_business_id m = business_id ctx \<and> am_conversation_id m = cid"
  | (answered) x new m where "r = Inr x" "talked cid (new @ [m]) s s'" "\<forall>m \<in> set new. am_role m = USER \<and> am_proposal m = None"
      "new = [] \<or> length new = 1 \<and> enforce_quota (quota cfg ctx (now clk) s) = Inr ()"
      "\<forall>m \<in> set (new @ [m]). am_business_id m = business_id ctx \<and> am_conversation_id m = cid" "am_role m = ASSISTANT"
      "\<forall>p. am_proposal m = Some p \<longrightarrow> good_proposal p \<and> am_proposal_status m = Some PENDING"
proof (cases "get_conversation ctx cid s")
  case (Inl e)
  then show thesis using assms by (intro unknown) (auto simp: ask_def get_conversation_def result_simps the_or_def split: option.splits)
next
  case (Inr y)
  then obtain c history where conv: "get_conversation ctx cid s = Inr (c, history)" by (cases y) auto
  then have id: "cv_id c = cid" by (auto simp: get_conversation_def result_simps ai_get_conversation_def dest!: find_SomeD)
  obtain q t where st: "store_question cfg clk ctx c history (py_strip content) s = (q, t)" by fastforce
  have more: thesis if q: "q = Inr (m, c', h)" and c': "cv_id c' = cid" and talk: "talked cid new s t"
      and new: "\<forall>m \<in> set new. am_role m = USER \<and> am_proposal m = None" "new = [] \<or> length new = 1 \<and> enforce_quota (quota cfg ctx (now clk) s) = Inr ()"
        "\<forall>m \<in> set new. am_business_id m = business_id ctx \<and> am_conversation_id m = cid" for m c' h new
  proof (cases "ask_model cfg respond tool clk ctx h t")
    case (Inl e)
    then show thesis using assms conv st q talk new by (intro failed [of e new]) (auto simp: ask_def)
  next
    case (Inr answer)
    from store_answer_talked [of cfg clk clk' ctx c' m answer t] obtain x a where
      run: "store_answer cfg clk clk' ctx c' m answer t = (Inr x, snd (store_answer cfg clk clk' ctx c' m answer t))"
      and a: "a = (answer_message clk' ctx (cv_id c') (fst answer) (snd answer))\<lparr>am_id := new_id (books t)\<rparr>"
      and talk': "talked (cv_id c') [a] t (snd (store_answer cfg clk clk' ctx c' m answer t))" by blast
    have out: "r = Inr x" "s' = snd (store_answer cfg clk clk' ctx c' m answer t)" using assms conv st q Inr run by (auto simp: ask_def)
    have "good_proposal p" if "pg_proposal (snd answer) = Some p" for p
      using ask_model_proposal [of cfg respond tool clk ctx h t "fst answer" "snd answer"] Inr that by simp
    then have good: "\<forall>p. am_proposal a = Some p \<longrightarrow> good_proposal p \<and> am_proposal_status a = Some PENDING"
      by (simp add: a answer_message_def)
    show thesis
      by (rule answered [OF out(1) _ new(1,2) _ _ good])
        (use talked_trans [OF talk talk' [unfolded c', folded out(2)]] new(3) c' in \<open>auto simp: a answer_message_def plain_message_def\<close>)
  qed
  from st show thesis
  proof (cases rule: store_question_cases)
    case (refused e)
    then show thesis using assms conv st by (intro that(2) [of e]) (auto simp: ask_def)
  next
    case (reused m)
    show thesis by (rule more [OF reused(1) id, of "[]"]) (use reused(2) talked_refl in auto)
  next
    case (stored m c' h)
    show thesis by (rule more [OF stored(1), of "[m]"]) (use stored id in \<open>auto simp: plain_message_def\<close>)
  qed
qed

end
