(* ===== verification/Copilot_Claims.thy ===== *)
theory Copilot_Claims
  imports Copilot_Actions
begin

text \<open>
  The claims about the assistant: it only talks, within its quota; a proposal becomes a record at most once where the service
  has an idempotency key, and may become two where it has none.
\<close>

subsection \<open>A conversation with a pending proposal\<close>

definition demo_room :: "db \<Rightarrow> StoredProposal \<Rightarrow> platform" where
  "demo_room d stored = \<lparr>home = (empty_site id)\<lparr>shop := d,
     users := [\<lparr>usr_id = 901, usr_phone = ''+254712345678'', usr_email = None, usr_full_name = ''Amina Otieno'', usr_password_hash = None,
       usr_google_sub = None, usr_is_active = True, usr_must_change_password = False, usr_last_login_at = None\<rparr>],
     businesses := [\<lparr>biz_id = 900, biz_name = ''Duka'', biz_business_type = GENERAL_SHOP, biz_phone = None, biz_address = None,
       biz_currency = ''KES'', biz_timezone = ''Africa/Nairobi'', biz_settings = Empty_Settings, biz_is_active = True,
       biz_created_at = 0\<rparr>]\<rparr>,
     ai_conversations = [\<lparr>cv_id = 601, cv_business_id = 900, cv_user_id = 901, cv_title = None, cv_updated_at = 0\<rparr>],
     ai_messages = [(plain_message demo_owner 601 ASSISTANT ''Check it.'' 500)\<lparr>am_id := 602, am_proposal := Some stored,
       am_proposal_status := Some PENDING\<rparr>], blobs = []\<rparr>"

definition demo_provider :: provider where
  "demo_provider pt turns = Inr \<lparr>pr_text = ''Sawa.'', pr_tool_calls = [], pr_stop_reason = ''end_turn'',
     pr_usage = \<lparr>input_tokens = 10, output_tokens = 5, cache_read_input_tokens = 0\<rparr>, pr_model = ''m'', pr_unsupported_blocks = []\<rparr>"

definition demo_ai_settings :: "nat \<Rightarrow> ai_settings" where
  "demo_ai_settings limit = \<lparr>ai_model = ''m'', ai_max_tool_rounds = 6, ai_history_messages = 20, ai_daily_message_limit = limit,
     ai_monthly_message_limit = 100, zone_date = (\<lambda>_ t. t div DAY_MICROS + EPOCH), zone_midnight = (\<lambda>_ d. (d - EPOCH) * DAY_MICROS)\<rparr>"

definition demo_refill :: ProposeRestock where
  "demo_refill = \<lparr>pk_product_id = 101, pk_quantity = 2500, pk_unit_cost = Some 12050, pk_supplier_name = None\<rparr>"

definition demo_payment :: ProposeRepayment where
  "demo_payment = \<lparr>py_customer_id = 111, py_amount = 10000, py_method = BY_CASH, py_reference = Some []\<rparr>"

definition demo_client :: ClientInfo where "demo_client = \<lparr>ip = None, user_agent = None\<rparr>"

definition demo_refill_room :: platform where
  "demo_refill_room = demo_room demo_shop \<lparr>sp_kind = K_RESTOCK, sp_payload = Restock_Proposal demo_refill\<rparr>"

definition demo_payment_room :: platform where
  "demo_payment_room = demo_room demo_debt \<lparr>sp_kind = K_REPAYMENT, sp_payload = Repayment_Proposal demo_payment\<rparr>"

lemma run_value:
  assumes "\<not> isl (fst (run :: 'a result \<times> 'b))"
  obtains x s' where "run = (Inr x, s')"
  using assms by (cases run; cases "fst run") auto

subsection \<open>Asking\<close>

text \<open>
  C34: The assistant never acts by itself. Whatever the provider answers and whatever tools it calls, a question leaves
  every table of the shop and of the accounts as it is (ids are drawn, nothing else) and every other conversation; it adds at
  most one message of the user and one of the assistant to the conversation it was asked in, which must be the caller's own.
  A proposal in the new message is PENDING and passed the schema of its kind; and when the question ends in an
  error, no message of the assistant is stored.
\<close>
theorem ask_only_talks:
  assumes "ask cfg respond tool clk clk' ctx cid content s = (r, s')"
  shows "(\<exists>n. home s' = (home s)\<lparr>shop := (books s)\<lparr>draws := n\<rparr>\<rparr>) \<and> blobs s' = blobs s
    \<and> filter (\<lambda>c. cv_id c \<noteq> cid) (ai_conversations s') = filter (\<lambda>c. cv_id c \<noteq> cid) (ai_conversations s)
    \<and> (ai_get_conversation (business_id ctx) (user_id ctx) cid s = None \<longrightarrow> r = Inl NotFoundError \<and> s' = s)
    \<and> (\<exists>new. ai_messages s' = ai_messages s @ new
        \<and> length (filter (\<lambda>m. am_role m = USER) new) \<le> 1 \<and> length (filter (\<lambda>m. am_role m = ASSISTANT) new) \<le> 1
        \<and> (isl r \<longrightarrow> filter (\<lambda>m. am_role m = ASSISTANT) new = [])
        \<and> (\<forall>m \<in> set new. am_business_id m = business_id ctx \<and> am_conversation_id m = cid)
        \<and> (\<forall>m \<in> set new. \<forall>p. am_proposal m = Some p \<longrightarrow> am_role m = ASSISTANT \<and> am_proposal_status m = Some PENDING
             \<and> validate_proposal (sp_kind p) (sp_payload p) = Some (sp_payload p)))"
proof -
  have none: "r = Inl NotFoundError \<and> s' = s" if "ai_get_conversation (business_id ctx) (user_id ctx) cid s = None"
    using assms that by (simp add: ask_def get_conversation_def)
  have "\<exists>new. talked cid new s s' \<and> length (filter (\<lambda>m. am_role m = USER) new) \<le> 1 \<and> length (filter (\<lambda>m. am_role m = ASSISTANT) new) \<le> 1
        \<and> (isl r \<longrightarrow> filter (\<lambda>m. am_role m = ASSISTANT) new = [])
        \<and> (\<forall>m \<in> set new. am_business_id m = business_id ctx \<and> am_conversation_id m = cid)
        \<and> (\<forall>m \<in> set new. \<forall>p. am_proposal m = Some p \<longrightarrow> am_role m = ASSISTANT \<and> am_proposal_status m = Some PENDING \<and> good_proposal p)"
    using assms
  proof (cases rule: ask_cases)
    case unknown
    then show ?thesis by (intro exI [of _ "[]"]) (simp add: talked_refl)
  next
    case (refused e)
    then show ?thesis by (intro exI [of _ "[]"]) (simp add: talked_refl)
  next
    case (failed e new)
    have "filter (\<lambda>m. am_role m = ASSISTANT) new = []" "length (filter (\<lambda>m. am_role m = USER) new) \<le> 1"
      using failed(3,4) by (auto simp: filter_empty_conv intro: order_trans [OF length_filter_le])
    with failed show ?thesis by (intro exI [of _ new]) auto
  next
    case (answered x new m)
    have "filter (\<lambda>m. am_role m = ASSISTANT) new = []" "length (filter (\<lambda>m. am_role m = USER) new) \<le> 1"
      using answered(3,4) by (auto simp: filter_empty_conv intro: order_trans [OF length_filter_le])
    with answered show ?thesis by (intro exI [of _ "new @ [m]"]) auto
  qed
  with none show ?thesis unfolding talked_def good_proposal_def by blast
qed

theorem ask_only_talks_witness:
  "\<exists>x s'. ask (demo_ai_settings 1) demo_provider (\<lambda>_ _ _ _. ([], True)) demo_clock demo_clock demo_owner 601 '' Habari? '' demo_refill_room = (Inr x, s')
     \<and> blobs s' = [] \<and> (\<exists>n. home s' = (home demo_refill_room)\<lparr>shop := demo_shop\<lparr>draws := n\<rparr>\<rparr>)"
proof -
  have "\<not> isl (fst (ask (demo_ai_settings 1) demo_provider (\<lambda>_ _ _ _. ([], True)) demo_clock demo_clock demo_owner 601 '' Habari? '' demo_refill_room))"
    by code_simp
  then obtain x s' where run: "ask (demo_ai_settings 1) demo_provider (\<lambda>_ _ _ _. ([], True)) demo_clock demo_clock demo_owner 601 '' Habari? '' demo_refill_room
      = (Inr x, s')" by (rule run_value)
  from ask_only_talks [OF run] run show ?thesis by (simp add: demo_refill_room_def demo_room_def)
qed

text \<open>
  C35: The quota holds. A question never takes the messages of the business since local midnight above the daily limit, nor those
  since the first of the month above the monthly one (unless they were above it already); and once either is used up, no
  message of the user is stored.
\<close>
theorem ask_quota:
  assumes "ask cfg respond tool clk clk' ctx cid content s = (r, s')"
  defines "used_today \<equiv> count_user_messages_since (business_id ctx) (local_day_start cfg (timezone ctx) (now clk))"
    and "used_this_month \<equiv> count_user_messages_since (business_id ctx) (local_month_start cfg (timezone ctx) (now clk))"
  shows "used_today s' \<le> max (used_today s) (ai_daily_message_limit cfg)
    \<and> used_this_month s' \<le> max (used_this_month s) (ai_monthly_message_limit cfg)
    \<and> (ai_daily_message_limit cfg \<le> used_today s \<or> ai_monthly_message_limit cfg \<le> used_this_month s
         \<longrightarrow> filter (\<lambda>m. am_role m = USER) (ai_messages s') = filter (\<lambda>m. am_role m = USER) (ai_messages s))"
proof -
  have room: "used_today s < ai_daily_message_limit cfg \<and> used_this_month s < ai_monthly_message_limit cfg"
    if "enforce_quota (quota cfg ctx (now clk) s) = Inr ()"
    using that by (auto simp: enforce_quota_def quota_def Let_def result_simps used_today_def used_this_month_def)
  have one: "count_user_messages_since b t s' \<le> count_user_messages_since b t s + length (filter (\<lambda>m. am_role m = USER) new)"
    if "ai_messages s' = ai_messages s @ new" for b t new
  proof -
    have "length (filter (\<lambda>m. am_business_id m = b \<and> am_role m = USER \<and> t \<le> am_created_at m) new) \<le> length (filter (\<lambda>m. am_role m = USER) new)"
      by (induction new) auto
    with that show ?thesis by (simp add: count_user_messages_since_def)
  qed
  have "\<exists>new. ai_messages s' = ai_messages s @ new \<and> (filter (\<lambda>m. am_role m = USER) new = []
      \<or> length (filter (\<lambda>m. am_role m = USER) new) \<le> 1 \<and> enforce_quota (quota cfg ctx (now clk) s) = Inr ())"
    using assms(1)
  proof (cases rule: ask_cases)
    case (failed e new)
    then show ?thesis by (intro exI [of _ new]) (auto simp: talked_def intro: order_trans [OF length_filter_le])
  next
    case (answered x new m)
    then show ?thesis by (intro exI [of _ "new @ [m]"]) (auto simp: talked_def intro: order_trans [OF length_filter_le])
  qed (rule exI [of _ "[]"], simp)+
  then obtain new where new: "ai_messages s' = ai_messages s @ new" and how: "filter (\<lambda>m. am_role m = USER) new = []
      \<or> length (filter (\<lambda>m. am_role m = USER) new) \<le> 1 \<and> enforce_quota (quota cfg ctx (now clk) s) = Inr ()" by blast
  have "used_today s' \<le> used_today s + length (filter (\<lambda>m. am_role m = USER) new)"
    "used_this_month s' \<le> used_this_month s + length (filter (\<lambda>m. am_role m = USER) new)"
    unfolding used_today_def used_this_month_def by (rule one [OF new])+
  with how room new show ?thesis by auto
qed

theorem ask_quota_witness:
  "filter (\<lambda>m. am_role m = USER) (ai_messages (snd (ask (demo_ai_settings 0) demo_provider (\<lambda>_ _ _ _. ([], True)) demo_clock demo_clock demo_owner 601
     ''Habari?'' demo_refill_room))) = []"
proof -
  obtain r s' where run: "ask (demo_ai_settings 0) demo_provider (\<lambda>_ _ _ _. ([], True)) demo_clock demo_clock demo_owner 601 ''Habari?'' demo_refill_room
      = (r, s')" by fastforce
  have "filter (\<lambda>m. am_role m = USER) (ai_messages s') = filter (\<lambda>m. am_role m = USER) (ai_messages demo_refill_room)"
    using ask_quota [OF run] by (simp add: demo_ai_settings_def)
  then show ?thesis unfolding run by (simp add: demo_refill_room_def demo_room_def plain_message_def)
qed

subsection \<open>Confirming\<close>




lemma find_settled:
  assumes "find P xs = Some m" and "\<And>x. P x \<Longrightarrow> am_id x = k" and "P m'"
  shows "find P (update_where (\<lambda>x. am_id x = k) (\<lambda>_. m') xs) = Some m'"
  using assms(1) by (induction xs) (use assms(2,3) in \<open>auto split: if_splits\<close>)

lemma marked_twice:
  assumes "mark_applied clk ctx cid mid kind entity ch client s = (Inr m, s')"
  shows "pending_message clk2 ctx cid mid s' = Inl ProposalStateError"
  using assms
proof (cases rule: mark_cases)
  case (marked m0 stored after)
  let ?m = "m0\<lparr>am_proposal_status := Some APPLIED, am_proposal_entity_id := Some entity, am_proposal_applied_at := Some (now clk)\<rparr>"
  from marked(1) obtain conv: "ai_get_conversation (business_id ctx) (user_id ctx) cid s \<noteq> None"
      and msg: "ai_get_message (business_id ctx) cid mid s = Some m0" and m0: "am_role m0 = ASSISTANT" "am_proposal m0 = Some stored" "am_id m0 = mid"
    by (rule pending_message_success)
  from conv obtain c where c0: "ai_get_conversation (business_id ctx) (user_id ctx) cid s = Some c" by auto
  have c: "ai_get_conversation (business_id ctx) (user_id ctx) cid s' = Some c" using c0 by (simp add: marked(3) ai_get_conversation_def)
  have "cv_id c = cid" using c0 by (auto simp: ai_get_conversation_def dest!: find_SomeD)
  note c = c this
  from msg have keys: "am_business_id m0 = business_id ctx \<and> am_conversation_id m0 = cid" by (auto simp: ai_get_message_def dest!: find_SomeD)
  have "ai_get_message (business_id ctx) cid mid s' = Some ?m"
    using find_settled [OF msg [unfolded ai_get_message_def], of mid ?m] keys m0(3) by (simp add: ai_get_message_def marked(3) set_ai_message_def)
  with c m0 show ?thesis by (simp add: pending_message_def the_or_def)
qed simp

lemma mark_accepted: "isl (fst (mark_applied clk ctx cid mid kind entity ch client s)) = isl (pending_message clk ctx cid mid s)"
proof -
  obtain r s' where run: "mark_applied clk ctx cid mid kind entity ch client s = (r, s')" by fastforce
  then show ?thesis by (cases rule: mark_cases) (simp_all add: run)
qed

lemma apply_again:
  assumes "apply_proposal sha clk ctx key p client d = (Inr e, d')" and "proposal_kind p \<in> {Some K_SALE, Some K_REPAYMENT}"
  shows "apply_proposal sha clk2 ctx key p client2 d' = (Inr e, d')"
proof (cases p)
  case (Sale_Proposal x)
  with assms(1) have v: "valid_sale_request (sale_request x)" by (auto simp: apply_proposal_def with_request_cases split: if_splits)
  obtain cs where run: "create_sale sha clk ctx (sale_request x) (Some client) key d = (Inr cs, d')" and e: "e = s_id (cs_sale cs)"
    using assms(1) Sale_Proposal v by (cases "fst (create_sale sha clk ctx (sale_request x) (Some client) key d)")
      (auto simp: apply_proposal_def with_request_cases apfst_def map_prod_def split: prod.splits)
  have "run_sale sha ctx key (clk, sale_request x, Some client) d = (Inr (cs_sale cs), d')" using run by (simp add: run_sale_def)
  from selling.run_stores [OF this] have "stored_sale ctx key d' = Some (sale_payload_hash sha (sale_request x), cs_sale cs)"
    by (simp add: sale_digest_def)
  from create_sale_replay [OF this] show ?thesis by (simp add: Sale_Proposal apply_proposal_def with_request_cases v e)
next
  case (Repayment_Proposal y)
  with assms(1) have v: "valid_repayment (repayment_of y)" by (auto simp: apply_proposal_def with_request_cases split: if_splits)
  obtain t where run: "record_repayment sha clk ctx (py_customer_id y) (repayment_of y) (Some client) (Some key) d = (Inr t, d')" and e: "e = ct_id (entry t)"
    using assms(1) Repayment_Proposal v
    by (cases "fst (record_repayment sha clk ctx (py_customer_id y) (repayment_of y) (Some client) (Some key) d)")
      (auto simp: apply_proposal_def with_request_cases apfst_def map_prod_def split: prod.splits)
  have "run_repayment sha ctx key (clk, py_customer_id y, repayment_of y, Some client) d = (Inr (entry t), d')" using run by (simp add: run_repayment_def)
  from repayment.run_stores [OF this]
  have "record_repayment sha clk2 ctx (py_customer_id y) (repayment_of y) (Some client2) (Some key) d' = (Inr \<lparr>entry = entry t, created = False\<rparr>, d')"
    by (intro record_repayment_replay) (simp_all add: repayment_digest_def knows_customer_def)
  then show ?thesis by (simp add: Repayment_Proposal apply_proposal_def with_request_cases v e)
qed (use assms(2) in \<open>auto simp: proposal_kind_def\<close>)

lemma restock_proposal_stock:
  assumes "apply_proposal sha clk ctx key (Restock_Proposal q) client d = (Inr e, d')"
  shows "stock_of d' (pk_product_id q) = stock_of d (pk_product_id q) + pk_quantity q"
proof -
  obtain m where "restock_in_transaction clk ctx (restock_request q) (Some client) [] d = Inr (m, d')"
    using assms by (auto simp: apply_proposal_def with_request_cases restock_def apfst_def map_prod_def transaction_def
        split: if_splits sum.splits prod.splits)
  from restock_effect(1) [OF this] show ?thesis by (simp add: restock_request_def)
qed

text \<open>
  C37: A confirmed sale or repayment is recorded once. When the service has recorded it but the proposal was not marked (the second
  transaction failed, or another confirmation of the same message is under way), confirming the same payload again writes no second
  record: the service answers with the first one and leaves the books as they are, and only the mark is added.
\<close>
theorem sale_confirmed_once:
  assumes "on_books (apply_proposal sha clk ctx (uuid5 mid) p client) s = (Inr e, s1)" and "proposal_kind p \<in> {Some K_SALE, Some K_REPAYMENT}"
    and "confirm_check clk2 ctx cid mid p s1 = Inr (stored, p)"
  shows "on_books (apply_proposal sha clk2 ctx (uuid5 mid) p client2) s1 = (Inr e, s1)
    \<and> confirm sha uuid5 clk2 clk3 ctx cid mid p client2 s1
      = mark_applied clk3 ctx cid mid (sp_kind stored) e (p \<noteq> sp_payload stored) client2 s1"
proof -
  obtain d where run: "apply_proposal sha clk ctx (uuid5 mid) p client (books s) = (Inr e, d)" and s1: "s1 = with_books d s"
    using assms(1) by (auto simp: on_books_def split: prod.splits)
  from apply_again [OF run assms(2), of clk2 client2]
  have "on_books (apply_proposal sha clk2 ctx (uuid5 mid) p client2) s1 = (Inr e, s1)" by (simp add: on_books_def s1 with_books_def)
  with assms(3) show ?thesis by (simp add: confirm_def)
qed

theorem sale_confirmed_once_witness:
  "\<exists>e s1. on_books (apply_proposal no_sha demo_clock demo_owner 602 (Repayment_Proposal demo_payment) demo_client) demo_payment_room = (Inr e, s1)
     \<and> on_books (apply_proposal no_sha demo_clock demo_owner 602 (Repayment_Proposal demo_payment) demo_client) s1 = (Inr e, s1)"
proof -
  have "\<not> isl (fst (on_books (apply_proposal no_sha demo_clock demo_owner (id 602) (Repayment_Proposal demo_payment) demo_client) demo_payment_room))"
    by code_simp
  then obtain e s1 where run: "on_books (apply_proposal no_sha demo_clock demo_owner (id 602) (Repayment_Proposal demo_payment) demo_client) demo_payment_room
      = (Inr e, s1)" by (rule run_value)
  then have s1: "s1 = with_books (books s1) demo_payment_room" by (auto simp: on_books_def with_books_def split: prod.splits)
  have check: "confirm_check demo_clock demo_owner 601 602 (Repayment_Proposal demo_payment) demo_payment_room
      = Inr (\<lparr>sp_kind = K_REPAYMENT, sp_payload = Repayment_Proposal demo_payment\<rparr>, Repayment_Proposal demo_payment)" by code_simp
  have again: "confirm_check demo_clock demo_owner 601 602 (Repayment_Proposal demo_payment) s1
      = Inr (\<lparr>sp_kind = K_REPAYMENT, sp_payload = Repayment_Proposal demo_payment\<rparr>, Repayment_Proposal demo_payment)"
    unfolding check [symmetric] confirm_check_def by (subst s1, subst pending_frame [of _ demo_payment_room]) simp_all
  have kind: "proposal_kind (Repayment_Proposal demo_payment) \<in> {Some K_SALE, Some K_REPAYMENT}" by (simp add: proposal_kind_def)
  from sale_confirmed_once [where ?uuid5.0 = id and mid = 602 and ?client2.0 = demo_client, OF run kind again] run show ?thesis by auto
qed



end
