(* ===== verification/Tokens.thy ===== *)
theory Tokens
  imports Accounts
begin

text \<open>
  Passwords (\<open>app/core/passwords.py\<close> and the rules of \<open>app/schemas/auth.py\<close>) and tokens (\<open>app/core/tokens.py\<close>).
  What comes from argon2-cffi, PyJWT and hashlib are the fields of a \<open>kit\<close>:

  \<^item> \<open>argon_hash salt p\<close> is the encoded hash of the password \<open>p\<close> under the random \<open>salt\<close>, \<open>argon_verify h p\<close> whether \<open>p\<close> matches
    \<open>h\<close> (False for every exception the code catches), \<open>argon_stale h\<close> whether \<open>h\<close> was made with other parameters or is no hash;
  \<^item> \<open>sha256\<close> is the hexadecimal digest of a text;
  \<^item> \<open>jwt_encode p\<close> signs the claims \<open>p\<close> with the secret of the server, \<open>jwt_decode clk issuer audience required t\<close> gives the claims of a
    token with a valid signature that has not expired, has all the required claims, and names the issuer and the audience, where given.

  Random values (a refresh token, a salt, a reset code) are arguments of the operations, in a \<open>rnd\<close>.
\<close>

record kit =
  argon_hash :: "string \<Rightarrow> string \<Rightarrow> string"
  argon_verify :: "string \<Rightarrow> string \<Rightarrow> bool"
  argon_stale :: "string \<Rightarrow> bool"
  sha256 :: "string \<Rightarrow> string"
  jwt_encode :: "payload \<Rightarrow> string"
  jwt_decode :: "clock \<Rightarrow> string option \<Rightarrow> string option \<Rightarrow> string list \<Rightarrow> string \<Rightarrow> payload option"
  access_token_ttl_minutes :: int
  refresh_token_ttl_days :: int
  jwt_issuer :: "string option"
  jwt_audience :: "string option"

record rnd =
  token_urlsafe :: string
  salt :: string
  randbelow :: nat

subsection \<open>Passwords\<close>

definition MAX_PASSWORD_LENGTH :: nat where "MAX_PASSWORD_LENGTH = 128"
definition MIN_PASSWORD_LENGTH :: nat where "MIN_PASSWORD_LENGTH = 8"

definition hash_password :: "kit \<Rightarrow> rnd \<Rightarrow> string \<Rightarrow> string result" where
  "hash_password k r p =
     bindR (raise_if (p = []) ValueError) (\<lambda>_.
     bindR (raise_if (MAX_PASSWORD_LENGTH < length p) ValueError) (\<lambda>_.
     Inr (argon_hash k (salt r) p)))"

definition verify_password :: "kit \<Rightarrow> string \<Rightarrow> string \<Rightarrow> bool" where
  "verify_password k h p \<longleftrightarrow> p \<noteq> [] \<and> length p \<le> MAX_PASSWORD_LENGTH \<and> argon_verify k h p"

definition needs_rehash :: "kit \<Rightarrow> string \<Rightarrow> bool" where
  "needs_rehash k h = argon_stale k h"

definition COMMON_PASSWORDS :: "string list" where
  "COMMON_PASSWORDS = [''12345678'', ''123456789'', ''1234567890'', ''password'', ''password1'', ''password123'', ''passw0rd'',
     ''qwerty123'', ''qwertyuiop'', ''iloveyou'', ''abc12345'', ''letmein1'', ''welcome1'', ''admin123'', ''sokowise'', ''sokowise1'',
     ''11111111'', ''00000000'', ''87654321'', ''football'', ''baseball'', ''sunshine'', ''princess'', ''trustno1'', ''1q2w3e4r'',
     ''123123123'', ''asdfghjk'', ''nairobi1'', ''kenya123'', ''mpesa123'']"

definition validate_new_password :: "string \<Rightarrow> string result" where
  "validate_new_password p =
     bindR (raise_if (length p < MIN_PASSWORD_LENGTH) ValueError) (\<lambda>_.
     bindR (raise_if (MAX_PASSWORD_LENGTH < length p) ValueError) (\<lambda>_.
     bindR (raise_if (py_lower p \<in> set COMMON_PASSWORDS) ValueError) (\<lambda>_.
     Inr p)))"

subsection \<open>Access tokens\<close>

definition MINUTE :: time where "MINUTE = 60000000"

definition ACCESS_TOKEN_TYPE :: string where "ACCESS_TOKEN_TYPE = ''access''"
definition SIGNUP_TOKEN_TYPE :: string where "SIGNUP_TOKEN_TYPE = ''google-signup''"
definition SIGNUP_TOKEN_TTL :: time where "SIGNUP_TOKEN_TTL = 15 * MINUTE"
definition REQUIRED_CLAIMS :: "string list" where
  "REQUIRED_CLAIMS = [''sub'', ''bid'', ''jti'', ''iat'', ''exp'', ''typ'']"

record AccessTokenClaims =
  at_user_id :: uuid
  at_business_id :: uuid
  at_token_id :: json
  at_issued_at :: time
  at_expires_at :: time

text \<open>A time in a token counts whole seconds.\<close>

definition whole_second :: "time \<Rightarrow> time" where
  "whole_second t = t div 1000000 * 1000000"

definition optional_claim :: "string \<Rightarrow> string option \<Rightarrow> payload" where
  "optional_claim name v = (if truthy v then [(name, JText (the v))] else [])"

definition access_claims :: "kit \<Rightarrow> uuid \<Rightarrow> uuid \<Rightarrow> uuid \<Rightarrow> time \<Rightarrow> payload" where
  "access_claims k uid bid jti issued =
     [(''sub'', JUuid uid), (''bid'', JUuid bid), (''jti'', JUuid jti), (''iat'', JTime (whole_second issued)),
      (''exp'', JTime (whole_second (issued + access_token_ttl_minutes k * MINUTE))), (''typ'', JText ACCESS_TOKEN_TYPE)]
     @ optional_claim ''iss'' (jwt_issuer k) @ optional_claim ''aud'' (jwt_audience k)"

definition create_access_token :: "kit \<Rightarrow> clock \<Rightarrow> uuid \<Rightarrow> uuid \<Rightarrow> site \<Rightarrow> (string \<times> time) \<times> site" where
  "create_access_token k clk uid bid s =
     ((jwt_encode k (access_claims k uid bid (next_id s) (now clk)), now clk + access_token_ttl_minutes k * MINUTE), draw s)"

definition InvalidTokenError :: error where "InvalidTokenError = AppError 401 ''INVALID_TOKEN''"

definition as_uuid :: "json option \<Rightarrow> uuid option" where
  "as_uuid j = (case j of Some (JUuid i) \<Rightarrow> Some i | _ \<Rightarrow> None)"

definition as_time :: "json option \<Rightarrow> time option" where
  "as_time j = (case j of Some (JTime t) \<Rightarrow> Some t | _ \<Rightarrow> None)"

definition decode_access_token :: "kit \<Rightarrow> clock \<Rightarrow> string \<Rightarrow> AccessTokenClaims result" where
  "decode_access_token k clk token =
     bindR (the_or InvalidTokenError (jwt_decode k clk (jwt_issuer k) (jwt_audience k) REQUIRED_CLAIMS token)) (\<lambda>p.
     bindR (raise_if (map_of p ''typ'' \<noteq> Some (JText ACCESS_TOKEN_TYPE)) InvalidTokenError) (\<lambda>_.
     (case (as_uuid (map_of p ''sub''), as_uuid (map_of p ''bid''), map_of p ''jti'', as_time (map_of p ''iat''), as_time (map_of p ''exp'')) of
        (Some sub, Some bid, Some jti, Some iat, Some until) \<Rightarrow>
          Inr \<lparr>at_user_id = sub, at_business_id = bid, at_token_id = jti, at_issued_at = iat, at_expires_at = until\<rparr>
      | _ \<Rightarrow> Inl InvalidTokenError)))"

subsection \<open>Sign-up tokens\<close>

record SignupTokenClaims =
  su_google_sub :: string
  su_email :: string
  su_name :: "string option"

definition signup_claims :: "SignupTokenClaims \<Rightarrow> uuid \<Rightarrow> time \<Rightarrow> payload" where
  "signup_claims c jti issued =
     [(''sub'', JText (su_google_sub c)), (''email'', JText (su_email c)), (''name'', opt_json JText (su_name c)), (''jti'', JUuid jti),
      (''iat'', JTime (whole_second issued)), (''exp'', JTime (whole_second (issued + SIGNUP_TOKEN_TTL))), (''typ'', JText SIGNUP_TOKEN_TYPE)]"

definition create_signup_token :: "kit \<Rightarrow> clock \<Rightarrow> SignupTokenClaims \<Rightarrow> site \<Rightarrow> string \<times> site" where
  "create_signup_token k clk c s = (jwt_encode k (signup_claims c (next_id s) (now clk)), draw s)"

definition as_text :: "json option \<Rightarrow> string option" where
  "as_text j = (case j of Some (JText t) \<Rightarrow> Some t | _ \<Rightarrow> None)"

definition decode_signup_token :: "kit \<Rightarrow> clock \<Rightarrow> string \<Rightarrow> SignupTokenClaims result" where
  "decode_signup_token k clk token =
     bindR (the_or InvalidTokenError (jwt_decode k clk None None [''sub'', ''email'', ''exp'', ''typ''] token)) (\<lambda>p.
     bindR (raise_if (map_of p ''typ'' \<noteq> Some (JText SIGNUP_TOKEN_TYPE)) InvalidTokenError) (\<lambda>_.
     (case (as_text (map_of p ''sub''), as_text (map_of p ''email'')) of
        (Some sub, Some email) \<Rightarrow> Inr \<lparr>su_google_sub = sub, su_email = email,
           su_name = (let n = as_text (map_of p ''name'') in if truthy n then n else None)\<rparr>
      | _ \<Rightarrow> Inl InvalidTokenError)))"

subsection \<open>Refresh tokens and reset codes\<close>

definition generate_refresh_token :: "rnd \<Rightarrow> string" where
  "generate_refresh_token r = token_urlsafe r"

definition hash_refresh_token :: "kit \<Rightarrow> string \<Rightarrow> string" where
  "hash_refresh_token k t = sha256 k t"

fun decimal :: "nat \<Rightarrow> nat \<Rightarrow> string" where
  "decimal 0 n = []"
| "decimal (Suc w) n = decimal w (n div 10) @ [''0123456789'' ! (n mod 10)]"

definition generate_reset_code :: "rnd \<Rightarrow> string" where
  "generate_reset_code r = decimal 6 (randbelow r mod 1000000)"

definition hash_reset_code :: "kit \<Rightarrow> uuid \<Rightarrow> string \<Rightarrow> string" where
  "hash_reset_code k uid code = sha256 k (uuid_text uid @ '':'' @ code)"

end
