(* ===== verification/Auth.thy ===== *)
theory Auth
  imports Tokens
begin

text \<open>
  Registration, login, sessions, Google sign-in and password reset (\<open>app/services/auth.py\<close>). Every public function is one
  transaction on the \<open>site\<close>, except the confirmation of a reset, which runs two. The operations take the
  \<open>kit\<close> of \<open>Tokens\<close>, the clock of the transaction and the random values they draw.
\<close>

subsection \<open>Requests and results\<close>

record RegisterRequest =
  rg_full_name :: string
  rg_phone :: string
  rg_email :: "string option"
  rg_password :: string
  rg_business_name :: string
  rg_business_type :: BusinessType
  rg_timezone :: string

record LoginRequest =
  lg_identifier :: string
  lg_password :: string

record ChangePasswordRequest =
  cp_current_password :: string
  cp_new_password :: string

record GoogleIdentity =
  gi_sub :: string
  gi_email :: string
  gi_name :: "string option"

record GoogleRegisterRequest =
  gr_registration_token :: string
  gr_phone :: string
  gr_full_name :: "string option"
  gr_business_name :: string
  gr_business_type :: BusinessType
  gr_timezone :: string

record AuthSession =
  au_access_token :: string
  au_access_expires_at :: time
  au_refresh_token :: string
  au_refresh_expires_at :: time
  au_user :: user
  au_business :: business
  au_role :: MembershipRole

record PendingGoogleSignup =
  pg_registration_token :: string
  pg_email :: string
  pg_name :: "string option"

definition InvalidCurrentPasswordError :: error where
  "InvalidCurrentPasswordError = AppError 400 ''INVALID_CURRENT_PASSWORD''"
definition invalid_credentials :: error where "invalid_credentials = UnauthorizedError ''INVALID_CREDENTIALS''"
definition invalid_refresh :: error where "invalid_refresh = UnauthorizedError ''INVALID_REFRESH_TOKEN''"
definition InvalidSignupTokenError :: error where "InvalidSignupTokenError = UnauthorizedError ''SIGNUP_TOKEN_INVALID''"
definition ResetCodeError :: error where "ResetCodeError = AppError 400 ''RESET_CODE_INVALID''"
definition SmsUnavailableError :: error where "SmsUnavailableError = AppError 503 ''SMS_UNAVAILABLE''"
definition MEMBERSHIP_INACTIVE :: error where "MEMBERSHIP_INACTIVE = PermissionDeniedError ''MEMBERSHIP_INACTIVE''"
definition BUSINESS_INACTIVE :: error where "BUSINESS_INACTIVE = PermissionDeniedError ''BUSINESS_INACTIVE''"
definition ACCOUNT_EXISTS :: error where "ACCOUNT_EXISTS = ConflictError ''ACCOUNT_EXISTS''"

definition valid_change_password :: "ChangePasswordRequest \<Rightarrow> bool" where
  "valid_change_password q \<longleftrightarrow> 1 \<le> length (cp_current_password q) \<and> length (cp_current_password q) \<le> MAX_PASSWORD_LENGTH
     \<and> \<not> isl (validate_new_password (cp_new_password q)) \<and> cp_new_password q \<noteq> cp_current_password q"

definition valid_register :: "(string \<Rightarrow> bool) \<Rightarrow> RegisterRequest \<Rightarrow> bool" where
  "valid_register zone q \<longleftrightarrow> 1 \<le> length (rg_full_name q) \<and> length (rg_full_name q) \<le> 120
     \<and> normalize_phone (rg_phone q) = Inr (rg_phone q) \<and> opt_all (\<lambda>e. normalize_email e = Inr e) (rg_email q)
     \<and> \<not> isl (validate_new_password (rg_password q)) \<and> 1 \<le> length (rg_business_name q) \<and> length (rg_business_name q) \<le> 120
     \<and> length (rg_timezone q) \<le> 64 \<and> zone (rg_timezone q)"

definition valid_google_register :: "(string \<Rightarrow> bool) \<Rightarrow> GoogleRegisterRequest \<Rightarrow> bool" where
  "valid_google_register zone q \<longleftrightarrow> 20 \<le> length (gr_registration_token q) \<and> length (gr_registration_token q) \<le> 4096
     \<and> normalize_phone (gr_phone q) = Inr (gr_phone q) \<and> opt_all (\<lambda>n. 1 \<le> length n \<and> length n \<le> 120) (gr_full_name q)
     \<and> 1 \<le> length (gr_business_name q) \<and> length (gr_business_name q) \<le> 120 \<and> length (gr_timezone q) \<le> 64 \<and> zone (gr_timezone q)"

definition valid_reset_confirm :: "string \<Rightarrow> string \<Rightarrow> bool" where
  "valid_reset_confirm code password \<longleftrightarrow> length code = 6 \<and> set code \<subseteq> set ''0123456789'' \<and> \<not> isl (validate_new_password password)"

subsection \<open>Sessions\<close>

definition resolve_active_membership :: "user \<Rightarrow> site \<Rightarrow> (membership \<times> business) result" where
  "resolve_active_membership u s =
     bindR (the_or MEMBERSHIP_INACTIVE (find mb_is_active (list_memberships (usr_id u) s))) (\<lambda>m.
     (case repo_get_business (mb_business_id m) s of
        None \<Rightarrow> Inl BUSINESS_INACTIVE
      | Some b \<Rightarrow> if biz_is_active b then Inr (m, b) else Inl BUSINESS_INACTIVE))"

definition issue_session ::
  "kit \<Rightarrow> clock \<Rightarrow> rnd \<Rightarrow> user \<Rightarrow> business \<Rightarrow> MembershipRole \<Rightarrow> ClientInfo \<Rightarrow> uuid option \<Rightarrow> uuid option \<Rightarrow> site \<Rightarrow> (AuthSession \<times> site) result" where
  "issue_session k clk r u b rl client family parent s =
     (let (access, s) = create_access_token k clk (usr_id u) (biz_id b) s;
          raw = generate_refresh_token r;
          expires = now clk + refresh_token_ttl_days k * DAY in
      bindR (create_refresh_token (usr_id u) (hash_refresh_token k raw) expires family parent
               (clipped 255 (user_agent client)) (clipped 45 (ip client)) s) (\<lambda>(row, s).
      Inr (\<lparr>au_access_token = fst access, au_access_expires_at = snd access, au_refresh_token = raw, au_refresh_expires_at = expires,
            au_user = u, au_business = b, au_role = rl\<rparr>, s)))"

definition new_user :: "string \<Rightarrow> string option \<Rightarrow> string \<Rightarrow> string option \<Rightarrow> string option \<Rightarrow> bool \<Rightarrow> user" where
  "new_user phone email name pw sub must = \<lparr>usr_id = 0, usr_phone = phone, usr_email = email, usr_full_name = name,
     usr_password_hash = pw, usr_google_sub = sub, usr_is_active = True, usr_must_change_password = must, usr_last_login_at = None\<rparr>"

definition new_business :: "string \<Rightarrow> BusinessType \<Rightarrow> string \<Rightarrow> business" where
  "new_business name type zone = \<lparr>biz_id = 0, biz_name = name, biz_business_type = type, biz_phone = None, biz_address = None,
     biz_currency = ''KES'', biz_timezone = zone, biz_settings = Empty_Settings, biz_is_active = True,
     biz_created_at = 0\<rparr>"

definition create_owner_body ::
  "kit \<Rightarrow> clock \<Rightarrow> rnd \<Rightarrow> user \<Rightarrow> business \<Rightarrow> ClientInfo \<Rightarrow> site \<Rightarrow> (AuthSession \<times> site) result" where
  "create_owner_body k clk r u b client s =
     bindR (add_user u s) (\<lambda>(u, s).
     let (b, s) = add_business clk b s in
     bindR (add_membership clk (biz_id b) (usr_id u) OWNER s) (\<lambda>(_, s).
     issue_session k clk r u b OWNER client None None s))"

definition account_exists :: "'a result \<times> site \<Rightarrow> 'a result \<times> site" where
  "account_exists out = (case out of
     (Inl (IntegrityError c), s) \<Rightarrow> (Inl (if c \<in> {uq_users_phone, uq_users_email, uq_users_google_sub} then ACCOUNT_EXISTS else IntegrityError c), s)
   | _ \<Rightarrow> out)"

definition create_owner_account ::
  "kit \<Rightarrow> clock \<Rightarrow> rnd \<Rightarrow> user \<Rightarrow> business \<Rightarrow> ClientInfo \<Rightarrow> site \<Rightarrow> AuthSession result \<times> site" where
  "create_owner_account k clk r u b client s = account_exists (transaction (create_owner_body k clk r u b client) s)"

definition register :: "kit \<Rightarrow> clock \<Rightarrow> rnd \<Rightarrow> RegisterRequest \<Rightarrow> ClientInfo \<Rightarrow> site \<Rightarrow> AuthSession result \<times> site" where
  "register k clk r data client s = (case hash_password k r (rg_password data) of
     Inl e \<Rightarrow> (Inl e, s)
   | Inr pw \<Rightarrow> create_owner_account k clk r (new_user (rg_phone data) (rg_email data) (rg_full_name data) (Some pw) None False)
       (new_business (rg_business_name data) (rg_business_type data) (rg_timezone data)) client s)"

definition find_user_by_identifier :: "string \<Rightarrow> site \<Rightarrow> user option" where
  "find_user_by_identifier x s =
     (if looks_like_email x then (case normalize_email x of Inl _ \<Rightarrow> None | Inr e \<Rightarrow> get_user_by_email e s)
      else (case normalize_phone x of Inl _ \<Rightarrow> None | Inr p \<Rightarrow> get_user_by_phone p s))"

text \<open>The checks before a session is opened: the answer does not tell which of them failed.\<close>

definition check_credentials :: "kit \<Rightarrow> LoginRequest \<Rightarrow> site \<Rightarrow> (user \<times> string) result" where
  "check_credentials k data s =
     bindR (the_or invalid_credentials (find_user_by_identifier (lg_identifier data) s)) (\<lambda>u.
     bindR (the_or invalid_credentials (usr_password_hash u)) (\<lambda>h.
     bindR (raise_if (\<not> verify_password k h (lg_password data)) invalid_credentials) (\<lambda>_.
     bindR (raise_if (\<not> usr_is_active u) invalid_credentials) (\<lambda>_.
     Inr (u, h)))))"

definition login_body :: "kit \<Rightarrow> clock \<Rightarrow> rnd \<Rightarrow> LoginRequest \<Rightarrow> ClientInfo \<Rightarrow> site \<Rightarrow> (AuthSession \<times> site) result" where
  "login_body k clk r data client s =
     bindR (check_credentials k data s) (\<lambda>(u, h).
     bindR (if needs_rehash k h then bindR (hash_password k r (lg_password data)) (\<lambda>h. Inr (u\<lparr>usr_password_hash := Some h\<rparr>)) else Inr u) (\<lambda>u.
     bindR (resolve_active_membership u s) (\<lambda>(m, b).
     let u = u\<lparr>usr_last_login_at := Some (now clk)\<rparr> in
     issue_session k clk r u b (mb_role m) client None None (set_user u s))))"

definition login :: "kit \<Rightarrow> clock \<Rightarrow> rnd \<Rightarrow> LoginRequest \<Rightarrow> ClientInfo \<Rightarrow> site \<Rightarrow> AuthSession result \<times> site" where
  "login k clk r data client = transaction (login_body k clk r data client)"

definition refresh_body :: "kit \<Rightarrow> clock \<Rightarrow> rnd \<Rightarrow> string \<Rightarrow> ClientInfo \<Rightarrow> site \<Rightarrow> (AuthSession option \<times> site) result" where
  "refresh_body k clk r raw client s =
     (let h = hash_refresh_token k raw in
      (case consume clk h s of
         (None, s) \<Rightarrow> (case get_by_hash h s of
             None \<Rightarrow> Inr (None, s)
           | Some t \<Rightarrow> Inr (None, if rt_revoked_at t \<noteq> None then revoke_family clk (rt_family_id t) s else s))
       | (Some row, s) \<Rightarrow> (case get_user_by_id (rt_user_id row) s of
             None \<Rightarrow> Inr (None, revoke_family clk (rt_family_id row) s)
           | Some u \<Rightarrow>
               if \<not> usr_is_active u then Inr (None, revoke_family clk (rt_family_id row) s)
               else bindR (resolve_active_membership u s) (\<lambda>(m, b).
                 bindR (issue_session k clk r u b (mb_role m) client (Some (rt_family_id row)) (Some (rt_id row)) s) (\<lambda>(auth, s).
                 Inr (Some auth, s))))))"

definition refresh :: "kit \<Rightarrow> clock \<Rightarrow> rnd \<Rightarrow> string \<Rightarrow> ClientInfo \<Rightarrow> site \<Rightarrow> AuthSession result \<times> site" where
  "refresh k clk r raw client s = (case transaction (refresh_body k clk r raw client) s of
     (Inl e, s) \<Rightarrow> (Inl e, s)
   | (Inr None, s) \<Rightarrow> (Inl invalid_refresh, s)
   | (Inr (Some auth), s) \<Rightarrow> (Inr auth, s))"

definition get_business_for_context :: "BusinessContext \<Rightarrow> site \<Rightarrow> business result" where
  "get_business_for_context ctx s = the_or BUSINESS_INACTIVE (repo_get_business (business_id ctx) s)"

definition logout :: "kit \<Rightarrow> clock \<Rightarrow> string option \<Rightarrow> site \<Rightarrow> unit result \<times> site" where
  "logout k clk raw s =
     (if \<not> truthy raw then (Inr (), s)
      else transaction (\<lambda>s. Inr ((), case get_by_hash (hash_refresh_token k (the raw)) s of
        None \<Rightarrow> s | Some t \<Rightarrow> revoke_family clk (rt_family_id t) s)) s)"

definition logout_all :: "clock \<Rightarrow> user \<Rightarrow> site \<Rightarrow> unit result \<times> site" where
  "logout_all clk u = transaction (\<lambda>s. Inr ((), revoke_all_for_user clk (usr_id u) s))"

definition change_password_body ::
  "kit \<Rightarrow> clock \<Rightarrow> rnd \<Rightarrow> user \<Rightarrow> ChangePasswordRequest \<Rightarrow> ClientInfo \<Rightarrow> site \<Rightarrow> (AuthSession \<times> site) result" where
  "change_password_body k clk r u data client s =
     bindR (raise_if (\<not> opt_all (\<lambda>h. verify_password k h (cp_current_password data)) (usr_password_hash u) \<or> usr_password_hash u = None)
       InvalidCurrentPasswordError) (\<lambda>_.
     bindR (resolve_active_membership u s) (\<lambda>(m, b).
     bindR (hash_password k r (cp_new_password data)) (\<lambda>h.
     let u = u\<lparr>usr_password_hash := Some h, usr_must_change_password := False\<rparr> in
     issue_session k clk r u b (mb_role m) client None None (revoke_all_for_user clk (usr_id u) (set_user u s)))))"

definition change_password ::
  "kit \<Rightarrow> clock \<Rightarrow> rnd \<Rightarrow> user \<Rightarrow> ChangePasswordRequest \<Rightarrow> ClientInfo \<Rightarrow> site \<Rightarrow> AuthSession result \<times> site" where
  "change_password k clk r u data client = transaction (change_password_body k clk r u data client)"

subsection \<open>Google\<close>

definition google_user :: "string \<Rightarrow> string \<Rightarrow> site \<Rightarrow> user option" where
  "google_user sub email s = (case get_user_by_google_sub sub s of
     Some u \<Rightarrow> Some u
   | None \<Rightarrow> (case get_user_by_email email s of
       None \<Rightarrow> None
     | Some u \<Rightarrow> Some (if usr_google_sub u = None then u\<lparr>usr_google_sub := Some sub\<rparr> else u)))"

definition google_sign_in_body ::
  "kit \<Rightarrow> clock \<Rightarrow> rnd \<Rightarrow> GoogleIdentity \<Rightarrow> string \<Rightarrow> ClientInfo \<Rightarrow> site \<Rightarrow> ((AuthSession + PendingGoogleSignup) \<times> site) result" where
  "google_sign_in_body k clk r identity email client s =
     (case google_user (gi_sub identity) email s of
        None \<Rightarrow>
          let (token, s) = create_signup_token k clk \<lparr>su_google_sub = gi_sub identity, su_email = email, su_name = gi_name identity\<rparr> s in
          Inr (Inr \<lparr>pg_registration_token = token, pg_email = email, pg_name = gi_name identity\<rparr>, s)
      | Some u \<Rightarrow>
          bindR (raise_if (\<not> usr_is_active u) invalid_credentials) (\<lambda>_.
          bindR (resolve_active_membership u s) (\<lambda>(m, b).
          let u = u\<lparr>usr_last_login_at := Some (now clk)\<rparr> in
          bindR (issue_session k clk r u b (mb_role m) client None None (set_user u s)) (\<lambda>(auth, s).
          Inr (Inl auth, s)))))"

definition google_sign_in ::
  "kit \<Rightarrow> clock \<Rightarrow> rnd \<Rightarrow> GoogleIdentity \<Rightarrow> ClientInfo \<Rightarrow> site \<Rightarrow> (AuthSession + PendingGoogleSignup) result \<times> site" where
  "google_sign_in k clk r identity client s = (case normalize_email (gi_email identity) of
     Inl _ \<Rightarrow> (Inl invalid_credentials, s)
   | Inr email \<Rightarrow> transaction (google_sign_in_body k clk r identity email client) s)"

definition google_register ::
  "kit \<Rightarrow> clock \<Rightarrow> rnd \<Rightarrow> GoogleRegisterRequest \<Rightarrow> ClientInfo \<Rightarrow> site \<Rightarrow> AuthSession result \<times> site" where
  "google_register k clk r data client s = (case decode_signup_token k clk (gr_registration_token data) of
     Inl _ \<Rightarrow> (Inl InvalidSignupTokenError, s)
   | Inr c \<Rightarrow>
       let name = (if truthy (gr_full_name data) then the (gr_full_name data)
                   else if truthy (su_name c) then the (su_name c) else takeWhile (\<lambda>x. x \<noteq> CHR ''@'') (su_email c)) in
       create_owner_account k clk r (new_user (gr_phone data) (Some (su_email c)) name None (Some (su_google_sub c)) False)
         (new_business (gr_business_name data) (gr_business_type data) (gr_timezone data)) client s)"

subsection \<open>Password reset by SMS\<close>

definition RESET_CODE_TTL :: time where "RESET_CODE_TTL = 10 * MINUTE"

definition reset_sms_text :: "string \<Rightarrow> string" where
  "reset_sms_text code = ''SokoWise: your code is '' @ code @ ''. It expires in 10 minutes. If you did not ask for it, ignore this message.''"

definition request_body :: "kit \<Rightarrow> clock \<Rightarrow> rnd \<Rightarrow> string \<Rightarrow> ClientInfo \<Rightarrow> site \<Rightarrow> (string option \<times> site) result" where
  "request_body k clk r phone client s = (case get_user_by_phone phone s of
     None \<Rightarrow> Inr (None, s)
   | Some u \<Rightarrow>
       if \<not> usr_is_active u then Inr (None, s)
       else let code = generate_reset_code r in
         Inr (Some code, create_code clk (usr_id u) (hash_reset_code k (usr_id u) code) (now clk + RESET_CODE_TTL) (clipped 45 (ip client))
           (expire_open_codes clk (usr_id u) s)))"

text \<open>\<open>send phone text\<close> is whether the gateway accepts the message.\<close>

definition request_password_reset ::
  "kit \<Rightarrow> (string \<Rightarrow> string \<Rightarrow> bool) \<Rightarrow> clock \<Rightarrow> rnd \<Rightarrow> string \<Rightarrow> ClientInfo \<Rightarrow> site \<Rightarrow> unit result \<times> site" where
  "request_password_reset k send clk r phone client s = (case normalize_phone phone of
     Inl _ \<Rightarrow> (Inr (), s)
   | Inr p \<Rightarrow> (case transaction (request_body k clk r p client) s of
       (Inl e, s) \<Rightarrow> (Inl e, s)
     | (Inr None, s) \<Rightarrow> (Inr (), s)
     | (Inr (Some code), s) \<Rightarrow> (if send p (reset_sms_text code) then Inr () else Inl SmsUnavailableError, s)))"

definition consume_body :: "kit \<Rightarrow> clock \<Rightarrow> string \<Rightarrow> string \<Rightarrow> site \<Rightarrow> ((user \<times> reset_code option) \<times> site) result" where
  "consume_body k clk phone code s =
     bindR (the_or ResetCodeError (get_user_by_phone phone s)) (\<lambda>u.
     bindR (raise_if (\<not> usr_is_active u) ResetCodeError) (\<lambda>_.
     bindR (consume_code clk (usr_id u) (hash_reset_code k (usr_id u) code) s) (\<lambda>(c, s).
     Inr ((u, c), s))))"

definition count_body :: "clock \<Rightarrow> uuid \<Rightarrow> site \<Rightarrow> (unit \<times> site) result" where
  "count_body clk uid s = Inr ((), case latest_open_code clk uid s of None \<Rightarrow> s | Some c \<Rightarrow> count_attempt (rc_id c) s)"

definition sms_context :: "user \<Rightarrow> membership \<Rightarrow> BusinessContext" where
  "sms_context u m = \<lparr>user_id = usr_id u, business_id = mb_business_id m, membership_id = mb_id m, role = mb_role m, timezone = ''UTC'',
     settings = \<lparr>staff_can_restock = False, sale_backdate_days = 7, low_stock_default_threshold = 5\<rparr>\<rparr>"

definition reset_body :: "kit \<Rightarrow> clock \<Rightarrow> rnd \<Rightarrow> user \<Rightarrow> string \<Rightarrow> ClientInfo \<Rightarrow> site \<Rightarrow> (unit \<times> site) result" where
  "reset_body k clk r u password client s =
     bindR (hash_password k r password) (\<lambda>h.
     let u = u\<lparr>usr_password_hash := Some h, usr_must_change_password := False\<rparr>;
         s = revoke_all_for_user clk (usr_id u) (set_user u s) in
     bindR (resolve_active_membership u s) (\<lambda>(m, _).
     Inr ((), audited (sms_context u m) ''user.password_reset'' ''user'' (usr_id u) None (Some [(''method'', JText ''sms_code'')]) (Some client) s)))"

definition confirm_password_reset ::
  "kit \<Rightarrow> clock \<Rightarrow> clock \<Rightarrow> rnd \<Rightarrow> string \<Rightarrow> string \<Rightarrow> string \<Rightarrow> ClientInfo \<Rightarrow> site \<Rightarrow> unit result \<times> site" where
  "confirm_password_reset k clk clk' r phone code password client s = (case normalize_phone phone of
     Inl _ \<Rightarrow> (Inl ResetCodeError, s)
   | Inr p \<Rightarrow> (case transaction (consume_body k clk p code) s of
       (Inl e, s) \<Rightarrow> (Inl e, s)
     | (Inr (u, None), s) \<Rightarrow> (case transaction (count_body clk' (usr_id u)) s of
           (Inl e, s) \<Rightarrow> (Inl e, s) | (Inr _, s) \<Rightarrow> (Inl ResetCodeError, s))
     | (Inr (u, Some _), s) \<Rightarrow> transaction (reset_body k clk' r u password client) s))"

end
