(* ===== verification/Members.thy ===== *)
theory Members
  imports Auth
begin

text \<open>
  The members and the profile of a business (\<open>app/services/members.py\<close>, \<open>app/services/business.py\<close>), and the checks every request
  passes before it reaches a service (\<open>app/api/deps.py\<close>): the user of the access token, the membership in the business it
  names, and the role. The locks on the business row serialise the changes of memberships, so each operation is one step.
\<close>

subsection \<open>Requests\<close>

record StaffCreateRequest =
  sc_full_name :: string
  sc_phone :: string
  sc_email :: "string option"
  sc_password :: string

record MemberUpdateRequest =
  mu_role :: "MembershipRole option"
  mu_is_active :: "bool option"

definition something_to_change :: "MemberUpdateRequest \<Rightarrow> bool" where
  "something_to_change q \<longleftrightarrow> mu_role q \<noteq> None \<or> mu_is_active q \<noteq> None"

text \<open>A field of a patch is \<open>None\<close> when the request leaves it out and \<open>Some None\<close> when it is null.\<close>

record BusinessUpdateRequest =
  bu_name :: "string option option"
  bu_business_type :: "BusinessType option option"
  bu_phone :: "string option option"
  bu_address :: "string option option"
  bu_timezone :: "string option option"
  bu_settings :: "BusinessSettings option option"

definition valid_staff_create :: "StaffCreateRequest \<Rightarrow> bool" where
  "valid_staff_create q \<longleftrightarrow> 1 \<le> length (sc_full_name q) \<and> length (sc_full_name q) \<le> 120
     \<and> normalize_phone (sc_phone q) = Inr (sc_phone q) \<and> opt_all (\<lambda>e. normalize_email e = Inr e) (sc_email q)
     \<and> \<not> isl (validate_new_password (sc_password q))"

definition valid_business_update :: "(string \<Rightarrow> bool) \<Rightarrow> BusinessUpdateRequest \<Rightarrow> bool" where
  "valid_business_update zone q \<longleftrightarrow>
     opt_all (opt_all (\<lambda>n. 1 \<le> length n \<and> length n \<le> 120)) (bu_name q)
     \<and> opt_all (opt_all (\<lambda>p. normalize_phone p = Inr p)) (bu_phone q)
     \<and> opt_all (opt_all (\<lambda>a. length a \<le> 255)) (bu_address q)
     \<and> opt_all (opt_all (\<lambda>z. length z \<le> 64 \<and> zone z)) (bu_timezone q)
     \<and> opt_all (opt_all (\<lambda>v. 0 \<le> sale_backdate_days v \<and> sale_backdate_days v \<le> 90
          \<and> 0 \<le> low_stock_default_threshold v \<and> low_stock_default_threshold v \<le> 100000)) (bu_settings q)"

definition LAST_OWNER :: error where "LAST_OWNER = ConflictError ''LAST_OWNER''"
definition PERMISSION_DENIED :: error where "PERMISSION_DENIED = PermissionDeniedError ''FORBIDDEN''"

definition USER_ENTITY :: string where "USER_ENTITY = ''user''"
definition BUSINESS_ENTITY :: string where "BUSINESS_ENTITY = ''business''"

definition role_text :: "MembershipRole \<Rightarrow> string" where
  "role_text r = (case r of OWNER \<Rightarrow> ''OWNER'' | STAFF \<Rightarrow> ''STAFF'')"

subsection \<open>Members\<close>

definition list_members :: "BusinessContext \<Rightarrow> site \<Rightarrow> membership list" where
  "list_members ctx s = repo_list_members (business_id ctx) s"

definition get_member :: "BusinessContext \<Rightarrow> uuid \<Rightarrow> site \<Rightarrow> membership result" where
  "get_member ctx uid s = the_or NotFoundError (repo_get_member (business_id ctx) uid s)"

definition create_staff_body ::
  "kit \<Rightarrow> clock \<Rightarrow> rnd \<Rightarrow> BusinessContext \<Rightarrow> StaffCreateRequest \<Rightarrow> ClientInfo \<Rightarrow> site \<Rightarrow> (uuid \<times> site) result" where
  "create_staff_body k clk r ctx data client s =
     bindR (hash_password k r (sc_password data)) (\<lambda>pw.
     bindR (add_user (new_user (sc_phone data) (sc_email data) (sc_full_name data) (Some pw) None True) s) (\<lambda>(u, s).
     bindR (add_membership clk (business_id ctx) (usr_id u) STAFF s) (\<lambda>(_, s).
     Inr (usr_id u, audited ctx ''user.create'' USER_ENTITY (usr_id u) None
       (Some [(''role'', JText (role_text STAFF)), (''is_active'', JBool True)]) (Some client) s))))"

definition create_staff ::
  "kit \<Rightarrow> clock \<Rightarrow> rnd \<Rightarrow> BusinessContext \<Rightarrow> StaffCreateRequest \<Rightarrow> ClientInfo \<Rightarrow> site \<Rightarrow> membership result \<times> site" where
  "create_staff k clk r ctx data client s =
     (case account_exists (transaction (create_staff_body k clk r ctx data client) s) of
        (Inl e, s) \<Rightarrow> (Inl e, s)
      | (Inr uid, s) \<Rightarrow> (get_member ctx uid s, s))"

definition change_role :: "BusinessContext \<Rightarrow> MembershipRole \<Rightarrow> ClientInfo \<Rightarrow> membership \<times> site \<Rightarrow> membership \<times> site" where
  "change_role ctx new_role client ms = (case ms of (m, s) \<Rightarrow>
     if new_role = mb_role m then (m, s)
     else let m' = m\<lparr>mb_role := new_role\<rparr> in
       (m', audited ctx ''user.role_change'' USER_ENTITY (mb_user_id m) (Some [(''role'', JText (role_text (mb_role m)))])
          (Some [(''role'', JText (role_text new_role))]) (Some client) (set_membership m' s)))"

definition change_active :: "clock \<Rightarrow> BusinessContext \<Rightarrow> bool \<Rightarrow> ClientInfo \<Rightarrow> membership \<times> site \<Rightarrow> membership \<times> site" where
  "change_active clk ctx new_active client ms = (case ms of (m, s) \<Rightarrow>
     if new_active = mb_is_active m then (m, s)
     else let m' = m\<lparr>mb_is_active := new_active\<rparr>;
              s = set_membership m' s;
              s = (if new_active then s else revoke_all_for_user clk (mb_user_id m) s) in
       (m', audited ctx (if new_active then ''user.reactivate'' else ''user.deactivate'') USER_ENTITY (mb_user_id m)
          (Some [(''is_active'', JBool (\<not> new_active))]) (Some [(''is_active'', JBool new_active)]) (Some client) s))"

definition update_member_body ::
  "clock \<Rightarrow> BusinessContext \<Rightarrow> uuid \<Rightarrow> MemberUpdateRequest \<Rightarrow> ClientInfo \<Rightarrow> site \<Rightarrow> (membership \<times> site) result" where
  "update_member_body clk ctx uid data client s =
     bindR (the_or NotFoundError (repo_get_business (business_id ctx) s)) (\<lambda>_.
     bindR (get_member ctx uid s) (\<lambda>m.
     let new_role = (case mu_role data of None \<Rightarrow> mb_role m | Some r \<Rightarrow> r);
         new_active = (case mu_is_active data of None \<Rightarrow> mb_is_active m | Some a \<Rightarrow> a);
         was_active_owner = (mb_role m = OWNER \<and> mb_is_active m);
         stays_active_owner = (new_role = OWNER \<and> new_active) in
     bindR (raise_if (was_active_owner \<and> \<not> stays_active_owner \<and> count_active_owners (business_id ctx) s \<le> 1) LAST_OWNER) (\<lambda>_.
     Inr (change_active clk ctx new_active client (change_role ctx new_role client (m, s))))))"

definition update_member ::
  "clock \<Rightarrow> BusinessContext \<Rightarrow> uuid \<Rightarrow> MemberUpdateRequest \<Rightarrow> ClientInfo \<Rightarrow> site \<Rightarrow> membership result \<times> site" where
  "update_member clk ctx uid data client = transaction (update_member_body clk ctx uid data client)"

definition reset_password_body ::
  "kit \<Rightarrow> clock \<Rightarrow> rnd \<Rightarrow> BusinessContext \<Rightarrow> uuid \<Rightarrow> string \<Rightarrow> ClientInfo \<Rightarrow> site \<Rightarrow> (unit \<times> site) result" where
  "reset_password_body k clk r ctx uid password client s =
     bindR (get_member ctx uid s) (\<lambda>m.
     bindR (raise_if (mb_user_id m = user_id ctx) PERMISSION_DENIED) (\<lambda>_.
     bindR (raise_if (mb_role m \<noteq> STAFF) PERMISSION_DENIED) (\<lambda>_.
     bindR (the_or NotFoundError (get_user_by_id (mb_user_id m) s)) (\<lambda>u.
     bindR (hash_password k r password) (\<lambda>h.
     let s = revoke_all_for_user clk (mb_user_id m) (set_user (u\<lparr>usr_password_hash := Some h, usr_must_change_password := True\<rparr>) s) in
     Inr ((), audited ctx ''user.password_reset'' USER_ENTITY (mb_user_id m) None None (Some client) s))))))"

definition reset_password ::
  "kit \<Rightarrow> clock \<Rightarrow> rnd \<Rightarrow> BusinessContext \<Rightarrow> uuid \<Rightarrow> string \<Rightarrow> ClientInfo \<Rightarrow> site \<Rightarrow> unit result \<times> site" where
  "reset_password k clk r ctx uid password client = transaction (reset_password_body k clk r ctx uid password client)"

subsection \<open>The profile of a business\<close>

definition get_business :: "BusinessContext \<Rightarrow> site \<Rightarrow> business result" where
  "get_business ctx s = the_or NotFoundError (repo_get_business (business_id ctx) s)"

definition business_type_text :: "BusinessType \<Rightarrow> string" where
  "business_type_text t = (case t of GENERAL_SHOP \<Rightarrow> ''GENERAL_SHOP'' | BOUTIQUE \<Rightarrow> ''BOUTIQUE'' | SALON \<Rightarrow> ''SALON''
     | RESTAURANT \<Rightarrow> ''RESTAURANT'' | ELECTRONICS \<Rightarrow> ''ELECTRONICS'' | OTHER \<Rightarrow> ''OTHER'')"

definition settings_dump :: "stored_settings \<Rightarrow> json" where
  "settings_dump x = (case x of Empty_Settings \<Rightarrow> JObject [] | Null_Settings \<Rightarrow> JNull
     | Settings v \<Rightarrow> JObject [(''staff_can_restock'', JBool (staff_can_restock v)), (''sale_backdate_days'', JInt (sale_backdate_days v)),
         (''low_stock_default_threshold'', JInt (low_stock_default_threshold v))])"

text \<open>One round of the loop over the fields: the current and the new value as JSON, the change on the row; a field the request
  leaves out is skipped, and an equal value is not a change.\<close>

definition stored :: "BusinessSettings option \<Rightarrow> stored_settings" where
  "stored v = (case v of None \<Rightarrow> Null_Settings | Some x \<Rightarrow> Settings x)"

type_synonym patch = "payload \<times> payload \<times> business"

definition patch_field :: "string \<Rightarrow> json \<Rightarrow> json option \<Rightarrow> (business \<Rightarrow> business) \<Rightarrow> patch \<Rightarrow> patch" where
  "patch_field field current new upd p = (case p of (before, after, b) \<Rightarrow>
     (case new of None \<Rightarrow> p
      | Some v \<Rightarrow> if current = v then p else (before @ [(field, current)], after @ [(field, v)], upd b)))"

definition patch_business :: "BusinessUpdateRequest \<Rightarrow> business \<Rightarrow> patch" where
  "patch_business q b =
     (patch_field ''settings'' (settings_dump (biz_settings b)) (map_option (settings_dump \<circ> stored) (bu_settings q))
        (biz_settings_update (\<lambda>_. stored (the (bu_settings q))))
     \<circ> patch_field ''timezone'' (JText (biz_timezone b)) (map_option (opt_json JText) (bu_timezone q)) (biz_timezone_update (\<lambda>_. the (the (bu_timezone q))))
     \<circ> patch_field ''address'' (opt_json JText (biz_address b)) (map_option (opt_json JText) (bu_address q)) (biz_address_update (\<lambda>_. the (bu_address q)))
     \<circ> patch_field ''phone'' (opt_json JText (biz_phone b)) (map_option (opt_json JText) (bu_phone q)) (biz_phone_update (\<lambda>_. the (bu_phone q)))
     \<circ> patch_field ''business_type'' (JText (business_type_text (biz_business_type b)))
         (map_option (opt_json (JText \<circ> business_type_text)) (bu_business_type q)) (biz_business_type_update (\<lambda>_. the (the (bu_business_type q))))
     \<circ> patch_field ''name'' (JText (biz_name b)) (map_option (opt_json JText) (bu_name q)) (biz_name_update (\<lambda>_. the (the (bu_name q)))))
     ([], [], b)"

text \<open>A null in a column that must not be null is refused by the database when the row is flushed.\<close>

definition nulls_required :: "BusinessUpdateRequest \<Rightarrow> bool" where
  "nulls_required q \<longleftrightarrow> bu_name q = Some None \<or> bu_business_type q = Some None \<or> bu_timezone q = Some None"

definition update_business_body ::
  "BusinessContext \<Rightarrow> BusinessUpdateRequest \<Rightarrow> ClientInfo \<Rightarrow> site \<Rightarrow> (business \<times> site) result" where
  "update_business_body ctx data client s =
     bindR (the_or NotFoundError (repo_get_business (business_id ctx) s)) (\<lambda>b.
     (case patch_business data b of (before, after, b') \<Rightarrow>
        if after = [] then Inr (b', s)
        else bindR (raise_if (nulls_required data) (IntegrityError check_violated)) (\<lambda>_.
          Inr (b', audited ctx ''business.update'' BUSINESS_ENTITY (biz_id b) (Some before) (Some after) (Some client) (set_business b' s)))))"

definition update_business ::
  "BusinessContext \<Rightarrow> BusinessUpdateRequest \<Rightarrow> ClientInfo \<Rightarrow> site \<Rightarrow> business result \<times> site" where
  "update_business ctx data client = transaction (update_business_body ctx data client)"

subsection \<open>What a request must pass\<close>

text \<open>The \<open>Origin\<close> header of the request and its CSRF header, when it sends them; \<open>origin_regex\<close> is the configured
  pattern as the function that tells whether it matches the whole origin.\<close>

definition CSRF_REJECTED :: error where "CSRF_REJECTED = PermissionDeniedError ''CSRF_REJECTED''"

definition require_trusted_origin :: "string list \<Rightarrow> (string \<Rightarrow> bool) option \<Rightarrow> string option \<Rightarrow> unit result" where
  "require_trusted_origin cors_origins origin_regex origin = (case origin of
     None \<Rightarrow> Inr ()
   | Some x \<Rightarrow> if x \<in> set cors_origins \<or> (\<exists>f \<in> set_option origin_regex. f x) then Inr () else Inl CSRF_REJECTED)"

definition require_csrf_header ::
  "string list \<Rightarrow> (string \<Rightarrow> bool) option \<Rightarrow> string option \<Rightarrow> string option \<Rightarrow> unit result" where
  "require_csrf_header cors_origins origin_regex origin header =
     bindR (require_trusted_origin cors_origins origin_regex origin) (\<lambda>_.
     raise_if (header \<noteq> Some ''sokowise'') CSRF_REJECTED)"

definition get_access_claims :: "kit \<Rightarrow> clock \<Rightarrow> (string \<times> string) option \<Rightarrow> AccessTokenClaims result" where
  "get_access_claims k clk credentials = (case credentials of
     None \<Rightarrow> Inl (UnauthorizedError ''UNAUTHORIZED'')
   | Some (scheme, token) \<Rightarrow>
       if py_lower scheme \<noteq> ''bearer'' then Inl (UnauthorizedError ''UNAUTHORIZED'')
       else (case decode_access_token k clk token of Inl _ \<Rightarrow> Inl (UnauthorizedError ''UNAUTHORIZED'') | Inr c \<Rightarrow> Inr c))"

definition get_current_user :: "AccessTokenClaims \<Rightarrow> site \<Rightarrow> user result" where
  "get_current_user c s = (case get_user_by_id (at_user_id c) s of
     None \<Rightarrow> Inl (UnauthorizedError ''UNAUTHORIZED'')
   | Some u \<Rightarrow> if usr_is_active u then Inr u else Inl (UnauthorizedError ''UNAUTHORIZED''))"

definition DEFAULT_SETTINGS :: BusinessSettings where
  "DEFAULT_SETTINGS = \<lparr>staff_can_restock = False, sale_backdate_days = 7, low_stock_default_threshold = 5\<rparr>"

text \<open>\<open>dict(business.settings)\<close>, with the defaults its readers use.\<close>

definition read_settings :: "stored_settings \<Rightarrow> BusinessSettings result" where
  "read_settings x = (case x of Empty_Settings \<Rightarrow> Inr DEFAULT_SETTINGS | Settings v \<Rightarrow> Inr v | Null_Settings \<Rightarrow> Inl TypeError)"

definition PASSWORD_CHANGE_REQUIRED :: error where
  "PASSWORD_CHANGE_REQUIRED = PermissionDeniedError ''PASSWORD_CHANGE_REQUIRED''"

definition get_business_context :: "AccessTokenClaims \<Rightarrow> user \<Rightarrow> site \<Rightarrow> BusinessContext result" where
  "get_business_context c u s =
     bindR (the_or NotFoundError (get_membership (usr_id u) (at_business_id c) s)) (\<lambda>m.
     bindR (raise_if (\<not> mb_is_active m) MEMBERSHIP_INACTIVE) (\<lambda>_.
     bindR (the_or NotFoundError (repo_get_business (mb_business_id m) s)) (\<lambda>b.
     bindR (raise_if (\<not> biz_is_active b) BUSINESS_INACTIVE) (\<lambda>_.
     bindR (raise_if (usr_must_change_password u) PASSWORD_CHANGE_REQUIRED) (\<lambda>_.
     bindR (read_settings (biz_settings b)) (\<lambda>v.
     Inr \<lparr>user_id = usr_id u, business_id = biz_id b, membership_id = mb_id m, role = mb_role m, timezone = biz_timezone b,
          settings = v\<rparr>))))))"

definition require_role :: "MembershipRole set \<Rightarrow> BusinessContext \<Rightarrow> BusinessContext result" where
  "require_role allowed ctx = (if role ctx \<in> allowed then Inr ctx else Inl PERMISSION_DENIED)"

definition require_owner :: "BusinessContext \<Rightarrow> BusinessContext result" where
  "require_owner = require_role {OWNER}"

definition require_member :: "BusinessContext \<Rightarrow> BusinessContext result" where
  "require_member = require_role {OWNER, STAFF}"

text \<open>The chain of a business endpoint.\<close>

definition authorize :: "kit \<Rightarrow> clock \<Rightarrow> MembershipRole set \<Rightarrow> (string \<times> string) option \<Rightarrow> site \<Rightarrow> BusinessContext result" where
  "authorize k clk allowed credentials s =
     bindR (get_access_claims k clk credentials) (\<lambda>c.
     bindR (get_current_user c s) (\<lambda>u.
     bindR (get_business_context c u s) (require_role allowed)))"

record AdminLists =
  platform_admin_phones :: "string list"
  platform_admin_emails :: "string list"

definition is_platform_admin :: "AdminLists \<Rightarrow> user \<Rightarrow> bool" where
  "is_platform_admin cfg u \<longleftrightarrow> usr_phone u \<in> set (platform_admin_phones cfg)
     \<or> (usr_email u \<noteq> None \<and> the (usr_email u) \<in> set (platform_admin_emails cfg))"

definition require_platform_admin :: "AdminLists \<Rightarrow> user \<Rightarrow> user result" where
  "require_platform_admin cfg u =
     bindR (raise_if (\<not> is_platform_admin cfg u) NotFoundError) (\<lambda>_.
     bindR (raise_if (usr_must_change_password u) PASSWORD_CHANGE_REQUIRED) (\<lambda>_.
     Inr u))"

end
