(* ===== verification/Sessions.thy ===== *)
theory Sessions
  imports Members
begin

text \<open>
  The invariants of the accounts. Every operation of \<open>Auth\<close> and \<open>Members\<close> keeps them:

  \<^item> ids are unique, because they come from one source and are drawn once;
  \<^item> phones, emails and Google subjects are unique, and a user is a member of a business at most once;
  \<^item> the tokens of a family belong to one user, and at most one of them has not been revoked;
  \<^item> every business has an active OWNER.
\<close>

subsection \<open>Frames\<close>

lemma draw_simps [simp]:
  "users (draw s) = users s" "businesses (draw s) = businesses s" "memberships (draw s) = memberships s"
  "refresh_tokens (draw s) = refresh_tokens s" "reset_codes (draw s) = reset_codes s" "shop (draw s) = drawn (shop s)"
  by (simp_all add: draw_def)

lemma audited_simps [simp]:
  "users (audited ctx a e i b f c s) = users s" "businesses (audited ctx a e i b f c s) = businesses s"
  "memberships (audited ctx a e i b f c s) = memberships s" "refresh_tokens (audited ctx a e i b f c s) = refresh_tokens s"
  "reset_codes (audited ctx a e i b f c s) = reset_codes s" "shop (audited ctx a e i b f c s) = audit_record ctx a e i b f c (shop s)"
  by (simp_all add: audited_def)

lemma set_user_simps [simp]:
  "businesses (set_user u s) = businesses s" "memberships (set_user u s) = memberships s" "refresh_tokens (set_user u s) = refresh_tokens s"
  "reset_codes (set_user u s) = reset_codes s" "shop (set_user u s) = shop s"
  by (simp_all add: set_user_def)

lemma set_membership_simps [simp]:
  "users (set_membership m s) = users s" "businesses (set_membership m s) = businesses s"
  "refresh_tokens (set_membership m s) = refresh_tokens s" "reset_codes (set_membership m s) = reset_codes s" "shop (set_membership m s) = shop s"
  by (simp_all add: set_membership_def)

lemma set_business_simps [simp]:
  "users (set_business b s) = users s" "memberships (set_business b s) = memberships s" "refresh_tokens (set_business b s) = refresh_tokens s"
  "reset_codes (set_business b s) = reset_codes s" "shop (set_business b s) = shop s"
  by (simp_all add: set_business_def)

lemma revoke_simps [simp]:
  "users (revoke_where clk P s) = users s" "businesses (revoke_where clk P s) = businesses s" "memberships (revoke_where clk P s) = memberships s"
  "reset_codes (revoke_where clk P s) = reset_codes s" "shop (revoke_where clk P s) = shop s"
  by (simp_all add: revoke_where_def)

lemmas revokes = revoke_family_def revoke_all_for_user_def

lemma memberships_lookup:
  "memberships s' = memberships s \<Longrightarrow> list_memberships i s' = list_memberships i s"
  "businesses s' = businesses s \<Longrightarrow> repo_get_business i s' = repo_get_business i s"
  by (simp_all add: list_memberships_def repo_get_business_def)

lemma resolve_frame:
  "memberships s' = memberships s \<Longrightarrow> businesses s' = businesses s \<Longrightarrow> resolve_active_membership u s' = resolve_active_membership u s"
  by (simp add: resolve_active_membership_def memberships_lookup [of s' s] cong: option.case_cong)

subsection \<open>The invariant\<close>

definition site_ids :: "site \<Rightarrow> uuid set" where
  "site_ids s = usr_id ` set (users s) \<union> biz_id ` set (businesses s) \<union> mb_id ` set (memberships s)
     \<union> rt_id ` set (refresh_tokens s) \<union> rt_family_id ` set (refresh_tokens s) \<union> rc_id ` set (reset_codes s)"

definition ids_ok :: "site \<Rightarrow> bool" where
  "ids_ok s \<longleftrightarrow> inj (uuid4 (shop s)) \<and> site_ids s \<subseteq> uuid4 (shop s) ` {..<draws (shop s)}"

definition users_ok :: "user list \<Rightarrow> bool" where
  "users_ok us \<longleftrightarrow> distinct (map usr_id us) \<and> distinct (map usr_phone us) \<and> key_unique usr_email us \<and> key_unique usr_google_sub us"

definition members_ok :: "business list \<Rightarrow> membership list \<Rightarrow> bool" where
  "members_ok bs ms \<longleftrightarrow> distinct (map biz_id bs) \<and> distinct (map mb_id ms) \<and> distinct (map (\<lambda>m. (mb_business_id m, mb_user_id m)) ms)"

definition live_family :: "refresh_token \<Rightarrow> uuid option" where
  "live_family t = (if rt_revoked_at t = None then Some (rt_family_id t) else None)"

definition one_user :: "refresh_token list \<Rightarrow> bool" where
  "one_user ts \<longleftrightarrow> (\<forall>t \<in> set ts. \<forall>t' \<in> set ts. rt_family_id t = rt_family_id t' \<longrightarrow> rt_user_id t = rt_user_id t')"

definition tokens_ok :: "refresh_token list \<Rightarrow> bool" where
  "tokens_ok ts \<longleftrightarrow> distinct (map rt_token_hash ts) \<and> key_unique live_family ts \<and> one_user ts"

definition accounts_ok :: "site \<Rightarrow> bool" where
  "accounts_ok s \<longleftrightarrow> ids_ok s \<and> users_ok (users s) \<and> members_ok (businesses s) (memberships s) \<and> tokens_ok (refresh_tokens s)
     \<and> distinct (map rc_id (reset_codes s))"

definition owned :: "site \<Rightarrow> bool" where
  "owned s \<longleftrightarrow> (\<forall>b \<in> set (businesses s). \<exists>m \<in> set (memberships s). active_owner (biz_id b) m)"

lemma accounts_okD:
  assumes "accounts_ok s"
  shows "ids_ok s" and "distinct (map usr_id (users s))" and "distinct (map mb_id (memberships s))" and "distinct (map rt_token_hash (refresh_tokens s))"
    and "distinct (map biz_id (businesses s))" and "key_unique live_family (refresh_tokens s)"
  using assms by (simp_all add: accounts_ok_def users_ok_def members_ok_def tokens_ok_def)

lemma next_id_new: "ids_ok s \<Longrightarrow> next_id s \<notin> site_ids s"
  by (force simp: ids_ok_def new_id_def inj_def)

lemma ids_ok_step:
  assumes "ids_ok s" and "uuid4 (shop s') = uuid4 (shop s)" and "draws (shop s) \<le> draws (shop s')"
    and "site_ids s' \<subseteq> site_ids s \<union> uuid4 (shop s) ` {draws (shop s)..<draws (shop s')}"
  shows "ids_ok s'"
proof -
  have "uuid4 (shop s) ` {..<draws (shop s)} \<subseteq> uuid4 (shop s) ` {..<draws (shop s')}" using assms(3) by (intro image_mono) auto
  moreover have "uuid4 (shop s) ` {draws (shop s)..<draws (shop s')} \<subseteq> uuid4 (shop s) ` {..<draws (shop s')}" by (intro image_mono) auto
  ultimately have "site_ids s' \<subseteq> uuid4 (shop s) ` {..<draws (shop s')}"
    using assms(1) subset_trans [OF assms(4)] by (metis Un_least ids_ok_def subset_trans)
  then show ?thesis using assms(1,2) by (simp add: ids_ok_def)
qed

text \<open>An operation that only moves the shop, or changes nothing the invariant reads.\<close>

lemma accounts_ok_shop:
  assumes "accounts_ok s" and "uuid4 d = uuid4 (shop s)" and "draws (shop s) \<le> draws d"
  shows "accounts_ok (s\<lparr>shop := d\<rparr>)"
proof -
  have "ids_ok (s\<lparr>shop := d\<rparr>)" by (rule ids_ok_step [of s]) (use assms in \<open>simp_all add: accounts_ok_def site_ids_def\<close>)
  with assms(1) show ?thesis by (simp add: accounts_ok_def)
qed

lemma draw_ok [intro]: "accounts_ok s \<Longrightarrow> accounts_ok (draw s)"
  unfolding draw_def by (rule accounts_ok_shop) simp_all

lemma audited_ok [intro]: "accounts_ok s \<Longrightarrow> accounts_ok (audited ctx a e i b f c s)"
  unfolding audited_def by (rule accounts_ok_shop) simp_all

subsection \<open>Tokens\<close>

lemma update_where_ids: "(\<And>r. g (f r) = g r) \<Longrightarrow> g ` set (update_where P f rows) = g ` set rows"
  by (rule image_update_where) simp

lemma tokens_ok_revoke:
  assumes "tokens_ok ts"
  shows "tokens_ok (update_where P (\<lambda>t. t\<lparr>rt_revoked_at := Some x\<rparr>) ts)"
proof -
  let ?ts = "update_where P (\<lambda>t. t\<lparr>rt_revoked_at := Some x\<rparr>) ts"
  have "key_unique live_family ?ts" by (rule key_unique_update_none) (use assms in \<open>auto simp: tokens_ok_def live_family_def\<close>)
  moreover have "map rt_token_hash ?ts = map rt_token_hash ts" by (simp add: map_update_where)
  moreover have "\<exists>y \<in> set ts. rt_family_id t = rt_family_id y \<and> rt_user_id t = rt_user_id y" if "t \<in> set ?ts" for t
    using that by (auto simp: set_update_where split: if_splits)
  then have "one_user ?ts" using assms unfolding tokens_ok_def one_user_def by metis
  ultimately show ?thesis using assms by (simp add: tokens_ok_def)
qed

lemma revoke_where_ok [intro]:
  assumes "accounts_ok s"
  shows "accounts_ok (revoke_where clk P s)"
proof -
  have "site_ids (revoke_where clk P s) = site_ids s" by (simp add: site_ids_def revoke_where_def update_where_ids)
  then have "ids_ok (revoke_where clk P s)" using assms by (simp add: accounts_ok_def ids_ok_def)
  moreover have "tokens_ok (refresh_tokens (revoke_where clk P s))" using assms by (simp add: accounts_ok_def revoke_where_def tokens_ok_revoke)
  ultimately show ?thesis using assms by (simp add: accounts_ok_def)
qed

lemma create_refresh_token_success:
  assumes "create_refresh_token uid h expires family parent agent address s = Inr (row, s')"
  shows "s' = (draw s)\<lparr>refresh_tokens := refresh_tokens s @ [row]\<rparr>" and "rt_id row = next_id s"
    and "rt_family_id row = (case family of None \<Rightarrow> next_id s | Some f \<Rightarrow> f)" and "rt_user_id row = uid" and "rt_token_hash row = h"
    and "rt_revoked_at row = None" and "rt_expires_at row = expires" and "h \<notin> rt_token_hash ` set (refresh_tokens s)"
    and "rt_parent_id row = parent"
  using assms by (auto simp: create_refresh_token_def Let_def result_simps)

text \<open>A new token starts a family of its own or continues one that has no live token left.\<close>

definition family_free :: "uuid option \<Rightarrow> uuid \<Rightarrow> site \<Rightarrow> bool" where
  "family_free family uid s \<longleftrightarrow> (\<forall>f. family = Some f \<longrightarrow> f \<in> rt_family_id ` set (refresh_tokens s)
     \<and> (\<forall>t \<in> set (refresh_tokens s). rt_family_id t = f \<longrightarrow> rt_revoked_at t \<noteq> None \<and> rt_user_id t = uid))"

lemma create_refresh_token_ok:
  assumes "create_refresh_token uid h expires family parent agent address s = Inr (row, s')" and "accounts_ok s" and "family_free family uid s"
  shows "accounts_ok s'"
proof -
  note new = create_refresh_token_success [OF assms(1)]
  have fresh: "next_id s \<notin> rt_family_id ` set (refresh_tokens s)"
    using next_id_new [OF accounts_okD(1) [OF assms(2)]] by (simp add: site_ids_def)
  have fam: "rt_revoked_at t \<noteq> None \<and> rt_user_id t = uid" if "t \<in> set (refresh_tokens s)" "rt_family_id t = rt_family_id row" for t
  proof (cases family)
    case None
    with fresh that new(3) show ?thesis by (metis image_eqI option.simps(4))
  qed (use assms(3) that new(3) in \<open>simp add: family_free_def\<close>)
  have ids: "site_ids s' \<subseteq> site_ids s \<union> {next_id s}"
    using assms(3) new(2,3) by (cases family) (auto simp: new(1) site_ids_def family_free_def)
  have "ids_ok s'" by (rule ids_ok_step [of s]) (use assms(2) ids in \<open>auto simp: accounts_ok_def new(1) new_id_def\<close>)
  moreover have "tokens_ok (refresh_tokens s @ [row])"
  proof -
    have ts: "tokens_ok (refresh_tokens s)" using assms(2) by (simp add: accounts_ok_def)
    have "live_family row \<notin> live_family ` set (refresh_tokens s)"
    proof
      assume "live_family row \<in> live_family ` set (refresh_tokens s)"
      then obtain t where "t \<in> set (refresh_tokens s)" "live_family t = Some (rt_family_id row)" using new(6) by (auto simp: live_family_def)
      with fam [of t] show False by (simp add: live_family_def split: if_splits)
    qed
    with ts have "key_unique live_family (refresh_tokens s @ [row])" by (simp add: tokens_ok_def)
    moreover have "rt_user_id t = rt_user_id t'"
      if "t \<in> set (refresh_tokens s @ [row])" "t' \<in> set (refresh_tokens s @ [row])" "rt_family_id t = rt_family_id t'" for t t'
    proof -
      note mem = that
      have one: "rt_user_id x = rt_user_id row" if "x \<in> set (refresh_tokens s)" "rt_family_id x = rt_family_id row" for x
        using fam [OF that] new(4) by simp
      consider "t = row" "t' = row" | "t = row" "t' \<in> set (refresh_tokens s)" | "t \<in> set (refresh_tokens s)" "t' = row"
        | "t \<in> set (refresh_tokens s)" "t' \<in> set (refresh_tokens s)" using mem(1,2) by auto
      then show ?thesis
      proof cases
        case 2
        then show ?thesis using one [of t'] that(3) by simp
      next
        case 3
        then show ?thesis using one [of t] that(3) by simp
      next
        case 4
        then show ?thesis using ts that(3) unfolding tokens_ok_def one_user_def by blast
      qed simp
    qed
    then have "one_user (refresh_tokens s @ [row])" unfolding one_user_def by blast
    ultimately show ?thesis using ts new(5,8) by (simp add: tokens_ok_def)
  qed
  ultimately show ?thesis using assms(2) by (simp add: new(1) accounts_ok_def)
qed

lemma issue_session_success:
  assumes "issue_session k clk r u b rl client family parent s = Inr (auth, s')"
  obtains row where "create_refresh_token (usr_id u) (hash_refresh_token k (token_urlsafe r)) (now clk + refresh_token_ttl_days k * DAY) family parent
      (clipped 255 (user_agent client)) (clipped 45 (ip client)) (draw s) = Inr (row, s')"
    and "au_refresh_token auth = token_urlsafe r" and "au_user auth = u" and "au_business auth = b" and "au_role auth = rl"
  using assms by (auto simp: issue_session_def create_access_token_def generate_refresh_token_def Let_def result_simps)

lemma issue_session_frame:
  assumes "issue_session k clk r u b rl client family parent s = Inr (auth, s')"
  shows "users s' = users s" "businesses s' = businesses s" "memberships s' = memberships s" "reset_codes s' = reset_codes s"
  using assms by (auto elim!: issue_session_success dest!: create_refresh_token_success(1))

lemma issue_session_ok:
  assumes "issue_session k clk r u b rl client family parent s = Inr (auth, s')" and "accounts_ok s" and "family_free family (usr_id u) s"
  shows "accounts_ok s'"
  using assms(1)
proof (rule issue_session_success)
  fix row
  assume row: "create_refresh_token (usr_id u) (hash_refresh_token k (token_urlsafe r)) (now clk + refresh_token_ttl_days k * DAY) family parent
      (clipped 255 (user_agent client)) (clipped 45 (ip client)) (draw s) = Inr (row, s')"
  show ?thesis by (rule create_refresh_token_ok [OF row draw_ok [OF assms(2)]]) (use assms(3) in \<open>simp add: family_free_def\<close>)
qed

lemma family_free_None [simp]: "family_free None uid s"
  by (simp add: family_free_def)

subsection \<open>Users and memberships\<close>

lemma key_unique_replace:
  assumes "key_unique k rows" and "distinct (map i rows)" and "k r \<notin> k ` set rows"
  shows "key_unique k (update_where (\<lambda>x. i x = i r) (\<lambda>_. r) rows)"
  using assms
proof (induction rows)
  case (Cons x rows)
  show ?case
  proof (cases "i x = i r")
    case True
    then have "update_where (\<lambda>x. i x = i r) (\<lambda>_. r) rows = rows"
      using Cons.prems(2) by (intro update_where_none) (simp, metis imageI)
    with True Cons.prems show ?thesis by auto
  next
    case False
    have "k x \<notin> k ` set (update_where (\<lambda>x. i x = i r) (\<lambda>_. r) rows) \<or> k x = None"
      using Cons.prems by (auto simp: set_update_where)
    with False Cons show ?thesis by auto
  qed
qed simp

lemma map_replace:
  assumes "u \<in> set rows" and "distinct (map i rows)" and "i r = i u" and "g r = g u"
  shows "map g (update_where (\<lambda>x. i x = i r) (\<lambda>_. r) rows) = map g rows"
proof -
  have "x = u" if "x \<in> set rows" "i x = i r" for x using assms(1-3) that by (metis distinct_map inj_onD)
  then show ?thesis using assms(4) by (auto simp: update_where_def)
qed

lemma image_replace:
  assumes "u \<in> set rows" and "distinct (map i rows)" and "i r = i u" and "g r = g u"
  shows "g ` set (update_where (\<lambda>x. i x = i r) (\<lambda>_. r) rows) = g ` set rows"
  using arg_cong [OF map_replace [OF assms], of set] by simp

lemma set_user_ok:
  assumes "accounts_ok s" and "u \<in> set (users s)" and "usr_id u' = usr_id u" and "usr_phone u' = usr_phone u" and "usr_email u' = usr_email u"
    and "usr_google_sub u' = usr_google_sub u \<or> usr_google_sub u' \<notin> usr_google_sub ` set (users s)"
  shows "accounts_ok (set_user u' s)"
proof -
  let ?us = "update_where (\<lambda>x. usr_id x = usr_id u') (\<lambda>_. u') (users s)"
  have d: "distinct (map usr_id (users s))" by (rule accounts_okD [OF assms(1)])
  have ok: "users_ok (users s)" using assms(1) by (simp add: accounts_ok_def)
  note same = map_replace [OF assms(2) d assms(3)]
  have "site_ids (set_user u' s) = site_ids s" using image_replace [OF assms(2) d assms(3), of usr_id] assms(3) by (simp add: site_ids_def set_user_def)
  then have "ids_ok (set_user u' s)" using assms(1) by (simp add: accounts_ok_def ids_ok_def)
  moreover have "key_unique usr_google_sub ?us"
    using assms(6)
  proof
    assume "usr_google_sub u' = usr_google_sub u"
    from key_unique_cong [OF same [OF this]] ok show ?thesis by (simp add: users_ok_def)
  next
    assume "usr_google_sub u' \<notin> usr_google_sub ` set (users s)"
    from key_unique_replace [OF _ d this] ok show ?thesis by (simp add: users_ok_def)
  qed
  then have "users_ok ?us"
    using key_unique_cong [OF same [OF assms(5)]] same [OF assms(3)] same [OF assms(4)] ok by (simp add: users_ok_def)
  ultimately show ?thesis using assms(1) by (simp add: accounts_ok_def set_user_def)
qed

lemma set_membership_ok:
  assumes "accounts_ok s" and "m \<in> set (memberships s)" and "mb_id m' = mb_id m" and "mb_business_id m' = mb_business_id m"
    and "mb_user_id m' = mb_user_id m"
  shows "accounts_ok (set_membership m' s)"
proof -
  have d: "distinct (map mb_id (memberships s))" by (rule accounts_okD [OF assms(1)])
  note same = map_replace [OF assms(2) d assms(3)]
  have "site_ids (set_membership m' s) = site_ids s"
    using image_replace [OF assms(2) d assms(3), of mb_id] assms(3) by (simp add: site_ids_def set_membership_def)
  then have "ids_ok (set_membership m' s)" using assms(1) by (simp add: accounts_ok_def ids_ok_def)
  then show ?thesis using assms(1) same [OF assms(3)] same [of "\<lambda>m. (mb_business_id m, mb_user_id m)"] assms(4,5)
    by (simp add: accounts_ok_def members_ok_def set_membership_def)
qed

lemma add_user_success:
  assumes "add_user u s = Inr (u', s')"
  shows "u' = u\<lparr>usr_id := next_id s\<rparr>" and "s' = (draw s)\<lparr>users := users s @ [u']\<rparr>" and "usr_phone u \<notin> usr_phone ` set (users s)"
    and "usr_email u = None \<or> usr_email u \<notin> usr_email ` set (users s)"
    and "usr_google_sub u = None \<or> usr_google_sub u \<notin> usr_google_sub ` set (users s)"
  using assms by (auto simp: add_user_def user_unique_def Let_def result_simps)

lemma add_user_ok:
  assumes "add_user u s = Inr (u', s')" and "accounts_ok s"
  shows "accounts_ok s'"
proof -
  note new = add_user_success [OF assms(1)]
  have "next_id s \<notin> usr_id ` set (users s)" using next_id_new [OF accounts_okD(1) [OF assms(2)]] by (simp add: site_ids_def)
  with new(3-5) assms(2) have "users_ok (users s @ [u'])" by (simp add: new(1) accounts_ok_def users_ok_def)
  moreover have "ids_ok s'" by (rule ids_ok_step [of s]) (use assms(2) in \<open>auto simp: accounts_ok_def new(1,2) new_id_def site_ids_def\<close>)
  ultimately show ?thesis using assms(2) by (simp add: new(2) accounts_ok_def)
qed

lemma add_business_ok:
  assumes "add_business clk b s = (b', s')" and "accounts_ok s"
  shows "accounts_ok s'" and "businesses s' = businesses s @ [b']" and "biz_id b' = next_id s" and "memberships s' = memberships s"
    and "users s' = users s" and "refresh_tokens s' = refresh_tokens s" and "b' = b\<lparr>biz_id := next_id s, biz_created_at := tx_now clk\<rparr>"
proof -
  have new: "b' = b\<lparr>biz_id := next_id s, biz_created_at := tx_now clk\<rparr>" "s' = (draw s)\<lparr>businesses := businesses s @ [b']\<rparr>" using assms(1) by (auto simp: add_business_def Let_def)
  have "next_id s \<notin> biz_id ` set (businesses s)" using next_id_new [OF accounts_okD(1) [OF assms(2)]] by (simp add: site_ids_def)
  then have "members_ok (businesses s @ [b']) (memberships s)" using assms(2) by (simp add: new(1) accounts_ok_def members_ok_def)
  moreover have "ids_ok s'" by (rule ids_ok_step [of s]) (use assms(2) in \<open>auto simp: accounts_ok_def new new_id_def site_ids_def\<close>)
  ultimately show "accounts_ok s'" using assms(2) by (simp add: new(2) accounts_ok_def)
  show "businesses s' = businesses s @ [b']" "biz_id b' = next_id s" "memberships s' = memberships s" "users s' = users s"
    "refresh_tokens s' = refresh_tokens s" "b' = b\<lparr>biz_id := next_id s, biz_created_at := tx_now clk\<rparr>" by (simp_all add: new)
qed

lemma add_membership_ok:
  assumes "add_membership clk bid uid rl s = Inr (m, s')" and "accounts_ok s"
  shows "accounts_ok s'" and "memberships s' = memberships s @ [m]" and "businesses s' = businesses s" and "users s' = users s"
    and "mb_business_id m = bid" and "mb_user_id m = uid" and "mb_role m = rl" and "mb_is_active m" and "refresh_tokens s' = refresh_tokens s"
    and "mb_created_at m = tx_now clk"
proof -
  have new: "s' = (draw s)\<lparr>memberships := memberships s @ [m]\<rparr>" "mb_id m = next_id s" "mb_business_id m = bid" "mb_user_id m = uid"
      "mb_role m = rl" "mb_is_active m" "(bid, uid) \<notin> (\<lambda>m. (mb_business_id m, mb_user_id m)) ` set (memberships s)" "mb_created_at m = tx_now clk"
    using assms(1) by (auto simp: add_membership_def Let_def result_simps)
  have "next_id s \<notin> mb_id ` set (memberships s)" using next_id_new [OF accounts_okD(1) [OF assms(2)]] by (simp add: site_ids_def)
  with new(2-4,7) assms(2) have "members_ok (businesses s) (memberships s @ [m])" by (simp add: accounts_ok_def members_ok_def)
  moreover have "ids_ok s'" by (rule ids_ok_step [of s]) (use assms(2) in \<open>auto simp: accounts_ok_def new(1,2) new_id_def site_ids_def\<close>)
  ultimately show "accounts_ok s'" using assms(2) by (simp add: new(1) accounts_ok_def)
  show "memberships s' = memberships s @ [m]" "businesses s' = businesses s" "users s' = users s" "refresh_tokens s' = refresh_tokens s"
    by (simp_all add: new(1))
  show "mb_business_id m = bid" "mb_user_id m = uid" "mb_role m = rl" "mb_is_active m" "mb_created_at m = tx_now clk" by (fact new)+
qed

subsection \<open>Every operation keeps the invariant\<close>

definition site_ok :: "site \<Rightarrow> bool" where
  "site_ok s \<longleftrightarrow> accounts_ok s \<and> owned s"

lemma owned_frame: "businesses s' = businesses s \<Longrightarrow> memberships s' = memberships s \<Longrightarrow> owned s' = owned s"
  by (simp add: owned_def)

lemma site_okI:
  "site_ok s \<Longrightarrow> accounts_ok s' \<Longrightarrow> businesses s' = businesses s \<Longrightarrow> memberships s' = memberships s \<Longrightarrow> site_ok s'"
  by (simp add: site_ok_def owned_def)

lemma site_transaction:
  assumes "\<And>x s'. body s = Inr (x, s') \<Longrightarrow> site_ok s \<Longrightarrow> site_ok s'"
  shows "site_ok s \<Longrightarrow> site_ok (snd (transaction body s))"
  by (rule transaction_preserves [where P = site_ok]) (use assms in auto)

lemma create_owner_body_ok:
  assumes "create_owner_body k clk r u b client s = Inr (auth, s')" and "site_ok s"
  shows "site_ok s'"
proof -
  obtain u1 s1 where one: "add_user u s = Inr (u1, s1)" using assms(1) by (auto simp: create_owner_body_def result_simps)
  obtain b2 s2 where two: "add_business clk b s1 = (b2, s2)" by (cases "add_business clk b s1")
  from assms(1) obtain m s3 where three: "add_membership clk (biz_id b2) (usr_id u1) OWNER s2 = Inr (m, s3)"
    and four: "issue_session k clk r u1 b2 OWNER client None None s3 = Inr (auth, s')"
    by (auto simp: create_owner_body_def result_simps one two)
  have ok1: "accounts_ok s1" by (rule add_user_ok [OF one]) (use assms(2) in \<open>simp add: site_ok_def\<close>)
  note ok2 = add_business_ok [OF two ok1]
  note ok3 = add_membership_ok [OF three ok2(1)]
  have ok4: "accounts_ok s'" by (rule issue_session_ok [OF four ok3(1)]) simp
  have "owned s" using assms(2) by (simp add: site_ok_def)
  moreover have "businesses s1 = businesses s" "memberships s1 = memberships s" by (simp_all add: add_user_success(2) [OF one])
  ultimately have "owned s'" using ok2(2,4) ok3(2,3,5,7,8) issue_session_frame [OF four] by (auto simp: owned_def)
  with ok4 show ?thesis by (simp add: site_ok_def)
qed

lemma account_exists_snd [simp]: "snd (account_exists out) = snd out"
  by (auto simp: account_exists_def split: prod.splits sum.splits error.splits)

lemma create_owner_account_ok: "site_ok s \<Longrightarrow> site_ok (snd (create_owner_account k clk r u b client s))"
  unfolding create_owner_account_def account_exists_snd by (rule site_transaction) (rule create_owner_body_ok)

lemma register_ok: "site_ok s \<Longrightarrow> site_ok (snd (register k clk r data client s))"
  by (simp add: register_def create_owner_account_ok split: sum.split)

lemma google_register_ok: "site_ok s \<Longrightarrow> site_ok (snd (google_register k clk r data client s))"
  by (simp add: google_register_def create_owner_account_ok Let_def split: sum.split)

lemma find_user_in: "find_user_by_identifier x s = Some u \<Longrightarrow> u \<in> set (users s)"
  by (auto simp: find_user_by_identifier_def get_user_by_email_def get_user_by_phone_def split: if_splits sum.splits dest: find_SomeD)

text \<open>Opening a session for a user whose row is written back.\<close>

lemma open_session_ok:
  assumes "issue_session k clk r u' b rl client None None (set_user u' s) = Inr (auth, s')" and "site_ok s" and "u \<in> set (users s)"
    and "usr_id u' = usr_id u" and "usr_phone u' = usr_phone u" and "usr_email u' = usr_email u"
    and "usr_google_sub u' = usr_google_sub u \<or> usr_google_sub u' \<notin> usr_google_sub ` set (users s)"
  shows "site_ok s'"
proof (rule site_okI [OF assms(2)])
  have "accounts_ok (set_user u' s)" using assms(2) by (intro set_user_ok [OF _ assms(3-7)]) (simp add: site_ok_def)
  then show "accounts_ok s'" by (rule issue_session_ok [OF assms(1)]) simp
qed (use issue_session_frame [OF assms(1)] in simp_all)

lemma login_ok: "site_ok s \<Longrightarrow> site_ok (snd (login k clk r data client s))"
  unfolding login_def
proof (rule site_transaction)
  fix auth s'
  assume body: "login_body k clk r data client s = Inr (auth, s')" and ok: "site_ok s"
  from body obtain u h where u: "check_credentials k data s = Inr (u, h)" by (auto simp: login_body_def result_simps)
  obtain u' where u': "u' = u \<or> (\<exists>h. u' = u\<lparr>usr_password_hash := Some h\<rparr>)"
    and rest: "bindR (resolve_active_membership u' s) (\<lambda>(m, b). let u = u'\<lparr>usr_last_login_at := Some (now clk)\<rparr> in
      issue_session k clk r u b (mb_role m) client None None (set_user u s)) = Inr (auth, s')"
  proof (cases "needs_rehash k h")
    case True
    with body u obtain h' where "bindR (resolve_active_membership (u\<lparr>usr_password_hash := Some h'\<rparr>) s) (\<lambda>(m, b).
        let u = u\<lparr>usr_password_hash := Some h', usr_last_login_at := Some (now clk)\<rparr> in
        issue_session k clk r u b (mb_role m) client None None (set_user u s)) = Inr (auth, s')"
      by (auto simp: login_body_def bindR_eq_Inr)
    then show thesis by (intro that [of "u\<lparr>usr_password_hash := Some h'\<rparr>"]) auto
  next
    case False
    with body u show thesis by (intro that [of u]) (auto simp: login_body_def)
  qed
  from rest obtain m :: membership and b where run: "issue_session k clk r (u'\<lparr>usr_last_login_at := Some (now clk)\<rparr>) b (mb_role m) client None None
      (set_user (u'\<lparr>usr_last_login_at := Some (now clk)\<rparr>) s) = Inr (auth, s')"
    by (auto simp: result_simps Let_def)
  from u have u: "find_user_by_identifier (lg_identifier data) s = Some u" by (auto simp: check_credentials_def result_simps)
  show "site_ok s'" by (rule open_session_ok [OF run ok find_user_in [OF u]]) (use u' in auto)
qed

lemma google_user_cases:
  assumes "google_user sub email s = Some u'"
  obtains u where "u \<in> set (users s)" and "usr_id u' = usr_id u" and "usr_phone u' = usr_phone u" and "usr_email u' = usr_email u"
    and "usr_google_sub u' = usr_google_sub u \<or> usr_google_sub u' \<notin> usr_google_sub ` set (users s)"
proof (cases "get_user_by_google_sub sub s")
  case (Some u)
  with assms have "u' = u" "u \<in> set (users s)" by (auto simp: google_user_def get_user_by_google_sub_def dest: find_SomeD)
  with that show thesis by blast
next
  case None
  then have "Some sub \<notin> usr_google_sub ` set (users s)" by (auto simp: get_user_by_google_sub_def find_None_iff)
  moreover from None assms obtain u where "get_user_by_email email s = Some u" "u' = (if usr_google_sub u = None then u\<lparr>usr_google_sub := Some sub\<rparr> else u)"
    by (auto simp: google_user_def split: option.splits)
  ultimately show thesis by (intro that [of u]) (auto simp: get_user_by_email_def dest: find_SomeD)
qed

lemma google_sign_in_ok: "site_ok s \<Longrightarrow> site_ok (snd (google_sign_in k clk r identity client s))"
proof -
  assume ok: "site_ok s"
  have "site_ok s'" if body: "google_sign_in_body k clk r identity email client s = Inr (out, s')" for email out s'
  proof (cases "google_user (gi_sub identity) email s")
    case None
    with body have "s' = draw s" by (auto simp: google_sign_in_body_def create_signup_token_def Let_def)
    then show ?thesis by (intro site_okI [OF ok]) (use ok in \<open>auto simp: site_ok_def\<close>)
  next
    case (Some v)
    with body obtain m :: membership and b auth where run: "issue_session k clk r (v\<lparr>usr_last_login_at := Some (now clk)\<rparr>) b (mb_role m) client None None
        (set_user (v\<lparr>usr_last_login_at := Some (now clk)\<rparr>) s) = Inr (auth, s')"
      by (auto simp: google_sign_in_body_def result_simps Let_def)
    from Some show ?thesis
    proof (rule google_user_cases)
      fix u
      assume u: "u \<in> set (users s)" "usr_id v = usr_id u" "usr_phone v = usr_phone u" "usr_email v = usr_email u"
        "usr_google_sub v = usr_google_sub u \<or> usr_google_sub v \<notin> usr_google_sub ` set (users s)"
      show ?thesis by (rule open_session_ok [OF run ok u(1)]) (use u in auto)
    qed
  qed
  then show ?thesis using ok by (auto simp: google_sign_in_def split: sum.splits intro!: site_transaction)
qed

subsection \<open>Refreshing\<close>

text \<open>The live token with a hash, once it is consumed, leaves no live token in its family.\<close>

lemma consume_Some:
  assumes "consume clk h s = (Some row, s')" and "accounts_ok s"
  shows "row \<in> set (refresh_tokens s)" and "rt_token_hash row = h" and "rt_revoked_at row = None" and "tx_now clk < rt_expires_at row"
    and "s' = revoke_where clk (\<lambda>t. rt_token_hash t = h \<and> tx_now clk < rt_expires_at t) s"
    and "family_free (Some (rt_family_id row)) (rt_user_id row) s'"
proof -
  from assms(1) have row: "find (\<lambda>t. rt_token_hash t = h \<and> usable clk t) (refresh_tokens s) = Some row"
    and s': "s' = revoke_where clk (\<lambda>t. rt_token_hash t = h \<and> tx_now clk < rt_expires_at t) s" by (auto simp: consume_def)
  note r = find_SomeD [OF row]
  from r show mem: "row \<in> set (refresh_tokens s)" and h: "rt_token_hash row = h" and live: "rt_revoked_at row = None" and "tx_now clk < rt_expires_at row"
    by auto
  show "s' = revoke_where clk (\<lambda>t. rt_token_hash t = h \<and> tx_now clk < rt_expires_at t) s" by (fact s')
  have rows: "refresh_tokens s' = update_where (\<lambda>t. (rt_token_hash t = h \<and> tx_now clk < rt_expires_at t) \<and> rt_revoked_at t = None)
      (\<lambda>t. t\<lparr>rt_revoked_at := Some (tx_now clk)\<rparr>) (refresh_tokens s)" by (simp add: s' revoke_where_def)
  have dead: "rt_revoked_at t \<noteq> None \<and> rt_user_id t = rt_user_id row" if "t \<in> set (refresh_tokens s')" "rt_family_id t = rt_family_id row" for t
  proof -
    from that(1) obtain x where x: "x \<in> set (refresh_tokens s)"
      and t: "t = (if (rt_token_hash x = h \<and> tx_now clk < rt_expires_at x) \<and> rt_revoked_at x = None then x\<lparr>rt_revoked_at := Some (tx_now clk)\<rparr> else x)"
      unfolding rows set_update_where by blast
    have fam: "rt_family_id x = rt_family_id row" using t that(2) by (simp split: if_splits)
    have user: "rt_user_id x = rt_user_id row"
      using assms(2) x mem fam unfolding accounts_ok_def tokens_ok_def one_user_def by blast
    show ?thesis
    proof (cases "rt_revoked_at x = None")
      case True
      have "x = row" using key_uniqueD [OF accounts_okD(6) [OF assms(2)] x mem] fam live True by (simp add: live_family_def)
      then have "t = row\<lparr>rt_revoked_at := Some (tx_now clk)\<rparr>" using t r by simp
      then show ?thesis by simp
    next
      case False
      then show ?thesis using t user by simp
    qed
  qed
  have "rt_family_id ` set (refresh_tokens s') = rt_family_id ` set (refresh_tokens s)" unfolding rows by (rule update_where_ids) simp
  then show "family_free (Some (rt_family_id row)) (rt_user_id row) s'" using dead mem by (simp add: family_free_def)
qed

lemma consume_None: "consume clk h s = (None, s') \<Longrightarrow> s' = revoke_where clk (\<lambda>t. rt_token_hash t = h \<and> tx_now clk < rt_expires_at t) s"
  by (simp add: consume_def)

lemma get_user_by_id_Some: "get_user_by_id i s = Some u \<Longrightarrow> u \<in> set (users s) \<and> usr_id u = i"
  by (auto simp: get_user_by_id_def dest: find_SomeD)

text \<open>The three ways a refresh ends.\<close>

lemma refresh_body_cases:
  assumes "refresh_body k clk r raw client s = Inr (out, s')"
  obtains (unknown) "consume clk (hash_refresh_token k raw) s = (None, s')" and "get_by_hash (hash_refresh_token k raw) s' = None" and "out = None"
    | (dead) t s1 where "consume clk (hash_refresh_token k raw) s = (None, s1)" and "get_by_hash (hash_refresh_token k raw) s1 = Some t" and "out = None"
        and "s' = (if rt_revoked_at t \<noteq> None then revoke_family clk (rt_family_id t) s1 else s1)"
    | (barred) row s1 where "consume clk (hash_refresh_token k raw) s = (Some row, s1)" and "out = None" and "s' = revoke_family clk (rt_family_id row) s1"
    | (rotated) row s1 u m b auth where "consume clk (hash_refresh_token k raw) s = (Some row, s1)" and "get_user_by_id (rt_user_id row) s1 = Some u"
        and "usr_is_active u" and "resolve_active_membership u s1 = Inr (m, b)" and "out = Some auth"
        and "issue_session k clk r u b (mb_role m) client (Some (rt_family_id row)) (Some (rt_id row)) s1 = Inr (auth, s')"
proof -
  obtain c s1 where c: "consume clk (hash_refresh_token k raw) s = (c, s1)" by (cases "consume clk (hash_refresh_token k raw) s")
  show thesis
  proof (cases c)
    case None
    with assms c show thesis
      by (cases "get_by_hash (hash_refresh_token k raw) s1") (auto simp: refresh_body_def Let_def intro: unknown dead)
  next
    case (Some row)
    show thesis
    proof (cases "get_user_by_id (rt_user_id row) s1")
      case None
      with assms c Some show thesis by (intro barred [of row s1]) (auto simp: refresh_body_def Let_def)
    next
      case (Some u)
      note row = \<open>c = Some row\<close>
      show thesis
      proof (cases "usr_is_active u")
        case False
        with assms c row Some show thesis by (intro barred [of row s1]) (auto simp: refresh_body_def Let_def)
      next
        case True
        from assms c row Some True obtain m :: membership and b auth where "resolve_active_membership u s1 = Inr (m, b)" "out = Some auth"
          "issue_session k clk r u b (mb_role m) client (Some (rt_family_id row)) (Some (rt_id row)) s1 = Inr (auth, s')"
          by (auto simp: refresh_body_def Let_def result_simps)
        with c row Some True show thesis by (intro rotated) auto
      qed
    qed
  qed
qed

lemma refresh_body_ok:
  assumes "refresh_body k clk r raw client s = Inr (out, s')" and "site_ok s"
  shows "site_ok s'"
proof -
  have acc: "accounts_ok s" using assms(2) by (simp add: site_ok_def)
  show ?thesis
    using assms(1)
  proof (cases rule: refresh_body_cases)
    case unknown
    note s' = consume_None [OF unknown(1)]
    show ?thesis by (rule site_okI [OF assms(2)]) (use acc in \<open>auto simp: s'\<close>)
  next
    case (dead t s1)
    note s1 = consume_None [OF dead(1)]
    show ?thesis by (rule site_okI [OF assms(2)]) (use acc in \<open>auto simp: dead(4) s1 revokes\<close>)
  next
    case (barred row s1)
    note s1 = consume_Some(5) [OF barred(1) acc]
    show ?thesis by (rule site_okI [OF assms(2)]) (use acc in \<open>auto simp: barred(3) s1 revokes\<close>)
  next
    case (rotated row s1 u m b auth)
    note c = consume_Some [OF rotated(1) acc]
    have ok1: "accounts_ok s1" using acc by (simp add: c(5) revoke_where_ok)
    have "usr_id u = rt_user_id row" using get_user_by_id_Some [OF rotated(2)] by simp
    then have free: "family_free (Some (rt_family_id row)) (usr_id u) s1" using c(6) by simp
    show ?thesis
      by (rule site_okI [OF assms(2) issue_session_ok [OF rotated(6) ok1 free]]) (use issue_session_frame [OF rotated(6)] in \<open>simp_all add: c(5)\<close>)
  qed
qed

lemma refresh_snd: "snd (refresh k clk r raw client s) = snd (transaction (refresh_body k clk r raw client) s)"
  by (auto simp: refresh_def split: prod.split sum.split option.split)

lemma refresh_ok: "site_ok s \<Longrightarrow> site_ok (snd (refresh k clk r raw client s))"
  unfolding refresh_snd by (rule site_transaction) (rule refresh_body_ok)

lemma revoked_ok: "site_ok s \<Longrightarrow> site_ok (revoke_where clk P s)"
  by (rule site_okI) (auto simp: site_ok_def)

lemma logout_ok: "site_ok s \<Longrightarrow> site_ok (snd (logout k clk raw s))"
  by (auto simp: logout_def transaction_def revokes revoked_ok split: option.split)

lemma logout_all_ok: "site_ok s \<Longrightarrow> site_ok (snd (logout_all clk u s))"
  by (simp add: logout_all_def transaction_def revokes revoked_ok)

lemma change_password_ok:
  assumes "site_ok s" and "u \<in> set (users s)"
  shows "site_ok (snd (change_password k clk r u data client s))"
  unfolding change_password_def
proof (rule site_transaction [OF _ assms(1)])
  fix auth s'
  assume "change_password_body k clk r u data client s = Inr (auth, s')"
  then obtain m :: membership and b h where run: "issue_session k clk r (u\<lparr>usr_password_hash := Some h, usr_must_change_password := False\<rparr>) b (mb_role m) client None None
      (revoke_all_for_user clk (usr_id u) (set_user (u\<lparr>usr_password_hash := Some h, usr_must_change_password := False\<rparr>) s)) = Inr (auth, s')"
    by (auto simp: change_password_body_def result_simps Let_def)
  have "accounts_ok (set_user (u\<lparr>usr_password_hash := Some h, usr_must_change_password := False\<rparr>) s)"
    by (rule set_user_ok [OF _ assms(2)]) (use assms(1) in \<open>simp_all add: site_ok_def\<close>)
  then have "accounts_ok s'" by (intro issue_session_ok [OF run]) (auto simp: revokes)
  then show "site_ok s'" by (rule site_okI [OF assms(1)]) (use issue_session_frame [OF run] in \<open>simp_all add: revokes\<close>)
qed

subsection \<open>Reset codes and members\<close>

lemma codes_update_ok:
  assumes "accounts_ok s" and "\<And>c. rc_id (f c) = rc_id c"
  shows "accounts_ok (s\<lparr>reset_codes := update_where P f (reset_codes s)\<rparr>)"
proof -
  have "map rc_id (update_where P f (reset_codes s)) = map rc_id (reset_codes s)" by (simp add: map_update_where assms(2))
  moreover have "site_ids (s\<lparr>reset_codes := update_where P f (reset_codes s)\<rparr>) = site_ids s"
    using update_where_ids [of rc_id f P "reset_codes s"] assms(2) by (simp add: site_ids_def)
  ultimately show ?thesis using assms(1) by (simp add: accounts_ok_def ids_ok_def)
qed

lemma create_code_ok: "accounts_ok s \<Longrightarrow> accounts_ok (create_code clk uid h expires address s)"
proof -
  assume ok: "accounts_ok s"
  have "ids_ok (create_code clk uid h expires address s)"
    by (rule ids_ok_step [of s]) (use ok in \<open>auto simp: accounts_ok_def create_code_def new_id_def site_ids_def\<close>)
  moreover have "next_id s \<notin> rc_id ` set (reset_codes s)" using next_id_new [OF accounts_okD(1) [OF ok]] by (simp add: site_ids_def)
  ultimately show ?thesis using ok by (simp add: accounts_ok_def create_code_def)
qed

lemma request_body_ok:
  assumes "request_body k clk r phone client s = Inr (out, s')" and "site_ok s"
  shows "site_ok s'"
proof -
  have "s' = s \<or> (\<exists>uid h e a. s' = create_code clk uid h e a (expire_open_codes clk uid s))"
    using assms(1) by (auto simp: request_body_def Let_def split: option.splits if_splits)
  then show ?thesis
  proof
    assume "\<exists>uid h e a. s' = create_code clk uid h e a (expire_open_codes clk uid s)"
    then obtain uid h e a where s': "s' = create_code clk uid h e a (expire_open_codes clk uid s)" by blast
    have "accounts_ok s'" unfolding s' expire_open_codes_def
      by (rule create_code_ok, rule codes_update_ok) (use assms(2) in \<open>simp_all add: site_ok_def\<close>)
    then show ?thesis by (rule site_okI [OF assms(2)]) (simp_all add: s' create_code_def expire_open_codes_def)
  qed (use assms(2) in simp)
qed

lemma request_password_reset_ok: "site_ok s \<Longrightarrow> site_ok (snd (request_password_reset k send clk r phone client s))"
proof -
  assume ok: "site_ok s"
  have "snd (request_password_reset k send clk r phone client s) \<in> {s, snd (transaction (request_body k clk r p client) s)}"
    if "normalize_phone phone = Inr p" for p
    using that by (auto simp: request_password_reset_def split: prod.split sum.split option.split)
  moreover have "site_ok (snd (transaction (request_body k clk r p client) s))" for p
    by (rule site_transaction [OF _ ok]) (rule request_body_ok)
  ultimately show ?thesis using ok by (cases "normalize_phone phone") (force simp: request_password_reset_def)+
qed

lemma consume_code_ok:
  assumes "consume_code clk uid h s = Inr (c, s')" and "site_ok s"
  shows "site_ok s'" and "users s' = users s"
proof -
  have s': "s' = s\<lparr>reset_codes := update_where (\<lambda>c. open_code clk uid c \<and> rc_code_hash c = h) (\<lambda>c. c\<lparr>rc_used_at := Some (tx_now clk)\<rparr>) (reset_codes s)\<rparr>"
    using assms(1) by (auto simp: consume_code_def Let_def result_simps)
  have "accounts_ok s'" unfolding s' by (rule codes_update_ok) (use assms(2) in \<open>simp_all add: site_ok_def\<close>)
  then show "site_ok s'" by (rule site_okI [OF assms(2)]) (simp_all add: s')
  show "users s' = users s" by (simp add: s')
qed

lemma count_attempt_ok: "site_ok s \<Longrightarrow> site_ok (count_attempt i s)"
  by (rule site_okI) (auto simp: site_ok_def count_attempt_def intro!: codes_update_ok)

lemma reset_body_ok:
  assumes "reset_body k clk r u password client s = Inr (x, s')" and "site_ok s" and "u \<in> set (users s)"
  shows "site_ok s'"
proof -
  from assms(1) obtain h m b where s': "s' = audited (sms_context u m) ''user.password_reset'' ''user'' (usr_id u) None
      (Some [(''method'', JText ''sms_code'')]) (Some client)
      (revoke_all_for_user clk (usr_id u) (set_user (u\<lparr>usr_password_hash := Some h, usr_must_change_password := False\<rparr>) s))"
    by (auto simp: reset_body_def result_simps Let_def sms_context_def)
  have "accounts_ok (set_user (u\<lparr>usr_password_hash := Some h, usr_must_change_password := False\<rparr>) s)"
    by (rule set_user_ok [OF _ assms(3)]) (use assms(2) in \<open>simp_all add: site_ok_def\<close>)
  then have "accounts_ok s'" by (auto simp: s' revokes)
  then show ?thesis by (rule site_okI [OF assms(2)]) (simp_all add: s' revokes)
qed

lemma confirm_password_reset_ok: "site_ok s \<Longrightarrow> site_ok (snd (confirm_password_reset k clk clk' r phone code password client s))"
proof (cases "normalize_phone phone")
  case (Inr p)
  assume ok: "site_ok s"
  show ?thesis
  proof (cases "consume_body k clk p code s")
    case (Inl e)
    with Inr ok show ?thesis by (simp add: confirm_password_reset_def transaction_def)
  next
    case body: (Inr out)
    then obtain u c s1 where out: "consume_body k clk p code s = Inr ((u, c), s1)" by (metis prod.exhaust)
    then have u: "u \<in> set (users s)" and run: "consume_code clk (usr_id u) (hash_reset_code k (usr_id u) code) s = Inr (c, s1)"
      by (auto simp: consume_body_def result_simps get_user_by_phone_def dest: find_SomeD)
    note one = consume_code_ok [OF run ok]
    have "site_ok (snd (transaction (reset_body k clk' r u password client) s1))"
      by (rule site_transaction [OF _ one(1)]) (rule reset_body_ok, assumption, assumption, use u one(2) in simp)
    moreover have "site_ok (snd (transaction (count_body clk' (usr_id u)) s1))"
      using one(1) count_attempt_ok by (auto simp: transaction_def count_body_def split: option.split)
    ultimately show ?thesis using Inr out
      by (cases c) (auto simp: confirm_password_reset_def transaction_def count_body_def)
  qed
qed (simp add: confirm_password_reset_def)

end
