(* ===== verification/Account_Machine.thy ===== *)
theory Account_Machine
  imports Sessions
begin

text \<open>
  The members of a business keep the invariants of \<open>Sessions\<close>, the accounts as a step relation with the states it reaches, and
  the claims about sessions, members and sign-in.
\<close>

subsection \<open>Members and the profile\<close>

lemma create_staff_body_ok:
  assumes "create_staff_body k clk r ctx data client s = Inr (uid, s')" and "site_ok s"
  shows "site_ok s'"
proof -
  from assms(1) obtain pw u s1 m s2 where one: "add_user (new_user (sc_phone data) (sc_email data) (sc_full_name data) (Some pw) None True) s = Inr (u, s1)"
    and two: "add_membership clk (business_id ctx) (usr_id u) STAFF s1 = Inr (m, s2)"
    and s': "\<exists>i a. s' = audited ctx ''user.create'' USER_ENTITY i None a (Some client) s2"
    by (fastforce simp: create_staff_body_def result_simps)
  have ok1: "accounts_ok s1" by (rule add_user_ok [OF one]) (use assms(2) in \<open>simp add: site_ok_def\<close>)
  note ok2 = add_membership_ok [OF two ok1]
  have "owned s" using assms(2) by (simp add: site_ok_def)
  then have "owned s'" using s' ok2(2,3) add_user_success(2) [OF one] by (auto simp: owned_def)
  moreover have "accounts_ok s'" using s' ok2(1) by auto
  ultimately show ?thesis by (simp add: site_ok_def)
qed

lemma create_staff_ok: "site_ok s \<Longrightarrow> site_ok (snd (create_staff k clk r ctx data client s))"
proof -
  assume ok: "site_ok s"
  have "snd (create_staff k clk r ctx data client s) = snd (account_exists (transaction (create_staff_body k clk r ctx data client) s))"
    by (cases "account_exists (transaction (create_staff_body k clk r ctx data client) s)"; cases "fst (account_exists (transaction (create_staff_body k clk r ctx data client) s))")
       (simp_all add: create_staff_def del: account_exists_snd)
  moreover have "site_ok (snd (transaction (create_staff_body k clk r ctx data client) s))"
    by (rule site_transaction [OF _ ok]) (rule create_staff_body_ok)
  ultimately show ?thesis by simp
qed

lemma replace_same:
  assumes "x \<in> set rows" and "distinct (map i rows)"
  shows "update_where (\<lambda>y. i y = i x) (\<lambda>_. x) rows = rows"
  using map_replace [OF assms, of x "\<lambda>y. y"] by simp

lemma replace_twice: "i y = i x \<Longrightarrow> update_where (\<lambda>z. i z = i y) (\<lambda>_. y) (update_where (\<lambda>z. i z = i x) (\<lambda>_. x) rows) = update_where (\<lambda>z. i z = i x) (\<lambda>_. y) rows"
  by (simp add: update_where_def)

lemma change_role_effect:
  assumes "change_role ctx nr client (m, s) = (m1, s1)" and "accounts_ok s" and "m \<in> set (memberships s)"
  shows "m1 = m\<lparr>mb_role := nr\<rparr>" and "memberships s1 = update_where (\<lambda>x. mb_id x = mb_id m) (\<lambda>_. m1) (memberships s)"
    and "accounts_ok s1" and "businesses s1 = businesses s" and "users s1 = users s" and "refresh_tokens s1 = refresh_tokens s"
proof -
  have d: "distinct (map mb_id (memberships s))" by (rule accounts_okD [OF assms(2)])
  have "accounts_ok (set_membership (m\<lparr>mb_role := nr\<rparr>) s)" by (rule set_membership_ok [OF assms(2,3)]) simp_all
  then have all: "m1 = m\<lparr>mb_role := nr\<rparr> \<and> memberships s1 = update_where (\<lambda>x. mb_id x = mb_id m) (\<lambda>_. m1) (memberships s)
      \<and> accounts_ok s1 \<and> businesses s1 = businesses s \<and> users s1 = users s \<and> refresh_tokens s1 = refresh_tokens s"
    using assms(1,2) replace_same [OF assms(3) d]
    by (cases "nr = mb_role m") (auto simp: change_role_def Let_def set_membership_def)
  then show "m1 = m\<lparr>mb_role := nr\<rparr>" "memberships s1 = update_where (\<lambda>x. mb_id x = mb_id m) (\<lambda>_. m1) (memberships s)"
    "accounts_ok s1" "businesses s1 = businesses s" "users s1 = users s" "refresh_tokens s1 = refresh_tokens s" by simp_all
qed

lemma change_active_effect:
  assumes "change_active clk ctx na client (m, s) = (m', s')" and "accounts_ok s" and "m \<in> set (memberships s)"
  shows "memberships s' = update_where (\<lambda>x. mb_id x = mb_id m) (\<lambda>_. m') (memberships s)" and "m' = m\<lparr>mb_is_active := na\<rparr>"
    and "accounts_ok s'" and "businesses s' = businesses s" and "users s' = users s"
    and "mb_is_active m \<Longrightarrow> \<not> na \<Longrightarrow> refresh_tokens s' = refresh_tokens (revoke_all_for_user clk (mb_user_id m) s)"
proof -
  have d: "distinct (map mb_id (memberships s))" by (rule accounts_okD [OF assms(2)])
  let ?m = "m\<lparr>mb_is_active := na\<rparr>"
  have one: "accounts_ok (set_membership ?m s)" by (rule set_membership_ok [OF assms(2,3)]) simp_all
  have all: "memberships s' = update_where (\<lambda>x. mb_id x = mb_id m) (\<lambda>_. m') (memberships s) \<and> m' = ?m \<and> accounts_ok s'
      \<and> businesses s' = businesses s \<and> users s' = users s
      \<and> (mb_is_active m \<and> \<not> na \<longrightarrow> refresh_tokens s' = refresh_tokens (revoke_all_for_user clk (mb_user_id m) s))"
  proof (cases "na = mb_is_active m")
    case True
    with assms(1,2) replace_same [OF assms(3) d] show ?thesis by (auto simp: change_active_def)
  next
    case False
    let ?s = "if na then set_membership ?m s else revoke_all_for_user clk (mb_user_id m) (set_membership ?m s)"
    obtain a b f where s': "s' = audited ctx a USER_ENTITY (mb_user_id m) b f (Some client) ?s" and m': "m' = ?m"
      using assms(1) False by (simp add: change_active_def Let_def) blast
    have "accounts_ok s'" unfolding s' using one by (auto simp: revokes intro!: audited_ok revoke_where_ok)
    then show ?thesis by (simp add: m') (simp add: s' revokes revoke_where_def set_membership_def)
  qed
  then show "memberships s' = update_where (\<lambda>x. mb_id x = mb_id m) (\<lambda>_. m') (memberships s)" "m' = m\<lparr>mb_is_active := na\<rparr>"
    "accounts_ok s'" "businesses s' = businesses s" "users s' = users s"
    "mb_is_active m \<Longrightarrow> \<not> na \<Longrightarrow> refresh_tokens s' = refresh_tokens (revoke_all_for_user clk (mb_user_id m) s)" by simp_all
qed

text \<open>What a successful change of a member does to the tables.\<close>

lemma update_member_body_success:
  assumes "update_member_body clk ctx uid data client s = Inr (m', s')" and "accounts_ok s"
  obtains m where "m \<in> set (memberships s)" and "mb_business_id m = business_id ctx" and "mb_user_id m = uid"
    and "m' = m\<lparr>mb_role := (case mu_role data of None \<Rightarrow> mb_role m | Some r \<Rightarrow> r), mb_is_active := (case mu_is_active data of None \<Rightarrow> mb_is_active m | Some a \<Rightarrow> a)\<rparr>"
    and "memberships s' = update_where (\<lambda>x. mb_id x = mb_id m) (\<lambda>_. m') (memberships s)"
    and "mb_role m = OWNER \<Longrightarrow> mb_is_active m \<Longrightarrow> \<not> (mb_role m' = OWNER \<and> mb_is_active m') \<Longrightarrow> 1 < count_active_owners (business_id ctx) s"
    and "accounts_ok s'" and "businesses s' = businesses s" and "users s' = users s"
    and "mb_is_active m \<Longrightarrow> \<not> mb_is_active m' \<Longrightarrow> refresh_tokens s' = refresh_tokens (revoke_all_for_user clk uid s)"
proof -
  from assms(1) obtain m where m: "repo_get_member (business_id ctx) uid s = Some m" by (auto simp: update_member_body_def get_member_def result_simps)
  define nr where "nr = (case mu_role data of None \<Rightarrow> mb_role m | Some r \<Rightarrow> r)"
  define na where "na = (case mu_is_active data of None \<Rightarrow> mb_is_active m | Some a \<Rightarrow> a)"
  have mem: "m \<in> set (memberships s)" "mb_business_id m = business_id ctx" "mb_user_id m = uid"
    using m by (auto simp: repo_get_member_def dest: find_SomeD)
  have guard: "\<not> (mb_role m = OWNER \<and> mb_is_active m \<and> \<not> (nr = OWNER \<and> na) \<and> count_active_owners (business_id ctx) s \<le> 1)"
    and run: "(m', s') = change_active clk ctx na client (change_role ctx nr client (m, s))"
    using assms(1) m by (auto simp: update_member_body_def get_member_def result_simps Let_def nr_def na_def)
  obtain m1 s1 where one: "change_role ctx nr client (m, s) = (m1, s1)" by (cases "change_role ctx nr client (m, s)")
  have d: "distinct (map mb_id (memberships s))" by (rule accounts_okD [OF assms(2)])
  note first = change_role_effect [OF one assms(2) mem(1)]
  have in1: "m1 \<in> set (memberships s1)" using mem(1) by (auto simp: first(2) set_update_where image_iff)
  note second = change_active_effect [OF run [unfolded one, symmetric] first(3) in1]
  show thesis
  proof (rule that [OF mem])
    show "m' = m\<lparr>mb_role := (case mu_role data of None \<Rightarrow> mb_role m | Some r \<Rightarrow> r), mb_is_active := (case mu_is_active data of None \<Rightarrow> mb_is_active m | Some a \<Rightarrow> a)\<rparr>"
      by (simp add: second(2) first(1) nr_def na_def)
    show "memberships s' = update_where (\<lambda>x. mb_id x = mb_id m) (\<lambda>_. m') (memberships s)"
      by (simp add: second(1,2) first(1,2) update_where_def)
    show "mb_role m = OWNER \<Longrightarrow> mb_is_active m \<Longrightarrow> \<not> (mb_role m' = OWNER \<and> mb_is_active m') \<Longrightarrow> 1 < count_active_owners (business_id ctx) s"
      using guard by (auto simp: second(2) first(1))
    show "accounts_ok s'" "businesses s' = businesses s" "users s' = users s" using second first by simp_all
    show "mb_is_active m \<Longrightarrow> \<not> mb_is_active m' \<Longrightarrow> refresh_tokens s' = refresh_tokens (revoke_all_for_user clk uid s)"
      using second(6) first(6) mem(3) by (simp add: first(1) second(2) revokes revoke_where_def)
  qed
qed

lemma another_member:
  assumes "1 < length (filter P xs)" and "distinct xs"
  shows "\<exists>y \<in> set xs. P y \<and> y \<noteq> x"
proof (rule ccontr)
  assume "\<not> ?thesis"
  then have "set (filter P xs) \<subseteq> {x}" by auto
  then have "card (set (filter P xs)) \<le> 1" using card_mono [of "{x}"] by fastforce
  with assms show False using distinct_card [OF distinct_filter [OF assms(2)], of P] by simp
qed

lemma update_member_body_ok:
  assumes "update_member_body clk ctx uid data client s = Inr (m', s')" and "site_ok s"
  shows "site_ok s'"
proof -
  have acc: "accounts_ok s" using assms(2) by (simp add: site_ok_def)
  from assms(1) acc show ?thesis
  proof (rule update_member_body_success)
    fix m
    assume m: "m \<in> set (memberships s)" "mb_business_id m = business_id ctx"
      and m': "m' = m\<lparr>mb_role := (case mu_role data of None \<Rightarrow> mb_role m | Some r \<Rightarrow> r), mb_is_active := (case mu_is_active data of None \<Rightarrow> mb_is_active m | Some a \<Rightarrow> a)\<rparr>"
      and ms: "memberships s' = update_where (\<lambda>x. mb_id x = mb_id m) (\<lambda>_. m') (memberships s)"
      and guard: "mb_role m = OWNER \<Longrightarrow> mb_is_active m \<Longrightarrow> \<not> (mb_role m' = OWNER \<and> mb_is_active m') \<Longrightarrow> 1 < count_active_owners (business_id ctx) s"
      and acc': "accounts_ok s'" and bs: "businesses s' = businesses s"
    have d: "distinct (map mb_id (memberships s))" by (rule accounts_okD [OF acc])
    have bid: "mb_business_id m' = mb_business_id m" by (simp add: m')
    have keep: "y \<in> set (memberships s')" if "y \<in> set (memberships s)" "y \<noteq> m" for y
      using that m(1) d by (auto simp: ms set_update_where image_iff distinct_map inj_on_def)
    have new: "m' \<in> set (memberships s')" using m(1) by (auto simp: ms set_update_where image_iff)
    have "\<exists>y \<in> set (memberships s'). active_owner (biz_id b) y" if "b \<in> set (businesses s)" for b
    proof -
      from assms(2) that obtain y where y: "y \<in> set (memberships s)" "active_owner (biz_id b) y" by (auto simp: site_ok_def owned_def)
      show ?thesis
      proof (cases "y = m \<and> \<not> (mb_role m' = OWNER \<and> mb_is_active m')")
        case True
        with y m(2) guard have "1 < length (filter (active_owner (biz_id b)) (memberships s))" by (auto simp: count_active_owners_def)
        from another_member [OF this, of m] d keep show ?thesis by (auto simp: distinct_map)
      next
        case False
        with y keep new bid show ?thesis by (cases "y = m") auto
      qed
    qed
    then show ?thesis using acc' by (simp add: site_ok_def owned_def bs)
  qed
qed

lemma update_member_ok: "site_ok s \<Longrightarrow> site_ok (snd (update_member clk ctx uid data client s))"
  unfolding update_member_def by (rule site_transaction) (rule update_member_body_ok)

lemma reset_password_ok: "site_ok s \<Longrightarrow> site_ok (snd (reset_password k clk r ctx uid password client s))"
  unfolding reset_password_def
proof (rule site_transaction)
  fix x s'
  assume "reset_password_body k clk r ctx uid password client s = Inr (x, s')" and ok: "site_ok s"
  then obtain m :: membership and u h where u: "get_user_by_id (mb_user_id m) s = Some u"
    and s': "s' = audited ctx ''user.password_reset'' USER_ENTITY (mb_user_id m) None None (Some client)
      (revoke_all_for_user clk (mb_user_id m) (set_user (u\<lparr>usr_password_hash := Some h, usr_must_change_password := True\<rparr>) s))"
    by (auto simp: reset_password_body_def result_simps Let_def)
  have "accounts_ok (set_user (u\<lparr>usr_password_hash := Some h, usr_must_change_password := True\<rparr>) s)"
    by (rule set_user_ok [of _ u]) (use ok get_user_by_id_Some [OF u] in \<open>simp_all add: site_ok_def\<close>)
  then have "accounts_ok s'" by (auto simp: s' revokes)
  then show "site_ok s'" by (rule site_okI [OF ok]) (simp_all add: s' revokes)
qed

lemma patch_field_id: "(\<And>b. biz_id (upd b) = biz_id b) \<Longrightarrow> biz_id (snd (snd (patch_field f c n upd p))) = biz_id (snd (snd p))"
  by (auto simp: patch_field_def split: prod.split option.split)

lemma patch_business_id: "patch_business q b = (before, after, b') \<Longrightarrow> biz_id b' = biz_id b"
proof -
  assume "patch_business q b = (before, after, b')"
  then have "b' = snd (snd (patch_business q b))" by simp
  then show "biz_id b' = biz_id b" by (simp add: patch_business_def patch_field_id)
qed

lemma repo_get_business_Some: "repo_get_business i s = Some b \<Longrightarrow> b \<in> set (businesses s) \<and> biz_id b = i"
  by (auto simp: repo_get_business_def dest: find_SomeD)

lemma update_business_ok: "site_ok s \<Longrightarrow> site_ok (snd (update_business ctx data client s))"
  unfolding update_business_def
proof (rule site_transaction)
  fix x s'
  assume body: "update_business_body ctx data client s = Inr (x, s')" and ok: "site_ok s"
  from body obtain b where b: "repo_get_business (business_id ctx) s = Some b" by (auto simp: update_business_body_def result_simps)
  obtain before after b' where p: "patch_business data b = (before, after, b')" by (cases "patch_business data b")
  show "site_ok s'"
  proof (cases "after = []")
    case False
    with body b p have s': "s' = audited ctx ''business.update'' BUSINESS_ENTITY (biz_id b) (Some before) (Some after) (Some client) (set_business b' s)"
      by (auto simp: update_business_body_def result_simps)
    note id = patch_business_id [OF p]
    have mem: "b \<in> set (businesses s)" using repo_get_business_Some [OF b] by simp
    have acc: "accounts_ok s" using ok by (simp add: site_ok_def)
    have d: "distinct (map biz_id (businesses s))" by (rule accounts_okD [OF acc])
    have ids: "map biz_id (businesses (set_business b' s)) = map biz_id (businesses s)"
      using map_replace [OF mem d id id] by (simp add: set_business_def)
    have "site_ids (set_business b' s) = site_ids s"
      using arg_cong [OF ids, of set] by (simp add: site_ids_def)
    then have "accounts_ok (set_business b' s)" using acc ids by (simp add: accounts_ok_def ids_ok_def members_ok_def)
    then have "accounts_ok s'" by (auto simp: s')
    moreover have "owned s'"
    proof -
      have "\<exists>y \<in> set (businesses s). biz_id y = biz_id z" if "z \<in> set (businesses s')" for z
      proof -
        have "biz_id z \<in> set (map biz_id (businesses (set_business b' s)))" using that by (simp add: s')
        then show ?thesis unfolding ids by auto
      qed
      then show ?thesis using ok by (fastforce simp: site_ok_def owned_def s')
    qed
    ultimately show ?thesis by (simp add: site_ok_def)
  qed (use body b p ok in \<open>simp add: update_business_body_def\<close>)
qed

end
