(* ===== verification/Platform_Admin.thy ===== *)
theory Platform_Admin
  imports Copilot Account_Machine
begin

text \<open>
  Removing a whole business (\<open>app/services/platform_admin.py\<close>) with the local blob storage it calls
  (\<open>app/storage/local.py\<close>). The file system is a parameter, a \<open>disk\<close>: which keys resolve to a path outside the root, and for which
  keys the file can be unlinked.

  The foreign keys between the tables are the relation \<open>points_at\<close>, which the order of the deletes is checked against.
\<close>

subsection \<open>Storage\<close>

record disk =
  escapes_root :: "string \<Rightarrow> bool"
  can_unlink :: "string \<Rightarrow> bool"

definition KEY_FIRST :: string where "KEY_FIRST = ''abcdefghijklmnopqrstuvwxyz0123456789''"
definition KEY_CHARS :: string where "KEY_CHARS = KEY_FIRST @ ''/._-''"

definition matches_key :: "string \<Rightarrow> bool" where
  "matches_key k = (case k of [] \<Rightarrow> False | c # cs \<Rightarrow> c \<in> set KEY_FIRST \<and> list_all (\<lambda>x. x \<in> set KEY_CHARS) cs \<and> length cs \<le> 200)"

fun path_segments :: "string \<Rightarrow> string list" where
  "path_segments [] = [[]]"
| "path_segments (c # cs) = (if c = CHR ''/'' then [] # path_segments cs
     else (case path_segments cs of [] \<Rightarrow> [[c]] | x # xs \<Rightarrow> (c # x) # xs))"

definition storage_path :: "disk \<Rightarrow> string \<Rightarrow> string result" where
  "storage_path d k =
     bindR (raise_if (\<not> matches_key k \<or> ''..'' \<in> set (path_segments k)) StorageError) (\<lambda>_.
     bindR (raise_if (escapes_root d k) StorageError) (\<lambda>_.
     Inr k))"

text \<open>\<open>unlink(missing_ok=True)\<close>; an \<open>OSError\<close> is turned into a \<open>StorageError\<close>.\<close>

definition storage_delete :: "disk \<Rightarrow> string \<Rightarrow> string list \<Rightarrow> string list result" where
  "storage_delete d k files =
     bindR (storage_path d k) (\<lambda>path.
     bindR (raise_if (\<not> can_unlink d path) StorageError) (\<lambda>_.
     Inr (filter (\<lambda>x. x \<noteq> path) files)))"

subsection \<open>The tables of a business\<close>

datatype tenant_table = MpesaMessages | ReceiptLines | Receipts | AIMessages | AIConversations | CreditTransactions | Payments
  | SaleItems | InventoryMovements | Sales | Expenses | Customers | Products | Categories | AuditLogs | Memberships

definition TENANT_TABLES_IN_DELETE_ORDER :: "tenant_table list" where
  "TENANT_TABLES_IN_DELETE_ORDER = [MpesaMessages, ReceiptLines, Receipts, AIMessages, AIConversations, CreditTransactions, Payments,
     SaleItems, InventoryMovements, Sales, Expenses, Customers, Products, Categories, AuditLogs, Memberships]"

text \<open>The tables a table has foreign keys to, other than \<open>businesses\<close> and \<open>users\<close>.\<close>

fun points_at :: "tenant_table \<Rightarrow> tenant_table list" where
  "points_at MpesaMessages = [Payments, CreditTransactions]"
| "points_at ReceiptLines = [Receipts, Products, InventoryMovements]"
| "points_at Receipts = []"
| "points_at AIMessages = [AIConversations]"
| "points_at AIConversations = []"
| "points_at CreditTransactions = [Customers, Sales, Payments]"
| "points_at Payments = [Sales]"
| "points_at SaleItems = [Sales, Products]"
| "points_at InventoryMovements = [Products, Sales]"
| "points_at Sales = [Customers]"
| "points_at Expenses = []"
| "points_at Customers = []"
| "points_at Products = [Categories]"
| "points_at Categories = []"
| "points_at AuditLogs = []"
| "points_at Memberships = []"

definition upd_books :: "(db \<Rightarrow> db) \<Rightarrow> platform \<Rightarrow> platform" where
  "upd_books f s = with_books (f (books s)) s"

fun delete_rows :: "uuid \<Rightarrow> tenant_table \<Rightarrow> platform \<Rightarrow> platform" where
  "delete_rows b MpesaMessages s = upd_books (mpesa_messages_update (filter (\<lambda>x. mm_business_id x \<noteq> b))) s"
| "delete_rows b ReceiptLines s = upd_books (receipt_lines_update (filter (\<lambda>x. rl_business_id x \<noteq> b))) s"
| "delete_rows b Receipts s = upd_books (receipts_update (filter (\<lambda>x. r_business_id x \<noteq> b))) s"
| "delete_rows b AIMessages s = s\<lparr>ai_messages := filter (\<lambda>x. am_business_id x \<noteq> b) (ai_messages s)\<rparr>"
| "delete_rows b AIConversations s = s\<lparr>ai_conversations := filter (\<lambda>x. cv_business_id x \<noteq> b) (ai_conversations s)\<rparr>"
| "delete_rows b CreditTransactions s = upd_books (credit_transactions_update (filter (\<lambda>x. ct_business_id x \<noteq> b))) s"
| "delete_rows b Payments s = upd_books (payments_update (filter (\<lambda>x. pay_business_id x \<noteq> b))) s"
| "delete_rows b SaleItems s = upd_books (sale_items_update (filter (\<lambda>x. si_business_id x \<noteq> b))) s"
| "delete_rows b InventoryMovements s = upd_books (movements_update (filter (\<lambda>x. m_business_id x \<noteq> b))) s"
| "delete_rows b Sales s = upd_books (sales_update (filter (\<lambda>x. s_business_id x \<noteq> b))) s"
| "delete_rows b Expenses s = upd_books (expenses_update (filter (\<lambda>x. ex_business_id x \<noteq> b))) s"
| "delete_rows b Customers s = upd_books (customers_update (filter (\<lambda>x. c_business_id x \<noteq> b))) s"
| "delete_rows b Products s = upd_books (products_update (filter (\<lambda>x. p_business_id x \<noteq> b))) s"
| "delete_rows b Categories s = upd_books (categories_update (filter (\<lambda>x. cat_business_id x \<noteq> b))) s"
| "delete_rows b AuditLogs s = upd_books (audit_logs_update (filter (\<lambda>x. al_business_id x \<noteq> b))) s"
| "delete_rows b Memberships s = s\<lparr>home := (home s)\<lparr>memberships := filter (\<lambda>x. mb_business_id x \<noteq> b) (memberships (home s))\<rparr>\<rparr>"

subsection \<open>Deleting a business\<close>

record Deleted =
  dl_business_id :: uuid
  dl_name :: string
  dl_users_deleted :: nat
  dl_receipt_images :: nat

definition OwnBusinessError :: error where "OwnBusinessError = ConflictError ''OWN_BUSINESS''"

definition member_ids_of :: "uuid \<Rightarrow> platform \<Rightarrow> uuid list" where
  "member_ids_of b s = map mb_user_id (filter (\<lambda>m. mb_business_id m = b) (memberships (home s)))"

text \<open>Users who belong to nothing else.\<close>

definition orphan_ids_of :: "uuid \<Rightarrow> platform \<Rightarrow> uuid list" where
  "orphan_ids_of b s =
     (let member_ids = member_ids_of b s;
          others = mb_user_id ` set (filter (\<lambda>m. mb_user_id m \<in> set member_ids \<and> mb_business_id m \<noteq> b) (memberships (home s))) in
      filter (\<lambda>u. u \<notin> others) member_ids)"

definition delete_users :: "uuid list \<Rightarrow> platform \<Rightarrow> platform" where
  "delete_users ids s = s\<lparr>home := (home s)\<lparr>refresh_tokens := filter (\<lambda>t. rt_user_id t \<notin> set ids) (refresh_tokens (home s)),
     reset_codes := filter (\<lambda>c. rc_user_id c \<notin> set ids) (reset_codes (home s)), users := filter (\<lambda>u. usr_id u \<notin> set ids) (users (home s))\<rparr>\<rparr>"

definition delete_body :: "user \<Rightarrow> uuid \<Rightarrow> platform \<Rightarrow> ((string \<times> uuid list \<times> string list) \<times> platform) result" where
  "delete_body admin b s =
     bindR (the_or NotFoundError (repo_get_business b (home s))) (\<lambda>business.
     bindR (raise_if (usr_id admin \<in> set (member_ids_of b s)) OwnBusinessError) (\<lambda>_.
     let orphan_ids = orphan_ids_of b s;
         image_keys = map r_storage_key (filter (\<lambda>r. r_business_id r = b) (receipts (books s)));
         s = fold (delete_rows b) TENANT_TABLES_IN_DELETE_ORDER s;
         s = s\<lparr>home := (home s)\<lparr>businesses := filter (\<lambda>x. biz_id x \<noteq> b) (businesses (home s))\<rparr>\<rparr> in
     Inr ((biz_name business, orphan_ids, image_keys), if orphan_ids = [] then s else delete_users orphan_ids s)))"

text \<open>The loop over the images: only an \<open>OSError\<close> is caught.\<close>

fun remove_images :: "disk \<Rightarrow> string list \<Rightarrow> string list \<Rightarrow> unit result \<times> string list" where
  "remove_images d [] files = (Inr (), files)"
| "remove_images d (k # ks) files = (case storage_delete d k files of
     Inr files \<Rightarrow> remove_images d ks files
   | Inl e \<Rightarrow> if e = OSError then remove_images d ks files else (Inl e, files))"

definition delete_business :: "disk \<Rightarrow> user \<Rightarrow> uuid \<Rightarrow> platform \<Rightarrow> Deleted result \<times> platform" where
  "delete_business d admin b s = (case transaction (delete_body admin b) s of
     (Inl e, s) \<Rightarrow> (Inl e, s)
   | (Inr (name, orphan_ids, image_keys), s) \<Rightarrow>
       (case remove_images d image_keys (blobs s) of (out, files) \<Rightarrow>
         (bindR out (\<lambda>_. Inr \<lparr>dl_business_id = b, dl_name = name, dl_users_deleted = length orphan_ids,
            dl_receipt_images = length image_keys\<rparr>), s\<lparr>blobs := files\<rparr>)))"


subsection \<open>What is left\<close>

text \<open>The rows of one business, in every table that has one.\<close>

definition rows_of :: "uuid \<Rightarrow> platform \<Rightarrow> platform" where
  "rows_of b s = \<lparr>home = (home s)\<lparr>shop := (books s)\<lparr>
       categories := filter (\<lambda>x. cat_business_id x = b) (categories (books s)),
       products := filter (\<lambda>x. p_business_id x = b) (products (books s)),
       movements := filter (\<lambda>x. m_business_id x = b) (movements (books s)),
       customers := filter (\<lambda>x. c_business_id x = b) (customers (books s)),
       credit_transactions := filter (\<lambda>x. ct_business_id x = b) (credit_transactions (books s)),
       sales := filter (\<lambda>x. s_business_id x = b) (sales (books s)),
       sale_items := filter (\<lambda>x. si_business_id x = b) (sale_items (books s)),
       payments := filter (\<lambda>x. pay_business_id x = b) (payments (books s)),
       mpesa_messages := filter (\<lambda>x. mm_business_id x = b) (mpesa_messages (books s)),
       receipts := filter (\<lambda>x. r_business_id x = b) (receipts (books s)),
       receipt_lines := filter (\<lambda>x. rl_business_id x = b) (receipt_lines (books s)),
       expenses := filter (\<lambda>x. ex_business_id x = b) (expenses (books s)),
       audit_logs := filter (\<lambda>x. al_business_id x = b) (audit_logs (books s))\<rparr>,
       users := [], businesses := filter (\<lambda>x. biz_id x = b) (businesses (home s)),
       memberships := filter (\<lambda>x. mb_business_id x = b) (memberships (home s)), refresh_tokens := [], reset_codes := []\<rparr>,
     ai_conversations = filter (\<lambda>x. cv_business_id x = b) (ai_conversations s),
     ai_messages = filter (\<lambda>x. am_business_id x = b) (ai_messages s), blobs = []\<rparr>"

definition nothing :: "platform \<Rightarrow> platform" where
  "nothing s = \<lparr>home = (empty_site (uuid4 (books s)))\<lparr>shop := (empty_db (uuid4 (books s)))\<lparr>draws := draws (books s)\<rparr>\<rparr>,
     ai_conversations = [], ai_messages = [], blobs = []\<rparr>"

definition emptied :: "uuid \<Rightarrow> platform \<Rightarrow> platform" where
  "emptied b s = (let s = fold (delete_rows b) TENANT_TABLES_IN_DELETE_ORDER s in
     s\<lparr>home := (home s)\<lparr>businesses := filter (\<lambda>x. biz_id x \<noteq> b) (businesses (home s))\<rparr>\<rparr>)"

lemmas emptied_eval = emptied_def TENANT_TABLES_IN_DELETE_ORDER_def upd_books_def with_books_def

lemma emptied_simps [simp]:
  "users (home (emptied b s)) = users (home s)"
  "refresh_tokens (home (emptied b s)) = refresh_tokens (home s)"
  "reset_codes (home (emptied b s)) = reset_codes (home s)"
  "memberships (home (emptied b s)) = filter (\<lambda>x. mb_business_id x \<noteq> b) (memberships (home s))"
  "businesses (home (emptied b s)) = filter (\<lambda>x. biz_id x \<noteq> b) (businesses (home s))"
  "uuid4 (shop (home (emptied b s))) = uuid4 (shop (home s))"
  "draws (shop (home (emptied b s))) = draws (shop (home s))"
  "blobs (emptied b s) = blobs s"
  by (simp_all add: emptied_eval)

lemma filter_other: "b' \<noteq> b \<Longrightarrow> filter (\<lambda>x. f x = b') (filter (\<lambda>x. f x \<noteq> b) xs) = filter (\<lambda>x. f x = b') xs"
  by (induction xs) auto

lemma rows_of_emptied: "b' \<noteq> b \<Longrightarrow> rows_of b' (emptied b s) = rows_of b' s"
  by (simp add: emptied_eval rows_of_def filter_other del: filter_filter)

lemma no_rows_emptied: "rows_of b (emptied b s) = nothing s"
  by (simp add: emptied_eval rows_of_def nothing_def empty_site_def empty_db_def)


text \<open>The users that stay: those who belong to another business, or did not belong to this one.\<close>

definition stays :: "uuid \<Rightarrow> platform \<Rightarrow> uuid \<Rightarrow> bool" where
  "stays b s u \<longleftrightarrow> (\<exists>m \<in> set (memberships (home s)). mb_user_id m = u \<and> mb_business_id m \<noteq> b)
     \<or> (\<forall>m \<in> set (memberships (home s)). mb_user_id m = u \<longrightarrow> mb_business_id m \<noteq> b)"

lemma orphans_leave: "u \<in> set (orphan_ids_of b s) \<longleftrightarrow> \<not> stays b s u"
proof -
  have "u \<in> set (orphan_ids_of b s) \<longleftrightarrow> (\<exists>x \<in> set (memberships (home s)). mb_user_id x = u \<and> mb_business_id x = b)
      \<and> \<not> (\<exists>m \<in> set (memberships (home s)). mb_user_id m = u \<and> mb_business_id m \<noteq> b)"
    unfolding orphan_ids_of_def member_ids_of_def Let_def set_filter set_map by blast
  then show ?thesis unfolding stays_def by blast
qed

definition deleted_state :: "uuid \<Rightarrow> platform \<Rightarrow> platform" where
  "deleted_state b s = delete_users (orphan_ids_of b s) (emptied b s)"

lemma delete_users_none: "delete_users [] s = s"
  by (simp add: delete_users_def)

lemma delete_body_success:
  assumes "delete_body admin b s = Inr ((name, ids, keys), s')"
  shows "ids = orphan_ids_of b s" and "keys = map r_storage_key (filter (\<lambda>r. r_business_id r = b) (receipts (books s)))"
    and "s' = deleted_state b s" and "usr_id admin \<notin> set (member_ids_of b s)" and "repo_get_business b (home s) \<noteq> None"
  using assms by (auto simp: delete_body_def result_simps Let_def deleted_state_def emptied_def delete_users_none split: if_splits)

lemma deleted_state_simps [simp]:
  "users (home (deleted_state b s)) = filter (\<lambda>u. stays b s (usr_id u)) (users (home s))"
  "refresh_tokens (home (deleted_state b s)) = filter (\<lambda>t. stays b s (rt_user_id t)) (refresh_tokens (home s))"
  "reset_codes (home (deleted_state b s)) = filter (\<lambda>c. stays b s (rc_user_id c)) (reset_codes (home s))"
  "memberships (home (deleted_state b s)) = filter (\<lambda>x. mb_business_id x \<noteq> b) (memberships (home s))"
  "businesses (home (deleted_state b s)) = filter (\<lambda>x. biz_id x \<noteq> b) (businesses (home s))"
  "uuid4 (shop (home (deleted_state b s))) = uuid4 (shop (home s))"
  "draws (shop (home (deleted_state b s))) = draws (shop (home s))"
  "blobs (deleted_state b s) = blobs s"
  by (simp_all add: deleted_state_def delete_users_def orphans_leave)

lemma rows_of_deleted:
  "b' \<noteq> b \<Longrightarrow> rows_of b' (deleted_state b s) = rows_of b' s"
  "rows_of b (deleted_state b s) = nothing s"
proof -
  have "rows_of k (delete_users ids t) = rows_of k t" for k ids t by (simp add: rows_of_def delete_users_def)
  then show "b' \<noteq> b \<Longrightarrow> rows_of b' (deleted_state b s) = rows_of b' s" "rows_of b (deleted_state b s) = nothing s"
    by (simp_all add: deleted_state_def rows_of_emptied no_rows_emptied)
qed

lemma rows_of_blobs [simp]: "rows_of b (s\<lparr>blobs := x\<rparr>) = rows_of b s"
  by (simp add: rows_of_def)

lemma key_unique_filter: "key_unique f xs \<Longrightarrow> key_unique f (filter P xs)"
  by (induction xs) (auto simp: key_unique_simps)

lemma tokens_ok_filter: "tokens_ok ts \<Longrightarrow> tokens_ok (filter P ts)"
  unfolding tokens_ok_def one_user_def by (metis distinct_map_filter filter_is_subset key_unique_filter subsetD)

text \<open>The invariants of the accounts survive: each is about rows that are all kept or all removed.\<close>

lemma deleted_site_ok:
  assumes "site_ok (home s)"
  shows "site_ok (home (deleted_state b s))"
proof -
  have acc: "accounts_ok (home s)" and own: "owned (home s)" using assms by (auto simp: site_ok_def)
  have "ids_ok (home (deleted_state b s))"
    using acc by (auto simp: accounts_ok_def ids_ok_def site_ids_def image_subset_iff)
  moreover have "users_ok (users (home (deleted_state b s)))"
    using acc by (simp add: accounts_ok_def users_ok_def key_unique_filter distinct_map_filter)
  moreover have "members_ok (businesses (home (deleted_state b s))) (memberships (home (deleted_state b s)))"
    using acc by (simp add: accounts_ok_def members_ok_def distinct_map_filter)
  moreover have "tokens_ok (refresh_tokens (home (deleted_state b s)))"
    using acc by (simp add: accounts_ok_def tokens_ok_filter)
  moreover have "distinct (map rc_id (reset_codes (home (deleted_state b s))))"
    using acc by (simp add: accounts_ok_def distinct_map_filter)
  moreover have "owned (home (deleted_state b s))"
    using own by (fastforce simp: owned_def)
  ultimately show ?thesis by (simp add: site_ok_def accounts_ok_def)
qed

lemma site_ok_blobs [simp]: "home (s\<lparr>blobs := x\<rparr>) = home s"
  by simp

subsection \<open>Two businesses that share a member\<close>

definition demo_person :: "uuid \<Rightarrow> string \<Rightarrow> user" where
  "demo_person i phone = \<lparr>usr_id = i, usr_phone = phone, usr_email = None, usr_full_name = ''Amina'', usr_password_hash = None,
     usr_google_sub = None, usr_is_active = True, usr_must_change_password = False, usr_last_login_at = None\<rparr>"

definition demo_duka :: "uuid \<Rightarrow> business" where
  "demo_duka i = \<lparr>biz_id = i, biz_name = ''Duka'', biz_business_type = GENERAL_SHOP, biz_phone = None, biz_address = None,
     biz_currency = ''KES'', biz_timezone = ''Africa/Nairobi'', biz_settings = Empty_Settings, biz_is_active = True,
     biz_created_at = 0\<rparr>"

definition demo_role :: "uuid \<Rightarrow> uuid \<Rightarrow> uuid \<Rightarrow> membership" where
  "demo_role i b u = \<lparr>mb_id = i, mb_business_id = b, mb_user_id = u, mb_role = OWNER, mb_is_active = True, mb_created_at = 0\<rparr>"

definition demo_image :: receipt where
  "demo_image = \<lparr>r_id = 40, r_business_id = 20, r_created_by = 10, r_status = UPLOADED, r_original_filename = None,
     r_mime_type = ''image/png'', r_size_bytes = 10, r_storage_key = ''receipts/a.png'', r_supplier_name = None, r_receipt_number = None,
     r_receipt_date = None, r_currency = None, r_extracted_subtotal = None, r_extracted_total = None, r_extraction_provider = None,
     r_extraction_model = None, r_extraction_error = None, r_warnings = None, r_extracted_at = None, r_confirmed_at = None,
     r_confirmed_by = None, r_created_at = 0\<rparr>"

definition demo_estate :: platform where
  "demo_estate = \<lparr>home = (empty_site id)\<lparr>shop := (empty_db id)\<lparr>receipts := [demo_image], draws := 100\<rparr>,
     users := [demo_person 10 ''+254700000010'', demo_person 11 ''+254700000011'', demo_person 12 ''+254700000012''],
     businesses := [demo_duka 20, demo_duka 21],
     memberships := [demo_role 30 20 10, demo_role 31 20 11, demo_role 32 21 11]\<rparr>,
     ai_conversations = [], ai_messages = [], blobs = [''receipts/a.png'']\<rparr>"

definition demo_disk :: "bool \<Rightarrow> disk" where
  "demo_disk works = \<lparr>escapes_root = (\<lambda>_. False), can_unlink = (\<lambda>_. works)\<rparr>"

subsection \<open>Claims\<close>

text \<open>
  The order of the deletes respects the foreign keys: every table is emptied before each table it points at, no table is
  emptied twice, and every table that belongs to a business is emptied.
\<close>
theorem delete_order_respects_references:
  "distinct TENANT_TABLES_IN_DELETE_ORDER \<and> length TENANT_TABLES_IN_DELETE_ORDER = 16
   \<and> list_all (\<lambda>(i, t). list_all (\<lambda>u. u \<in> set (drop (Suc i) TENANT_TABLES_IN_DELETE_ORDER)) (points_at t))
       (enumerate 0 TENANT_TABLES_IN_DELETE_ORDER)"
  by (simp add: TENANT_TABLES_IN_DELETE_ORDER_def)

text \<open>
  C39: Deleting a business removes all of it and nothing else. The business must exist and the operator must not belong to it,
  otherwise nothing changes. Afterwards no table has a row of it; every row of every other business is as it was, in the same
  order; exactly the users who belonged to nothing else are gone, with all their refresh tokens and reset codes; and the invariants
  of the accounts still hold.
\<close>
theorem delete_business_outcome:
  assumes "delete_business d admin b s = (r, s')"
  shows "(repo_get_business b (home s) = None \<longrightarrow> r = Inl NotFoundError \<and> s' = s)
    \<and> (repo_get_business b (home s) \<noteq> None \<and> usr_id admin \<in> set (member_ids_of b s) \<longrightarrow> r = Inl OwnBusinessError \<and> s' = s)
    \<and> (repo_get_business b (home s) \<noteq> None \<and> usr_id admin \<notin> set (member_ids_of b s) \<longrightarrow>
         rows_of b s' = nothing s \<and> (\<forall>b'. b' \<noteq> b \<longrightarrow> rows_of b' s' = rows_of b' s)
         \<and> users (home s') = filter (\<lambda>u. stays b s (usr_id u)) (users (home s))
         \<and> refresh_tokens (home s') = filter (\<lambda>t. stays b s (rt_user_id t)) (refresh_tokens (home s))
         \<and> reset_codes (home s') = filter (\<lambda>c. stays b s (rc_user_id c)) (reset_codes (home s)))
    \<and> (site_ok (home s) \<longrightarrow> site_ok (home s'))"
proof (cases "delete_body admin b s")
  case (Inl e)
  with assms have out: "r = Inl e" "s' = s" by (auto simp: delete_business_def transaction_def)
  from Inl have "repo_get_business b (home s) = None \<and> e = NotFoundError
      \<or> repo_get_business b (home s) \<noteq> None \<and> usr_id admin \<in> set (member_ids_of b s) \<and> e = OwnBusinessError"
    by (auto simp: delete_body_def result_simps the_or_def Let_def split: option.splits)
  with out show ?thesis by auto
next
  case (Inr x)
  obtain name ids keys t where x: "x = ((name, ids, keys), t)" by (metis prod.exhaust)
  note gone = delete_body_success [OF Inr [unfolded x]]
  obtain files where s': "s' = t\<lparr>blobs := files\<rparr>"
    using assms Inr x by (auto simp: delete_business_def transaction_def split: prod.splits)
  show ?thesis using gone(4,5) deleted_site_ok [of s b] rows_of_deleted(1) [of _ b s] rows_of_deleted(2) [of b s] by (auto simp: s' gone(3))
qed


theorem delete_business_outcome_witness:
  "\<exists>r s'. delete_business (demo_disk True) (demo_person 12 ''+254700000012'') 20 demo_estate = (r, s')
     \<and> map usr_id (users (home s')) = [11, 12] \<and> rows_of 20 s' = nothing demo_estate \<and> rows_of 21 s' = rows_of 21 demo_estate"
proof -
  obtain r s' where run: "delete_business (demo_disk True) (demo_person 12 ''+254700000012'') 20 demo_estate = (r, s')" by fastforce
  have ok: "repo_get_business 20 (home demo_estate) \<noteq> None" "usr_id (demo_person 12 ''+254700000012'') \<notin> set (member_ids_of 20 demo_estate)"
    by (simp_all add: demo_estate_def repo_get_business_def demo_duka_def demo_person_def member_ids_of_def demo_role_def)
  have "users (home s') = filter (\<lambda>u. stays 20 demo_estate (usr_id u)) (users (home demo_estate))" "rows_of 20 s' = nothing demo_estate"
      "rows_of 21 s' = rows_of 21 demo_estate"
    using delete_business_outcome [OF run] ok by auto
  moreover from this(1) have "map usr_id (users (home s')) = [11, 12]"
    by (simp add: demo_estate_def stays_def demo_role_def demo_person_def)
  ultimately show ?thesis using run by (intro exI [of _ r] exI [of _ s'] conjI) simp_all
qed

text \<open>
  C40: When an image cannot be removed, the operator is told that the deletion failed although it is complete. For every
  business with a stored image that the file system does not unlink, the call ends in a \<open>StorageError\<close>; but the rows are gone
  exactly as after a success, a second call answers that the business does not exist, and the images from the first
  that failed on are not removed.
\<close>
theorem delete_business_reports_failure:
  assumes "repo_get_business b (home s) \<noteq> None" and "usr_id admin \<notin> set (member_ids_of b s)"
    and "map r_storage_key (filter (\<lambda>r. r_business_id r = b) (receipts (books s))) = ks @ k # later"
    and "\<forall>x \<in> set ks. \<not> isl (storage_path d x) \<and> can_unlink d x" and "\<not> can_unlink d k"
  shows "\<exists>s'. delete_business d admin b s = (Inl StorageError, s')
    \<and> rows_of b s' = nothing s \<and> users (home s') = filter (\<lambda>u. stays b s (usr_id u)) (users (home s))
    \<and> (\<forall>x \<in> set (blobs s). x \<notin> set ks \<longrightarrow> x \<in> set (blobs s'))
    \<and> delete_business d admin b s' = (Inl NotFoundError, s')"
proof -
  obtain business where biz: "repo_get_business b (home s) = Some business" using assms(1) by auto
  have body: "delete_body admin b s = Inr ((biz_name business, orphan_ids_of b s, ks @ k # later), deleted_state b s)"
    using assms(2,3) by (simp add: delete_body_def biz Let_def deleted_state_def emptied_def delete_users_none the_or_def raise_if_def)
  have fails: "remove_images d (k # later) files = (Inl StorageError, files)" for files
    using assms(5) by (auto simp: storage_delete_def storage_path_def bindR_def raise_if_def)
  have ends: "\<exists>files'. remove_images d (ks @ k # later) files = (Inl StorageError, files') \<and> (\<forall>x \<in> set files. x \<notin> set ks \<longrightarrow> x \<in> set files')" for files
    using assms(4)
  proof (induction ks arbitrary: files)
    case Nil
    show ?case using fails by simp
  next
    case (Cons x ks)
    then have "storage_delete d x files = Inr (filter (\<lambda>y. y \<noteq> x) files)"
      by (auto simp: storage_delete_def storage_path_def bindR_def raise_if_def split: if_splits)
    with Cons.IH [of "filter (\<lambda>y. y \<noteq> x) files"] Cons.prems show ?case by auto
  qed
  obtain files where files: "remove_images d (ks @ k # later) (blobs s) = (Inl StorageError, files)"
      "\<forall>x \<in> set (blobs s). x \<notin> set ks \<longrightarrow> x \<in> set files" using ends by blast
  let ?s = "(deleted_state b s)\<lparr>blobs := files\<rparr>"
  have "delete_business d admin b s = (Inl StorageError, ?s)"
    by (simp add: delete_business_def transaction_def body files(1))
  moreover have "repo_get_business b (home ?s) = None" by (simp add: repo_get_business_def find_None_iff)
  then have "delete_business d admin b ?s = (Inl NotFoundError, ?s)"
    by (simp add: delete_business_def transaction_def delete_body_def the_or_def)
  ultimately show ?thesis using rows_of_deleted(2) [of b s] files(2) by auto
qed

theorem delete_business_reports_failure_witness:
  "\<exists>s'. delete_business (demo_disk False) (demo_person 12 ''+254700000012'') 20 demo_estate = (Inl StorageError, s')
     \<and> ''receipts/a.png'' \<in> set (blobs s') \<and> rows_of 20 s' = nothing demo_estate"
proof -
  have ok: "repo_get_business 20 (home demo_estate) \<noteq> None" "usr_id (demo_person 12 ''+254700000012'') \<notin> set (member_ids_of 20 demo_estate)"
    by (simp_all add: demo_estate_def repo_get_business_def demo_duka_def demo_person_def member_ids_of_def demo_role_def)
  have keys: "map r_storage_key (filter (\<lambda>r. r_business_id r = 20) (receipts (books demo_estate))) = [] @ ''receipts/a.png'' # []"
    by (simp add: demo_estate_def demo_image_def)
  have "\<forall>x \<in> set []. \<not> isl (storage_path (demo_disk False) x) \<and> can_unlink (demo_disk False) x" "\<not> can_unlink (demo_disk False) ''receipts/a.png''"
    by (simp_all add: demo_disk_def)
  from delete_business_reports_failure [OF ok keys this] show ?thesis by (auto simp: demo_estate_def)
qed

end
