(* ===== verification/Sign_In.thy ===== *)
theory Sign_In
  imports Account_Machine
begin

text \<open>
  The accounts as a step relation, one rule for every operation, and what the states it reaches satisfy; then the claims about
  sessions, members and sign-in.
\<close>

subsection \<open>Steps and reachable states\<close>

text \<open>The operations on the shop leave the accounts alone and draw ids, which the last rule allows.\<close>

inductive account_step :: "site \<Rightarrow> site \<Rightarrow> bool" where
  register: "account_step s (snd (register k clk r q client s))"
| google_register: "account_step s (snd (google_register k clk r gq client s))"
| login: "account_step s (snd (login k clk r lq client s))"
| google_sign_in: "account_step s (snd (google_sign_in k clk r identity client s))"
| refresh: "account_step s (snd (refresh k clk r raw client s))"
| logout: "account_step s (snd (logout k clk token s))"
| logout_all: "account_step s (snd (logout_all clk u s))"
| change_password: "u \<in> set (users s) \<Longrightarrow> account_step s (snd (change_password k clk r u cq client s))"
| request_password_reset: "account_step s (snd (request_password_reset k send clk r phone client s))"
| confirm_password_reset: "account_step s (snd (confirm_password_reset k clk clk' r phone code password client s))"
| create_staff: "account_step s (snd (create_staff k clk r ctx sq client s))"
| update_member: "account_step s (snd (update_member clk ctx uid mq client s))"
| reset_password: "account_step s (snd (reset_password k clk r ctx uid password client s))"
| update_business: "account_step s (snd (update_business ctx bq client s))"
| shop: "uuid4 d = uuid4 (shop s) \<Longrightarrow> draws (shop s) \<le> draws d \<Longrightarrow> account_step s (s\<lparr>shop := d\<rparr>)"

inductive accounts_reachable :: "site \<Rightarrow> bool" where
  empty: "inj u \<Longrightarrow> accounts_reachable (empty_site u)"
| more: "accounts_reachable s \<Longrightarrow> account_step s s' \<Longrightarrow> accounts_reachable s'"

lemma shop_ok: "site_ok s \<Longrightarrow> uuid4 d = uuid4 (shop s) \<Longrightarrow> draws (shop s) \<le> draws d \<Longrightarrow> site_ok (s\<lparr>shop := d\<rparr>)"
  by (rule site_okI) (auto simp: site_ok_def intro!: accounts_ok_shop)

lemma account_step_ok: "account_step s s' \<Longrightarrow> site_ok s \<Longrightarrow> site_ok s'"
  by (induction rule: account_step.induct)
     (auto intro: register_ok google_register_ok login_ok google_sign_in_ok refresh_ok logout_ok logout_all_ok change_password_ok
        request_password_reset_ok confirm_password_reset_ok create_staff_ok update_member_ok reset_password_ok update_business_ok shop_ok)

lemma empty_site_ok: "inj u \<Longrightarrow> site_ok (empty_site u)"
  by (simp add: site_ok_def accounts_ok_def owned_def ids_ok_def site_ids_def users_ok_def members_ok_def tokens_ok_def one_user_def
      empty_site_def empty_db_def)

lemma accounts_reachable_ok: "accounts_reachable s \<Longrightarrow> site_ok s"
  by (induction rule: accounts_reachable.induct) (auto intro: empty_site_ok account_step_ok)

lemma accounts_reachable_accounts: "accounts_reachable s \<Longrightarrow> accounts_ok s"
  using accounts_reachable_ok by (simp add: site_ok_def)

subsection \<open>Sample values\<close>

text \<open>A kit whose hashes keep their input readable; a token is signed by wrapping its claims.\<close>

definition demo_kit :: kit where
  "demo_kit = \<lparr>argon_hash = (\<lambda>x p. ''$'' @ p), argon_verify = (\<lambda>h p. h = ''$'' @ p), argon_stale = (\<lambda>_. False), sha256 = (\<lambda>x. ''#'' @ x),
     jwt_encode = (\<lambda>_. ''jwt''), jwt_decode = (\<lambda>_ _ _ _ _. None), access_token_ttl_minutes = 15, refresh_token_ttl_days = 30,
     jwt_issuer = None, jwt_audience = None\<rparr>"

definition demo_rnd :: "string \<Rightarrow> rnd" where
  "demo_rnd t = \<lparr>token_urlsafe = t, salt = ''s'', randbelow = 123456\<rparr>"

definition demo_client :: ClientInfo where
  "demo_client = \<lparr>ip = None, user_agent = None\<rparr>"

definition demo_register :: RegisterRequest where
  "demo_register = \<lparr>rg_full_name = ''Asha'', rg_phone = ''+254712345678'', rg_email = None, rg_password = ''karibu-sana'',
     rg_business_name = ''Duka'', rg_business_type = GENERAL_SHOP, rg_timezone = ''Africa/Nairobi''\<rparr>"

definition demo_site :: site where
  "demo_site = snd (register demo_kit demo_clock (demo_rnd ''t1'') demo_register demo_client (empty_site id))"

lemma demo_site_reachable: "accounts_reachable demo_site"
  unfolding demo_site_def by (rule accounts_reachable.more [OF accounts_reachable.empty account_step.register]) simp

lemmas account_defs = register_def create_owner_account_def create_owner_body_def account_exists_def transaction_def hash_password_def
  add_user_def user_unique_def add_business_def add_membership_def issue_session_def create_access_token_def create_refresh_token_def
  generate_refresh_token_def hash_refresh_token_def new_user_def new_business_def draw_def Let_def raise_if_def
  MAX_PASSWORD_LENGTH_def DAY_def MINUTE_def new_id_def drawn_def clipped_def

lemmas demo_account_defs = demo_kit_def demo_rnd_def demo_client_def demo_register_def demo_clock_def

definition demo_user :: user where
  "demo_user = \<lparr>usr_id = 0, usr_phone = ''+254712345678'', usr_email = None, usr_full_name = ''Asha'', usr_password_hash = Some ''$karibu-sana'',
     usr_google_sub = None, usr_is_active = True, usr_must_change_password = False, usr_last_login_at = None\<rparr>"

definition demo_member :: membership where
  "demo_member = \<lparr>mb_id = 2, mb_business_id = 1, mb_user_id = 0, mb_role = OWNER, mb_is_active = True, mb_created_at = 1000\<rparr>"

lemma demo_site_eq:
  "demo_site = \<lparr>shop = (empty_db id)\<lparr>draws := 5\<rparr>, users = [demo_user],
     businesses = [(new_business ''Duka'' GENERAL_SHOP ''Africa/Nairobi'')\<lparr>biz_id := 1, biz_created_at := 1000\<rparr>], memberships = [demo_member],
     refresh_tokens = [\<lparr>rt_id = 4, rt_family_id = 4, rt_user_id = 0, rt_token_hash = ''#t1'', rt_parent_id = None, rt_expires_at = 2592000001001,
       rt_revoked_at = None, rt_user_agent = None, rt_ip = None\<rparr>], reset_codes = []\<rparr>"
  by (simp add: demo_site_def account_defs demo_account_defs empty_site_def empty_db_def demo_user_def demo_member_def)

subsection \<open>The invariant\<close>

text \<open>
  C27: In every state the accounts can reach, by any requests in any order: every business has an active OWNER; at
  most one token of a family is not revoked, and a family belongs to one user; no two users share a phone number, an
  email or a Google identity; and nobody is a member of a business twice.
\<close>
theorem accounts_invariant:
  assumes "accounts_reachable s"
  shows "(\<forall>b \<in> set (businesses s). \<exists>m \<in> set (memberships s). mb_business_id m = biz_id b \<and> mb_role m = OWNER \<and> mb_is_active m)
    \<and> (\<forall>t \<in> set (refresh_tokens s). \<forall>t' \<in> set (refresh_tokens s). rt_family_id t = rt_family_id t' \<longrightarrow>
         rt_user_id t = rt_user_id t' \<and> (rt_revoked_at t = None \<and> rt_revoked_at t' = None \<longrightarrow> t = t'))
    \<and> distinct (map usr_phone (users s)) \<and> key_unique usr_email (users s) \<and> key_unique usr_google_sub (users s)
    \<and> distinct (map (\<lambda>m. (mb_business_id m, mb_user_id m)) (memberships s))"
proof -
  have ok: "site_ok s" by (rule accounts_reachable_ok [OF assms])
  then have acc: "accounts_ok s" by (simp add: site_ok_def)
  have live: "t = t'" if "t \<in> set (refresh_tokens s)" "t' \<in> set (refresh_tokens s)" "rt_family_id t = rt_family_id t'" "rt_revoked_at t = None"
      "rt_revoked_at t' = None" for t t'
    by (rule key_uniqueD [OF accounts_okD(6) [OF acc] that(1,2)]) (use that in \<open>simp_all add: live_family_def\<close>)
  have user: "rt_user_id t = rt_user_id t'" if "t \<in> set (refresh_tokens s)" "t' \<in> set (refresh_tokens s)" "rt_family_id t = rt_family_id t'" for t t'
    using acc that unfolding accounts_ok_def tokens_ok_def one_user_def by blast
  show ?thesis
  proof (intro conjI)
    show "\<forall>b \<in> set (businesses s). \<exists>m \<in> set (memberships s). mb_business_id m = biz_id b \<and> mb_role m = OWNER \<and> mb_is_active m"
      using ok by (simp add: site_ok_def owned_def)
    show "\<forall>t \<in> set (refresh_tokens s). \<forall>t' \<in> set (refresh_tokens s). rt_family_id t = rt_family_id t' \<longrightarrow>
         rt_user_id t = rt_user_id t' \<and> (rt_revoked_at t = None \<and> rt_revoked_at t' = None \<longrightarrow> t = t')"
      by (intro ballI impI conjI) (rule user, assumption+, erule conjE, rule live, assumption+)
  qed (use acc in \<open>simp_all add: accounts_ok_def users_ok_def members_ok_def\<close>)
qed

theorem accounts_invariant_witness:
  "length (businesses demo_site) = 1
   \<and> list_all (\<lambda>b. \<exists>m \<in> set (memberships demo_site). mb_business_id m = biz_id b \<and> mb_role m = OWNER \<and> mb_is_active m) (businesses demo_site)"
proof -
  have "length (businesses demo_site) = 1" by (simp add: demo_site_eq)
  from conjI [OF this conjunct1 [OF accounts_invariant [OF demo_site_reachable]]] show ?thesis unfolding list_all_iff .
qed

subsection \<open>Rotation and reuse of refresh tokens\<close>

lemma find_hash:
  assumes "distinct (map rt_token_hash ts)" and "t \<in> set ts"
  shows "find (\<lambda>x. rt_token_hash x = rt_token_hash t) ts = Some t"
  using assms by (induction ts) (auto simp: image_iff)

lemma revoke_where_dead:
  assumes "x \<in> set (refresh_tokens (revoke_where clk P s))" and "\<And>y v. P (y\<lparr>rt_revoked_at := v\<rparr>) = P y" and "P x"
  shows "rt_revoked_at x \<noteq> None"
proof -
  have rows: "refresh_tokens (revoke_where clk P s) = update_where (\<lambda>t. P t \<and> rt_revoked_at t = None)
      (\<lambda>t. t\<lparr>rt_revoked_at := Some (tx_now clk)\<rparr>) (refresh_tokens s)" by (simp add: revoke_where_def)
  from assms(1) obtain y where "x = (if P y \<and> rt_revoked_at y = None then y\<lparr>rt_revoked_at := Some (tx_now clk)\<rparr> else y)"
    unfolding rows set_update_where by blast
  then show ?thesis using assms(2,3) by (cases "P y \<and> rt_revoked_at y = None") auto
qed

lemma revoke_family_dead: "x \<in> set (refresh_tokens (revoke_family clk f s)) \<Longrightarrow> rt_family_id x = f \<Longrightarrow> rt_revoked_at x \<noteq> None"
  unfolding revokes by (rule revoke_where_dead [where P = "\<lambda>t. rt_family_id t = f"]) simp_all

text \<open>Presenting a token that has been revoked.\<close>

lemma replay_refused:
  assumes "accounts_ok s" and "t \<in> set (refresh_tokens s)" and "rt_token_hash t = hash_refresh_token k raw" and "rt_revoked_at t \<noteq> None"
  shows "refresh k clk r raw client s = (Inl invalid_refresh, revoke_family clk (rt_family_id t) s)"
proof -
  let ?h = "hash_refresh_token k raw"
  have "x = t" if "x \<in> set (refresh_tokens s)" "rt_token_hash x = ?h" for x
    using accounts_okD(4) [OF assms(1)] that assms(2,3) by (metis distinct_map inj_onD)
  with assms(4) have none: "\<not> (rt_token_hash x = ?h \<and> usable clk x)" if "x \<in> set (refresh_tokens s)" for x using that by auto
  then have "find (\<lambda>x. rt_token_hash x = ?h \<and> usable clk x) (refresh_tokens s) = None" by (simp add: find_None_iff)
  moreover have "revoke_where clk (\<lambda>t. rt_token_hash t = ?h \<and> tx_now clk < rt_expires_at t) s = s"
    unfolding revoke_where_def using none by (subst update_where_none) auto
  moreover have "get_by_hash ?h s = Some t"
    using find_hash [OF accounts_okD(4) [OF assms(1)] assms(2)] assms(3) by (simp add: get_by_hash_def)
  ultimately show ?thesis using assms(4) by (simp add: refresh_def transaction_def refresh_body_def consume_def Let_def)
qed

text \<open>
  C28: A refresh token works once. When a refresh succeeds, the presented token was live, its user is active and has
  an active membership in an active business, and afterwards the new token is the only live one of its family. Whoever
  presents the old token again, at any time before or after its expiry, is refused, and then no token of the family is live:
  the thief and the victim both lose the session. The tokens of other families are untouched by that.
\<close>
theorem refresh_token_works_once:
  assumes "accounts_reachable s" and "refresh k clk r raw client s = (Inr auth, s')"
  shows "\<exists>row \<in> set (refresh_tokens s). rt_token_hash row = hash_refresh_token k raw \<and> rt_revoked_at row = None \<and> tx_now clk < rt_expires_at row
     \<and> usr_id (au_user auth) = rt_user_id row \<and> usr_is_active (au_user auth) \<and> biz_is_active (au_business auth)
     \<and> {t \<in> set (refresh_tokens s'). rt_family_id t = rt_family_id row \<and> rt_revoked_at t = None}
        = {t \<in> set (refresh_tokens s'). rt_token_hash t = hash_refresh_token k (au_refresh_token auth)}
     \<and> (\<forall>clk' r' client'. \<exists>s''. refresh k clk' r' raw client' s' = (Inl invalid_refresh, s'')
          \<and> (\<forall>t \<in> set (refresh_tokens s''). rt_family_id t = rt_family_id row \<longrightarrow> rt_revoked_at t \<noteq> None)
          \<and> (\<forall>t \<in> set (refresh_tokens s'). rt_family_id t \<noteq> rt_family_id row \<longrightarrow> t \<in> set (refresh_tokens s'')))"
proof -
  have ok: "site_ok s" by (rule accounts_reachable_ok [OF assms(1)])
  then have acc: "accounts_ok s" by (simp add: site_ok_def)
  from assms(2) have body: "refresh_body k clk r raw client s = Inr (Some auth, s')"
    by (auto simp: refresh_def transaction_def split: sum.splits option.splits prod.splits)
  have acc': "accounts_ok s'" using refresh_body_ok [OF body ok] by (simp add: site_ok_def)
  from body show ?thesis
  proof (cases rule: refresh_body_cases)
    case (rotated row s1 u m b a)
    note c = consume_Some [OF rotated(1) acc]
    from rotated(6) obtain new where new: "create_refresh_token (usr_id u) (hash_refresh_token k (token_urlsafe r)) (now clk + refresh_token_ttl_days k * DAY)
        (Some (rt_family_id row)) (Some (rt_id row)) (clipped 255 (user_agent client)) (clipped 45 (ip client)) (draw s1) = Inr (new, s')"
      and au: "au_refresh_token a = token_urlsafe r" "au_user a = u" "au_business a = b" by (rule issue_session_success)
    note n = create_refresh_token_success [OF new]
    have ts: "refresh_tokens s' = refresh_tokens s1 @ [new]" by (simp add: n(1))
    have only: "{t \<in> set (refresh_tokens s'). rt_family_id t = rt_family_id row \<and> rt_revoked_at t = None}
        = {t \<in> set (refresh_tokens s'). rt_token_hash t = hash_refresh_token k (au_refresh_token auth)}"
    proof -
      have "rt_token_hash t \<noteq> hash_refresh_token k (token_urlsafe r)" if "t \<in> set (refresh_tokens s1)" for t
        using n(8) that by (simp add: image_iff) metis
      moreover have "rt_revoked_at t \<noteq> None" if "t \<in> set (refresh_tokens s1)" "rt_family_id t = rt_family_id row" for t
        using c(6) that by (simp add: family_free_def)
      ultimately have "(rt_family_id t = rt_family_id row \<and> rt_revoked_at t = None) = (rt_token_hash t = hash_refresh_token k (au_refresh_token auth))"
        if "t \<in> set (refresh_tokens s')" for t
        using that n(3,5,6) rotated(5) au(1) by (cases "t = new") (auto simp: ts)
      then show ?thesis by (intro Collect_cong conj_cong refl)
    qed
    let ?old = "row\<lparr>rt_revoked_at := Some (tx_now clk)\<rparr>"
    have old: "?old \<in> set (refresh_tokens s')" using c(1-4) by (auto simp: ts c(5) revoke_where_def set_update_where image_iff)
    have replay: "refresh k clk' r' raw client' s' = (Inl invalid_refresh, revoke_family clk' (rt_family_id row) s')" for clk' r' client'
      using replay_refused [OF acc' old, of k raw clk' r' client'] c(2) by simp
    have other: "t \<in> set (refresh_tokens (revoke_family clk' (rt_family_id row) s'))"
      if "t \<in> set (refresh_tokens s')" "rt_family_id t \<noteq> rt_family_id row" for t clk'
      using that by (auto simp: revokes revoke_where_def set_update_where image_iff)
    have act: "biz_is_active b" using rotated(4) by (auto simp: resolve_active_membership_def result_simps split: option.splits if_splits)
    show ?thesis
    proof (intro bexI [of _ row] conjI allI)
      fix clk' r' client'
      show "\<exists>s''. refresh k clk' r' raw client' s' = (Inl invalid_refresh, s'')
          \<and> (\<forall>t \<in> set (refresh_tokens s''). rt_family_id t = rt_family_id row \<longrightarrow> rt_revoked_at t \<noteq> None)
          \<and> (\<forall>t \<in> set (refresh_tokens s'). rt_family_id t \<noteq> rt_family_id row \<longrightarrow> t \<in> set (refresh_tokens s''))"
        by (rule exI [of _ "revoke_family clk' (rt_family_id row) s'"]) (use replay revoke_family_dead other in blast)
    qed (use c(1-4) get_user_by_id_Some [OF rotated(2)] rotated(3,5) au act only in simp_all)
  qed simp_all
qed

theorem refresh_token_works_once_witness:
  "\<exists>auth s'. refresh demo_kit demo_clock (demo_rnd ''t2'') ''t1'' demo_client demo_site = (Inr auth, s')
     \<and> (\<exists>s''. refresh demo_kit demo_clock (demo_rnd ''t3'') ''t1'' demo_client s' = (Inl invalid_refresh, s''))"
proof -
  have "\<not> isl (fst (refresh demo_kit demo_clock (demo_rnd ''t2'') ''t1'' demo_client demo_site))"
    by (simp add: demo_site_eq demo_account_defs account_defs refresh_def refresh_body_def consume_def revoke_where_def get_user_by_id_def
        resolve_active_membership_def list_memberships_def oldest_first_def MAX_MEMBERS_def repo_get_business_def the_or_def demo_user_def demo_member_def)
  then obtain auth s' where run: "refresh demo_kit demo_clock (demo_rnd ''t2'') ''t1'' demo_client demo_site = (Inr auth, s')"
    by (metis isl_def old.sum.exhaust prod.collapse)
  from refresh_token_works_once [OF demo_site_reachable run]
  have "\<forall>clk r client. \<exists>s''. refresh demo_kit clk r ''t1'' client s' = (Inl invalid_refresh, s'')" by metis
  with run show ?thesis by metis
qed

subsection \<open>Members\<close>


definition demo_boss :: BusinessContext where
  "demo_boss = \<lparr>user_id = 0, business_id = 1, membership_id = 2, role = OWNER, timezone = ''Africa/Nairobi'', settings = demo_settings\<rparr>"

definition demo_team :: site where
  "demo_team = snd (create_staff demo_kit demo_clock (demo_rnd ''x'') demo_boss
     \<lparr>sc_full_name = ''Ben'', sc_phone = ''+254700000001'', sc_email = None, sc_password = ''duka-letu-7''\<rparr> demo_client demo_site)"

lemma demo_team_reachable: "accounts_reachable demo_team"
  unfolding demo_team_def by (rule accounts_reachable.more [OF demo_site_reachable account_step.create_staff])

definition demo_staff_member :: membership where
  "demo_staff_member = \<lparr>mb_id = 6, mb_business_id = 1, mb_user_id = 5, mb_role = STAFF, mb_is_active = True, mb_created_at = 1000\<rparr>"

lemma demo_team_members: "memberships demo_team = [demo_member, demo_staff_member]" "businesses demo_team = businesses demo_site"
  by (simp_all add: demo_team_def create_staff_def create_staff_body_def demo_site_eq account_defs demo_account_defs demo_user_def demo_member_def
      demo_boss_def demo_staff_member_def audited_def audit_record_def empty_db_def)


subsection \<open>Settings that lock a business out\<close>

text \<open>
  C30: A patch \<open>{"settings": null}\<close> is accepted and locks the whole business out. The column then holds the JSON null, and from
  then on no request of any member gets a context: for an active member of the active business the request ends
  in a \<open>TypeError\<close>, so that the owner cannot repair the settings either.
\<close>
theorem null_settings_lock_out:
  assumes "accounts_reachable s" and "repo_get_business (business_id ctx) s = Some b" and "biz_settings b \<noteq> Null_Settings"
  shows "\<exists>s'. update_business ctx \<lparr>bu_name = None, bu_business_type = None, bu_phone = None, bu_address = None, bu_timezone = None, bu_settings = Some None\<rparr> client s
       = (Inr (b\<lparr>biz_settings := Null_Settings\<rparr>), s')
     \<and> (\<forall>c u v. at_business_id c = business_id ctx \<longrightarrow> get_business_context c u s' \<noteq> Inr v)
     \<and> (\<forall>c u m. at_business_id c = business_id ctx \<and> get_membership (usr_id u) (business_id ctx) s = Some m \<and> mb_is_active m \<and> biz_is_active b
          \<and> \<not> usr_must_change_password u \<longrightarrow> get_business_context c u s' = Inl TypeError)"
proof -
  let ?q = "\<lparr>bu_name = None, bu_business_type = None, bu_phone = None, bu_address = None, bu_timezone = None, bu_settings = Some None\<rparr>"
  let ?b = "b\<lparr>biz_settings := Null_Settings\<rparr>"
  have "settings_dump (biz_settings b) \<noteq> JNull" using assms(3) by (cases "biz_settings b") (simp_all add: settings_dump_def)
  then have patch: "patch_business ?q b = ([(''settings'', settings_dump (biz_settings b))], [(''settings'', JNull)], ?b)"
    by (simp add: patch_business_def patch_field_def stored_def) (simp add: settings_dump_def)
  obtain s' a f where run: "update_business ctx ?q client s = (Inr ?b, s')"
    and s': "s' = audited ctx ''business.update'' BUSINESS_ENTITY (biz_id b) a f (Some client) (set_business ?b s)"
    using assms(2) patch by (simp add: update_business_def transaction_def update_business_body_def the_or_def nulls_required_def raise_if_def)
  have acc: "accounts_ok s" by (rule accounts_reachable_accounts [OF assms(1)])
  have b: "biz_id b = business_id ctx" using repo_get_business_Some [OF assms(2)] by simp
  have get: "repo_get_business (business_id ctx) s' = Some ?b"
    unfolding s' repo_get_business_def set_business_def
    by simp (rule find_update_key [OF assms(2) [unfolded repo_get_business_def]], use b accounts_okD(5) [OF acc] in simp_all)
  have mem: "get_membership i j s' = get_membership i j s" for i j by (simp add: s' get_membership_def)
  have locked: "get_business_context c u s' \<noteq> Inr v" if "at_business_id c = business_id ctx" for c u v
  proof (cases "get_membership (usr_id u) (business_id ctx) s")
    case (Some m)
    then have "mb_business_id m = business_id ctx" by (auto simp: get_membership_def dest: find_SomeD)
    with Some that show ?thesis by (auto simp: get_business_context_def mem get result_simps read_settings_def)
  qed (use that in \<open>simp add: get_business_context_def mem the_or_def\<close>)
  have error: "get_business_context c u s' = Inl TypeError"
    if "at_business_id c = business_id ctx" "get_membership (usr_id u) (business_id ctx) s = Some m" "mb_is_active m" "biz_is_active b"
      "\<not> usr_must_change_password u" for c u m
  proof -
    have "mb_business_id m = business_id ctx" using that(2) by (auto simp: get_membership_def dest: find_SomeD)
    with that show ?thesis by (simp add: get_business_context_def mem get the_or_def raise_if_def read_settings_def)
  qed
  show ?thesis by (rule exI [of _ s']) (intro conjI allI impI, rule run, erule locked, (elim conjE, rule error, assumption+))
qed

theorem null_settings_lock_out_witness:
  "\<exists>b s'. update_business demo_boss \<lparr>bu_name = None, bu_business_type = None, bu_phone = None, bu_address = None, bu_timezone = None, bu_settings = Some None\<rparr>
       demo_client demo_site = (Inr b, s')
     \<and> (\<forall>c. at_business_id c = 1 \<longrightarrow> get_business_context c demo_user s' = Inl TypeError)"
proof -
  let ?b = "(new_business ''Duka'' GENERAL_SHOP ''Africa/Nairobi'')\<lparr>biz_id := 1, biz_created_at := 1000\<rparr>"
  have b: "repo_get_business (business_id demo_boss) demo_site = Some ?b" "biz_settings ?b \<noteq> Null_Settings"
    by (simp_all add: repo_get_business_def demo_site_eq demo_boss_def new_business_def)
  from null_settings_lock_out [OF demo_site_reachable b, of demo_client] obtain s' where
    run: "update_business demo_boss \<lparr>bu_name = None, bu_business_type = None, bu_phone = None, bu_address = None, bu_timezone = None, bu_settings = Some None\<rparr>
       demo_client demo_site = (Inr (?b\<lparr>biz_settings := Null_Settings\<rparr>), s')"
    and lock: "\<forall>c u m. at_business_id c = business_id demo_boss \<and> get_membership (usr_id u) (business_id demo_boss) demo_site = Some m \<and> mb_is_active m
      \<and> biz_is_active ?b \<and> \<not> usr_must_change_password u \<longrightarrow> get_business_context c u s' = Inl TypeError" by blast
  have "get_membership (usr_id demo_user) (business_id demo_boss) demo_site = Some demo_member" "mb_is_active demo_member" "biz_is_active ?b"
    "\<not> usr_must_change_password demo_user" "business_id demo_boss = 1"
    by (simp_all add: get_membership_def demo_site_eq demo_user_def demo_member_def demo_boss_def new_business_def)
  with lock have "\<forall>c. at_business_id c = 1 \<longrightarrow> get_business_context c demo_user s' = Inl TypeError" by metis
  with run show ?thesis by blast
qed

subsection \<open>Whoever registers can sign in\<close>

text \<open>
  C31: Registration is followed by sign-in. After a successful registration, anybody who gives the phone number in any spelling
  that normalises to it, and the password, gets a session as OWNER of the business just created, for every kit whose
  hashes verify; the only thing that can stand in the way is a collision of the random refresh token.
\<close>
theorem register_then_login:
  assumes "accounts_reachable s" and "\<forall>m \<in> set (memberships s). mb_user_id m \<in> usr_id ` set (users s)"
    and "\<forall>x p. argon_verify k (argon_hash k x p) p"
    and "register k clk r data client s = (Inr auth, s')" and "valid_register zone data"
    and "normalize_phone spelled = Inr (rg_phone data)" and "\<not> looks_like_email spelled"
    and "hash_refresh_token k (token_urlsafe r') \<notin> rt_token_hash ` set (refresh_tokens s')"
  shows "\<exists>auth' s''. login k clk' r' \<lparr>lg_identifier = spelled, lg_password = rg_password data\<rparr> client' s' = (Inr auth', s'')
     \<and> usr_id (au_user auth') = usr_id (au_user auth) \<and> biz_id (au_business auth') = biz_id (au_business auth) \<and> au_role auth' = OWNER"
proof -
  have ok: "site_ok s" by (rule accounts_reachable_ok [OF assms(1)])
  have pw: "rg_password data \<noteq> []" "length (rg_password data) \<le> MAX_PASSWORD_LENGTH"
    using assms(5) by (auto simp: valid_register_def validate_new_password_def MIN_PASSWORD_LENGTH_def raise_if_def split: if_splits)
  define h where "h = argon_hash k (salt r) (rg_password data)"
  define u0 where "u0 = new_user (rg_phone data) (rg_email data) (rg_full_name data) (Some h) None False"
  define b0 where "b0 = new_business (rg_business_name data) (rg_business_type data) (rg_timezone data)"
  have hash: "hash_password k x (rg_password data) = Inr (argon_hash k (salt x) (rg_password data))" for x
    using pw by (simp add: hash_password_def raise_if_def)
  have body: "create_owner_body k clk r u0 b0 client s = Inr (auth, s')"
    using assms(4) by (auto simp: register_def hash create_owner_account_def account_exists_def transaction_def u0_def b0_def h_def
        split: sum.splits error.splits prod.splits if_splits)
  obtain u s1 where one: "add_user u0 s = Inr (u, s1)" using body by (auto simp: create_owner_body_def result_simps)
  obtain b s2 where two: "add_business clk b0 s1 = (b, s2)" by (cases "add_business clk b0 s1")
  from body obtain m s3 where three: "add_membership clk (biz_id b) (usr_id u) OWNER s2 = Inr (m, s3)"
    and four: "issue_session k clk r u b OWNER client None None s3 = Inr (auth, s')"
    by (auto simp: create_owner_body_def result_simps one two)
  note n1 = add_user_success [OF one]
  have ok1: "accounts_ok s1" by (rule add_user_ok [OF one]) (use ok in \<open>simp add: site_ok_def\<close>)
  note n2 = add_business_ok [OF two ok1]
  note n3 = add_membership_ok [OF three n2(1)]
  note fr = issue_session_frame [OF four]
  have au: "au_user auth = u" "au_business auth = b" using four by (auto elim!: issue_session_success)
  have users: "users s' = users s @ [u]" using fr n3 n2 by (simp add: n1(2))
  have u: "usr_phone u = rg_phone data" "usr_password_hash u = Some h" "usr_is_active u" by (simp_all add: n1(1) u0_def new_user_def)
  have find: "find_user_by_identifier spelled s' = Some u"
  proof -
    have "find (\<lambda>x. usr_phone x = rg_phone data) (users s) = None"
      using n1(3) by (simp add: find_None_iff u0_def new_user_def) (metis imageI)
    then have "find (\<lambda>x. usr_phone x = rg_phone data) (users s') = Some u" using u(1) by (simp add: users find_append)
    then show ?thesis using assms(6,7) by (simp add: find_user_by_identifier_def get_user_by_phone_def)
  qed
  have new: "usr_id u \<notin> usr_id ` set (users s)" "\<forall>x \<in> set (memberships s). mb_user_id x \<noteq> usr_id u"
  proof -
    have "next_id s \<notin> usr_id ` set (users s)" using next_id_new [of s] ok by (auto simp: site_ok_def accounts_ok_def site_ids_def)
    then show "usr_id u \<notin> usr_id ` set (users s)" by (simp add: n1(1))
    with assms(2) show "\<forall>x \<in> set (memberships s). mb_user_id x \<noteq> usr_id u" by metis
  qed
  have ms: "memberships s' = memberships s @ [m]" using fr n3 n2 by (simp add: n1(2))
  have "filter (\<lambda>x. mb_user_id x = usr_id u) (memberships s') = [m]" using new(2) n3(6) by (simp add: ms)
  then have list: "list_memberships (usr_id u) s' = [m]" by (simp add: list_memberships_def oldest_first_def MAX_MEMBERS_def)
  have bs: "businesses s' = businesses s @ [b]" using fr n3 n2 by (simp add: n1(2))
  have "distinct (map biz_id (businesses s'))" using create_owner_body_ok [OF body ok] by (simp add: site_ok_def accounts_ok_def members_ok_def)
  then have "find (\<lambda>x. biz_id x = biz_id b) (businesses s) = None"
    by (simp add: bs find_None_iff) (metis imageI)
  then have biz: "repo_get_business (mb_business_id m) s' = Some b" using n3(5) by (simp add: repo_get_business_def bs find_append)
  have res: "resolve_active_membership x s' = Inr (m, b)" if "usr_id x = usr_id u" for x
    using list biz n3(8) n2(7) that by (simp add: resolve_active_membership_def the_or_def b0_def new_business_def)
  have check: "check_credentials k \<lparr>lg_identifier = spelled, lg_password = rg_password data\<rparr> s' = Inr (u, h)"
    using find u assms(3) pw by (simp add: check_credentials_def the_or_def raise_if_def verify_password_def h_def)
  have issue: "\<exists>auth' s''. issue_session k clk' r' x b OWNER client' None None (set_user x s') = (Inr (auth', s'')) \<and> au_user auth' = x \<and> au_business auth' = b \<and> au_role auth' = OWNER" for x
    using assms(8) by (simp add: issue_session_def create_access_token_def create_refresh_token_def generate_refresh_token_def Let_def raise_if_def)
  define u1 where "u1 = (if needs_rehash k h then u\<lparr>usr_password_hash := Some (argon_hash k (salt r') (rg_password data))\<rparr> else u)"
  have id: "usr_id u1 = usr_id u" by (simp add: u1_def)
  let ?x = "u1\<lparr>usr_last_login_at := Some (now clk')\<rparr>"
  have "login_body k clk' r' \<lparr>lg_identifier = spelled, lg_password = rg_password data\<rparr> client' s'
      = issue_session k clk' r' ?x b OWNER client' None None (set_user ?x s')"
    using check res [OF refl] res [of "u\<lparr>usr_password_hash := Some (argon_hash k (salt r') (rg_password data))\<rparr>"] n3(7) hash
    by (simp add: login_body_def u1_def Let_def)
  with issue [of ?x] show ?thesis by (auto simp: login_def transaction_def au id)
qed

theorem register_then_login_witness:
  "\<exists>auth' s''. login demo_kit demo_clock (demo_rnd ''t2'') \<lparr>lg_identifier = ''0712 345 678'', lg_password = ''karibu-sana''\<rparr> demo_client demo_site = (Inr auth', s'')
     \<and> au_role auth' = OWNER"
proof -
  have "\<not> isl (fst (register demo_kit demo_clock (demo_rnd ''t1'') demo_register demo_client (empty_site id)))"
    by (simp add: account_defs demo_account_defs empty_site_def empty_db_def)
  then obtain auth where run: "register demo_kit demo_clock (demo_rnd ''t1'') demo_register demo_client (empty_site id) = (Inr auth, demo_site)"
    unfolding demo_site_def by (metis isl_def old.sum.exhaust prod.collapse)
  have start: "accounts_reachable (empty_site id)" by (rule accounts_reachable.empty) simp
  have none: "\<forall>m \<in> set (memberships (empty_site id)). mb_user_id m \<in> usr_id ` set (users (empty_site id))" by (simp add: empty_site_def)
  have kit: "\<forall>x p. argon_verify demo_kit (argon_hash demo_kit x p) p" by (simp add: demo_kit_def)
  have valid: "valid_register (\<lambda>_. True) demo_register" by (simp add: demo_register_def) code_simp
  have spelled: "normalize_phone ''0712 345 678'' = Inr (rg_phone demo_register)" "\<not> looks_like_email ''0712 345 678''"
    by (simp add: demo_register_def) code_simp+
  have fresh: "hash_refresh_token demo_kit (token_urlsafe (demo_rnd ''t2'')) \<notin> rt_token_hash ` set (refresh_tokens demo_site)"
    by (simp add: demo_site_eq hash_refresh_token_def demo_kit_def demo_rnd_def)
  from register_then_login [OF start none kit run valid spelled fresh, of demo_clock demo_client]
  show ?thesis by (auto simp: demo_register_def)
qed

end
