(* ===== verification/Reset_Codes.thy ===== *)
theory Reset_Codes
  imports Sign_In
begin

text \<open>
  Claims about the reset of a password by SMS (\<open>request_password_reset\<close> and \<open>confirm_password_reset\<close> of
  \<open>app/services/auth.py\<close>): how often a code can be guessed, and what a right code is worth without a membership.
\<close>

subsection \<open>The code that can still be guessed\<close>

text \<open>The unused codes of a user that have not expired at \<open>t\<close>.\<close>

definition live_codes :: "time \<Rightarrow> uuid \<Rightarrow> site \<Rightarrow> reset_code list" where
  "live_codes t uid s = filter (\<lambda>c. rc_user_id c = uid \<and> rc_used_at c = None \<and> t < rc_expires_at c) (reset_codes s)"

text \<open>There is at most one, with the hash \<open>h\<close> and the expiry \<open>e\<close>, and \<open>n\<close> attempts are counted on it.\<close>

definition one_code :: "time \<Rightarrow> uuid \<Rightarrow> string \<Rightarrow> time \<Rightarrow> nat \<Rightarrow> site \<Rightarrow> bool" where
  "one_code t uid h e n s \<longleftrightarrow> live_codes t uid s = []
     \<or> (\<exists>c. live_codes t uid s = [c] \<and> rc_code_hash c = h \<and> rc_expires_at c = e \<and> n \<le> rc_attempts c)"

lemma open_code_live:
  assumes "t \<le> tx_now clk"
  shows "filter (open_code clk uid) (reset_codes s)
    = filter (\<lambda>c. tx_now clk < rc_expires_at c \<and> rc_attempts c < MAX_ATTEMPTS) (live_codes t uid s)"
proof -
  have "open_code clk uid c \<longleftrightarrow> (rc_user_id c = uid \<and> rc_used_at c = None \<and> t < rc_expires_at c)
      \<and> tx_now clk < rc_expires_at c \<and> rc_attempts c < MAX_ATTEMPTS" for c using assms by auto
  then show ?thesis by (simp add: live_codes_def)
qed

text \<open>A code that is not the one, or the right one too late, is not consumed.\<close>

lemma consume_code_none:
  assumes "one_code t uid h e n s" and "t \<le> tx_now clk" and "h' \<noteq> h \<or> MAX_ATTEMPTS \<le> n \<or> e \<le> tx_now clk"
  shows "consume_code clk uid h' s = Inr (None, s)"
proof -
  have "filter (\<lambda>c. open_code clk uid c \<and> rc_code_hash c = h') (reset_codes s)
      = filter (\<lambda>c. rc_code_hash c = h') (filter (open_code clk uid) (reset_codes s))" by (simp add: conj_commute conj_left_commute)
  also have "\<dots> = []" unfolding open_code_live [OF assms(2)] using assms(1,3) by (auto simp: one_code_def)
  finally have none: "filter (\<lambda>c. open_code clk uid c \<and> rc_code_hash c = h') (reset_codes s) = []" .
  let ?P = "\<lambda>c. open_code clk uid c \<and> rc_code_hash c = h'"
  have no: "\<not> ?P c" if "c \<in> set (reset_codes s)" for c
    using none that unfolding filter_empty_conv by blast
  have "find ?P (reset_codes s) = None" unfolding find_None_iff using no by blast
  moreover have "update_where ?P f (reset_codes s) = reset_codes s" for f by (rule update_where_none) (rule no)
  ultimately show ?thesis unfolding consume_code_def Let_def none by (simp add: raise_if_def)
qed

text \<open>A wrong guess while the code is open is counted.\<close>

lemma count_body_one:
  assumes "one_code t uid h e n s" and "t \<le> tx_now clk" and "count_body clk uid s = Inr ((), s')"
  shows "one_code t uid h e (if tx_now clk < e then Suc n else n) s' \<or> MAX_ATTEMPTS \<le> n \<and> one_code t uid h e n s'"
    and "users s' = users s"
proof -
  have live: "live_codes t uid (count_attempt i s) = update_where (\<lambda>c. rc_id c = i) (\<lambda>c. c\<lparr>rc_attempts := Suc (rc_attempts c)\<rparr>) (live_codes t uid s)" for i
    by (simp add: live_codes_def count_attempt_def filter_update_where)
  show "users s' = users s" using assms(3) by (auto simp: count_body_def count_attempt_def split: option.splits)
  from assms(1) consider "live_codes t uid s = []"
    | c where "live_codes t uid s = [c]" "rc_code_hash c = h" "rc_expires_at c = e" "n \<le> rc_attempts c"
    unfolding one_code_def by blast
  then show "one_code t uid h e (if tx_now clk < e then Suc n else n) s' \<or> MAX_ATTEMPTS \<le> n \<and> one_code t uid h e n s'"
  proof cases
    case 1
    then have "latest_open_code clk uid s = None" unfolding latest_open_code_def open_code_live [OF assms(2)] by simp
    with assms(3) 1 show ?thesis by (simp add: count_body_def one_code_def)
  next
    case 2
    show ?thesis
    proof (cases "tx_now clk < e \<and> rc_attempts c < MAX_ATTEMPTS")
      case True
      then have "latest_open_code clk uid s = Some c" using 2 unfolding latest_open_code_def open_code_live [OF assms(2)] by simp
      with assms(3) have "s' = count_attempt (rc_id c) s" by (simp add: count_body_def)
      with 2 True show ?thesis by (simp add: one_code_def live)
    next
      case False
      then have "latest_open_code clk uid s = None" using 2 unfolding latest_open_code_def open_code_live [OF assms(2)] by auto
      with assms(3) have "s' = s" by (simp add: count_body_def)
      with 2 False show ?thesis by (auto simp: one_code_def)
    qed
  qed
qed


subsection \<open>Guessing\<close>

text \<open>A guess: the clocks of its two transactions, the code and the new password.\<close>

type_synonym guess = "clock \<times> clock \<times> string \<times> string"

definition guess :: "kit \<Rightarrow> rnd \<Rightarrow> string \<Rightarrow> ClientInfo \<Rightarrow> guess \<Rightarrow> site \<Rightarrow> site" where
  "guess k r phone client g s = (case g of (clk, clk', code, password) \<Rightarrow> snd (confirm_password_reset k clk clk' r phone code password client s))"

lemma no_code:
  assumes "normalize_phone phone = Inr p" and "get_user_by_phone p s = Some u" and "usr_is_active u"
    and "consume_code clk (usr_id u) (hash_reset_code k (usr_id u) code) s = Inr (None, s)"
  obtains s' where "confirm_password_reset k clk clk' r phone code password client s = (Inl ResetCodeError, s')"
    "count_body clk' (usr_id u) s = Inr ((), s')"
proof -
  obtain s' where c: "count_body clk' (usr_id u) s = Inr ((), s')" by (simp add: count_body_def)
  then show thesis using assms by (intro that [OF _ c]) (simp add: confirm_password_reset_def transaction_def consume_body_def the_or_def raise_if_def)
qed

lemma wrong_guesses:
  assumes "normalize_phone phone = Inr p" and "get_user_by_phone p s = Some u" and "usr_is_active u"
    and "one_code t (usr_id u) h e n s"
    and "\<forall>(clk, clk', code, password) \<in> set gs. t \<le> tx_now clk \<and> t \<le> tx_now clk' \<and> tx_now clk' < e
           \<and> hash_reset_code k (usr_id u) code \<noteq> h"
  shows "users (fold (guess k r phone client) gs s) = users s
    \<and> (one_code t (usr_id u) h e (n + length gs) (fold (guess k r phone client) gs s)
       \<or> one_code t (usr_id u) h e MAX_ATTEMPTS (fold (guess k r phone client) gs s))"
  using assms(2,4,5)
proof (induction gs arbitrary: s n)
  case Nil
  then show ?case by simp
next
  case (Cons g gs)
  obtain clk clk' code password where g: "g = (clk, clk', code, password)" by (cases g)
  then have w: "t \<le> tx_now clk" "t \<le> tx_now clk'" "tx_now clk' < e" "hash_reset_code k (usr_id u) code \<noteq> h" using Cons.prems(3) by auto
  have "consume_code clk (usr_id u) (hash_reset_code k (usr_id u) code) s = Inr (None, s)"
    by (rule consume_code_none [OF Cons.prems(2) w(1)]) (use w(4) in simp)
  from no_code [OF assms(1) Cons.prems(1) assms(3) this, of clk' r password client]
  obtain s' where run: "confirm_password_reset k clk clk' r phone code password client s = (Inl ResetCodeError, s')"
    and cb: "count_body clk' (usr_id u) s = Inr ((), s')" by metis
  note counted = count_body_one [OF Cons.prems(2) w(2) cb]
  have g': "guess k r phone client g s = s'" by (simp add: guess_def g run)
  have u': "get_user_by_phone p s' = Some u" using Cons.prems(1) counted(2) by (simp add: get_user_by_phone_def)
  have rest: "\<forall>(clk, clk', code, password) \<in> set gs. t \<le> tx_now clk \<and> t \<le> tx_now clk' \<and> tx_now clk' < e \<and> hash_reset_code k (usr_id u) code \<noteq> h"
    using Cons.prems(3) by simp
  have more: "one_code t (usr_id u) h e j x" if "one_code t (usr_id u) h e i x" "j \<le> i" for i j x using that by (auto simp: one_code_def)
  from counted(1) w(3) consider "one_code t (usr_id u) h e (Suc n) s'" | "MAX_ATTEMPTS \<le> n" "one_code t (usr_id u) h e n s'" by auto
  then show ?case
  proof cases
    case 1
    with Cons.IH [OF u' 1 rest] counted(2) show ?thesis by (simp add: g')
  next
    case 2
    with Cons.IH [OF u' 2(2) rest] counted(2) more [of "n + length gs" _ MAX_ATTEMPTS] show ?thesis by (auto simp: g')
  qed
qed

lemma request_one_code:
  assumes "normalize_phone phone = Inr p" and "get_user_by_phone p s = Some u" and "usr_is_active u"
    and "request_password_reset k send clk r phone client s = (out, s0)"
  shows "one_code (tx_now clk) (usr_id u) (hash_reset_code k (usr_id u) (generate_reset_code r)) (now clk + RESET_CODE_TTL) 0 s0"
    and "users s0 = users s"
proof -
  let ?new = "create_code clk (usr_id u) (hash_reset_code k (usr_id u) (generate_reset_code r)) (now clk + RESET_CODE_TTL) (clipped 45 (ip client))
       (expire_open_codes clk (usr_id u) s)"
  have s0: "s0 = ?new" using assms by (simp add: request_password_reset_def transaction_def request_body_def Let_def)
  show "users s0 = users s" by (simp add: s0 create_code_def expire_open_codes_def draw_def)
  have "live_codes (tx_now clk) (usr_id u) (expire_open_codes clk (usr_id u) s) = []"
    by (auto simp: live_codes_def expire_open_codes_def filter_empty_conv update_where_def)
  then show "one_code (tx_now clk) (usr_id u) (hash_reset_code k (usr_id u) (generate_reset_code r)) (now clk + RESET_CODE_TTL) 0 s0"
    by (simp add: one_code_def s0 create_code_def live_codes_def draw_def)
qed

text \<open>
  C32: A reset code can be guessed five times. After a code was requested for a phone number, let there be any number of attempts
  to use other codes for it while it lives, at least five, at any times and with any new passwords. Then the next attempt, with
  whatever code and at whatever time after the request, is answered with the same error and changes no user: the right code included.
\<close>
theorem five_guesses:
  assumes "normalize_phone phone = Inr p" and "get_user_by_phone p s = Some u" and "usr_is_active u"
    and "request_password_reset k send clk0 r phone client s = (out, s0)"
    and "\<forall>(clk, clk', code, password) \<in> set gs. tx_now clk0 \<le> tx_now clk \<and> tx_now clk0 \<le> tx_now clk' \<and> tx_now clk' < now clk0 + RESET_CODE_TTL
           \<and> hash_reset_code k (usr_id u) code \<noteq> hash_reset_code k (usr_id u) (generate_reset_code r)"
    and "MAX_ATTEMPTS \<le> length gs" and "tx_now clk0 \<le> tx_now clk"
  shows "\<exists>s'. confirm_password_reset k clk clk' r' phone code password client' (fold (guess k r' phone client') gs s0) = (Inl ResetCodeError, s')
    \<and> users s' = users s"
proof -
  let ?s = "fold (guess k r' phone client') gs s0"
  note one = request_one_code [OF assms(1-4)]
  have u0: "get_user_by_phone p s0 = Some u" using assms(2) one(2) by (simp add: get_user_by_phone_def)
  note spent = wrong_guesses [OF assms(1) u0 assms(3) one(1) assms(5), of r' client']
  then have same: "users ?s = users s" using one(2) by simp
  have u: "get_user_by_phone p ?s = Some u" using assms(2) same by (simp add: get_user_by_phone_def)
  from spent assms(6) obtain n where n: "MAX_ATTEMPTS \<le> n"
    and code: "one_code (tx_now clk0) (usr_id u) (hash_reset_code k (usr_id u) (generate_reset_code r)) (now clk0 + RESET_CODE_TTL) n ?s"
    by auto
  have "consume_code clk (usr_id u) (hash_reset_code k (usr_id u) code) ?s = Inr (None, ?s)"
    by (rule consume_code_none [OF code assms(7)]) (use n in simp)
  from no_code [OF assms(1) u assms(3) this, of clk' r' password client'] obtain s' where
    run: "confirm_password_reset k clk clk' r' phone code password client' ?s = (Inl ResetCodeError, s')"
    and cb: "count_body clk' (usr_id u) ?s = Inr ((), s')" by metis
  have "users s' = users ?s" using cb by (auto simp: count_body_def count_attempt_def split: option.splits)
  with run same show ?thesis by auto
qed


theorem five_guesses_witness:
  "\<exists>s0 s'. request_password_reset demo_kit (\<lambda>_ _. True) demo_clock (demo_rnd ''t2'') ''0712 345 678'' demo_client demo_site = (Inr (), s0)
     \<and> confirm_password_reset demo_kit demo_clock demo_clock (demo_rnd ''t3'') ''0712 345 678'' (generate_reset_code (demo_rnd ''t2'')) ''new-password'' demo_client
         (fold (guess demo_kit (demo_rnd ''t3'') ''0712 345 678'' demo_client) (replicate 5 (demo_clock, demo_clock, ''999999'', ''new-password'')) s0)
       = (Inl ResetCodeError, s')
     \<and> users s' = users demo_site"
proof -
  have phone: "normalize_phone ''0712 345 678'' = Inr ''+254712345678''" by code_simp
  have user: "get_user_by_phone ''+254712345678'' demo_site = Some demo_user" "usr_is_active demo_user"
    by (simp_all add: demo_site_eq get_user_by_phone_def demo_user_def)
  obtain out s0 where run: "request_password_reset demo_kit (\<lambda>_ _. True) demo_clock (demo_rnd ''t2'') ''0712 345 678'' demo_client demo_site = (out, s0)"
    by fastforce
  have out: "out = Inr ()" using run phone user by (simp add: request_password_reset_def transaction_def request_body_def Let_def)
  have code: "generate_reset_code (demo_rnd ''t2'') \<noteq> ''999999''" 
  proof -
    have "generate_reset_code (demo_rnd ''t2'') = decimal (Suc 5) 123456" by (simp add: generate_reset_code_def demo_rnd_def)
    then have "last (generate_reset_code (demo_rnd ''t2'')) = CHR ''6''" by (simp only: decimal.simps last_snoc) simp
    then show ?thesis by auto
  qed
  have inj: "hash_reset_code demo_kit i x = hash_reset_code demo_kit i y \<longleftrightarrow> x = y" for i x y
    by (simp add: hash_reset_code_def demo_kit_def)
  have wrong: "\<forall>(clk, clk', code, password) \<in> set (replicate 5 (demo_clock, demo_clock, ''999999'', ''new-password'')).
      tx_now demo_clock \<le> tx_now clk \<and> tx_now demo_clock \<le> tx_now clk' \<and> tx_now clk' < now demo_clock + RESET_CODE_TTL
      \<and> hash_reset_code demo_kit (usr_id demo_user) code \<noteq> hash_reset_code demo_kit (usr_id demo_user) (generate_reset_code (demo_rnd ''t2''))"
    using code by (auto simp: inj RESET_CODE_TTL_def MINUTE_def demo_clock_def)
  have five: "MAX_ATTEMPTS \<le> length (replicate 5 (demo_clock, demo_clock, ''999999'', ''new-password''))" by (simp add: MAX_ATTEMPTS_def)
  from five_guesses [OF phone user run wrong five order_refl,
      where r' = "demo_rnd ''t3''" and client' = demo_client and clk' = demo_clock and code = "generate_reset_code (demo_rnd ''t2'')"
        and password = "''new-password''"] run out
  show ?thesis by blast
qed

subsection \<open>A right code that is worth nothing\<close>

lemma find_filter: "filter P xs = x # ys \<Longrightarrow> find P xs = Some x"
  by (induction xs) (auto split: if_splits)

lemma consume_code_one:
  assumes "live_codes (tx_now clk) uid s = [c]" and "rc_attempts c < MAX_ATTEMPTS"
  shows "\<exists>s'. consume_code clk uid (rc_code_hash c) s = Inr (Some c, s') \<and> users s' = users s \<and> memberships s' = memberships s
    \<and> live_codes (tx_now clk) uid s' = []"
proof -
  let ?P = "\<lambda>x. open_code clk uid x \<and> rc_code_hash x = rc_code_hash c"
  let ?f = "\<lambda>r. if ?P r then r\<lparr>rc_used_at := Some (tx_now clk)\<rparr> else r"
  let ?s = "s\<lparr>reset_codes := map ?f (reset_codes s)\<rparr>"
  have "c \<in> set (live_codes (tx_now clk) uid s)" by (simp add: assms(1))
  then have c: "tx_now clk < rc_expires_at c" by (simp add: live_codes_def)
  have "filter ?P (reset_codes s) = filter (\<lambda>x. rc_code_hash x = rc_code_hash c) (filter (open_code clk uid) (reset_codes s))"
    by (simp add: conj_commute conj_left_commute)
  also have "\<dots> = [c]" unfolding open_code_live [OF order_refl] assms(1) using assms(2) c by simp
  finally have one: "filter ?P (reset_codes s) = [c]" .
  have run: "consume_code clk uid (rc_code_hash c) s = Inr (Some c, ?s)"
    unfolding consume_code_def Let_def one find_filter [OF one] update_where_def by (simp add: raise_if_def)
  have hit: "?P x" if "x \<in> set (live_codes (tx_now clk) uid s)" for x
  proof -
    from that have "x = c" by (simp add: assms(1))
    with that assms(2) show ?thesis by (simp add: live_codes_def)
  qed
  have settled: "\<not> (rc_user_id (?f r) = uid \<and> rc_used_at (?f r) = None \<and> tx_now clk < rc_expires_at (?f r))" if "r \<in> set (reset_codes s)" for r
  proof (cases "?P r")
    case True
    then show ?thesis unfolding if_P [OF True] by simp
  next
    case False
    with hit [of r] have "r \<notin> set (live_codes (tx_now clk) uid s)" by blast
    with that show ?thesis unfolding if_not_P [OF False] live_codes_def by simp
  qed
  have "live_codes (tx_now clk) uid ?s = filter (\<lambda>c. rc_user_id c = uid \<and> rc_used_at c = None \<and> tx_now clk < rc_expires_at c) (map ?f (reset_codes s))"
    by (simp only: live_codes_def site.simps site.select_convs site.update_convs) simp
  also have "\<dots> = []" unfolding filter_empty_conv list.set_map
  proof (rule ballI)
    fix x
    assume "x \<in> ?f ` set (reset_codes s)"
    then obtain r where r: "x = ?f r" "r \<in> set (reset_codes s)" by (rule imageE)
    show "\<not> (rc_user_id x = uid \<and> rc_used_at x = None \<and> tx_now clk < rc_expires_at x)" unfolding r(1) by (rule settled [OF r(2)])
  qed
  finally show ?thesis by (intro exI [of _ ?s] conjI run) simp_all
qed

text \<open>
  C33: A right code of a person without an active membership is used up without an effect, and answered differently. For an active user
  none of whose memberships is active, the right code passes and is consumed, but the new password is
  not stored: the answer is MEMBERSHIP_INACTIVE, not the answer to a wrong code; and the same code is refused from then on.
\<close>
theorem reset_code_burned:
  assumes "normalize_phone phone = Inr p" and "get_user_by_phone p s = Some u" and "usr_is_active u"
    and "\<forall>m \<in> set (memberships s). mb_user_id m = usr_id u \<longrightarrow> \<not> mb_is_active m"
    and "live_codes (tx_now clk) (usr_id u) s = [c]" and "rc_code_hash c = hash_reset_code k (usr_id u) code" and "rc_attempts c < MAX_ATTEMPTS"
    and "password \<noteq> []" and "length password \<le> MAX_PASSWORD_LENGTH"
  shows "\<exists>s'. confirm_password_reset k clk clk' r phone code password client s = (Inl MEMBERSHIP_INACTIVE, s') \<and> users s' = users s
    \<and> (\<forall>clk2 clk3 r2 password2 client2. tx_now clk \<le> tx_now clk2
         \<longrightarrow> fst (confirm_password_reset k clk2 clk3 r2 phone code password2 client2 s') = Inl ResetCodeError)"
proof -
  obtain s' where consumed: "consume_code clk (usr_id u) (hash_reset_code k (usr_id u) code) s = Inr (Some c, s')"
    and s': "users s' = users s" "memberships s' = memberships s" and dead: "live_codes (tx_now clk) (usr_id u) s' = []"
    using consume_code_one [OF assms(5,7)] assms(6) by auto
  have "find mb_is_active (list_memberships (usr_id u) t) = None" if "memberships t = memberships s" for t
    using assms(4) that set_take_subset [of MAX_MEMBERS "oldest_first (filter (\<lambda>m. mb_user_id m = usr_id u) (memberships s))"]
    by (auto simp: find_None_iff list_memberships_def oldest_first_def)
  then have inactive: "resolve_active_membership v t = Inl MEMBERSHIP_INACTIVE" if "memberships t = memberships s" "usr_id v = usr_id u" for t v
    using that by (simp add: resolve_active_membership_def the_or_def)
  have fails: "confirm_password_reset k clk clk' r phone code password client s = (Inl MEMBERSHIP_INACTIVE, s')"
    using assms(1,2,3,8,9) consumed
    by (simp add: confirm_password_reset_def transaction_def consume_body_def the_or_def raise_if_def reset_body_def hash_password_def Let_def
        inactive revoke_all_for_user_def revoke_where_def set_user_def s'(2))
  have u: "get_user_by_phone p s' = Some u" using assms(2) s'(1) by (simp add: get_user_by_phone_def)
  have again: "fst (confirm_password_reset k clk2 clk3 r2 phone code password2 client2 s') = Inl ResetCodeError"
    if "tx_now clk \<le> tx_now clk2" for clk2 clk3 r2 password2 client2
  proof -
    have "one_code (tx_now clk) (usr_id u) [] 0 MAX_ATTEMPTS s'" using dead by (simp add: one_code_def)
    from consume_code_none [OF this that, of "hash_reset_code k (usr_id u) code"]
    have "consume_code clk2 (usr_id u) (hash_reset_code k (usr_id u) code) s' = Inr (None, s')" by simp
    from no_code [OF assms(1) u assms(3) this, of clk3 r2 password2 client2] show ?thesis by (metis fst_conv)
  qed
  show ?thesis by (intro exI [of _ s'] conjI fails s'(1) allI impI again)
qed


definition demo_stranded :: site where
  "demo_stranded = demo_site\<lparr>memberships := [demo_member\<lparr>mb_role := STAFF, mb_is_active := False\<rparr>],
     reset_codes := [\<lparr>rc_id = 7, rc_user_id = 0, rc_code_hash = hash_reset_code demo_kit 0 ''123456'', rc_expires_at = 5000, rc_attempts = 1,
       rc_used_at = None, rc_ip = None, rc_created_at = 900\<rparr>]\<rparr>"

theorem reset_code_burned_witness:
  "\<exists>s'. confirm_password_reset demo_kit demo_clock demo_clock (demo_rnd ''t3'') ''0712 345 678'' ''123456'' ''new-password'' demo_client demo_stranded
       = (Inl MEMBERSHIP_INACTIVE, s')
     \<and> fst (confirm_password_reset demo_kit demo_clock demo_clock (demo_rnd ''t3'') ''0712 345 678'' ''123456'' ''new-password'' demo_client s') = Inl ResetCodeError"
proof -
  have phone: "normalize_phone ''0712 345 678'' = Inr ''+254712345678''" by code_simp
  have user: "get_user_by_phone ''+254712345678'' demo_stranded = Some demo_user" "usr_is_active demo_user"
    by (simp_all add: demo_stranded_def demo_site_eq get_user_by_phone_def demo_user_def)
  have inactive: "\<forall>m \<in> set (memberships demo_stranded). mb_user_id m = usr_id demo_user \<longrightarrow> \<not> mb_is_active m" by (simp add: demo_stranded_def)
  let ?c = "\<lparr>rc_id = 7, rc_user_id = 0, rc_code_hash = hash_reset_code demo_kit 0 ''123456'', rc_expires_at = 5000, rc_attempts = 1,
       rc_used_at = None, rc_ip = None, rc_created_at = 900\<rparr>"
  have c: "live_codes (tx_now demo_clock) (usr_id demo_user) demo_stranded = [?c]"
    by (simp add: live_codes_def demo_stranded_def demo_clock_def demo_user_def)
  have h: "rc_code_hash ?c = hash_reset_code demo_kit (usr_id demo_user) ''123456''" "rc_attempts ?c < MAX_ATTEMPTS"
    by (simp_all add: demo_user_def MAX_ATTEMPTS_def)
  have pw: "''new-password'' \<noteq> []" "length ''new-password'' \<le> MAX_PASSWORD_LENGTH" by (simp_all add: MAX_PASSWORD_LENGTH_def)
  from reset_code_burned [OF phone user inactive c h pw, of demo_clock "demo_rnd ''t3''" demo_client] show ?thesis by blast
qed

end
