(* ===== verification/Rate_Limit.thy ===== *)
theory Rate_Limit
  imports Complex_Main Errors "HOL-Library.AList"
begin

text \<open>
  The sliding-window rate limiter (\<open>app/core/ratelimit.py\<close>) and its use by the requests (\<open>enforce_rate_limit\<close> of
  \<open>app/api/deps.py\<close>). The limiter is a dictionary from keys to the times of the counted attempts, as an association list in
  insertion order; a time is the number of seconds of the monotonic clock, as an exact fraction.
\<close>

type_synonym seconds = rat
type_synonym limiter = "(string \<times> seconds list) list"

definition SWEEP_THRESHOLD :: nat where "SWEEP_THRESHOLD = 10000"

definition sweep :: "seconds \<Rightarrow> limiter \<Rightarrow> limiter" where
  "sweep cutoff hits = filter (\<lambda>(k, bucket). \<not> (bucket = [] \<or> last bucket \<le> cutoff)) hits"

definition bucket_of :: "limiter \<Rightarrow> string \<Rightarrow> seconds list" where
  "bucket_of hits key = (case map_of hits key of None \<Rightarrow> [] | Some b \<Rightarrow> b)"

text \<open>\<open>Inr None\<close> admits the attempt, \<open>Inr (Some d)\<close> refuses it for \<open>d\<close> seconds; with a limit of zero the empty bucket is indexed.\<close>

definition hit :: "string \<Rightarrow> nat \<Rightarrow> seconds \<Rightarrow> seconds \<Rightarrow> limiter \<Rightarrow> seconds option result \<times> limiter" where
  "hit key limit window_seconds t hits =
     (let cutoff = t - window_seconds;
          bucket = dropWhile (\<lambda>x. x \<le> cutoff) (bucket_of hits key) in
      if limit \<le> length bucket
      then (case bucket of [] \<Rightarrow> (Inl IndexError, AList.update key [] hits)
            | first # _ \<Rightarrow> (Inr (Some (max (first + window_seconds - t) 0)), AList.update key bucket hits))
      else let hits = AList.update key (bucket @ [t]) hits in
        (Inr None, if SWEEP_THRESHOLD < length hits then sweep cutoff hits else hits))"

definition reset :: "limiter \<Rightarrow> limiter" where
  "reset hits = []"

definition RateLimitedError :: error where "RateLimitedError = AppError 429 ''RATE_LIMITED''"

text \<open>The error carries the seconds of the \<open>Retry-After\<close> header.\<close>

definition enforce_rate_limit :: "string \<Rightarrow> string \<Rightarrow> nat \<Rightarrow> seconds \<Rightarrow> limiter \<Rightarrow> (error \<times> int) option result \<times> limiter" where
  "enforce_rate_limit scope key limit t hits = (case hit (scope @ '':'' @ key) limit 60 t hits of
     (Inl e, hits) \<Rightarrow> (Inl e, hits)
   | (Inr None, hits) \<Rightarrow> (Inr None, hits)
   | (Inr (Some d), hits) \<Rightarrow> (Inr (Some (RateLimitedError, max 1 (\<lfloor>d\<rfloor> + 1))), hits))"

subsection \<open>Traces\<close>

text \<open>A sequence of attempts under one window, with a limit for every key: the limiter afterwards and the attempts it admitted.\<close>

definition attempt :: "(string \<Rightarrow> nat) \<Rightarrow> seconds \<Rightarrow> string \<times> seconds \<Rightarrow> limiter \<times> (string \<times> seconds) list \<Rightarrow> limiter \<times> (string \<times> seconds) list" where
  "attempt limit w call st = (case (call, st) of ((key, t), (hits, admitted)) \<Rightarrow>
     (case hit key (limit key) w t hits of (out, hits') \<Rightarrow> (hits', if out = Inr None then admitted @ [(key, t)] else admitted)))"

definition attempts :: "(string \<Rightarrow> nat) \<Rightarrow> seconds \<Rightarrow> (string \<times> seconds) list \<Rightarrow> limiter \<times> (string \<times> seconds) list" where
  "attempts limit w calls = fold (attempt limit w) calls ([], [])"

abbreviation times_of :: "string \<Rightarrow> (string \<times> seconds) list \<Rightarrow> seconds list" where
  "times_of key seen \<equiv> map snd (filter (\<lambda>a. fst a = key) seen)"

text \<open>
  The invariant at time \<open>t\<close>: every bucket is sorted, holds at most the limit, and has exactly the admitted attempts of its
  key that are younger than the window (and possibly older ones); no window so far held more than the limit.
\<close>

definition limiter_ok :: "(string \<Rightarrow> nat) \<Rightarrow> seconds \<Rightarrow> seconds \<Rightarrow> limiter \<times> (string \<times> seconds) list \<Rightarrow> bool" where
  "limiter_ok limit w t st \<longleftrightarrow> distinct (map fst (fst st)) \<and> (\<forall>key.
     sorted (bucket_of (fst st) key) \<and> (\<forall>x \<in> set (bucket_of (fst st) key). x \<le> t) \<and> length (bucket_of (fst st) key) \<le> limit key
     \<and> filter (\<lambda>x. t - w < x) (bucket_of (fst st) key) = filter (\<lambda>x. t - w < x) (times_of key (snd st))
     \<and> (\<forall>x \<in> set (times_of key (snd st)). x \<le> t)
     \<and> (\<forall>u. length (filter (\<lambda>x. u - w < x \<and> x \<le> u) (times_of key (snd st))) \<le> limit key))"

lemma dropWhile_sorted: "sorted xs \<Longrightarrow> dropWhile (\<lambda>x. x \<le> c) xs = filter (\<lambda>x. c < x) xs" for xs :: "'a::linorder list"
proof (induction xs)
  case (Cons x xs)
  show ?case
  proof (cases "x \<le> c")
    case False
    with Cons.prems have "filter (\<lambda>y. c < y) xs = xs" by (intro filter_True) (fastforce simp: not_le)
    with False show ?thesis by simp
  qed (use Cons in simp)
qed simp

lemma bucket_of_update: "bucket_of (AList.update k v hits) key = (if key = k then v else bucket_of hits key)"
  by (simp add: bucket_of_def update_conv)

lemma map_of_filter_distinct:
  "distinct (map fst xs) \<Longrightarrow> map_of (filter (\<lambda>(k, v). P v) xs) k = (case map_of xs k of None \<Rightarrow> None | Some v \<Rightarrow> if P v then Some v else None)"
proof (induction xs)
  case (Cons x xs)
  obtain a b where x: "x = (a, b)" by (cases x)
  from Cons.prems have "map_of xs a = None" by (simp add: x map_of_eq_None_iff)
  with Cons show ?case by (auto simp: x)
qed simp

lemma bucket_of_sweep:
  assumes "distinct (map fst hits)"
  shows "bucket_of (sweep c hits) key = (if bucket_of hits key = [] \<or> last (bucket_of hits key) \<le> c then [] else bucket_of hits key)"
  using map_of_filter_distinct [OF assms, of "\<lambda>b. \<not> (b = [] \<or> last b \<le> c)" key]
  by (simp add: bucket_of_def sweep_def split: option.splits)

lemma distinct_sweep: "distinct (map fst hits) \<Longrightarrow> distinct (map fst (sweep c hits))"
  unfolding sweep_def by (rule distinct_map_filter)

lemma sorted_last_filter: "sorted xs \<Longrightarrow> xs = [] \<or> last xs \<le> c \<Longrightarrow> filter (\<lambda>x. c < x) xs = []" for xs :: "'a::linorder list"
  by (cases xs rule: rev_cases) (auto simp: sorted_append filter_empty_conv not_less intro: order_trans)

text \<open>Time passes: the invariant moves forward.\<close>

lemma filter_later:
  fixes d :: seconds
  assumes "filter (\<lambda>x. c < x) xs = filter (\<lambda>x. c < x) ys" and "c \<le> d"
  shows "filter (\<lambda>x. d < x) xs = filter (\<lambda>x. d < x) ys"
proof -
  have "filter (\<lambda>x. d < x) zs = filter (\<lambda>x. d < x) (filter (\<lambda>x. c < x) zs)" for zs
    using assms(2) by (simp add: filter_filter) (rule filter_cong, auto)
  with assms(1) show ?thesis by metis
qed

lemma limiter_ok_later: "limiter_ok limit w t st \<Longrightarrow> t \<le> t' \<Longrightarrow> limiter_ok limit w t' st"
  unfolding limiter_ok_def
  by (auto intro: filter_later order_trans [of _ t t'])

text \<open>What one attempt does to the buckets.\<close>

definition fresh_bucket :: "seconds \<Rightarrow> seconds \<Rightarrow> limiter \<Rightarrow> string \<Rightarrow> seconds list" where
  "fresh_bucket w t hits key = filter (\<lambda>x. t - w < x) (bucket_of hits key)"

lemma hit_refused:
  assumes "sorted (bucket_of hits key)" and "0 < limit" and "limit \<le> length (fresh_bucket w t hits key)"
  shows "hit key limit w t hits = (Inr (Some (max (hd (fresh_bucket w t hits key) + w - t) 0)), AList.update key (fresh_bucket w t hits key) hits)"
  using assms(2,3) dropWhile_sorted [OF assms(1), of "t - w"]
  by (cases "fresh_bucket w t hits key") (auto simp: hit_def fresh_bucket_def)

lemma hit_admitted:
  assumes "sorted (bucket_of hits key)" and "length (fresh_bucket w t hits key) < limit"
  shows "hit key limit w t hits = (Inr None, let hits = AList.update key (fresh_bucket w t hits key @ [t]) hits in
     if SWEEP_THRESHOLD < length hits then sweep (t - w) hits else hits)"
  using assms(2) dropWhile_sorted [OF assms(1), of "t - w"] by (simp add: hit_def fresh_bucket_def Let_def)

lemma window_count_snoc:
  fixes u w t :: seconds
  assumes "length (filter (\<lambda>x. u - w < x \<and> x \<le> u) T) \<le> n" and "\<forall>x \<in> set T. x \<le> t" and "length (filter (\<lambda>x. t - w < x) T) < n"
  shows "length (filter (\<lambda>x. u - w < x \<and> x \<le> u) (T @ [t])) \<le> n"
proof (cases "u - w < t \<and> t \<le> u")
  case True
  have "length (filter (\<lambda>x. u - w < x \<and> x \<le> u) T) \<le> length (filter (\<lambda>x. t - w < x) T)"
  proof -
    have "filter (\<lambda>x. u - w < x \<and> x \<le> u) T = filter (\<lambda>x. u - w < x \<and> x \<le> u) (filter (\<lambda>x. t - w < x) T)"
      using True by (simp add: filter_filter) (rule filter_cong, auto)
    then show ?thesis by (metis length_filter_le)
  qed
  with True assms(3) show ?thesis by simp
next
  case False
  with assms(1) show ?thesis by auto
qed

lemma attempt_ok:
  assumes ok: "limiter_ok limit w t st" and "0 < w" and "0 < limit key"
  shows "limiter_ok limit w t (attempt limit w (key, t) st)"
proof -
  obtain hits seen where st: "st = (hits, seen)" by (cases st)
  let ?B = "fresh_bucket w t hits key"
  have d: "distinct (map fst hits)" and all: "\<And>k. sorted (bucket_of hits k)" "\<And>k. \<forall>x \<in> set (bucket_of hits k). x \<le> t"
      "\<And>k. length (bucket_of hits k) \<le> limit k" "\<And>k. filter (\<lambda>x. t - w < x) (bucket_of hits k) = filter (\<lambda>x. t - w < x) (times_of k seen)"
      "\<And>k. \<forall>x \<in> set (times_of k seen). x \<le> t" "\<And>k u. length (filter (\<lambda>x. u - w < x \<and> x \<le> u) (times_of k seen)) \<le> limit k"
    using ok by (auto simp: limiter_ok_def st)
  have B: "?B = filter (\<lambda>x. t - w < x) (times_of key seen)" "sorted ?B" "\<forall>x \<in> set ?B. x \<le> t" "length ?B \<le> length (bucket_of hits key)"
    unfolding fresh_bucket_def by (rule all(4), rule sorted_filter [where f = "\<lambda>x. x", simplified, OF all(1)]) (use all(2) in auto)
  show ?thesis
  proof (cases "limit key \<le> length ?B")
    case True
    have at: "attempt limit w (key, t) st = (AList.update key ?B hits, seen)"
      using hit_refused [OF all(1) assms(3) True] by (simp add: attempt_def st)
    show ?thesis unfolding at limiter_ok_def fst_conv snd_conv bucket_of_update
      using d all B by (auto simp: distinct_update fresh_bucket_def intro: order_trans)
  next
    case False
    let ?hits = "AList.update key (?B @ [t]) hits"
    have at: "attempt limit w (key, t) st = (if SWEEP_THRESHOLD < length ?hits then sweep (t - w) ?hits else ?hits, seen @ [(key, t)])"
      using hit_admitted [OF all(1) [of key], of w t "limit key"] False by (simp add: attempt_def st Let_def)
    have d': "distinct (map fst ?hits)" by (simp add: d distinct_update)
    have times: "times_of k (seen @ [(key, t)]) = (if k = key then times_of k seen @ [t] else times_of k seen)" for k by simp
    have count: "length (filter (\<lambda>x. u - w < x \<and> x \<le> u) (times_of k (seen @ [(key, t)]))) \<le> limit k" for k u
    proof (cases "k = key")
      case True
      have "length (filter (\<lambda>x. t - w < x) (times_of key seen)) < limit key" using False B(1) by simp
      from window_count_snoc [OF all(6) all(5) this] show ?thesis unfolding times True by simp
    next
      case False
      then show ?thesis using all(6) [where k = k and u = u] unfolding times by simp
    qed
    have plain: "limiter_ok limit w t (?hits, seen @ [(key, t)])"
      unfolding limiter_ok_def fst_conv snd_conv bucket_of_update
      using d' all B False count assms(2) by (auto simp: fresh_bucket_def sorted_append)
    moreover have "limiter_ok limit w t (sweep (t - w) ?hits, seen @ [(key, t)])"
    proof -
      have "filter (\<lambda>x. t - w < x) (bucket_of (sweep (t - w) ?hits) k) = filter (\<lambda>x. t - w < x) (bucket_of ?hits k)" for k
        using plain sorted_last_filter [of "bucket_of ?hits k" "t - w"] by (simp add: bucket_of_sweep [OF d'] limiter_ok_def)
      then show ?thesis using plain distinct_sweep [OF d'] by (simp add: limiter_ok_def bucket_of_sweep [OF d'])
    qed
    ultimately show ?thesis unfolding at by simp
  qed
qed

lemma attempts_ok:
  assumes "0 < w" and "\<forall>k. 0 < limit k" and "sorted (map snd calls)" and "\<forall>c \<in> set calls. snd c \<le> t"
  shows "limiter_ok limit w t (attempts limit w calls)"
  using assms(3,4)
proof (induction calls arbitrary: t rule: rev_induct)
  case Nil
  show ?case by (simp add: attempts_def limiter_ok_def bucket_of_def)
next
  case (snoc c calls)
  obtain key u where c: "c = (key, u)" by (cases c)
  have "limiter_ok limit w u (attempts limit w calls)" using snoc.prems by (intro snoc.IH) (auto simp: c sorted_append)
  with assms(1,2) have "limiter_ok limit w u (attempts limit w (calls @ [c]))" by (simp add: attempts_def c attempt_ok)
  then show ?case by (rule limiter_ok_later) (use snoc.prems c in simp)
qed

subsection \<open>Claims\<close>

text \<open>
  C25: The limiter keeps its promise on every sequence of attempts, on any mixture of keys, in the order of their
  times: whatever interval of the length of the window one looks at, at most the limit of a key was admitted under that
  key, also when the table of keys was swept in between.
\<close>
theorem rate_limit_window:
  assumes "0 < w" and "\<forall>k. 0 < limit k" and "sorted (map snd calls)"
  shows "length (filter (\<lambda>x. u - w < x \<and> x \<le> u) (times_of key (snd (attempts limit w calls)))) \<le> limit key"
proof -
  have "\<forall>c \<in> set calls. snd c \<le> Max (insert 0 (snd ` set calls))" by auto
  from attempts_ok [OF assms this] show ?thesis by (simp add: limiter_ok_def)
qed

theorem rate_limit_window_witness:
  "snd (attempts (\<lambda>_. 2) 60 [(''ip'', 0), (''ip'', 10), (''ip'', 20), (''ip'', 60)]) = [(''ip'', 0), (''ip'', 10), (''ip'', 60)]
   \<and> length (filter (\<lambda>x. 60 - 60 < x \<and> x \<le> 60) (times_of ''ip'' (snd (attempts (\<lambda>_. 2) 60 [(''ip'', 0), (''ip'', 10), (''ip'', 20), (''ip'', 60)])))) \<le> 2"
  using rate_limit_window [of 60 "\<lambda>_. 2" "[(''ip'', 0), (''ip'', 10), (''ip'', 20), (''ip'', 60)]" 60 "''ip''"]
  by (simp add: attempts_def attempt_def hit_def bucket_of_def SWEEP_THRESHOLD_def)

text \<open>
  C26: A refused client is let in when it comes back. If an attempt is refused for \<open>d\<close> seconds, then nothing is
  counted, every further attempt before that time is refused too, and the first attempt at or after it is admitted.
\<close>
theorem rate_limit_retry:
  assumes "0 < w" and "\<forall>k. 0 < limit k" and "sorted (map snd calls)" and "\<forall>c \<in> set calls. snd c \<le> t"
    and "hit key (limit key) w t (fst (attempts limit w calls)) = (Inr (Some d), hits)"
  shows "0 < d \<and> (\<forall>u. t \<le> u \<and> u < t + d \<longrightarrow> (\<exists>d'. fst (hit key (limit key) w u hits) = Inr (Some d')))
    \<and> (\<forall>u. t + d \<le> u \<longrightarrow> fst (hit key (limit key) w u hits) = Inr None)"
proof -
  let ?h = "fst (attempts limit w calls)" and ?B = "fresh_bucket w t (fst (attempts limit w calls)) key"
  have ok: "limiter_ok limit w t (attempts limit w calls)" by (rule attempts_ok [OF assms(1-4)])
  then have h: "sorted (bucket_of ?h key)" "length (bucket_of ?h key) \<le> limit key" by (auto simp: limiter_ok_def)
  have full: "limit key \<le> length ?B"
    using assms(5) hit_admitted [OF h(1), of w t "limit key"] by (cases "limit key \<le> length ?B") (auto simp: not_le)
  have len: "length ?B = limit key" using full h(2) length_filter_le [of _ "bucket_of ?h key"] unfolding fresh_bucket_def by (metis le_antisym le_trans)
  from assms(2) len obtain b bs where B: "?B = b # bs" by (metis length_0_conv less_numeral_extra(3) neq_Nil_conv)
  have sB: "sorted ?B" unfolding fresh_bucket_def using h(1) by (rule sorted_filter [where f = "\<lambda>x. x", simplified])
  have hits: "hits = AList.update key ?B ?h" and d: "d = b + w - t" "0 < d"
  proof -
    have b: "t - w < b" using B unfolding fresh_bucket_def by (metis filter_eq_ConsD)
    show "hits = AList.update key ?B ?h" "d = b + w - t" "0 < d"
      using assms(5) hit_refused [OF h(1) _ full] assms(2) b by (auto simp: B)
  qed
  have bucket: "bucket_of hits key = ?B" by (simp add: hits bucket_of_update)
  have early: "\<exists>d'. fst (hit key (limit key) w u hits) = Inr (Some d')" if "u < t + d" for u
  proof -
    have "fresh_bucket w u hits key = ?B" unfolding fresh_bucket_def [of w u] bucket using that d sB B by (intro filter_True) auto
    with hit_refused [of hits key "limit key" w u] assms(2) len bucket sB show ?thesis by simp
  qed
  have late: "fst (hit key (limit key) w u hits) = Inr None" if "t + d \<le> u" for u
  proof -
    have "fresh_bucket w u hits key = filter (\<lambda>x. u - w < x) bs" unfolding fresh_bucket_def [of w u] bucket B using that d by simp
    then have "length (fresh_bucket w u hits key) < limit key" using len B by (simp add: le_less_trans [OF length_filter_le])
    with hit_admitted [of hits key w u "limit key"] bucket sB show ?thesis by simp
  qed
  show ?thesis using d(2) early late by blast
qed

theorem rate_limit_retry_witness:
  "\<exists>hits. hit ''ip'' 2 60 20 (fst (attempts (\<lambda>_. 2) 60 [(''ip'', 0), (''ip'', 10)])) = (Inr (Some 40), hits)
     \<and> fst (hit ''ip'' 2 60 60 hits) = Inr None"
proof -
  let ?calls = "[(''ip'', 0), (''ip'', 10 :: seconds)]"
  have run: "hit ''ip'' 2 60 20 (fst (attempts (\<lambda>_. 2) 60 ?calls)) = (Inr (Some 40), [(''ip'', [0, 10])])"
    by (simp add: attempts_def attempt_def hit_def bucket_of_def SWEEP_THRESHOLD_def)
  have "sorted (map snd ?calls)" "\<forall>c \<in> set ?calls. snd c \<le> (20 :: seconds)" by simp_all
  from rate_limit_retry [OF _ _ this, of 60 "\<lambda>_. 2" "''ip''"] run show ?thesis by auto
qed

end
