(* ===== verification/Spec2Isabelle.thy ===== *)
theory Spec2Isabelle
  imports Exports Copilot_Claims Platform_Admin Reset_Codes Rate_Limit
begin

text \<open>
  SokoWise, the backend of a point-of-sale and bookkeeping service for small shops.
\<close>

end
